(* ===== verification/Prelude.thy ===== *)
theory Prelude
  imports Main "HOL-Library.Word" "HOL-Library.Char_ord" "HOL-Library.Sublist" "HOL-Library.Multiset"
begin

unbundle bit_operations_syntax

text \<open>
  Shared base of the development.  A C string of the core (a \<open>char*\<close> that is not \<open>NULL\<close>)
  is a HOL \<open>string\<close>: the list of its bytes in front of the terminating null byte; a pointer
  that may be \<open>NULL\<close> is an \<open>option\<close>.  This theory holds what the core uses of the C
  standard library (\<open>ctype.h\<close> in the C locale, \<open>strchr\<close>, \<open>strstr\<close>, \<open>strcasecmp\<close>,
  \<open>atol\<close> and the integer conversions of \<open>printf\<close>), the collections of rewrite rules the
  component theories share, and the generic lemmas on lists and integers behind them.
\<close>

named_theorems ceval "rules that evaluate C library functions on literals"
named_theorems frame "fields an operation leaves alone"
named_theorems inv_intros "operations that keep their component's invariant"

type_synonym cstr = string
type_synonym cptr = "string option"
type_synonym u8 = "8 word"
type_synonym u32 = "32 word"
type_synonym u64 = "64 word"

section \<open>Bytes and ctype.h\<close>

abbreviation byte_of :: "char \<Rightarrow> nat" where
  "byte_of c \<equiv> of_char c"

lemma byte_of_char_of: "n < 256 \<Longrightarrow> byte_of (char_of n) = n"
  by simp

lemma char_of_bits: "char_of (n::nat) = Char (bit n 0) (bit n 1) (bit n 2) (bit n 3)
    (bit n 4) (bit n 5) (bit n 6) (bit n 7)"
  by (simp add: char_of_def)

declare char_of_bits [ceval]
declare bit_0 [ceval]

lemma byte_eqI: "byte_of c = byte_of d \<Longrightarrow> c = d"
  by simp

lemma byte_of_0: "byte_of c = 0 \<longleftrightarrow> c = CHR 0x00"
proof
  assume "byte_of c = 0"
  then have "byte_of c = byte_of (CHR 0x00)" by simp
  then show "c = CHR 0x00" by (rule byte_eqI)
qed simp

lemma byte_of_pos: "0 < byte_of c \<longleftrightarrow> c \<noteq> CHR 0x00"
  by (simp flip: byte_of_0)

definition c_isspace :: "char \<Rightarrow> bool" where
  "c_isspace c \<longleftrightarrow> byte_of c = 32 \<or> (9 \<le> byte_of c \<and> byte_of c \<le> 13)"

definition c_isdigit :: "char \<Rightarrow> bool" where
  "c_isdigit c \<longleftrightarrow> 48 \<le> byte_of c \<and> byte_of c \<le> 57"

definition c_isupper :: "char \<Rightarrow> bool" where
  "c_isupper c \<longleftrightarrow> 65 \<le> byte_of c \<and> byte_of c \<le> 90"

definition c_islower :: "char \<Rightarrow> bool" where
  "c_islower c \<longleftrightarrow> 97 \<le> byte_of c \<and> byte_of c \<le> 122"

definition c_isalnum :: "char \<Rightarrow> bool" where
  "c_isalnum c \<longleftrightarrow> c_isdigit c \<or> c_isupper c \<or> c_islower c"

definition c_tolower :: "char \<Rightarrow> char" where
  "c_tolower c = (if c_isupper c then char_of (byte_of c + 32) else c)"

lemmas ctype_defs = c_isspace_def c_isdigit_def c_isupper_def c_islower_def c_isalnum_def

lemma c_tolower_byte:
  "byte_of (c_tolower c) = (if c_isupper c then byte_of c + 32 else byte_of c)"
  by (auto simp: c_tolower_def c_isupper_def)

lemma c_tolower_not_upper [simp]: "\<not> c_isupper (c_tolower c)"
  by (auto simp: c_isupper_def c_tolower_byte)

lemma c_tolower_idem [simp]: "c_tolower (c_tolower c) = c_tolower c"
  by (simp add: c_tolower_def [of "c_tolower c"])

lemma c_isspace_not_alnum [simp]: "c_isspace c \<Longrightarrow> \<not> c_isalnum c"
  by (auto simp: ctype_defs)

text \<open>\<open>strcasecmp(a, b) == 0\<close> and \<open>strncmp(s, p, strlen(p)) == 0\<close>.\<close>

definition strcaseeq :: "string \<Rightarrow> string \<Rightarrow> bool" where
  "strcaseeq a b \<longleftrightarrow> map c_tolower a = map c_tolower b"

lemma strcaseeq_refl [simp]: "strcaseeq a a"
  by (simp add: strcaseeq_def)

lemma strcaseeq_sym: "strcaseeq a b \<longleftrightarrow> strcaseeq b a"
  by (auto simp: strcaseeq_def)

lemma strcaseeq_trans [trans]: "strcaseeq a b \<Longrightarrow> strcaseeq b c \<Longrightarrow> strcaseeq a c"
  by (simp add: strcaseeq_def)

lemma strcaseeq_Nil [simp]: "strcaseeq [] b \<longleftrightarrow> b = []" "strcaseeq a [] \<longleftrightarrow> a = []"
  by (auto simp: strcaseeq_def)

abbreviation starts_with :: "string \<Rightarrow> string \<Rightarrow> bool" where
  "starts_with p s \<equiv> take (length p) s = p"

text \<open>A buffer of bytes read as a C string: it ends at the first null byte.\<close>

definition c_string :: "string \<Rightarrow> string" where
  "c_string buf = takeWhile (\<lambda>c. c \<noteq> CHR 0x00) buf"

lemma c_string_id: "CHR 0x00 \<notin> set s \<Longrightarrow> c_string s = s"
  by (auto simp: c_string_def takeWhile_eq_all_conv)

lemma c_string_length: "length (c_string s) \<le> length s"
  by (simp add: c_string_def length_takeWhile_le)

section \<open>Searching: strchr, strrchr, strstr\<close>

text \<open>The suffix that starts at the first match, \<open>None\<close> for \<open>NULL\<close>.\<close>

fun strchr :: "string \<Rightarrow> char \<Rightarrow> string option" where
  "strchr [] c = None"
| "strchr (x # xs) c = (if x = c then Some (x # xs) else strchr xs c)"

fun strrchr :: "string \<Rightarrow> char \<Rightarrow> string option" where
  "strrchr [] c = None"
| "strrchr (x # xs) c =
     (case strrchr xs c of Some r \<Rightarrow> Some r
      | None \<Rightarrow> (if x = c then Some (x # xs) else None))"

fun strstr :: "string \<Rightarrow> string \<Rightarrow> string option" where
  "strstr [] p = (if p = [] then Some [] else None)"
| "strstr (x # xs) p = (if starts_with p (x # xs) then Some (x # xs) else strstr xs p)"

text \<open>The part in front of the first match.\<close>

fun before_str :: "string \<Rightarrow> string \<Rightarrow> string" where
  "before_str [] p = []"
| "before_str (x # xs) p = (if starts_with p (x # xs) then [] else x # before_str xs p)"

lemma strchr_None: "strchr s c = None \<longleftrightarrow> c \<notin> set s"
  by (induction s) auto

lemma strchr_Some: "strchr s c = Some r \<Longrightarrow> r = dropWhile (\<lambda>x. x \<noteq> c) s \<and> c \<in> set s"
  by (induction s) (auto split: if_splits)

lemma strchr_conv: "strchr s c = (if c \<in> set s then Some (dropWhile (\<lambda>x. x \<noteq> c) s) else None)"
  by (induction s) auto

lemma dropWhile_neq_Cons:
  assumes "c \<in> set s"
  shows "dropWhile (\<lambda>x. x \<noteq> c) s = c # drop (Suc (length (takeWhile (\<lambda>x. x \<noteq> c) s))) s"
  using assms by (induction s) auto

lemma strrchr_None: "strrchr s c = None \<longleftrightarrow> c \<notin> set s"
  by (induction s) (auto split: option.splits)

lemma strrchr_split: "strrchr s c = Some r \<Longrightarrow> \<exists>u v. s = u @ c # v \<and> r = c # v \<and> c \<notin> set v"
  by (induction s) (force split: option.splits if_splits simp: strrchr_None)+

lemma strstr_suffix: "strstr s p = Some r \<Longrightarrow> s = before_str s p @ r \<and> starts_with p r"
  by (induction s) (auto split: if_splits)

lemma strstr_None_before: "strstr s p = None \<Longrightarrow> before_str s p = s"
  by (induction s) (auto split: if_splits)

lemma strstr_length: "strstr s p = Some r \<Longrightarrow> length r \<le> length s"
  by (induction s) (auto split: if_splits)

section \<open>Integers to text and back\<close>

text \<open>\<open>%lu\<close> and \<open>%i\<close> of \<open>printf\<close>.\<close>

fun show_nat :: "nat \<Rightarrow> string" where
  "show_nat n = (if n < 10 then [char_of (48 + n)]
                 else show_nat (n div 10) @ [char_of (48 + n mod 10)])"

declare show_nat.simps [simp del, code]

definition show_int :: "int \<Rightarrow> string" where
  "show_int i = (if i < 0 then CHR ''-'' # show_nat (nat (- i)) else show_nat (nat i))"

text \<open>
  \<open>atol\<close>: leading white space, an optional sign, then the digits up to the first byte that
  is none.  (A value outside \<open>long\<close> is undefined in C; the model keeps it unbounded, and
  every use below casts the result to its C type.)
\<close>

definition digits_val :: "nat \<Rightarrow> string \<Rightarrow> nat" where
  "digits_val acc ds = foldl (\<lambda>a c. 10 * a + (byte_of c - 48)) acc ds"

definition atol :: "string \<Rightarrow> int" where
  "atol s =
     (let t = dropWhile c_isspace s in
      case t of
        [] \<Rightarrow> 0
      | c # r \<Rightarrow>
          if c = CHR ''-'' then - int (digits_val 0 (takeWhile c_isdigit r))
          else if c = CHR ''+'' then int (digits_val 0 (takeWhile c_isdigit r))
          else int (digits_val 0 (takeWhile c_isdigit t)))"

text \<open>Conversion to \<open>int32_t\<close>: the low 32 bits in two's complement.\<close>

definition to_int32 :: "int \<Rightarrow> int" where
  "to_int32 i = signed_take_bit 31 i"

definition int32_range :: "int \<Rightarrow> bool" where
  "int32_range i \<longleftrightarrow> - (2 ^ 31) \<le> i \<and> i < 2 ^ 31"

lemma to_int32_id [simp]: "int32_range i \<Longrightarrow> to_int32 i = i"
  by (simp add: int32_range_def to_int32_def signed_take_bit_int_eq_self)

lemma to_int32_range [simp]: "int32_range (to_int32 i)"
  using signed_take_bit_int_greater_eq_minus_exp [of 31 i] signed_take_bit_int_less_exp [of 31 i]
  by (simp add: int32_range_def to_int32_def)

lemma digits_val_append: "digits_val a (xs @ ys) = digits_val (digits_val a xs) ys"
  by (simp add: digits_val_def)

lemma digits_val_show_nat: "digits_val 0 (show_nat n) = n"
proof (induction n rule: show_nat.induct)
  case (1 n)
  show ?case
  proof (cases "n < 10")
    case True
    then show ?thesis by (subst show_nat.simps) (simp add: digits_val_def)
  next
    case False
    with "1.IH" have "digits_val 0 (show_nat (n div 10)) = n div 10" by simp
    moreover have "digits_val m [char_of (48 + k)] = 10 * m + k" if "k < 10" for m k :: nat
      using that by (simp add: digits_val_def)
    ultimately show ?thesis
      using False by (subst show_nat.simps) (simp add: digits_val_append)
  qed
qed

lemma show_nat_digits: "\<forall>c \<in> set (show_nat n). c_isdigit c"
proof (induction n rule: show_nat.induct)
  case (1 n)
  show ?case
  proof (cases "n < 10")
    case True
    then show ?thesis by (subst show_nat.simps) (simp add: c_isdigit_def)
  next
    case False
    have "n mod 10 < 10" by simp
    then have "c_isdigit (char_of (48 + n mod 10))"
      unfolding c_isdigit_def by simp
    with "1.IH" False show ?thesis by (subst show_nat.simps) auto
  qed
qed

lemma show_nat_Nil [simp]: "show_nat n \<noteq> []"
  by (subst show_nat.simps) simp

lemma takeWhile_show_nat [simp]: "takeWhile c_isdigit (show_nat n) = show_nat n"
  using show_nat_digits by simp

lemma atol_show_int [simp]: "atol (show_int i) = i"
proof (cases "i < 0")
  case True
  then have "show_int i = CHR ''-'' # show_nat (nat (- i))" by (simp add: show_int_def)
  with True show ?thesis by (simp add: atol_def c_isspace_def digits_val_show_nat)
next
  case False
  obtain c r where cr: "show_nat (nat i) = c # r"
    by (cases "show_nat (nat i)") auto
  then have d: "c_isdigit c" using show_nat_digits [of "nat i"] by simp
  then have "\<not> c_isspace c" "c \<noteq> CHR ''-''" "c \<noteq> CHR ''+''"
    by (auto simp: c_isdigit_def c_isspace_def)
  then have "atol (show_nat (nat i)) = int (digits_val 0 (show_nat (nat i)))"
    using cr takeWhile_show_nat [of "nat i"] by (simp add: atol_def)
  with False show ?thesis by (simp add: show_int_def digits_val_show_nat)
qed

lemma show_int_chars: "c \<in> set (show_int i) \<Longrightarrow> c_isdigit c \<or> c = CHR ''-''"
  using show_nat_digits by (auto simp: show_int_def split: if_splits)

lemma show_int_Nil [simp]: "show_int i \<noteq> []"
  by (simp add: show_int_def)

section \<open>Lists\<close>

lemma takeWhile_dropWhile_length:
  "length (takeWhile P xs) + length (dropWhile P xs) = length xs"
  by (induction xs) auto

lemma dropWhile_length_le [simp]: "length (dropWhile P xs) \<le> length xs"
  by (induction xs) auto

lemma takeWhile_notin [simp]: "c \<notin> set (takeWhile (\<lambda>x. x \<noteq> c) xs)"
  by (induction xs) auto

lemma takeWhile_all: "\<forall>x \<in> set xs. P x \<Longrightarrow> takeWhile P xs = xs"
  by (induction xs) auto

lemma dropWhile_all: "\<forall>x \<in> set xs. P x \<Longrightarrow> dropWhile P xs = []"
  by (induction xs) auto

lemma notin_takeWhile_neq [simp]: "c \<notin> set xs \<Longrightarrow> takeWhile (\<lambda>x. x \<noteq> c) xs = xs"
  by (induction xs) auto

lemma notin_dropWhile_neq [simp]: "c \<notin> set xs \<Longrightarrow> dropWhile (\<lambda>x. x \<noteq> c) xs = []"
  by (induction xs) auto


end
