(* ===== verification/Interfaces.thy ===== *)
theory Interfaces
  imports Prelude
begin

text \<open>
  The contracts the components of the core rely on, as locales.  Each is stated over the
  operations the client calls; its lemmas are proved once here and reach the model through
  the interpretations in the component theories.

    \<^item> \<open>growable\<close>: an append-only buffer that reallocates (\<open>dc_array_t\<close>, \<open>dc_keyring_t\<close>);
    \<^item> \<open>kv_store\<close>: a keyed parameter block (\<open>dc_param_t\<close>), used by the job queue, the messages
      and the handshake;
    \<^item> \<open>codec\<close>: an encoder with a decoder (URL, RFC 2231 and modified UTF-7 names, ids);
    \<^item> \<open>machine\<close> and \<open>ranked_machine\<close>: a component whose operations keep an invariant, or
      move a rank in one direction only (peer states, the job queue, the message states).
\<close>

section \<open>Append-only buffers\<close>

fun push_all :: "('s \<Rightarrow> 'a \<Rightarrow> 's option) \<Rightarrow> 's \<Rightarrow> 'a list \<Rightarrow> 's option" where
  "push_all push s [] = Some s"
| "push_all push s (x # xs) =
     (case push s x of None \<Rightarrow> None | Some t \<Rightarrow> push_all push t xs)"

locale growable =
  fixes contents :: "'s \<Rightarrow> 'a list"
    and room :: "'s \<Rightarrow> nat"
    and ok :: "'s \<Rightarrow> bool"
    and push :: "'s \<Rightarrow> 'a \<Rightarrow> 's option"
    and limit :: nat
  assumes ok_room: "ok s \<Longrightarrow> length (contents s) \<le> room s"
    and push_ok: "ok s \<Longrightarrow> push s x = Some t \<Longrightarrow> ok t"
    and push_contents: "ok s \<Longrightarrow> push s x = Some t \<Longrightarrow> contents t = contents s @ [x]"
    and push_room: "ok s \<Longrightarrow> push s x = Some t \<Longrightarrow> room s \<le> room t"
    and push_total: "ok s \<Longrightarrow> length (contents s) < limit \<Longrightarrow> \<exists>t. push s x = Some t"
begin

lemma push_all_contents:
  "ok s \<Longrightarrow> push_all push s xs = Some t \<Longrightarrow> ok t \<and> contents t = contents s @ xs"
proof (induction xs arbitrary: s)
  case Nil
  then show ?case by simp
next
  case (Cons x xs)
  then obtain u where u: "push s x = Some u" and rest: "push_all push u xs = Some t"
    by (auto split: option.splits)
  have "ok u" "contents u = contents s @ [x]"
    using Cons.prems(1) u by (auto intro: push_ok dest: push_contents)
  with Cons.IH [OF _ rest] show ?case by simp
qed

lemma push_all_total:
  "ok s \<Longrightarrow> length (contents s) + length xs \<le> limit \<Longrightarrow> \<exists>t. push_all push s xs = Some t"
proof (induction xs arbitrary: s)
  case Nil
  then show ?case by simp
next
  case (Cons x xs)
  then obtain u where u: "push s x = Some u"
    using push_total [of s x] by auto
  then have "ok u" "length (contents u) = Suc (length (contents s))"
    using Cons.prems(1) by (auto intro: push_ok dest: push_contents)
  with Cons.IH [of u] Cons.prems(2) u show ?case by simp
qed

end

section \<open>Keyed stores\<close>

locale kv_store =
  fixes wf :: "'s \<Rightarrow> bool"
    and okk :: "'k \<Rightarrow> bool"
    and okv :: "'v \<Rightarrow> bool"
    and get :: "'s \<Rightarrow> 'k \<Rightarrow> 'v option"
    and put :: "'s \<Rightarrow> 'k \<Rightarrow> 'v \<Rightarrow> 's"
    and del :: "'s \<Rightarrow> 'k \<Rightarrow> 's"
  assumes put_wf: "wf s \<Longrightarrow> okk k \<Longrightarrow> okv v \<Longrightarrow> wf (put s k v)"
    and del_wf: "wf s \<Longrightarrow> okk k \<Longrightarrow> wf (del s k)"
    and get_put_same: "wf s \<Longrightarrow> okk k \<Longrightarrow> okv v \<Longrightarrow> get (put s k v) k = Some v"
    and get_put_other:
      "wf s \<Longrightarrow> okk k \<Longrightarrow> okk j \<Longrightarrow> okv v \<Longrightarrow> j \<noteq> k \<Longrightarrow> get (put s k v) j = get s j"
    and get_del_same: "wf s \<Longrightarrow> okk k \<Longrightarrow> get (del s k) k = None"
    and get_del_other:
      "wf s \<Longrightarrow> okk k \<Longrightarrow> okk j \<Longrightarrow> j \<noteq> k \<Longrightarrow> get (del s k) j = get s j"
begin

lemmas store_laws = put_wf del_wf get_put_same get_put_other get_del_same get_del_other

lemma put_put_read:
  assumes "wf s" "okk k" "okk j" "okv v" "okv w" "okk i"
  shows "get (put (put s k v) j w) i = (if i = j then Some w else if i = k then Some v else get s i)"
  using assms by (auto simp: store_laws)

text \<open>A sequence of stores leaves the last value written under each key.\<close>

lemma foldl_put_wf:
  assumes "wf s" "\<forall>(k, v) \<in> set kvs. okk k \<and> okv v"
  shows "wf (foldl (\<lambda>s (k, v). put s k v) s kvs)"
  using assms by (induction kvs arbitrary: s) (auto simp: put_wf)

lemma foldl_put_get:
  assumes "wf s" "\<forall>(k, v) \<in> set kvs. okk k \<and> okv v" "okk j"
  shows "get (foldl (\<lambda>s (k, v). put s k v) s kvs) j =
           (case map_of (rev kvs) j of Some v \<Rightarrow> Some v | None \<Rightarrow> get s j)"
  using assms
proof (induction kvs arbitrary: s)
  case Nil
  then show ?case by simp
next
  case (Cons kv kvs)
  obtain k v where kv: "kv = (k, v)" by force
  with Cons.prems have kvok: "okk k" "okv v" by auto
  then have "wf (put s k v)" using Cons.prems(1) by (simp add: put_wf)
  with Cons.IH [of "put s k v"] Cons.prems(2,3)
  have "get (foldl (\<lambda>s (k, v). put s k v) s (kv # kvs)) j =
          (case map_of (rev kvs) j of Some v \<Rightarrow> Some v | None \<Rightarrow> get (put s k v) j)"
    by (simp add: kv)
  also have "\<dots> = (case map_of (rev (kv # kvs)) j of Some v \<Rightarrow> Some v | None \<Rightarrow> get s j)"
    using kvok Cons.prems(1,3)
    by (auto simp: kv map_add_def store_laws split: option.splits)
  finally show ?case .
qed

end

section \<open>Encoders and decoders\<close>

locale codec =
  fixes valid :: "'a \<Rightarrow> bool"
    and enc :: "'a \<Rightarrow> 'b"
    and dec :: "'b \<Rightarrow> 'a"
  assumes dec_enc: "valid x \<Longrightarrow> dec (enc x) = x"
begin

lemma enc_inj_on: "inj_on enc {x. valid x}"
  by (rule inj_on_inverseI [where g = dec]) (simp add: dec_enc)

lemma enc_eq_iff: "valid x \<Longrightarrow> valid y \<Longrightarrow> enc x = enc y \<longleftrightarrow> x = y"
  by (metis dec_enc)

end

section \<open>Machines with an invariant\<close>

locale machine =
  fixes inv :: "'s \<Rightarrow> bool"
    and step :: "'s \<Rightarrow> 'e \<Rightarrow> 's"
  assumes step_inv: "inv s \<Longrightarrow> inv (step s e)"
begin

lemma run_inv: "inv s \<Longrightarrow> inv (foldl step s es)"
  by (induction es arbitrary: s) (auto intro: step_inv)

end

text \<open>A machine one of whose observations only moves up, whatever happens to it.\<close>

locale ranked_machine = machine inv step
  for inv :: "'s \<Rightarrow> bool" and step :: "'s \<Rightarrow> 'e \<Rightarrow> 's" +
  fixes rank :: "'s \<Rightarrow> 'r :: linorder"
  assumes step_rank: "inv s \<Longrightarrow> rank s \<le> rank (step s e)"
begin

lemma run_rank: "inv s \<Longrightarrow> rank s \<le> rank (foldl step s es)"
proof (induction es arbitrary: s)
  case Nil
  then show ?case by simp
next
  case (Cons e es)
  have "rank s \<le> rank (step s e)" using Cons.prems by (rule step_rank)
  also have "\<dots> \<le> rank (foldl step (step s e) es)"
    using Cons.prems by (intro Cons.IH step_inv)
  finally show ?case by simp
qed

lemma run_rank_mono: "inv s \<Longrightarrow> rank (foldl step s es) \<le> rank (foldl step s (es @ fs))"
  using run_rank [OF run_inv] by simp

end

end
