(* ===== verification/Arrays.thy ===== *)
theory Arrays
  imports Interfaces
begin

text \<open>
  \<open>src/dc_array.c\<close>: the growable array of \<open>uintptr_t\<close> items that carries ids between the
  parts of the core.  A cell of the allocated block that was never written is \<open>None\<close>
  (\<open>malloc\<close> leaves it undefined), so a read of the model shows whether it reads initialised
  memory.  A pointer to an array may be \<open>NULL\<close> (\<open>None\<close>).  Operations that can end the
  program (\<open>exit(49)\<close>) or write outside the block return \<open>None\<close> there.
\<close>

section \<open>The structure\<close>

definition DC_ARRAY_MAGIC :: u32 where
  "DC_ARRAY_MAGIC = 0x000a11aa"

record dc_array_t =
  arr_magic :: u32
  arr_allocated :: nat
  arr_count :: nat
  arr_cells :: "u64 option list"

definition live :: "dc_array_t option \<Rightarrow> bool" where
  "live p \<longleftrightarrow> (case p of None \<Rightarrow> False | Some a \<Rightarrow> arr_magic a = DC_ARRAY_MAGIC)"

text \<open>The item of an initialised cell; the invariant below keeps the cells in use initialised.\<close>

definition cell :: "u64 option \<Rightarrow> u64" where
  "cell c = (case c of Some v \<Rightarrow> v | None \<Rightarrow> 0)"

definition items :: "dc_array_t \<Rightarrow> u64 list" where
  "items a = map cell (take (arr_count a) (arr_cells a))"

definition arr_ok :: "dc_array_t \<Rightarrow> bool" where
  "arr_ok a \<longleftrightarrow> arr_magic a = DC_ARRAY_MAGIC \<and> length (arr_cells a) = arr_allocated a \<and> 1 \<le> arr_allocated a \<and>
     arr_count a \<le> arr_allocated a \<and> (\<forall>i < arr_count a. arr_cells a ! i \<noteq> None)"

section \<open>Operations\<close>

definition dc_array_new :: "nat \<Rightarrow> dc_array_t" where
  "dc_array_new initsize =
     (let n = (if initsize < 1 then 1 else initsize) in
      \<lparr>arr_magic = DC_ARRAY_MAGIC, arr_allocated = n, arr_count = 0, arr_cells = replicate n None\<rparr>)"

text \<open>
  The new size is an \<open>int\<close>; a negative one asks \<open>realloc\<close> for more than the address space
  and the program exits.
\<close>

definition grow_size :: "nat \<Rightarrow> int" where
  "grow_size n = to_int32 (int n * 2 + 10)"

definition realloc_cells :: "u64 option list \<Rightarrow> nat \<Rightarrow> u64 option list" where
  "realloc_cells xs n = take n xs @ replicate (n - length xs) None"

definition dc_array_add_uint :: "dc_array_t \<Rightarrow> u64 \<Rightarrow> dc_array_t option" where
  "dc_array_add_uint a item =
     (if arr_magic a \<noteq> DC_ARRAY_MAGIC then Some a
      else if arr_count a = arr_allocated a \<and> grow_size (arr_allocated a) < 0 then None
      else
        let a = (if arr_count a = arr_allocated a
                 then a\<lparr>arr_cells := realloc_cells (arr_cells a) (nat (grow_size (arr_allocated a))),
                        arr_allocated := nat (grow_size (arr_allocated a))\<rparr>
                 else a) in
        if arr_count a < length (arr_cells a)
        then Some (a\<lparr>arr_cells := (arr_cells a)[arr_count a := Some item], arr_count := Suc (arr_count a)\<rparr>)
        else None)"

definition dc_array_add_id :: "dc_array_t \<Rightarrow> u32 \<Rightarrow> dc_array_t option" where
  "dc_array_add_id a item = dc_array_add_uint a (ucast item)"

definition dc_array_get_cnt :: "dc_array_t option \<Rightarrow> nat" where
  "dc_array_get_cnt p =
     (case p of None \<Rightarrow> 0 | Some a \<Rightarrow> if arr_magic a \<noteq> DC_ARRAY_MAGIC then 0 else arr_count a)"

definition dc_array_get_uint :: "dc_array_t option \<Rightarrow> nat \<Rightarrow> u64" where
  "dc_array_get_uint p index =
     (case p of None \<Rightarrow> 0
      | Some a \<Rightarrow> if arr_magic a \<noteq> DC_ARRAY_MAGIC \<or> index \<ge> arr_count a then 0
                  else cell (arr_cells a ! index))"

definition dc_array_get_id :: "dc_array_t option \<Rightarrow> nat \<Rightarrow> u32" where
  "dc_array_get_id p index =
     (case p of None \<Rightarrow> 0
      | Some a \<Rightarrow> if arr_magic a \<noteq> DC_ARRAY_MAGIC \<or> index \<ge> arr_count a then 0
                  else ucast (cell (arr_cells a ! index)))"

fun search_from :: "u64 list \<Rightarrow> u64 \<Rightarrow> nat \<Rightarrow> nat option" where
  "search_from [] needle i = None"
| "search_from (x # xs) needle i = (if x = needle then Some i else search_from xs needle (Suc i))"

text \<open>The value is the index stored through \<open>ret_index\<close>; \<open>None\<close> is the return value 0.\<close>

definition dc_array_search_id :: "dc_array_t option \<Rightarrow> u32 \<Rightarrow> nat option" where
  "dc_array_search_id p needle =
     (case p of None \<Rightarrow> None
      | Some a \<Rightarrow> if arr_magic a \<noteq> DC_ARRAY_MAGIC then None
                  else search_from (items a) (ucast needle) 0)"

definition dc_array_duplicate :: "dc_array_t option \<Rightarrow> dc_array_t option" where
  "dc_array_duplicate p =
     (case p of None \<Rightarrow> None
      | Some a \<Rightarrow> if arr_magic a \<noteq> DC_ARRAY_MAGIC then None
                  else let r = dc_array_new (arr_allocated a) in
                       Some (r\<lparr>arr_count := arr_count a,
                               arr_cells := take (arr_count a) (arr_cells a) @ drop (arr_count a) (arr_cells r)\<rparr>))"

definition dc_array_empty :: "dc_array_t \<Rightarrow> dc_array_t" where
  "dc_array_empty a = (if arr_magic a \<noteq> DC_ARRAY_MAGIC then a else a\<lparr>arr_count := 0\<rparr>)"

definition dc_array_free_ptr :: "dc_array_t \<Rightarrow> dc_array_t" where
  "dc_array_free_ptr a =
     (if arr_magic a \<noteq> DC_ARRAY_MAGIC then a
      else a\<lparr>arr_cells := replicate (arr_count a) (Some 0) @ drop (arr_count a) (arr_cells a)\<rparr>)"

text \<open>\<open>qsort\<close> with \<open>cmp_intptr_t\<close>, the order of the unsigned values.\<close>

definition cmp_intptr_t :: "u64 \<Rightarrow> u64 \<Rightarrow> int" where
  "cmp_intptr_t v1 v2 = (if v1 < v2 then -1 else if v1 > v2 then 1 else 0)"

definition dc_array_sort_ids :: "dc_array_t \<Rightarrow> dc_array_t" where
  "dc_array_sort_ids a =
     (if arr_magic a \<noteq> DC_ARRAY_MAGIC \<or> arr_count a \<le> 1 then a
      else a\<lparr>arr_cells := map Some (sort (items a)) @ drop (arr_count a) (arr_cells a)\<rparr>)"

fun int_arr_to_str :: "string \<Rightarrow> nat list \<Rightarrow> string" where
  "int_arr_to_str sep [] = []"
| "int_arr_to_str sep [x] = show_nat x"
| "int_arr_to_str sep (x # xs) = show_nat x @ sep @ int_arr_to_str sep xs"

definition dc_array_get_string :: "dc_array_t option \<Rightarrow> cptr \<Rightarrow> string" where
  "dc_array_get_string p sep =
     (case (p, sep) of
        (Some a, Some s) \<Rightarrow>
          if arr_magic a \<noteq> DC_ARRAY_MAGIC then [] else int_arr_to_str s (map unat (items a))
      | _ \<Rightarrow> [])"

definition dc_arr_to_string :: "u32 list option \<Rightarrow> int \<Rightarrow> string" where
  "dc_arr_to_string arr cnt =
     (case arr of None \<Rightarrow> []
      | Some xs \<Rightarrow> if cnt \<le> 0 then [] else int_arr_to_str '','' (map unat (take (nat cnt) xs)))"

text \<open>The bytes \<open>INT_ARR_TO_STR\<close> allocates for \<open>c\<close> items.\<close>

definition str_alloc :: "nat \<Rightarrow> string \<Rightarrow> nat" where
  "str_alloc c sep = c * (11 + length sep) + 1"

section \<open>Lemmas\<close>

lemma arr_ok_new [simp, inv_intros]: "arr_ok (dc_array_new n)"
  by (simp add: arr_ok_def dc_array_new_def Let_def)

lemma items_new [simp]: "items (dc_array_new n) = []"
  by (simp add: items_def dc_array_new_def Let_def)

lemma length_items: "arr_ok a \<Longrightarrow> length (items a) = arr_count a"
  by (simp add: arr_ok_def items_def)

lemma items_nth: "arr_ok a \<Longrightarrow> i < arr_count a \<Longrightarrow> items a ! i = cell (arr_cells a ! i)"
  by (simp add: arr_ok_def items_def)

lemma grow_size_pos: "n < 2 ^ 30 - 5 \<Longrightarrow> grow_size n = int n * 2 + 10"
  unfolding grow_size_def by (rule to_int32_id) (simp add: int32_range_def)

lemma grow_size_wraps:
  assumes "2 ^ 30 - 5 \<le> n" "n < 2 ^ 31 - 5"
  shows "grow_size n = int n * 2 + 10 - 2 ^ 32"
proof -
  let ?m = "int n * 2 + 10 + 2 ^ 31"
  have "?m mod 2 ^ 32 = (?m - 2 ^ 32) mod 2 ^ 32" by (simp only: minus_mod_self2)
  also have "\<dots> = ?m - 2 ^ 32" using assms by (intro mod_pos_pos_trivial) auto
  finally show ?thesis
    by (simp add: grow_size_def to_int32_def signed_take_bit_eq_take_bit_shift take_bit_eq_mod
        algebra_simps)
qed

lemma length_realloc [simp]: "length (realloc_cells xs n) = n"
  by (simp add: realloc_cells_def)

lemma nth_realloc [simp]: "i < length xs \<Longrightarrow> i < n \<Longrightarrow> realloc_cells xs n ! i = xs ! i"
  by (simp add: realloc_cells_def nth_append)

lemma take_realloc: "k \<le> length xs \<Longrightarrow> k \<le> n \<Longrightarrow> take k (realloc_cells xs n) = take k xs"
  by (simp add: realloc_cells_def min_def)

text \<open>The block after the reallocation an append may need.\<close>

definition ensure_room :: "dc_array_t \<Rightarrow> dc_array_t" where
  "ensure_room a = (if arr_count a = arr_allocated a
     then a\<lparr>arr_cells := realloc_cells (arr_cells a) (nat (grow_size (arr_allocated a))),
            arr_allocated := nat (grow_size (arr_allocated a))\<rparr>
     else a)"

lemma add_uint_conv:
  "arr_magic a = DC_ARRAY_MAGIC \<Longrightarrow> dc_array_add_uint a item =
     (if arr_count a = arr_allocated a \<and> grow_size (arr_allocated a) < 0 then None
      else if arr_count a < length (arr_cells (ensure_room a))
      then Some ((ensure_room a)\<lparr>arr_cells := (arr_cells (ensure_room a))[arr_count a := Some item],
                                 arr_count := Suc (arr_count a)\<rparr>)
      else None)"
  by (simp add: dc_array_add_uint_def ensure_room_def Let_def)

lemma add_uint_ok:
  assumes ok: "arr_ok a" and add: "dc_array_add_uint a item = Some b"
  shows "arr_ok b \<and> items b = items a @ [item] \<and> arr_allocated a \<le> arr_allocated b"
proof -
  let ?r = "ensure_room a"
  have m: "arr_magic a = DC_ARRAY_MAGIC" and len: "length (arr_cells a) = arr_allocated a"
    and c: "arr_count a \<le> arr_allocated a" and ini: "\<And>i. i < arr_count a \<Longrightarrow> arr_cells a ! i \<noteq> None"
    using ok by (auto simp: arr_ok_def)
  from add m have lt: "arr_count a < length (arr_cells ?r)"
    and b: "b = ?r\<lparr>arr_cells := (arr_cells ?r)[arr_count a := Some item], arr_count := Suc (arr_count a)\<rparr>"
    by (auto simp: add_uint_conv split: if_splits)
  have rlen: "length (arr_cells ?r) = arr_allocated ?r" "arr_magic ?r = DC_ARRAY_MAGIC" "1 \<le> arr_allocated ?r"
    "arr_count ?r = arr_count a"
    using ok lt by (auto simp: ensure_room_def arr_ok_def)
  have pre: "take (arr_count a) (arr_cells ?r) = take (arr_count a) (arr_cells a)"
    using len c lt by (auto simp: ensure_room_def take_realloc)
  then have nth: "arr_cells ?r ! i = arr_cells a ! i" if "i < arr_count a" for i
    using that by (metis nth_take)
  have "arr_ok b"
    using rlen lt ini nth by (auto simp: arr_ok_def b nth_list_update less_Suc_eq)
  moreover have "items b = items a @ [item]"
    using lt pre by (simp add: items_def b take_Suc_conv_app_nth cell_def)
  moreover have "arr_allocated a \<le> arr_allocated b"
    using c lt rlen(1) by (auto simp: b ensure_room_def split: if_splits)
  ultimately show ?thesis by blast
qed

lemma add_uint_total:
  assumes ok: "arr_ok a" and small: "arr_count a < 2 ^ 30 - 5"
  shows "\<exists>b. dc_array_add_uint a item = Some b"
proof (cases "arr_count a = arr_allocated a")
  case True
  with small have "grow_size (arr_allocated a) = int (arr_allocated a) * 2 + 10"
    by (intro grow_size_pos) simp
  with True ok show ?thesis
    by (auto simp: add_uint_conv ensure_room_def arr_ok_def)
next
  case False
  with ok show ?thesis by (auto simp: add_uint_conv ensure_room_def arr_ok_def)
qed

interpretation arr: growable items arr_allocated arr_ok dc_array_add_uint "2 ^ 30 - 5"
proof unfold_locales
  show "length (items s) \<le> arr_allocated s" if "arr_ok s" for s
    using that by (simp add: length_items) (simp add: arr_ok_def)
  show "\<exists>t. dc_array_add_uint s x = Some t"
    if "arr_ok s" "length (items s) < 2 ^ 30 - 5" for s x
    using that by (auto simp: length_items intro: add_uint_total)
qed (auto dest: add_uint_ok)

lemma get_uint_items:
  "arr_ok a \<Longrightarrow> dc_array_get_uint (Some a) i = (if i < length (items a) then items a ! i else 0)"
  by (simp add: dc_array_get_uint_def length_items items_nth) (simp add: arr_ok_def)

lemma get_id_items:
  "arr_ok a \<Longrightarrow> dc_array_get_id (Some a) i = (if i < length (items a) then ucast (items a ! i) else 0)"
  by (simp add: dc_array_get_id_def length_items items_nth) (simp add: arr_ok_def)

lemma get_cnt_items: "arr_ok a \<Longrightarrow> dc_array_get_cnt (Some a) = length (items a)"
  by (simp add: dc_array_get_cnt_def length_items) (simp add: arr_ok_def)

lemma search_from_Some:
  "search_from xs n k = Some i \<longleftrightarrow>
     k \<le> i \<and> i - k < length xs \<and> xs ! (i - k) = n \<and> (\<forall>j < i - k. xs ! j \<noteq> n)"
proof (induction xs n k rule: search_from.induct)
  case (1 n k)
  then show ?case by simp
next
  case (2 x xs n k)
  show ?case
  proof (cases "x = n")
    case True
    then show ?thesis by (cases "i - k") (auto simp: less_Suc_eq_0_disj)
  next
    case False
    show ?thesis
    proof (cases "k < i")
      case True
      then obtain m where m: "i - k = Suc m" "i - Suc k = m"
        by (metis Suc_diff_Suc)
      with False True "2.IH" show ?thesis
        by (auto simp: less_Suc_eq_0_disj)
    next
      case False': False
      with False "2.IH" show ?thesis by (cases "i = k") auto
    qed
  qed
qed

lemma search_from_None: "search_from xs n k = None \<longleftrightarrow> n \<notin> set xs"
  by (induction xs n k rule: search_from.induct) auto

lemma sort_ids_items:
  assumes "arr_ok a"
  shows "arr_ok (dc_array_sort_ids a) \<and> items (dc_array_sort_ids a) = sort (items a)"
proof (cases "arr_count a \<le> 1")
  case True
  then have "length (items a) \<le> 1" using assms by (simp add: length_items)
  then have "sort (items a) = items a"
    by (cases "items a") auto
  with True assms show ?thesis by (simp add: dc_array_sort_ids_def)
next
  case False
  with assms have "dc_array_sort_ids a =
      a\<lparr>arr_cells := map Some (sort (items a)) @ drop (arr_count a) (arr_cells a)\<rparr>"
    by (simp add: dc_array_sort_ids_def arr_ok_def)
  moreover have "length (sort (items a)) = arr_count a"
    using assms by (simp add: length_items)
  ultimately show ?thesis
    using assms by (auto simp: arr_ok_def items_def nth_append cell_def comp_def)
qed

lemma duplicate_items:
  assumes "arr_ok a"
  shows "\<exists>b. dc_array_duplicate (Some a) = Some b \<and> arr_ok b \<and> items b = items a \<and>
             arr_allocated b = arr_allocated a"
  using assms
  by (auto simp: dc_array_duplicate_def arr_ok_def items_def Let_def dc_array_new_def nth_append)

lemma empty_items: "arr_ok a \<Longrightarrow> arr_ok (dc_array_empty a) \<and> items (dc_array_empty a) = []"
  by (simp add: arr_ok_def dc_array_empty_def items_def)

lemma free_ptr_items:
  "arr_ok a \<Longrightarrow> arr_ok (dc_array_free_ptr a) \<and> items (dc_array_free_ptr a) = replicate (arr_count a) 0"
  by (auto simp: arr_ok_def dc_array_free_ptr_def items_def nth_append cell_def)

text \<open>The decimal text of an id has at most ten digits, so the block of the macro is enough.\<close>

lemma show_nat_length: "0 < k \<Longrightarrow> n < 10 ^ k \<Longrightarrow> length (show_nat n) \<le> k"
proof (induction n arbitrary: k rule: show_nat.induct)
  case (1 n)
  show ?case
  proof (cases "n < 10")
    case True
    with "1.prems" show ?thesis by (subst show_nat.simps) simp
  next
    case False
    then obtain j where j: "k = Suc j" "0 < j"
      using "1.prems" by (cases k; cases "k - 1") auto
    with "1.prems" have "n div 10 < 10 ^ j" by (simp add: less_mult_imp_div_less mult.commute)
    with "1.IH" False j have "length (show_nat (n div 10)) \<le> j" by blast
    with False j show ?thesis by (subst show_nat.simps) simp
  qed
qed

lemma int_arr_to_str_length:
  assumes "\<forall>x \<in> set xs. length (show_nat x) \<le> 10"
  shows "length (int_arr_to_str sep xs) < str_alloc (length xs) sep"
  using assms
  by (induction sep xs rule: int_arr_to_str.induct) (auto simp: str_alloc_def algebra_simps)

section \<open>Properties\<close>

text \<open>An array of three ids with room for four, for the witnesses.\<close>

definition sample_array :: dc_array_t where
  "sample_array = \<lparr>arr_magic = DC_ARRAY_MAGIC, arr_allocated = 4, arr_count = 3,
     arr_cells = [Some 500, Some 10, Some 73, None]\<rparr>"

lemma sample_array_ok: "arr_ok sample_array" "items sample_array = [500, 10, 73]"
  by (auto simp: sample_array_def arr_ok_def items_def cell_def less_Suc_eq numeral_eq_Suc)

text \<open>
  Appending any list of items to a well-formed array, as long as it stays below
  \<open>2 ^ 30 - 5\<close> items, succeeds (no \<open>exit\<close>, no write outside the block), keeps the array
  well formed, keeps what it held, and \<open>dc_array_get_uint\<close> then reads back each item at its
  index and 0 behind the last.
\<close>

theorem array_append_reads_back:
  assumes "arr_ok a" "length (items a) + length xs \<le> 2 ^ 30 - 5"
  shows "\<exists>b. push_all dc_array_add_uint a xs = Some b \<and> arr_ok b \<and> items b = items a @ xs \<and>
      dc_array_get_cnt (Some b) = length (items a) + length xs \<and>
      (\<forall>i. dc_array_get_uint (Some b) i =
            (if i < length (items a @ xs) then (items a @ xs) ! i else 0))"
proof -
  obtain b where b: "push_all dc_array_add_uint a xs = Some b"
    using arr.push_all_total [OF assms] by blast
  with arr.push_all_contents [OF assms(1) b] show ?thesis
    by (auto simp: get_cnt_items get_uint_items)
qed

theorem array_append_reads_back_witness:
  "\<exists>b. push_all dc_array_add_uint sample_array [7, 8] = Some b \<and> items b = [500, 10, 73, 7, 8]"
  using array_append_reads_back [of sample_array "[7, 8]"] by (auto simp: sample_array_ok)

text \<open>
  After \<open>dc_array_sort_ids\<close> the array is well formed and sorted, holds the same items, and
  \<open>dc_array_search_id\<close> finds an id exactly when it is in the array, at its first index.
\<close>

theorem array_sort_then_search:
  assumes "arr_ok a"
  shows "arr_ok (dc_array_sort_ids a) \<and> sorted (items (dc_array_sort_ids a)) \<and>
      mset (items (dc_array_sort_ids a)) = mset (items a) \<and>
      (dc_array_search_id (Some (dc_array_sort_ids a)) n = None \<longleftrightarrow> ucast n \<notin> set (items a)) \<and>
      (\<forall>i. dc_array_search_id (Some (dc_array_sort_ids a)) n = Some i \<longrightarrow>
         i < length (items a) \<and> sort (items a) ! i = ucast n \<and>
         (\<forall>j < i. sort (items a) ! j < ucast n))"
proof -
  let ?s = "dc_array_sort_ids a"
  have s: "arr_ok ?s" "items ?s = sort (items a)" using sort_ids_items [OF assms] by auto
  then have f: "dc_array_search_id (Some ?s) n = search_from (sort (items a)) (ucast n) 0"
    by (simp add: dc_array_search_id_def arr_ok_def)
  have "sort (items a) ! j < ucast n"
    if "search_from (sort (items a)) (ucast n) 0 = Some i" "j < i" for i j
  proof -
    from that(1) have i: "i < length (items a)" "sort (items a) ! i = ucast n"
      and ne: "\<forall>j < i. sort (items a) ! j \<noteq> ucast n"
      by (auto simp: search_from_Some)
    then have "sort (items a) ! j \<le> sort (items a) ! i"
      using that(2) by (intro sorted_nth_mono) auto
    with i ne that(2) show ?thesis by (metis order_le_neq_trans)
  qed
  with s f show ?thesis by (auto simp: search_from_None search_from_Some)
qed

theorem array_sort_then_search_witness:
  "sorted (items (dc_array_sort_ids sample_array)) \<and>
     dc_array_search_id (Some (dc_array_sort_ids sample_array)) 73 \<noteq> None"
  using array_sort_then_search [OF sample_array_ok(1), of 73] by (simp add: sample_array_ok(2))

text \<open>
  The text of an array of 32-bit ids always fits the block the macro \<open>INT_ARR_TO_STR\<close>
  allocates for it, terminating null byte included.
\<close>

theorem array_string_fits:
  assumes "arr_ok a" "\<forall>x \<in> set (items a). x < 2 ^ 32"
  shows "length (dc_array_get_string (Some a) (Some sep)) < str_alloc (arr_count a) sep"
proof -
  have "length (show_nat (unat x)) \<le> 10" if "x \<in> set (items a)" for x
    using assms(2) that by (intro show_nat_length) (auto simp: word_less_nat_alt)
  then have "length (int_arr_to_str sep (map unat (items a))) < str_alloc (length (items a)) sep"
    using int_arr_to_str_length [of "map unat (items a)" sep] by simp
  moreover have "arr_magic a = DC_ARRAY_MAGIC" using assms(1) by (simp add: arr_ok_def)
  ultimately show ?thesis
    using assms(1) by (simp add: dc_array_get_string_def length_items)
qed

theorem array_string_fits_witness:
  "length (dc_array_get_string (Some sample_array) (Some '', '')) <
     str_alloc (arr_count sample_array) '', ''"
  using array_string_fits [OF sample_array_ok(1), of "'', ''"] by (simp add: sample_array_ok(2))

end
