(* ===== verification/Tools.thy ===== *)
theory Tools
  imports Arrays
begin

text \<open>
  \<open>src/dc_tools.c\<close>: strings, time stamps, ids and file names.  A function that edits its
  buffer in place is a function from the old to the new contents.  Functions that read the
  clock, the file system or the random source take what they read as an argument.
\<close>

section \<open>Strings\<close>

definition dc_exactly_one_bit_set :: "u32 \<Rightarrow> bool" where
  "dc_exactly_one_bit_set v \<longleftrightarrow> v \<noteq> 0 \<and> v AND (v - 1) = 0"

definition dc_strdup :: "cptr \<Rightarrow> string" where
  "dc_strdup s = (case s of Some t \<Rightarrow> t | None \<Rightarrow> [])"

definition dc_strdup_keep_null :: "cptr \<Rightarrow> cptr" where
  "dc_strdup_keep_null s = (case s of Some t \<Rightarrow> Some (dc_strdup (Some t)) | None \<Rightarrow> None)"

definition dc_atoi_null_is_0 :: "cptr \<Rightarrow> int" where
  "dc_atoi_null_is_0 s = (case s of Some t \<Rightarrow> to_int32 (atol t) | None \<Rightarrow> 0)"

fun ltrim_loop :: "string \<Rightarrow> string" where
  "ltrim_loop [] = []"
| "ltrim_loop (c # cs) = (if c_isspace c then ltrim_loop cs else c # cs)"

definition dc_ltrim :: "string \<Rightarrow> string" where
  "dc_ltrim buf = (if buf = [] then buf else ltrim_loop buf)"

text \<open>The index \<open>cur - buf\<close> at which the backward loop of \<open>dc_rtrim\<close> stops.\<close>

fun rtrim_loop :: "string \<Rightarrow> nat \<Rightarrow> nat" where
  "rtrim_loop buf 0 = 0"
| "rtrim_loop buf (Suc n) = (if c_isspace (buf ! Suc n) then rtrim_loop buf n else Suc n)"

definition dc_rtrim :: "string \<Rightarrow> string" where
  "dc_rtrim buf =
     (if buf = [] then buf
      else let cur = rtrim_loop buf (length buf - 1) in
           take (if c_isspace (buf ! cur) then cur else Suc cur) buf)"

definition dc_trim :: "string \<Rightarrow> string" where
  "dc_trim buf = dc_rtrim (dc_ltrim buf)"

fun dc_strlower_in_place :: "string \<Rightarrow> string" where
  "dc_strlower_in_place [] = []"
| "dc_strlower_in_place (c # cs) = c_tolower c # dc_strlower_in_place cs"

definition dc_strlower :: "string \<Rightarrow> string" where
  "dc_strlower s = dc_strlower_in_place (dc_strdup (Some s))"

text \<open>
  \<open>start_search_pos\<close> is \<open>pos\<close>; \<open>before_str\<close> is what \<open>*p2 = 0\<close> leaves of the searched part.
\<close>

function str_replace_loop :: "string \<Rightarrow> nat \<Rightarrow> nat \<Rightarrow> string \<Rightarrow> string \<Rightarrow> string \<times> nat" where
  "str_replace_loop hay pos n needle repl =
     (if needle = [] then (hay, n)
      else case strstr (drop pos hay) needle of
        None \<Rightarrow> (hay, n)
      | Some p2 \<Rightarrow>
          let head = take pos hay @ before_str (drop pos hay) needle in
          str_replace_loop (head @ repl @ drop (length needle) p2)
            (length head + length repl) (Suc n) needle repl)"
  by pat_completeness auto
termination
proof (relation "measure (\<lambda>(hay, pos, n, needle, repl). length hay - pos)", goal_cases)
  case 1
  show ?case by simp
next
  case (2 hay pos n needle repl p2 head)
  have "drop pos hay = before_str (drop pos hay) needle @ p2" "starts_with needle p2"
    using strstr_suffix [OF 2(2)] by auto
  moreover have "0 < length p2" using 2(1) calculation(2) by (cases p2) auto
  moreover have "length (drop pos hay) = length (before_str (drop pos hay) needle) + length p2"
    by (subst calculation(1)) simp
  ultimately show ?case using 2(1,3) by (cases needle; cases p2) (auto simp: min_def)
qed

definition dc_str_replace :: "cptr \<Rightarrow> cptr \<Rightarrow> cptr \<Rightarrow> cptr \<times> nat" where
  "dc_str_replace haystack needle replacement =
     (case (haystack, needle) of
        (Some h, Some nd) \<Rightarrow>
          if nd = [] then (haystack, 0)
          else let (h', n) = str_replace_loop h 0 0 nd (dc_strdup replacement) in (Some h', n)
      | _ \<Rightarrow> (haystack, 0))"

definition dc_str_contains :: "cptr \<Rightarrow> cptr \<Rightarrow> bool" where
  "dc_str_contains haystack needle =
     (case (haystack, needle) of
        (Some h, Some nd) \<Rightarrow>
          if strstr h nd \<noteq> None then True
          else strstr (dc_strlower h) (dc_strlower nd) \<noteq> None
      | _ \<Rightarrow> False)"

text \<open>For \<open>in\<close> not \<open>NULL\<close> and \<open>bytes \<ge> 0\<close>, as at every call in the core.\<close>

definition dc_null_terminate :: "string \<Rightarrow> nat \<Rightarrow> string" where
  "dc_null_terminate s bytes = take bytes s"

definition uc_hex_digit :: "nat \<Rightarrow> char" where
  "uc_hex_digit n = (if n < 10 then char_of (48 + n) else char_of (55 + n))"

fun uc_hex_loop :: "u8 list \<Rightarrow> string" where
  "uc_hex_loop [] = []"
| "uc_hex_loop (b # bs) = uc_hex_digit (unat b div 16) # uc_hex_digit (unat b mod 16) # uc_hex_loop bs"

definition dc_binary_to_uc_hex :: "u8 list option \<Rightarrow> cptr" where
  "dc_binary_to_uc_hex buf =
     (case buf of None \<Rightarrow> None | Some bs \<Rightarrow> if bs = [] then None else Some (uc_hex_loop bs))"

abbreviation CR :: char where "CR \<equiv> CHR 13"
abbreviation NL :: char where "NL \<equiv> CHR 10"

text \<open>The first loop finds the first \<open>\r\<close>, the second moves the other bytes down over it.\<close>

fun copy_without_cr :: "string \<Rightarrow> string" where
  "copy_without_cr [] = []"
| "copy_without_cr (c # cs) = (if c \<noteq> CR then c # copy_without_cr cs else copy_without_cr cs)"

definition dc_remove_cr_chars :: "string \<Rightarrow> string" where
  "dc_remove_cr_chars buf =
     takeWhile (\<lambda>c. c \<noteq> CR) buf @ copy_without_cr (dropWhile (\<lambda>c. c \<noteq> CR) buf)"

definition dc_unify_lineends :: "string \<Rightarrow> string" where
  "dc_unify_lineends buf = dc_remove_cr_chars buf"

text \<open>
  \<open>dc_replace_bad_utf8_chars\<close>.  \<open>utf8_lead\<close> is the \<open>if\<close> cascade on the byte \<open>c\<close>, with the rest of
  the buffer for the test of the surrogates: the number of continuation bytes wanted, or
  \<open>None\<close> for \<open>goto error\<close>.
\<close>

definition utf8_lead :: "char \<Rightarrow> string \<Rightarrow> nat option" where
  "utf8_lead ch rest =
     (let c = (of_char ch :: u8) in
      if c > 0 \<and> c \<le> 0x7f then Some 0
      else if c AND 0xE0 = 0xC0 then Some 1
      else if c = 0xed \<and> rest \<noteq> [] \<and> (of_char (hd rest) :: u8) AND 0xa0 = 0xa0 then None
      else if c AND 0xF0 = 0xE0 then Some 2
      else if c AND 0xF8 = 0xF0 then Some 3
      else None)"

definition is_cont :: "char \<Rightarrow> bool" where
  "is_cont ch \<longleftrightarrow> (of_char ch :: u8) AND 0xC0 = 0x80"

fun utf8_conts :: "nat \<Rightarrow> string \<Rightarrow> string option" where
  "utf8_conts 0 cs = Some cs"
| "utf8_conts (Suc n) [] = None"
| "utf8_conts (Suc n) (c # cs) = (if is_cont c then utf8_conts n cs else None)"

lemma utf8_conts_length: "utf8_conts n cs = Some r \<Longrightarrow> length r \<le> length cs"
  by (induction n cs rule: utf8_conts.induct) (auto split: if_splits)

function utf8_scan :: "string \<Rightarrow> bool" where
  "utf8_scan [] = True"
| "utf8_scan (c # cs) =
     (case utf8_lead c cs of None \<Rightarrow> False
      | Some n \<Rightarrow> (case utf8_conts n cs of None \<Rightarrow> False | Some r \<Rightarrow> utf8_scan r))"
  by pat_completeness auto
termination
  by (relation "measure length") (auto dest: utf8_conts_length)

definition dc_replace_bad_utf8_chars :: "string \<Rightarrow> string" where
  "dc_replace_bad_utf8_chars buf =
     (if utf8_scan buf then buf
      else map (\<lambda>c. if byte_of c > 0x7f then CHR ''_'' else c) buf)"

fun dc_utf8_strnlen :: "string \<Rightarrow> nat \<Rightarrow> nat" where
  "dc_utf8_strnlen s 0 = 0"
| "dc_utf8_strnlen [] (Suc n) = 0"
| "dc_utf8_strnlen (c # cs) (Suc n) = (if \<not> is_cont c then 1 else 0) + dc_utf8_strnlen cs n"

definition DC_EDITORIAL_ELLIPSE :: string where
  "DC_EDITORIAL_ELLIPSE = ''[...]''"

definition unwrap_ellipse :: "bool \<Rightarrow> string" where
  "unwrap_ellipse do_unwrap = (if do_unwrap then '' ...'' else '' '' @ DC_EDITORIAL_ELLIPSE)"

text \<open>
  The loop of \<open>dc_truncate_n_unwrap_str\<close>: \<open>pre\<close> are the bytes in front of \<open>p1\<close> as they now
  are in the buffer, the list that is taken apart those from \<open>p1\<close> on.  The comparison with
  \<open>approx_characters\<close> is between \<open>size_t\<close> values.
\<close>

fun truncate_loop :: "string \<Rightarrow> string \<Rightarrow> bool \<Rightarrow> int \<Rightarrow> bool \<Rightarrow> string" where
  "truncate_loop pre [] in_word approx do_unwrap = pre"
| "truncate_loop pre (c # cs) in_word approx do_unwrap =
     (if byte_of c > 32 then truncate_loop (pre @ [c]) cs True approx do_unwrap
      else if in_word then
        (if (of_nat (dc_utf8_strnlen pre (length pre)) :: u64) \<ge> word_of_int approx
         then (if length (c # cs) \<ge> length (unwrap_ellipse do_unwrap)
               then pre @ unwrap_ellipse do_unwrap else pre @ c # cs)
         else truncate_loop (pre @ [if do_unwrap then CHR '' '' else c]) cs False approx do_unwrap)
      else truncate_loop (pre @ [if do_unwrap then CR else c]) cs False approx do_unwrap)"

definition dc_truncate_n_unwrap_str :: "string \<Rightarrow> int \<Rightarrow> bool \<Rightarrow> string" where
  "dc_truncate_n_unwrap_str buf approx_characters do_unwrap =
     (let r = truncate_loop [] buf False approx_characters do_unwrap in
      if do_unwrap then dc_remove_cr_chars r else r)"

text \<open>
  The rewinding loop of \<open>dc_truncate_str\<close>, on the index of \<open>p\<close>; \<open>None\<close> is the read in front
  of the buffer.
\<close>

fun rewind_to_space :: "string \<Rightarrow> nat \<Rightarrow> nat option" where
  "rewind_to_space buf 0 = None"
| "rewind_to_space buf (Suc n) =
     (if buf ! n \<noteq> CHR '' '' \<and> buf ! n \<noteq> NL then rewind_to_space buf n else Some (Suc n))"

definition dc_truncate_str :: "string \<Rightarrow> int \<Rightarrow> string option" where
  "dc_truncate_str buf approx_chars =
     (if approx_chars > 0 \<and> length buf > nat approx_chars + length DC_EDITORIAL_ELLIPSE then
        let cut = take (nat approx_chars) buf in
        if strchr cut (CHR '' '') \<noteq> None
        then (case rewind_to_space cut (length cut) of
                None \<Rightarrow> None | Some k \<Rightarrow> Some (take k cut @ DC_EDITORIAL_ELLIPSE))
        else Some (cut @ DC_EDITORIAL_ELLIPSE)
      else Some buf)"

text \<open>\<open>line\<close> holds the bytes from \<open>line_start\<close> to \<open>p1\<close>.\<close>

fun split_loop :: "string \<Rightarrow> string \<Rightarrow> string list" where
  "split_loop line [] = [line]"
| "split_loop line (c # cs) =
     (if c = NL then line # split_loop [] cs else split_loop (line @ [c]) cs)"

definition dc_split_into_lines :: "string \<Rightarrow> string list" where
  "dc_split_into_lines buf = split_loop [] buf"

fun breaks_loop :: "string \<Rightarrow> nat \<Rightarrow> nat \<Rightarrow> string \<Rightarrow> string" where
  "breaks_loop [] added every brk = []"
| "breaks_loop (c # cs) added every brk =
     (if Suc added = every \<and> cs \<noteq> [] then c # brk @ breaks_loop cs 0 every brk
      else c # breaks_loop cs (Suc added) every brk)"

definition dc_insert_breaks :: "cptr \<Rightarrow> int \<Rightarrow> cptr \<Rightarrow> string" where
  "dc_insert_breaks s break_every break_chars =
     (case (s, break_chars) of
        (Some t, Some brk) \<Rightarrow>
          if break_every \<le> 0 then dc_strdup s else breaks_loop t 0 (nat break_every) brk
      | _ \<Rightarrow> dc_strdup s)"

text \<open>The bytes \<open>dc_insert_breaks\<close> allocates.\<close>

definition breaks_alloc :: "string \<Rightarrow> nat \<Rightarrow> string \<Rightarrow> nat" where
  "breaks_alloc s every brk = length s + (length s div every + 1) * length brk + 1"

definition clist_search_string_nocase :: "string list \<Rightarrow> string \<Rightarrow> bool" where
  "clist_search_string_nocase haystack needle \<longleftrightarrow> (\<exists>s \<in> set haystack. strcaseeq s needle)"

section \<open>Lemmas on strings\<close>

lemma ltrim_conv: "dc_ltrim s = dropWhile c_isspace s"
proof -
  have "ltrim_loop s = dropWhile c_isspace s" by (induction s) auto
  then show ?thesis by (simp add: dc_ltrim_def)
qed

lemma rtrim_loop_spec:
  "n < length s \<Longrightarrow>
    take (if c_isspace (s ! rtrim_loop s n) then rtrim_loop s n else Suc (rtrim_loop s n)) s =
    rev (dropWhile c_isspace (rev (take (Suc n) s)))"
proof (induction n)
  case 0
  then show ?case by (cases s) auto
next
  case (Suc n)
  then have "take (Suc (Suc n)) s = take (Suc n) s @ [s ! Suc n]"
    by (simp add: take_Suc_conv_app_nth)
  with Suc show ?case by auto
qed

lemma rtrim_conv: "dc_rtrim s = rev (dropWhile c_isspace (rev s))"
proof (cases "s = []")
  case True
  then show ?thesis by (simp add: dc_rtrim_def)
next
  case False
  then obtain n where n: "length s = Suc n" by (cases s) auto
  with rtrim_loop_spec [of n s] False show ?thesis
    by (auto simp: dc_rtrim_def Let_def)
qed

lemma ltrim_id [simp]: "s = [] \<or> \<not> c_isspace (hd s) \<Longrightarrow> dc_ltrim s = s"
  by (cases s) (auto simp: ltrim_conv)

lemma rtrim_id [simp]: "s = [] \<or> \<not> c_isspace (last s) \<Longrightarrow> dc_rtrim s = s"
  by (cases s rule: rev_cases) (auto simp: rtrim_conv)

lemma ltrim_hd: "dc_ltrim s = [] \<or> \<not> c_isspace (hd (dc_ltrim s))"
  by (metis ltrim_conv hd_dropWhile)

lemma rtrim_last: "dc_rtrim s = [] \<or> \<not> c_isspace (last (dc_rtrim s))"
  by (metis rtrim_conv last_rev hd_dropWhile rev.simps(1))

lemma rtrim_idem [simp]: "dc_rtrim (dc_rtrim s) = dc_rtrim s"
  using rtrim_last by (rule rtrim_id)

lemma rtrim_split: "\<exists>t. s = dc_rtrim s @ t \<and> (\<forall>c \<in> set t. c_isspace c)"
proof -
  have "rev s = takeWhile c_isspace (rev s) @ dropWhile c_isspace (rev s)" by simp
  then have "s = dc_rtrim s @ rev (takeWhile c_isspace (rev s))"
    by (metis rev_append rev_rev_ident rtrim_conv)
  then show ?thesis by (metis set_rev set_takeWhileD)
qed

lemma set_rtrim: "set (dc_rtrim s) \<subseteq> set s"
  using rtrim_split [of s] by (metis Un_upper1 set_append)

lemma set_ltrim: "set (dc_ltrim s) \<subseteq> set s"
  by (auto simp: ltrim_conv dest: set_dropWhileD)

lemma rtrim_hd: "s \<noteq> [] \<Longrightarrow> \<not> c_isspace (hd s) \<Longrightarrow> dc_rtrim s \<noteq> [] \<and> hd (dc_rtrim s) = hd s"
  using rtrim_split [of s] by (cases "dc_rtrim s") (metis append_Nil hd_in_set, metis append_Cons list.sel(1) list.distinct(1))

lemma trim_ends:
  "dc_trim s = [] \<or> (\<not> c_isspace (hd (dc_trim s)) \<and> \<not> c_isspace (last (dc_trim s)))"
proof (cases "dc_ltrim s = []")
  case True
  then show ?thesis by (simp add: dc_trim_def dc_rtrim_def)
next
  case False
  with ltrim_hd [of s] have "\<not> c_isspace (hd (dc_ltrim s))" by blast
  with False have "hd (dc_trim s) = hd (dc_ltrim s)"
    by (simp add: dc_trim_def rtrim_hd)
  with \<open>\<not> c_isspace (hd (dc_ltrim s))\<close> rtrim_last [of "dc_ltrim s"] show ?thesis
    by (auto simp: dc_trim_def)
qed

lemma trim_id: "s = [] \<or> (\<not> c_isspace (hd s) \<and> \<not> c_isspace (last s)) \<Longrightarrow> dc_trim s = s"
  by (auto simp: dc_trim_def)

lemma trim_idem [simp]: "dc_trim (dc_trim s) = dc_trim s"
  using trim_ends by (rule trim_id)

lemma strlower_conv [simp]: "dc_strlower_in_place s = map c_tolower s"
  by (induction s) auto

lemma remove_cr_conv: "dc_remove_cr_chars s = filter (\<lambda>c. c \<noteq> CR) s"
proof -
  have "copy_without_cr t = filter (\<lambda>c. c \<noteq> CR) t" for t by (induction t) auto
  moreover have "takeWhile P s @ filter P (dropWhile P s) = filter P s" for P :: "char \<Rightarrow> bool"
    by (induction s) auto
  ultimately show ?thesis by (simp add: dc_remove_cr_chars_def)
qed

text \<open>The specification of \<open>dc_str_replace\<close>: replace, then go on behind the replacement.\<close>

function subst_all :: "string \<Rightarrow> string \<Rightarrow> string \<Rightarrow> string" where
  "subst_all needle repl s =
     (if needle = [] then s
      else case strstr s needle of
        None \<Rightarrow> s
      | Some p \<Rightarrow> before_str s needle @ repl @ subst_all needle repl (drop (length needle) p))"
  by pat_completeness auto
termination
proof (relation "measure (\<lambda>(needle, repl, s). length s)", goal_cases)
  case 1
  show ?case by simp
next
  case (2 needle repl s p)
  have "length p \<le> length s" using 2(2) by (rule strstr_length)
  moreover have "p \<noteq> []" using strstr_suffix [OF 2(2)] 2(1) by auto
  ultimately show ?case using 2(1) by (cases needle; cases p) auto
qed

declare subst_all.simps [simp del] str_replace_loop.simps [simp del]

lemma str_replace_loop_subst:
  "pos \<le> length hay \<Longrightarrow>
     fst (str_replace_loop hay pos n needle repl) = take pos hay @ subst_all needle repl (drop pos hay)"
proof (induction hay pos n needle repl rule: str_replace_loop.induct)
  case (1 hay pos n needle repl)
  note simps = str_replace_loop.simps [of hay pos n needle repl]
    subst_all.simps [of needle repl "drop pos hay"]
  show ?case
  proof (cases "needle = []")
    case True
    with simps show ?thesis by simp
  next
    case False
    show ?thesis
    proof (cases "strstr (drop pos hay) needle")
      case None
      with False show ?thesis by (simp add: simps)
    next
      case (Some p2)
      let ?head = "take pos hay @ before_str (drop pos hay) needle"
      let ?new = "?head @ repl @ drop (length needle) p2"
      have "fst (str_replace_loop ?new (length ?head + length repl) (Suc n) needle repl) =
          take (length ?head + length repl) ?new @
          subst_all needle repl (drop (length ?head + length repl) ?new)"
        by (rule "1.IH" [OF False Some refl]) simp
      with False Some "1.prems" show ?thesis by (simp add: simps Let_def min.absorb2)
    qed
  qed
qed

lemma subst_all_char: "subst_all [a] [b] s = map (\<lambda>c. if c = a then b else c) s"
proof (induction s)
  case Nil
  then show ?case by (simp add: subst_all.simps [of _ _ "[]"])
next
  case (Cons c s)
  show ?case
  proof (cases "c = a")
    case True
    with Cons show ?thesis by (subst subst_all.simps) simp
  next
    case False
    have "subst_all [a] [b] (c # s) = c # subst_all [a] [b] s"
      using False by (subst (1 2) subst_all.simps) (auto split: option.splits)
    with False Cons show ?thesis by simp
  qed
qed

lemma str_replace_char:
  "fst (dc_str_replace (Some h) (Some [a]) (Some [b])) = Some (map (\<lambda>c. if c = a then b else c) h)"
  using str_replace_loop_subst [of 0 h 0 "[a]" "[b]"]
  by (auto simp: dc_str_replace_def dc_strdup_def subst_all_char split: prod.splits)

lemma unat_of_char [simp]: "unat (of_char c :: u8) = byte_of c"
proof -
  have "(of_char c :: u8) = of_nat (byte_of c)" by (simp add: of_char_def)
  then show ?thesis by (simp add: unat_of_nat)
qed

lemma utf8_lead_ascii: "byte_of c \<le> 0x7f \<Longrightarrow> byte_of c > 0 \<Longrightarrow> utf8_lead c cs = Some 0"
  by (simp add: utf8_lead_def word_less_nat_alt word_le_nat_alt)

lemma utf8_scan_ascii: "\<forall>c \<in> set s. 0 < byte_of c \<and> byte_of c \<le> 0x7f \<Longrightarrow> utf8_scan s"
  by (induction s) (auto simp: utf8_lead_ascii)

lemma replace_bad_utf8_length [simp]: "length (dc_replace_bad_utf8_chars s) = length s"
  by (simp add: dc_replace_bad_utf8_chars_def)

lemma replace_bad_utf8_scan:
  "CHR 0x00 \<notin> set s \<Longrightarrow> utf8_scan (dc_replace_bad_utf8_chars s)"
  unfolding dc_replace_bad_utf8_chars_def
  by (auto intro!: utf8_scan_ascii simp: not_less byte_of_pos)

lemma strnlen_le: "dc_utf8_strnlen s n \<le> n"
  by (induction s n rule: dc_utf8_strnlen.induct) auto

lemma truncate_loop_length:
  "length (truncate_loop pre s w n u) \<le> length pre + length s"
  by (induction pre s w n u rule: truncate_loop.induct) auto

lemma truncate_unwrap_length: "length (dc_truncate_n_unwrap_str s n u) \<le> length s"
  using truncate_loop_length [of "[]" s False n u]
  by (auto simp: dc_truncate_n_unwrap_str_def remove_cr_conv Let_def intro: le_trans [OF length_filter_le])

lemma rewind_to_space_Some:
  "\<exists>i < n. buf ! i = CHR '' '' \<or> buf ! i = NL \<Longrightarrow>
     \<exists>k. rewind_to_space buf n = Some k \<and> 0 < k \<and> k \<le> n \<and> (buf ! (k - 1) = CHR '' '' \<or> buf ! (k - 1) = NL)"
proof (induction n)
  case 0
  then show ?case by simp
next
  case (Suc n)
  show ?case
  proof (cases "buf ! n = CHR '' '' \<or> buf ! n = NL")
    case True
    then show ?thesis by auto
  next
    case False
    with Suc.prems have "\<exists>i < n. buf ! i = CHR '' '' \<or> buf ! i = NL" by (auto simp: less_Suc_eq)
    with Suc.IH False show ?thesis by (auto intro: le_SucI)
  qed
qed

lemma truncate_str_safe:
  "\<exists>r. dc_truncate_str buf n = Some r \<and> length r \<le> length buf \<and>
       (n > 0 \<longrightarrow> length r \<le> nat n + length DC_EDITORIAL_ELLIPSE)"
proof -
  let ?cut = "take (nat n) buf"
  have "\<exists>k. rewind_to_space ?cut (length ?cut) = Some k \<and> k \<le> length ?cut"
    if "strchr ?cut (CHR '' '') \<noteq> None"
  proof -
    from that have "CHR '' '' \<in> set ?cut" by (simp add: strchr_None)
    then have "\<exists>i < length ?cut. ?cut ! i = CHR '' '' \<or> ?cut ! i = NL"
      by (metis in_set_conv_nth)
    from rewind_to_space_Some [OF this] show ?thesis by blast
  qed
  then show ?thesis
    by (auto simp: dc_truncate_str_def Let_def split: option.splits)
qed

fun join_lines :: "string list \<Rightarrow> string" where
  "join_lines [] = []"
| "join_lines [l] = l"
| "join_lines (l # ls) = l @ NL # join_lines ls"

lemma split_loop_Nil [simp]: "split_loop line s \<noteq> []"
  by (induction line s rule: split_loop.induct) auto

lemma join_split_loop: "join_lines (split_loop line s) = line @ s"
proof (induction line s rule: split_loop.induct)
  case (1 line)
  then show ?case by simp
next
  case (2 line c cs)
  then show ?case by (cases "split_loop [] cs") (auto split: if_splits)
qed

lemma split_loop_no_nl: "NL \<notin> set line \<Longrightarrow> \<forall>l \<in> set (split_loop line s). NL \<notin> set l"
  by (induction line s rule: split_loop.induct) auto

lemma split_lines_join: "join_lines (dc_split_into_lines s) = s"
  by (simp add: dc_split_into_lines_def join_split_loop)

lemma split_lines_no_nl: "l \<in> set (dc_split_into_lines s) \<Longrightarrow> NL \<notin> set l"
  using split_loop_no_nl [of "[]" s] by (simp add: dc_split_into_lines_def)

lemma split_lines_Nil [simp]: "dc_split_into_lines s \<noteq> []"
  by (simp add: dc_split_into_lines_def)

lemma breaks_loop_filter:
  "\<forall>c \<in> set s. c \<notin> set brk \<Longrightarrow> filter (\<lambda>c. c \<notin> set brk) (breaks_loop s a e brk) = s"
  by (induction s a e brk rule: breaks_loop.induct) (auto simp: filter_empty_conv)

lemma breaks_loop_length:
  assumes "a < e"
  shows "length (breaks_loop s a e brk) \<le> length s + ((a + length s) div e) * length brk"
  using assms
proof (induction s a e brk rule: breaks_loop.induct)
  case (1 a e brk)
  then show ?case by simp
next
  case (2 c cs a e brk)
  show ?case
  proof (cases "Suc a = e \<and> cs \<noteq> []")
    case True
    then have "Suc (a + length cs) = length cs + e" by auto
    then have "Suc (a + length cs) div e = Suc (length cs div e)"
      using 2(3) by (simp only: div_add_self2)
    with True 2 show ?thesis by (simp add: algebra_simps)
  next
    case False
    show ?thesis
    proof (cases "Suc a < e")
      case True
      with False 2 show ?thesis by auto
    next
      case False': False
      with False 2(3) have "cs = []" by auto
      with False show ?thesis by simp
    qed
  qed
qed

lemma insert_breaks_fits:
  assumes "0 < every"
  shows "length (dc_insert_breaks (Some s) every (Some brk)) < breaks_alloc s (nat every) brk"
  using breaks_loop_length [of 0 "nat every" s brk] assms
  by (simp add: dc_insert_breaks_def breaks_alloc_def)

section \<open>Time stamps\<close>

text \<open>
  \<open>last_smeared_timestamp\<close> of the context is the state, \<open>now\<close> the value of \<open>time(NULL)\<close>;
  the mutex makes each operation atomic.  \<open>time_t\<close> is a 64-bit count of seconds, far from
  its bounds.
\<close>

definition DC_MAX_SECONDS_TO_LEND_FROM_FUTURE :: int where
  "DC_MAX_SECONDS_TO_LEND_FROM_FUTURE = 5"

definition dc_create_smeared_timestamp :: "int \<Rightarrow> int \<Rightarrow> int \<times> int" where
  "dc_create_smeared_timestamp last_smeared now =
     (let ret = (if now \<le> last_smeared
                 then (let r = last_smeared + 1 in
                       if r - now > DC_MAX_SECONDS_TO_LEND_FROM_FUTURE
                       then now + DC_MAX_SECONDS_TO_LEND_FROM_FUTURE else r)
                 else now)
      in (ret, ret))"

definition dc_create_smeared_timestamps :: "int \<Rightarrow> int \<Rightarrow> int \<Rightarrow> int \<times> int" where
  "dc_create_smeared_timestamps last_smeared now cnt =
     (let start = now + min cnt DC_MAX_SECONDS_TO_LEND_FROM_FUTURE - cnt;
          start = max (last_smeared + 1) start
      in (start, start + (cnt - 1)))"

definition dc_smeared_time :: "int \<Rightarrow> int \<Rightarrow> int" where
  "dc_smeared_time last_smeared now = (if last_smeared \<ge> now then last_smeared + 1 else now)"

lemma smeared_timestamp_fresh:
  assumes "dc_create_smeared_timestamp l now = (r, l')"
  shows "l' = r" "now \<le> r" "r \<le> now + 5" "l < now + 5 \<Longrightarrow> l < r"
  using assms by (auto simp: dc_create_smeared_timestamp_def DC_MAX_SECONDS_TO_LEND_FROM_FUTURE_def
      Let_def split: if_splits)

lemma smeared_timestamps_block:
  assumes "dc_create_smeared_timestamps l now n = (s, l')" "0 < n"
  shows "l < s" "l' = s + n - 1" "l < now - n \<Longrightarrow> s + n - 1 \<le> now + 4"
  using assms by (auto simp: dc_create_smeared_timestamps_def DC_MAX_SECONDS_TO_LEND_FROM_FUTURE_def
      Let_def)

section \<open>Ids\<close>

definition id_chars :: string where
  "id_chars = ''ABCDEFGHIJKLMNOPQRSTUVWXYZabcdefghijklmnopqrstuvwxyz0123456789-_''"

definition id_char :: "u32 \<Rightarrow> char" where
  "id_char w = id_chars ! unat w"

definition encode_66bits_as_base64 :: "u32 \<Rightarrow> u32 \<Rightarrow> u32 \<Rightarrow> string" where
  "encode_66bits_as_base64 v1 v2 fill =
     [id_char (drop_bit 26 v1 AND 0x3F),
      id_char (drop_bit 20 v1 AND 0x3F),
      id_char (drop_bit 14 v1 AND 0x3F),
      id_char (drop_bit 8 v1 AND 0x3F),
      id_char (drop_bit 2 v1 AND 0x3F),
      id_char ((push_bit 4 v1 AND 0x30) OR (drop_bit 28 v2 AND 0x0F)),
      id_char (drop_bit 22 v2 AND 0x3F),
      id_char (drop_bit 16 v2 AND 0x3F),
      id_char (drop_bit 10 v2 AND 0x3F),
      id_char (drop_bit 4 v2 AND 0x3F),
      id_char ((push_bit 2 v2 AND 0x3C) OR (fill AND 0x03))]"

text \<open>\<open>buf\<close> are the 96 random bits of \<open>RAND_bytes\<close>.\<close>

definition dc_create_id :: "u32 \<times> u32 \<times> u32 \<Rightarrow> string" where
  "dc_create_id buf = (case buf of (b0, b1, b2) \<Rightarrow> encode_66bits_as_base64 b0 b1 b2)"

definition dc_create_dummy_references_mid :: "u32 \<times> u32 \<times> u32 \<Rightarrow> string" where
  "dc_create_dummy_references_mid buf = ''Rf.'' @ dc_create_id buf @ ''@mr.thread''"

text \<open>\<open>rand1\<close> is only drawn when there is no group id.\<close>

definition dc_create_outgoing_rfc724_mid ::
  "cptr \<Rightarrow> string \<Rightarrow> u32 \<times> u32 \<times> u32 \<Rightarrow> u32 \<times> u32 \<times> u32 \<Rightarrow> string" where
  "dc_create_outgoing_rfc724_mid grpid from_addr buf1 buf2 =
     (let rand2 = dc_create_id buf2;
          at_hostname = (case strchr from_addr (CHR ''@'') of Some h \<Rightarrow> h | None \<Rightarrow> ''@nohost'')
      in case grpid of
           Some g \<Rightarrow> ''Gr.'' @ g @ ''.'' @ rand2 @ at_hostname
         | None \<Rightarrow> ''Mr.'' @ dc_create_id buf1 @ ''.'' @ rand2 @ at_hostname)"

definition DC_INVALID_TIMESTAMP :: int where
  "DC_INVALID_TIMESTAMP = -1"

fun largest_id_loop :: "dc_array_t option \<Rightarrow> nat \<Rightarrow> nat \<Rightarrow> u32 \<Rightarrow> u32" where
  "largest_id_loop p i 0 largest = largest"
| "largest_id_loop p i (Suc k) largest =
     (let cur_id = dc_array_get_id p i in
      largest_id_loop p (Suc i) k (if cur_id > largest then cur_id else largest))"

definition dc_create_incoming_rfc724_mid :: "int \<Rightarrow> u32 \<Rightarrow> dc_array_t option \<Rightarrow> cptr" where
  "dc_create_incoming_rfc724_mid message_timestamp contact_id_from contact_ids_to =
     (if message_timestamp = DC_INVALID_TIMESTAMP \<or> contact_ids_to = None \<or>
         dc_array_get_cnt contact_ids_to = 0
      then None
      else Some (show_nat (unat (word_of_int message_timestamp :: u64)) @ ''-'' @
                 show_nat (unat contact_id_from) @ ''-'' @
                 show_nat (unat (largest_id_loop contact_ids_to 0
                                   (dc_array_get_cnt contact_ids_to) 0)) @ ''@stub''))"

definition DC_CREATE_ID_LEN :: nat where "DC_CREATE_ID_LEN = 11"
definition DC_ALSO_VALID_ID_LEN :: nat where "DC_ALSO_VALID_ID_LEN = 16"

definition dc_extract_grpid_from_rfc724_mid :: "cptr \<Rightarrow> cptr" where
  "dc_extract_grpid_from_rfc724_mid p =
     (case p of None \<Rightarrow> None
      | Some mid \<Rightarrow>
          if length mid < 8 \<or> mid ! 0 \<noteq> CHR ''G'' \<or> mid ! 1 \<noteq> CHR ''r'' \<or> mid ! 2 \<noteq> CHR ''.''
          then None
          else let grpid = drop 3 mid in
               case strchr grpid (CHR ''.'') of
                 None \<Rightarrow> None
               | Some p1 \<Rightarrow>
                   let grpid = take (length grpid - length p1) grpid in
                   if length grpid \<noteq> DC_CREATE_ID_LEN \<and> length grpid \<noteq> DC_ALSO_VALID_ID_LEN
                   then None else Some grpid)"

fun grpid_list_loop :: "cptr list \<Rightarrow> cptr" where
  "grpid_list_loop [] = None"
| "grpid_list_loop (mid # rest) =
     (case dc_extract_grpid_from_rfc724_mid mid of Some g \<Rightarrow> Some g | None \<Rightarrow> grpid_list_loop rest)"

definition dc_extract_grpid_from_rfc724_mid_list :: "cptr list option \<Rightarrow> cptr" where
  "dc_extract_grpid_from_rfc724_mid_list p =
     (case p of None \<Rightarrow> None | Some l \<Rightarrow> grpid_list_loop l)"

subsection \<open>Lemmas on ids\<close>

lemma id_chars_length: "length id_chars = 64"
  by (simp add: id_chars_def)

lemma id_chars_distinct: "distinct id_chars"
  by (simp add: id_chars_def)

lemma id_char_inj: "unat v < 64 \<Longrightarrow> unat w < 64 \<Longrightarrow> id_char v = id_char w \<Longrightarrow> v = w"
  using nth_eq_iff_index_eq [OF id_chars_distinct] id_chars_length
  by (simp add: id_char_def word_unat_eq_iff)

text \<open>The masks of the encoder, and the six-bit fields they cut out.\<close>

lemma id_masks:
  "(0x3F :: u32) = mask 6" "(0x0F :: u32) = mask 4" "(0x03 :: u32) = mask 2"
  "(0x30 :: u32) = push_bit 4 (mask 2)" "(0x3C :: u32) = push_bit 2 (mask 4)"
  by (simp_all add: mask_numeral push_bit_eq_mult)

lemma mask_field_less: "(w :: u32) = w AND mask 6 \<Longrightarrow> unat w < 64"
proof -
  assume "w = w AND mask 6"
  then have "w \<le> mask 6" by (metis word_and_le1)
  then have "unat w \<le> unat (mask 6 :: u32)" by (simp add: word_le_nat_alt)
  then show ?thesis by (simp add: mask_numeral)
qed

lemma id_field_less:
  "unat (w AND (0x3F :: u32)) < 64"
  "unat ((v AND 0x3C) OR (w AND (0x03 :: u32))) < 64"
  "unat ((v AND 0x30) OR (w AND (0x0F :: u32))) < 64"
  unfolding id_masks
  by (rule mask_field_less, rule bit_word_eqI, simp add: bit_simps; arith)+

lemma id_field_bits:
  "drop_bit k v AND 0x3F = drop_bit k w AND (0x3F :: u32) \<Longrightarrow> k \<le> i \<Longrightarrow> i < k + 6 \<Longrightarrow>
     bit v i = bit w i"
proof -
  assume e: "drop_bit k v AND 0x3F = drop_bit k w AND (0x3F :: u32)" and i: "k \<le> i" "i < k + 6"
  from e have "bit (drop_bit k v AND 0x3F) (i - k) = bit (drop_bit k w AND (0x3F :: u32)) (i - k)"
    by simp
  with i show ?thesis
    unfolding id_masks by (cases "i < 32") (auto simp: bit_simps dest: bit_imp_le_length)
qed

lemma id_mixed_bits:
  assumes "(push_bit 4 v AND 0x30) OR (drop_bit 28 x AND 0x0F) =
     (push_bit 4 w AND 0x30) OR (drop_bit 28 y AND (0x0F :: u32))"
  shows "i < 2 \<Longrightarrow> bit v i = bit w i" "28 \<le> i \<Longrightarrow> bit x i = bit y i"
proof -
  note b = arg_cong [OF assms, of "\<lambda>z. bit z j" for j]
  show "bit v i = bit w i" if "i < 2"
    using b [of "i + 4"] that unfolding id_masks by (auto simp: bit_simps)
  show "bit x i = bit y i" if "28 \<le> i"
  proof (cases "i < 32")
    case True
    define j where "j = i - 28"
    with True that have j: "i = 28 + j" "j < 4" by auto
    then show ?thesis using b [of j] unfolding id_masks by (auto simp: bit_simps)
  next
    case False
    then show ?thesis by (auto dest: bit_imp_le_length)
  qed
qed

lemma id_last_bits:
  assumes "(push_bit 2 v AND 0x3C) OR (x AND 0x03) = (push_bit 2 w AND 0x3C) OR (y AND (0x03 :: u32))"
  shows "i < 4 \<Longrightarrow> bit v i = bit w i" "i < 2 \<Longrightarrow> bit x i = bit y i"
proof -
  note b = arg_cong [OF assms, of "\<lambda>z. bit z j" for j]
  show "bit v i = bit w i" if "i < 4"
    using b [of "i + 2"] that unfolding id_masks by (auto simp: bit_simps)
  show "bit x i = bit y i" if "i < 2"
    using b [of i] that unfolding id_masks by (auto simp: bit_simps)
qed

lemma encode_66bits_inject:
  assumes "encode_66bits_as_base64 v1 v2 f = encode_66bits_as_base64 w1 w2 g"
  shows "v1 = w1 \<and> v2 = w2 \<and> f AND 0x03 = g AND 0x03"
proof -
  note eqs = assms [unfolded encode_66bits_as_base64_def list.inject]
  note field = id_char_inj [OF id_field_less(1) id_field_less(1)]
  have mixed: "(push_bit 4 v1 AND 0x30) OR (drop_bit 28 v2 AND 0x0F) =
      (push_bit 4 w1 AND 0x30) OR (drop_bit 28 w2 AND 0x0F)"
    using eqs by (intro id_char_inj id_field_less(3)) simp
  have last: "(push_bit 2 v2 AND 0x3C) OR (f AND 0x03) = (push_bit 2 w2 AND 0x3C) OR (g AND 0x03)"
    using eqs by (intro id_char_inj id_field_less(2)) simp
  have F1: "drop_bit k v1 AND 0x3F = drop_bit k w1 AND 0x3F" if "k \<in> {26, 20, 14, 8, 2}" for k
    using eqs that by (auto intro: field)
  have F2: "drop_bit k v2 AND 0x3F = drop_bit k w2 AND 0x3F" if "k \<in> {22, 16, 10, 4}" for k
    using eqs that by (auto intro: field)
  have "v1 = w1"
  proof (rule bit_word_eqI)
    fix i :: nat assume "i < LENGTH(32)"
    then have "i < 2 \<or> (\<exists>k \<in> {26, 20, 14, 8, 2}. k \<le> i \<and> i < k + 6)"
      by simp arith
    then show "bit v1 i = bit w1 i"
      using id_mixed_bits(1) [OF mixed] F1 id_field_bits by blast
  qed
  moreover have "v2 = w2"
  proof (rule bit_word_eqI)
    fix i :: nat assume "i < LENGTH(32)"
    then have "i < 4 \<or> 28 \<le> i \<or> (\<exists>k \<in> {22, 16, 10, 4}. k \<le> i \<and> i < k + 6)"
      by simp arith
    then show "bit v2 i = bit w2 i"
      using id_last_bits(1) [OF last] id_mixed_bits(2) [OF mixed] F2 id_field_bits by blast
  qed
  moreover have "f AND 0x03 = g AND 0x03"
    by (rule bit_word_eqI) (use id_last_bits(2) [OF last] in \<open>auto simp: id_masks bit_simps\<close>)
  ultimately show ?thesis by blast
qed

lemma create_id_length [simp]: "length (dc_create_id b) = DC_CREATE_ID_LEN"
  by (cases b) (simp add: dc_create_id_def encode_66bits_as_base64_def DC_CREATE_ID_LEN_def)

lemma create_id_chars: "c \<in> set (dc_create_id b) \<Longrightarrow> c \<in> set id_chars"
proof -
  have "unat w < 64 \<Longrightarrow> id_char w \<in> set id_chars" for w
    by (simp add: id_char_def id_chars_length)
  then show "c \<in> set (dc_create_id b) \<Longrightarrow> c \<in> set id_chars"
    using id_field_less by (cases b) (auto simp: dc_create_id_def encode_66bits_as_base64_def)
qed

lemma create_id_no_dot: "CHR ''.'' \<notin> set (dc_create_id b)"
proof
  assume "CHR ''.'' \<in> set (dc_create_id b)"
  then have "CHR ''.'' \<in> set id_chars" by (rule create_id_chars)
  then show False by (simp add: id_chars_def)
qed

lemma extract_grpid_outgoing:
  assumes "CHR ''.'' \<notin> set g" "length g = DC_CREATE_ID_LEN \<or> length g = DC_ALSO_VALID_ID_LEN"
  shows "dc_extract_grpid_from_rfc724_mid (Some (dc_create_outgoing_rfc724_mid (Some g) addr b1 b2)) = Some g"
proof -
  let ?h = "case strchr addr (CHR ''@'') of Some h \<Rightarrow> h | None \<Rightarrow> ''@nohost''"
  let ?t = "CHR ''.'' # dc_create_id b2 @ ?h"
  have mid: "dc_create_outgoing_rfc724_mid (Some g) addr b1 b2 = ''Gr.'' @ g @ ?t"
    by (simp add: dc_create_outgoing_rfc724_mid_def Let_def)
  have "strchr (g @ ?t) (CHR ''.'') = Some ?t"
    using assms(1) by (induction g) auto
  then show ?thesis
    using assms(2) unfolding mid
    by (auto simp: dc_extract_grpid_from_rfc724_mid_def Let_def DC_CREATE_ID_LEN_def
        DC_ALSO_VALID_ID_LEN_def)
qed

lemma extract_grpid_shape:
  assumes "dc_extract_grpid_from_rfc724_mid (Some mid) = Some g"
  shows "\<exists>rest. mid = ''Gr.'' @ g @ CHR ''.'' # rest \<and> CHR ''.'' \<notin> set g \<and>
           (length g = DC_CREATE_ID_LEN \<or> length g = DC_ALSO_VALID_ID_LEN)"
proof -
  from assms obtain p1 where len: "\<not> length mid < 8"
    and m: "mid ! 0 = CHR ''G''" "mid ! 1 = CHR ''r''" "mid ! 2 = CHR ''.''"
    and p1: "strchr (drop 3 mid) (CHR ''.'') = Some p1"
    and g: "g = take (length (drop 3 mid) - length p1) (drop 3 mid)"
    and l: "length g = DC_CREATE_ID_LEN \<or> length g = DC_ALSO_VALID_ID_LEN"
    by (auto simp: dc_extract_grpid_from_rfc724_mid_def Let_def split: option.splits if_splits)
  from len obtain a b c r where abc: "mid = a # b # c # r"
    by (cases mid rule: list.exhaust; cases "tl mid"; cases "tl (tl mid)") auto
  with m have mid: "mid = ''Gr.'' @ r" by simp
  with p1 have "strchr r (CHR ''.'') = Some p1" by simp
  then have p1': "p1 = dropWhile (\<lambda>x. x \<noteq> CHR ''.'') r" and "CHR ''.'' \<in> set r"
    using strchr_Some by blast+
  then have p1_hd: "\<exists>q. p1 = CHR ''.'' # q" by (simp add: dropWhile_neq_Cons)
  have tw: "r = takeWhile (\<lambda>x. x \<noteq> CHR ''.'') r @ p1" by (simp add: p1')
  then have "length r = length (takeWhile (\<lambda>x. x \<noteq> CHR ''.'') r) + length p1"
    by (metis length_append)
  then have "g = takeWhile (\<lambda>x. x \<noteq> CHR ''.'') r"
    using g mid tw by (metis add_diff_cancel_right' append_eq_conv_conj drop_append
        drop_eq_Nil diff_self_eq_0 le_refl append_Nil drop0 length_append list.size(3) list.size(4)
        numeral_3_eq_3 One_nat_def plus_1_eq_Suc add.right_neutral Suc_eq_plus1)
  with tw p1_hd mid l show ?thesis by (metis takeWhile_notin)
qed

section \<open>File names\<close>

definition dc_get_filename :: "string \<Rightarrow> string" where
  "dc_get_filename path =
     (case (case strrchr path (CHR ''/'') of
              None \<Rightarrow> strrchr path (CHR 0x5C) | Some p \<Rightarrow> Some p) of
        Some p \<Rightarrow> dc_strdup (Some (tl p))
      | None \<Rightarrow> dc_strdup (Some path))"

definition dc_get_filesuffix_lc :: "cptr \<Rightarrow> cptr" where
  "dc_get_filesuffix_lc path =
     (case path of None \<Rightarrow> None
      | Some s \<Rightarrow> (case strrchr s (CHR ''.'') of Some p \<Rightarrow> Some (dc_strlower (tl p)) | None \<Rightarrow> None))"

definition dc_split_filename :: "string \<Rightarrow> string \<times> string" where
  "dc_split_filename path =
     (let basename = dc_get_filename path in
      case strrchr basename (CHR ''.'') of
        Some p1 \<Rightarrow> (take (length basename - length p1) basename, dc_strdup (Some p1))
      | None \<Rightarrow> (basename, dc_strdup None))"

definition dc_validate_filename :: "string \<Rightarrow> string" where
  "dc_validate_filename filename =
     map (\<lambda>c. if c = CHR ''/'' \<or> c = CHR 0x5C \<or> c = CHR '':'' then CHR ''-'' else c) filename"

text \<open>\<open>exists\<close> is \<open>stat(path) \<noteq> -1\<close>, \<open>now\<close> the clock; the loop counter runs from \<open>i\<close>.\<close>

definition fine_candidate :: "string \<Rightarrow> string \<Rightarrow> string \<Rightarrow> int \<Rightarrow> nat \<Rightarrow> string" where
  "fine_candidate folder basename dotNSuffix now i =
     (if i \<noteq> 0 then
        let idx = (if i < 100 then int i else now + int i) in
        folder @ ''/'' @ basename @ ''-'' @ show_nat (unat (word_of_int idx :: u64)) @ dotNSuffix
      else folder @ ''/'' @ basename @ dotNSuffix)"

fun fine_loop :: "(string \<Rightarrow> bool) \<Rightarrow> (nat \<Rightarrow> string) \<Rightarrow> nat \<Rightarrow> nat \<Rightarrow> cptr" where
  "fine_loop exists cand i 0 = None"
| "fine_loop exists cand i (Suc k) =
     (if \<not> exists (cand i) then Some (cand i) else fine_loop exists cand (Suc i) k)"

definition dc_get_fine_pathNfilename :: "(string \<Rightarrow> bool) \<Rightarrow> int \<Rightarrow> string \<Rightarrow> string \<Rightarrow> cptr" where
  "dc_get_fine_pathNfilename exists now folder desired =
     (let filenameNsuffix = dc_validate_filename (dc_strdup (Some desired)) in
      case dc_split_filename filenameNsuffix of
        (basename, dotNSuffix) \<Rightarrow>
          fine_loop exists (fine_candidate folder basename dotNSuffix now) 0 1000)"

lemma validate_filename_clean:
  "CHR ''/'' \<notin> set (dc_validate_filename s) \<and> CHR 0x5C \<notin> set (dc_validate_filename s)"
  by (auto simp: dc_validate_filename_def)

lemma get_filename_no_slash: "CHR ''/'' \<notin> set (dc_get_filename s)"
proof (cases "strrchr s (CHR ''/'')")
  case None
  then have n: "CHR ''/'' \<notin> set s" by (simp add: strrchr_None)
  show ?thesis
  proof (cases "strrchr s (CHR 0x5C)")
    case None': None
    with None n show ?thesis by (simp add: dc_get_filename_def dc_strdup_def)
  next
    case (Some p)
    then obtain u v where "s = u @ CHR 0x5C # v" "p = CHR 0x5C # v"
      using strrchr_split by blast
    with None Some n show ?thesis by (auto simp: dc_get_filename_def dc_strdup_def)
  qed
next
  case (Some p)
  then obtain u v where "p = CHR ''/'' # v" "CHR ''/'' \<notin> set v"
    using strrchr_split by blast
  with Some show ?thesis by (simp add: dc_get_filename_def dc_strdup_def)
qed

lemma get_filename_id: "CHR ''/'' \<notin> set s \<Longrightarrow> CHR 0x5C \<notin> set s \<Longrightarrow> dc_get_filename s = s"
  by (simp add: dc_get_filename_def dc_strdup_def strrchr_None [THEN iffD2])

lemma split_filename_join:
  "dc_split_filename path = (b, sfx) \<Longrightarrow> b @ sfx = dc_get_filename path"
  by (auto simp: dc_split_filename_def dc_strdup_def Let_def split: option.splits
      dest!: strrchr_split)

lemma split_filename_suffix:
  "dc_split_filename path = (b, sfx) \<Longrightarrow> sfx = [] \<or> (hd sfx = CHR ''.'' \<and> CHR ''.'' \<notin> set (tl sfx))"
  by (auto simp: dc_split_filename_def dc_strdup_def Let_def split: option.splits
      dest!: strrchr_split)

lemma fine_loop_fresh: "fine_loop ex cand i k = Some r \<Longrightarrow> \<not> ex r \<and> (\<exists>j. r = cand j)"
  by (induction ex cand i k rule: fine_loop.induct) (auto split: if_splits)

lemma fine_loop_finds: "i \<le> j \<Longrightarrow> j < i + k \<Longrightarrow> \<not> ex (cand j) \<Longrightarrow> fine_loop ex cand i k \<noteq> None"
proof (induction ex cand i k rule: fine_loop.induct)
  case (1 ex cand i)
  then show ?case by simp
next
  case (2 ex cand i k)
  then show ?case by (cases "j = i") auto
qed

section \<open>Image dimensions\<close>

text \<open>
  \<open>dc_get_filemeta\<close> reads the dimensions of JPEG, GIF and PNG data.  A read at or behind
  \<open>buf_bytes\<close> is \<open>None\<close>; the result is \<open>Some None\<close> for the return value 0 and
  \<open>Some (Some (width, height))\<close> for 1.
\<close>

definition rd :: "u8 list \<Rightarrow> nat \<Rightarrow> u32 option" where
  "rd buf i = (if i < length buf then Some (ucast (buf ! i)) else None)"

definition rd16be :: "u8 list \<Rightarrow> nat \<Rightarrow> u32 option" where
  "rd16be buf i =
     (case (rd buf i, rd buf (i + 1)) of
        (Some a, Some b) \<Rightarrow> Some (push_bit 8 a + b) | _ \<Rightarrow> None)"

definition rd16le :: "u8 list \<Rightarrow> nat \<Rightarrow> u32 option" where
  "rd16le buf i =
     (case (rd buf i, rd buf (i + 1)) of
        (Some a, Some b) \<Rightarrow> Some (a + push_bit 8 b) | _ \<Rightarrow> None)"

definition rd32be :: "u8 list \<Rightarrow> nat \<Rightarrow> u32 option" where
  "rd32be buf i =
     (case (rd buf i, rd buf (i + 1), rd buf (i + 2), rd buf (i + 3)) of
        (Some a, Some b, Some c, Some d) \<Rightarrow>
          Some (push_bit 24 a + push_bit 16 b + push_bit 8 c + d)
      | _ \<Rightarrow> None)"

definition pair_opt :: "u32 option \<Rightarrow> u32 option \<Rightarrow> (u32 \<times> u32) option option" where
  "pair_opt w h = (case (w, h) of (Some a, Some b) \<Rightarrow> Some (Some (a, b)) | _ \<Rightarrow> None)"

definition sof_marker :: "u32 \<Rightarrow> bool" where
  "sof_marker b \<longleftrightarrow> b \<in> {0xC0, 0xC1, 0xC2, 0xC3, 0xC9, 0xCA, 0xCB}"

text \<open>The \<open>while\<close> loop over the chunks; \<open>Some None\<close> here is leaving the loop.\<close>

function jpeg_loop :: "u8 list \<Rightarrow> nat \<Rightarrow> (u32 \<times> u32) option option" where
  "jpeg_loop buf pos =
     (case rd buf pos of None \<Rightarrow> None
      | Some m \<Rightarrow>
          if m \<noteq> 0xFF then Some None
          else case rd buf (pos + 1) of None \<Rightarrow> None
          | Some k \<Rightarrow>
              if sof_marker k then pair_opt (rd16be buf (pos + 7)) (rd16be buf (pos + 5))
              else case rd16be buf (pos + 2) of None \<Rightarrow> None
              | Some n \<Rightarrow>
                  if pos + (2 + unat n) + 12 > length buf then Some None
                  else jpeg_loop buf (pos + (2 + unat n)))"
  by pat_completeness auto
termination
  by (relation "measure (\<lambda>(buf, pos). length buf - pos)") (auto simp: rd_def split: if_splits)

declare jpeg_loop.simps [simp del]

definition dc_get_filemeta :: "u8 list \<Rightarrow> (u32 \<times> u32) option option" where
  "dc_get_filemeta buf =
     (if length buf < 24 then Some None
      else
        let is = (\<lambda>i v. rd buf i = Some v);
            jpeg = (if is 0 0xFF \<and> is 1 0xD8 \<and> is 2 0xFF then jpeg_loop buf 2 else Some None)
        in
        if jpeg \<noteq> Some None then jpeg
        else if is 0 0x47 \<and> is 1 0x49 \<and> is 2 0x46
        then pair_opt (rd16le buf 6) (rd16le buf 8)
        else if is 0 0x89 \<and> is 1 0x50 \<and> is 2 0x4E \<and> is 3 0x47 \<and> is 4 0x0D \<and> is 5 0x0A \<and>
                is 6 0x1A \<and> is 7 0x0A \<and> is 12 0x49 \<and> is 13 0x48 \<and> is 14 0x44 \<and> is 15 0x52
        then pair_opt (rd32be buf 16) (rd32be buf 20)
        else Some None)"

lemma rd16_in: "i + 1 < length buf \<Longrightarrow> rd16be buf i \<noteq> None" "i + 1 < length buf \<Longrightarrow> rd16le buf i \<noteq> None"
  by (simp_all add: rd16be_def rd16le_def rd_def)

lemma rd32_in: "i + 3 < length buf \<Longrightarrow> rd32be buf i \<noteq> None"
  by (simp add: rd32be_def rd_def)

lemma pair_opt_None: "pair_opt a b = None \<longleftrightarrow> a = None \<or> b = None"
  by (auto simp: pair_opt_def split: option.splits)

lemma jpeg_loop_in_bounds: "pos + 12 \<le> length buf \<Longrightarrow> jpeg_loop buf pos \<noteq> None"
proof (induction buf pos rule: jpeg_loop.induct)
  case (1 buf pos)
  obtain m k n where r: "rd buf pos = Some m" "rd buf (pos + 1) = Some k"
    "rd16be buf (pos + 2) = Some n"
    using "1.prems" rd16_in(1) [of "pos + 2" buf] by (auto simp: rd_def)
  have q: "pair_opt (rd16be buf (pos + 7)) (rd16be buf (pos + 5)) \<noteq> None"
    using "1.prems" rd16_in(1) [of "pos + 7" buf] rd16_in(1) [of "pos + 5" buf]
    by (simp add: pair_opt_None)
  show ?case
  proof (cases "m = 0xFF \<and> \<not> sof_marker k \<and> \<not> pos + (2 + unat n) + 12 > length buf")
    case True
    with "1.IH" [OF r(1) _ r(2) _ r(3)] have "jpeg_loop buf (pos + (2 + unat n)) \<noteq> None"
      by (simp add: add.assoc)
    with True r show ?thesis by (subst jpeg_loop.simps) simp
  next
    case False
    with r q show ?thesis by (subst jpeg_loop.simps) auto
  qed
qed

lemma filemeta_in_bounds: "dc_get_filemeta buf \<noteq> None"
proof (cases "length buf < 24")
  case True
  then show ?thesis by (simp add: dc_get_filemeta_def)
next
  case False
  then have "jpeg_loop buf 2 \<noteq> None" by (intro jpeg_loop_in_bounds) simp
  moreover have "pair_opt (rd16le buf 6) (rd16le buf 8) \<noteq> None"
    "pair_opt (rd32be buf 16) (rd32be buf 20) \<noteq> None"
    using False rd16_in(2) [of 6 buf] rd16_in(2) [of 8 buf] rd32_in [of 16 buf] rd32_in [of 20 buf]
    by (simp_all add: pair_opt_None)
  ultimately show ?thesis
    using False by (simp add: dc_get_filemeta_def Let_def)
qed

lemma exactly_one_bit_set_push: "n < 32 \<Longrightarrow> dc_exactly_one_bit_set (push_bit n 1)"
proof -
  assume n: "n < 32"
  have "push_bit n 1 - 1 = (mask n :: u32)"
    by (simp add: mask_eq_decr_exp push_bit_eq_mult)
  moreover have "push_bit n 1 AND (mask n :: u32) = 0"
    by (rule bit_word_eqI) (simp add: bit_simps)
  moreover have "push_bit n (1 :: u32) \<noteq> 0"
    using n by (simp add: push_bit_eq_mult)
  ultimately show ?thesis by (simp add: dc_exactly_one_bit_set_def)
qed

section \<open>Properties\<close>

text \<open>
  Every outgoing group message id names its group: for each random group id and each
  sender address, \<open>dc_extract_grpid_from_rfc724_mid\<close> gets the group id back from the message id
  that \<open>dc_create_outgoing_rfc724_mid\<close> built; and an id is only ever extracted from a text of
  that form.
\<close>

theorem grpid_in_message_id:
  "dc_extract_grpid_from_rfc724_mid
     (Some (dc_create_outgoing_rfc724_mid (Some (dc_create_id b)) from_addr b1 b2)) =
       Some (dc_create_id b) \<and>
   (dc_extract_grpid_from_rfc724_mid (Some mid) = Some g \<longrightarrow>
      (\<exists>rest. mid = ''Gr.'' @ g @ ''.'' @ rest) \<and>
      (length g = DC_CREATE_ID_LEN \<or> length g = DC_ALSO_VALID_ID_LEN))"
  using extract_grpid_outgoing [OF create_id_no_dot, of b from_addr b1 b2]
    extract_grpid_shape [of mid g] by auto

theorem grpid_in_message_id_witness:
  "\<exists>rest. ''Gr.abcdefghijk.x@y'' = ''Gr.'' @ ''abcdefghijk'' @ ''.'' @ rest"
proof -
  have "dc_extract_grpid_from_rfc724_mid (Some ''Gr.abcdefghijk.x@y'') = Some ''abcdefghijk''"
    by (simp add: dc_extract_grpid_from_rfc724_mid_def Let_def DC_CREATE_ID_LEN_def)
  with grpid_in_message_id [of "(1, 2, 3)" "''a@b''" "(0, 0, 0)" "(0, 0, 0)"
      "''Gr.abcdefghijk.x@y''" "''abcdefghijk''"]
  show ?thesis by blast
qed

text \<open>
  The 66-bit ids lose nothing: two random draws give the same id only when both 32-bit
  words and the two low bits of the filler are the same.  Every id has eleven characters of
  the URL-safe base-64 alphabet.
\<close>

theorem create_id_faithful:
  "(dc_create_id (v1, v2, f) = dc_create_id (w1, w2, g) \<longleftrightarrow>
      v1 = w1 \<and> v2 = w2 \<and> f AND 0x03 = g AND 0x03) \<and>
   length (dc_create_id (v1, v2, f)) = DC_CREATE_ID_LEN \<and>
   set (dc_create_id (v1, v2, f)) \<subseteq> set id_chars"
proof -
  have "dc_create_id (v1, v2, f) = dc_create_id (w1, w2, g) \<longleftrightarrow>
      v1 = w1 \<and> v2 = w2 \<and> f AND 0x03 = g AND 0x03"
  proof
    assume "dc_create_id (v1, v2, f) = dc_create_id (w1, w2, g)"
    then show "v1 = w1 \<and> v2 = w2 \<and> f AND 0x03 = g AND 0x03"
      unfolding dc_create_id_def prod.case by (rule encode_66bits_inject)
  qed (simp add: dc_create_id_def encode_66bits_as_base64_def)
  moreover have "set (dc_create_id (v1, v2, f)) \<subseteq> set id_chars"
    using create_id_chars by blast
  ultimately show ?thesis by simp
qed

lemma show_nat_no_sep: "CHR ''/'' \<notin> set (show_nat n)" "CHR 0x5C \<notin> set (show_nat n)"
  using show_nat_digits [of n] by (auto simp: c_isdigit_def dest: bspec)

lemma fine_candidate_shape:
  assumes "CHR ''/'' \<notin> set (b @ x)" "CHR 0x5C \<notin> set (b @ x)"
  shows "\<exists>name. fine_candidate folder b x now i = folder @ ''/'' @ name \<and>
           CHR ''/'' \<notin> set name \<and> CHR 0x5C \<notin> set name"
  using assms show_nat_no_sep by (auto simp: fine_candidate_def Let_def)

text \<open>
  C39: \<open>dc_get_fine_pathNfilename\<close> never leaves the blob folder and never overwrites: whatever
  name a message suggests, the path returned does not exist yet and is the folder, one slash,
  and a name without any slash or backslash.
\<close>

theorem fine_path_stays_in_folder:
  assumes "dc_get_fine_pathNfilename ex now folder desired = Some p"
  shows "\<not> ex p \<and> (\<exists>name. p = folder @ ''/'' @ name \<and> CHR ''/'' \<notin> set name \<and> CHR 0x5C \<notin> set name)"
proof -
  let ?f = "dc_validate_filename desired"
  obtain b x where bx: "dc_split_filename ?f = (b, x)" by force
  have "b @ x = ?f"
    using split_filename_join [OF bx] validate_filename_clean [of desired]
    by (simp add: get_filename_id)
  then have "CHR ''/'' \<notin> set (b @ x)" "CHR 0x5C \<notin> set (b @ x)"
    using validate_filename_clean [of desired] by simp_all
  moreover have "fine_loop ex (fine_candidate folder b x now) 0 1000 = Some p"
    using assms bx by (simp add: dc_get_fine_pathNfilename_def dc_strdup_def Let_def)
  then obtain j where "\<not> ex p" "p = fine_candidate folder b x now j"
    using fine_loop_fresh by blast
  ultimately show ?thesis using fine_candidate_shape by blast
qed

theorem fine_path_stays_in_folder_witness:
  "\<exists>name. ''/b/..-x.txt'' = ''/b'' @ ''/'' @ name \<and> CHR ''/'' \<notin> set name"
proof -
  have "dc_get_fine_pathNfilename (\<lambda>_. False) 7 ''/b'' ''../x.txt'' = Some ''/b/..-x.txt''"
    by code_simp
  from fine_path_stays_in_folder [OF this] show ?thesis by blast
qed

text \<open>
  \<open>dc_replace_bad_utf8_chars\<close> always leaves text that its own check accepts, of the same
  length, does not touch text that was accepted, and a second run changes nothing.
\<close>

theorem replace_bad_utf8_repairs:
  assumes "CHR 0x00 \<notin> set s"
  shows "utf8_scan (dc_replace_bad_utf8_chars s) \<and>
      length (dc_replace_bad_utf8_chars s) = length s \<and>
      (utf8_scan s \<longrightarrow> dc_replace_bad_utf8_chars s = s) \<and>
      (\<forall>i < length s. byte_of (s ! i) \<le> 0x7f \<longrightarrow> dc_replace_bad_utf8_chars s ! i = s ! i) \<and>
      dc_replace_bad_utf8_chars (dc_replace_bad_utf8_chars s) = dc_replace_bad_utf8_chars s"
proof -
  have ok: "utf8_scan (dc_replace_bad_utf8_chars s)" using assms by (rule replace_bad_utf8_scan)
  then have "dc_replace_bad_utf8_chars (dc_replace_bad_utf8_chars s) = dc_replace_bad_utf8_chars s"
    by (simp add: dc_replace_bad_utf8_chars_def [of "dc_replace_bad_utf8_chars s"])
  with ok show ?thesis by (auto simp: dc_replace_bad_utf8_chars_def)
qed

theorem replace_bad_utf8_repairs_witness:
  "utf8_scan (dc_replace_bad_utf8_chars [CHR ''a'', CHR 0xF6, CHR ''b''])"
  using replace_bad_utf8_repairs [of "[CHR ''a'', CHR 0xF6, CHR ''b'']"] by simp

text \<open>
  The image reader never reads outside the file it was given, whatever the chunk lengths
  in a JPEG say, and its loop ends on every input.
\<close>

theorem filemeta_never_overreads:
  "dc_get_filemeta buf \<noteq> None"
  by (rule filemeta_in_bounds)

text \<open>
  Both shortening functions stay inside the buffer they edit in place: the result is never
  longer than the text was, \<open>dc_truncate_str\<close> never reads in front of the buffer while it looks
  for a space, and cuts to the wanted length plus the ellipsis.
\<close>

theorem truncation_stays_in_buffer:
  "length (dc_truncate_n_unwrap_str s n u) \<le> length s \<and>
   (\<exists>r. dc_truncate_str s n = Some r \<and> length r \<le> length s \<and>
        (0 < n \<longrightarrow> length r \<le> nat n + length DC_EDITORIAL_ELLIPSE))"
  using truncate_unwrap_length truncate_str_safe by blast

theorem truncation_stays_in_buffer_witness:
  "\<exists>r. dc_truncate_str ''a long subject line'' 8 = Some r \<and> length r \<le> 13"
  using truncation_stays_in_buffer [of "''a long subject line''" 8 True]
  by (auto simp: DC_EDITORIAL_ELLIPSE_def)

end
