(* ===== verification/Strbuilder.thy ===== *)
theory Strbuilder
  imports Tools
begin

text \<open>
  \<open>src/dc_strbuilder.c\<close>: the string builder.  \<open>sb_block\<close> is the number of bytes the last
  \<open>malloc\<close> or \<open>realloc\<close> really asked for; the code's own account of it, \<open>sb_allocated\<close> and
  \<open>sb_free\<close>, is kept beside it.  \<open>eos\<close> always points at the terminating null byte, so its
  offset is the length of the text.  Sizes are \<open>int\<close>; texts are assumed to stay far below
  \<open>2 ^ 31\<close> bytes.  A write outside the block makes the result \<open>None\<close>.
\<close>

record dc_strbuilder_t =
  sb_text :: string
  sb_allocated :: int
  sb_free :: int
  sb_block :: int

definition dc_strbuilder_init :: "int \<Rightarrow> dc_strbuilder_t" where
  "dc_strbuilder_init init_bytes =
     (let n = max init_bytes 128 in
      \<lparr>sb_text = [], sb_allocated = n, sb_free = n - 1, sb_block = n\<rparr>)"

text \<open>The reallocation in front of the copy.\<close>

definition sb_reserve :: "dc_strbuilder_t \<Rightarrow> int \<Rightarrow> dc_strbuilder_t" where
  "sb_reserve sb len =
     (if len > sb_free sb then
        let add_bytes = max len (sb_allocated sb);
            allocated = sb_allocated sb + add_bytes in
        sb\<lparr>sb_allocated := allocated,
           sb_block := allocated + add_bytes,
           sb_free := sb_free sb + add_bytes\<rparr>
      else sb)"

text \<open>The first component is the offset of the returned pointer, \<open>None\<close> for \<open>NULL\<close>.\<close>

definition dc_strbuilder_cat ::
  "dc_strbuilder_t \<Rightarrow> cptr \<Rightarrow> (nat option \<times> dc_strbuilder_t) option" where
  "dc_strbuilder_cat sb p =
     (case p of None \<Rightarrow> Some (None, sb)
      | Some str \<Rightarrow>
          let len = int (length str); sb = sb_reserve sb len; ret = length (sb_text sb) in
          if int ret + len + 1 > sb_block sb then None
          else Some (Some ret, sb\<lparr>sb_text := sb_text sb @ str, sb_free := sb_free sb - len\<rparr>))"

definition dc_strbuilder_empty :: "dc_strbuilder_t \<Rightarrow> dc_strbuilder_t" where
  "dc_strbuilder_empty sb = sb\<lparr>sb_text := [], sb_free := sb_allocated sb - 1\<rparr>"

definition sb_ok :: "dc_strbuilder_t \<Rightarrow> bool" where
  "sb_ok sb \<longleftrightarrow> 128 \<le> sb_allocated sb \<and> sb_allocated sb \<le> sb_block sb \<and> 0 \<le> sb_free sb \<and>
     sb_free sb = sb_allocated sb - 1 - int (length (sb_text sb))"

lemma sb_ok_init [simp, inv_intros]: "sb_ok (dc_strbuilder_init n)"
  by (simp add: sb_ok_def dc_strbuilder_init_def Let_def)

lemma sb_text_init [simp]: "sb_text (dc_strbuilder_init n) = []"
  by (simp add: dc_strbuilder_init_def Let_def)

lemma sb_ok_empty [inv_intros]: "sb_ok sb \<Longrightarrow> sb_ok (dc_strbuilder_empty sb)"
  by (simp add: sb_ok_def dc_strbuilder_empty_def)

lemma sb_reserve_ok:
  assumes "sb_ok sb" "0 \<le> n"
  shows "sb_ok (sb_reserve sb n)" "n \<le> sb_free (sb_reserve sb n)"
    "sb_text (sb_reserve sb n) = sb_text sb"
  using assms by (auto simp: sb_ok_def sb_reserve_def Let_def)

lemma cat_ok:
  assumes "sb_ok sb"
  shows "\<exists>t. dc_strbuilder_cat sb (Some str) = Some (Some (length (sb_text sb)), t) \<and> sb_ok t \<and>
             sb_text t = sb_text sb @ str"
proof -
  let ?r = "sb_reserve sb (int (length str))"
  have r: "sb_ok ?r" "int (length str) \<le> sb_free ?r" "sb_text ?r = sb_text sb"
    using sb_reserve_ok [OF assms, of "int (length str)"] by auto
  then show ?thesis by (auto simp: dc_strbuilder_cat_def Let_def sb_ok_def)
qed

text \<open>Chains of \<open>dc_strbuilder_cat\<close> calls whose returned pointers are not used.\<close>

definition sb_cat :: "dc_strbuilder_t \<Rightarrow> string \<Rightarrow> dc_strbuilder_t option" where
  "sb_cat sb str = map_option snd (dc_strbuilder_cat sb (Some str))"

lemma sb_cat_ok: "sb_ok sb \<Longrightarrow> \<exists>t. sb_cat sb str = Some t \<and> sb_ok t \<and> sb_text t = sb_text sb @ str"
  using cat_ok [of sb str] by (auto simp: sb_cat_def)

lemma push_all_sb_cat:
  "sb_ok sb \<Longrightarrow> \<exists>t. push_all sb_cat sb ts = Some t \<and> sb_ok t \<and> sb_text t = sb_text sb @ concat ts"
proof (induction ts arbitrary: sb)
  case Nil
  then show ?case by simp
next
  case (Cons x ts)
  obtain u where u: "sb_cat sb x = Some u" "sb_ok u" "sb_text u = sb_text sb @ x"
    using sb_cat_ok [OF Cons.prems] by blast
  with Cons.IH [OF u(2)] show ?case by auto
qed

section \<open>Properties\<close>

text \<open>
  Any sequence of \<open>dc_strbuilder_cat\<close> calls on a fresh string builder stays inside the
  memory that was really allocated and leaves exactly the concatenation of the texts; the
  builder's own account of its free bytes stays correct throughout.
\<close>

theorem strbuilder_concatenates:
  "\<exists>t. push_all sb_cat (dc_strbuilder_init n) ts = Some t \<and> sb_text t = concat ts \<and>
       int (length (sb_text t)) < sb_block t \<and>
       sb_free t = sb_allocated t - 1 - int (length (concat ts)) \<and> 0 \<le> sb_free t"
proof -
  obtain t where "push_all sb_cat (dc_strbuilder_init n) ts = Some t" "sb_ok t"
    "sb_text t = concat ts"
    using push_all_sb_cat [OF sb_ok_init] by fastforce
  then show ?thesis by (auto simp: sb_ok_def)
qed

end
