(* ===== verification/Param.thy ===== *)
theory Param
  imports Tools "HOL-Library.AList"
begin

text \<open>
  \<open>src/dc_param.c\<close>: the packed parameter lists \<open>a=value1\nb=value2\<close> of messages, chats and jobs.
  The model keeps the packed text, as the code does, and edits it the way the code does.  Keys
  are single characters (\<open>int key\<close> is always one of the \<open>DC_PARAM_*\<close> letters); the null key is
  rejected by every operation.
\<close>

type_synonym param = string

abbreviation EQ :: char where "EQ \<equiv> CHR ''=''"

section \<open>Operations\<close>

text \<open>
  \<open>find_param\<close> returns the two pointers \<open>p1\<close> and \<open>p2\<close>; here the text in front of \<open>p1\<close>, the
  text from \<open>p1\<close> to \<open>p2\<close>, and the text from \<open>p2\<close> on.
\<close>

function find_param :: "string \<Rightarrow> string \<Rightarrow> char \<Rightarrow> (string \<times> string \<times> string) option" where
  "find_param pre p1 key =
     (if p1 = [] then None
      else if hd p1 = key \<and> tl p1 \<noteq> [] \<and> hd (tl p1) = EQ
      then Some (pre, takeWhile (\<lambda>c. c \<noteq> NL) p1, dropWhile (\<lambda>c. c \<noteq> NL) p1)
      else case strchr p1 NL of
        None \<Rightarrow> None
      | Some r \<Rightarrow> find_param (pre @ takeWhile (\<lambda>c. c \<noteq> NL) p1 @ [NL]) (tl r) key)"
  by pat_completeness auto
termination
  by (relation "measure (\<lambda>(pre, p1, key). length p1)")
    (auto simp: strchr_conv dropWhile_neq_Cons split: if_splits)

declare find_param.simps [simp del]

definition dc_param_new :: param where
  "dc_param_new = []"

definition dc_param_empty :: "param \<Rightarrow> param" where
  "dc_param_empty param = []"

definition dc_param_set_packed :: "param \<Rightarrow> cptr \<Rightarrow> param" where
  "dc_param_set_packed param packed =
     (let param = dc_param_empty param in
      case packed of None \<Rightarrow> param | Some _ \<Rightarrow> dc_strdup packed)"

definition dc_param_set_urlencoded :: "param \<Rightarrow> cptr \<Rightarrow> param" where
  "dc_param_set_urlencoded param urlencoded =
     (let param = dc_param_empty param in
      case urlencoded of None \<Rightarrow> param
      | Some _ \<Rightarrow> dc_strdup (fst (dc_str_replace (Some (dc_strdup urlencoded)) (Some ''&'') (Some [NL]))))"

definition dc_param_exists :: "param \<Rightarrow> char \<Rightarrow> bool" where
  "dc_param_exists param key = (key \<noteq> CHR 0x00 \<and> find_param [] param key \<noteq> None)"

definition dc_param_get :: "param \<Rightarrow> char \<Rightarrow> cptr \<Rightarrow> cptr" where
  "dc_param_get param key def =
     (if key = CHR 0x00 then dc_strdup_keep_null def
      else case find_param [] param key of
        None \<Rightarrow> dc_strdup_keep_null def
      | Some (_, entry, _) \<Rightarrow> Some (dc_rtrim (drop 2 entry)))"

definition dc_param_get_int :: "param \<Rightarrow> char \<Rightarrow> int \<Rightarrow> int" where
  "dc_param_get_int param key def =
     (if key = CHR 0x00 then def
      else case dc_param_get param key None of
        None \<Rightarrow> def | Some str \<Rightarrow> to_int32 (atol str))"

definition nonempty :: "string \<Rightarrow> cptr" where
  "nonempty s = (if s = [] then None else Some s)"

text \<open>\<open>old1\<close> and \<open>old2\<close> as they are when the new text is built.\<close>

definition dc_param_set :: "param \<Rightarrow> char \<Rightarrow> cptr \<Rightarrow> param" where
  "dc_param_set param key v =
     (if key = CHR 0x00 then param
      else
        let found = find_param [] param key in
        if found = None \<and> v = None then param
        else
          let (old1, old2) = (case found of Some (pre, _, rest) \<Rightarrow> (pre, rest) | None \<Rightarrow> (param, []));
              old1 = nonempty (dc_rtrim old1);
              old2 = nonempty (dc_ltrim old2)
          in case v of
               Some val \<Rightarrow>
                 (case old1 of Some a \<Rightarrow> a | None \<Rightarrow> []) @ (if old1 \<noteq> None then [NL] else []) @
                 [key, EQ] @ val @
                 (if old2 \<noteq> None then [NL] else []) @ (case old2 of Some b \<Rightarrow> b | None \<Rightarrow> [])
             | None \<Rightarrow>
                 (case old1 of Some a \<Rightarrow> a | None \<Rightarrow> []) @
                 (if old1 \<noteq> None \<and> old2 \<noteq> None then [NL] else []) @
                 (case old2 of Some b \<Rightarrow> b | None \<Rightarrow> []))"

definition dc_param_set_int :: "param \<Rightarrow> char \<Rightarrow> int \<Rightarrow> param" where
  "dc_param_set_int param key v =
     (if key = CHR 0x00 then param else dc_param_set param key (Some (show_int v)))"

section \<open>The list of entries a packed text stands for\<close>

definition okk :: "char \<Rightarrow> bool" where
  "okk k \<longleftrightarrow> k \<noteq> CHR 0x00 \<and> \<not> c_isspace k"

definition okv :: "string \<Rightarrow> bool" where
  "okv v \<longleftrightarrow> NL \<notin> set v \<and> (v = [] \<or> \<not> c_isspace (last v))"

definition line :: "char \<times> string \<Rightarrow> string" where
  "line e = fst e # EQ # snd e"

definition pack :: "(char \<times> string) list \<Rightarrow> param" where
  "pack es = join_lines (map line es)"

definition entries :: "param \<Rightarrow> (char \<times> string) list" where
  "entries s = (if s = [] then [] else map (\<lambda>l. (hd l, drop 2 l)) (dc_split_into_lines s))"

definition es_ok :: "(char \<times> string) list \<Rightarrow> bool" where
  "es_ok es \<longleftrightarrow> distinct (map fst es) \<and> (\<forall>(k, v) \<in> set es. okk k \<and> okv v)"

definition param_ok :: "param \<Rightarrow> bool" where
  "param_ok s \<longleftrightarrow> pack (entries s) = s \<and> es_ok (entries s)"

lemma NL_space [simp]: "c_isspace NL"
  by (simp add: c_isspace_def)

lemma okk_NL: "okk k \<Longrightarrow> k \<noteq> NL"
  by (auto simp: okk_def)

lemma es_ok_Nil [simp]: "es_ok []"
  by (simp add: es_ok_def)

lemma es_ok_Cons: "es_ok (e # es) \<longleftrightarrow> okk (fst e) \<and> okv (snd e) \<and> fst e \<notin> fst ` set es \<and> es_ok es"
  by (auto simp: es_ok_def split: prod.splits)

lemma es_ok_append: "es_ok (xs @ ys) \<Longrightarrow> es_ok xs \<and> es_ok ys"
  by (auto simp: es_ok_def)

lemma line_NL: "okk (fst e) \<Longrightarrow> okv (snd e) \<Longrightarrow> NL \<notin> set (line e)"
  using okk_NL [of "fst e"] by (auto simp: line_def okv_def)

lemma line_ends: "okk (fst e) \<Longrightarrow> okv (snd e) \<Longrightarrow>
    line e \<noteq> [] \<and> \<not> c_isspace (hd (line e)) \<and> \<not> c_isspace (last (line e))"
  by (auto simp: line_def okv_def okk_def c_isspace_def)

lemma pack_Nil [simp]: "pack [] = []"
  by (simp add: pack_def)

lemma pack_Cons: "pack (e # es) = line e @ (if es = [] then [] else NL # pack es)"
  by (cases es) (auto simp: pack_def)

lemma pack_eq_Nil [simp]: "pack es = [] \<longleftrightarrow> es = []"
  by (cases es) (auto simp: pack_Cons line_def)

lemma pack_append:
  "pack (xs @ ys) = pack xs @ (if xs \<noteq> [] \<and> ys \<noteq> [] then [NL] else []) @ pack ys"
  by (induction xs) (auto simp: pack_Cons)

lemma pack_hd: "es_ok es \<Longrightarrow> es \<noteq> [] \<Longrightarrow> \<not> c_isspace (hd (pack es))"
  by (cases es) (auto simp: pack_Cons es_ok_Cons line_def okk_def)

lemma pack_last: "es_ok es \<Longrightarrow> es \<noteq> [] \<Longrightarrow> \<not> c_isspace (last (pack es))"
proof (induction es)
  case Nil
  then show ?case by simp
next
  case (Cons e es)
  then show ?case
    using line_ends [of e] by (cases "es = []") (auto simp: pack_Cons es_ok_Cons)
qed

text \<open>The text in front of an entry: every earlier entry with its line end.\<close>

definition lines_before :: "(char \<times> string) list \<Rightarrow> string" where
  "lines_before xs = concat (map (\<lambda>e. line e @ [NL]) xs)"

lemma lines_before_conv: "lines_before xs = pack xs @ (if xs = [] then [] else [NL])"
  by (induction xs) (auto simp: lines_before_def pack_Cons)

lemma rtrim_lines_before: "es_ok xs \<Longrightarrow> dc_rtrim (lines_before xs) = pack xs"
proof (cases "xs = []")
  case True
  then show ?thesis by (simp add: lines_before_def)
next
  case False
  assume ok: "es_ok xs"
  have "dc_rtrim (pack xs @ [NL]) = dc_rtrim (pack xs)" by (simp add: rtrim_conv)
  also have "\<dots> = pack xs" using pack_last [OF ok False] by simp
  finally show ?thesis using False by (simp add: lines_before_conv)
qed

lemma takeWhile_line:
  assumes "okk (fst e)" "okv (snd e)"
  shows "takeWhile (\<lambda>c. c \<noteq> NL) (pack (e # es)) = line e"
    "dropWhile (\<lambda>c. c \<noteq> NL) (pack (e # es)) = (if es = [] then [] else NL # pack es)"
proof -
  have "\<forall>c \<in> set (line e). c \<noteq> NL" using line_NL [OF assms] by auto
  then show "takeWhile (\<lambda>c. c \<noteq> NL) (pack (e # es)) = line e"
    "dropWhile (\<lambda>c. c \<noteq> NL) (pack (e # es)) = (if es = [] then [] else NL # pack es)"
    by (auto simp: pack_Cons takeWhile_append dropWhile_append)
qed

lemma find_param_skip:
  assumes "es_ok (e # es)" "fst e \<noteq> k"
  shows "find_param pre (pack (e # es)) k =
    (if es = [] then None else find_param (pre @ line e @ [NL]) (pack es) k)"
proof -
  have ok: "okk (fst e)" "okv (snd e)" using assms(1) by (auto simp: es_ok_Cons)
  have "strchr (pack (e # es)) NL = (if es = [] then None else Some (NL # pack es))"
    using line_NL [OF ok] takeWhile_line(2) [OF ok, of es] by (auto simp: strchr_conv pack_Cons)
  moreover have "hd (pack (e # es)) \<noteq> k" using assms(2) by (simp add: pack_Cons line_def)
  ultimately show ?thesis
    by (subst find_param.simps) (auto simp: takeWhile_line [OF ok])
qed

lemma find_param_hit:
  assumes "es_ok (e # es)" "fst e = k"
  shows "find_param pre (pack (e # es)) k =
    Some (pre, line e, if es = [] then [] else NL # pack es)"
proof -
  have ok: "okk (fst e)" "okv (snd e)" using assms(1) by (auto simp: es_ok_Cons)
  have "hd (pack (e # es)) = k" "tl (pack (e # es)) \<noteq> []" "hd (tl (pack (e # es))) = EQ"
    using assms(2) by (auto simp: pack_Cons line_def)
  then show ?thesis
    by (subst find_param.simps) (auto simp: takeWhile_line [OF ok])
qed

lemma find_param_None:
  "es_ok es \<Longrightarrow> k \<notin> fst ` set es \<Longrightarrow> find_param pre (pack es) k = None"
proof (induction es arbitrary: pre)
  case Nil
  then show ?case by (simp add: find_param.simps)
next
  case (Cons e es)
  then show ?case using find_param_skip [of e es k pre] by (auto simp: es_ok_Cons)
qed

lemma find_param_Some:
  "es_ok (xs @ (k, v) # ys) \<Longrightarrow>
     find_param pre (pack (xs @ (k, v) # ys)) k =
       Some (pre @ lines_before xs, line (k, v), if ys = [] then [] else NL # pack ys)"
proof (induction xs arbitrary: pre)
  case Nil
  then show ?case using find_param_hit [of "(k, v)" ys k pre] by (simp add: lines_before_def)
next
  case (Cons e xs)
  then have "fst e \<noteq> k" by (auto simp: es_ok_Cons)
  with Cons show ?case
    using find_param_skip [of e "xs @ (k, v) # ys" k pre] by (simp add: es_ok_Cons lines_before_def)
qed

lemma get_pack:
  assumes "es_ok es" "okk k"
  shows "dc_param_get (pack es) k None = map_of es k"
proof (cases "k \<in> fst ` set es")
  case False
  then have "map_of es k = None" by (simp add: map_of_eq_None_iff)
  with False show ?thesis
    using find_param_None [OF assms(1)] by (simp add: dc_param_get_def dc_strdup_keep_null_def)
next
  case True
  then obtain v where "(k, v) \<in> set es" by auto
  then obtain xs ys where es: "es = xs @ (k, v) # ys" by (meson split_list)
  have "k \<notin> fst ` set xs" using assms(1) by (auto simp: es es_ok_def)
  then have "map_of xs k = None" by (simp add: map_of_eq_None_iff)
  then have m: "map_of es k = Some v" by (simp add: es map_add_def)
  have "okv v" using assms(1) by (auto simp: es es_ok_def)
  then have "dc_rtrim v = v" by (auto simp: okv_def)
  with m find_param_Some [of xs k v ys "[]"] assms show ?thesis
    by (simp add: dc_param_get_def es line_def okk_def)
qed

lemma set_pack:
  assumes "es_ok es" "okk k"
  shows "dc_param_set (pack es) k (Some v) = pack (AList.update k v es)"
    "dc_param_set (pack es) k None = pack (AList.delete k es)"
proof -
  have k0: "k \<noteq> CHR 0x00" using assms(2) by (simp add: okk_def)
  have "dc_param_set (pack es) k (Some v) = pack (AList.update k v es) \<and>
        dc_param_set (pack es) k None = pack (AList.delete k es)"
  proof (cases "k \<in> fst ` set es")
    case False
    have rt: "dc_rtrim (pack es) = pack es"
      using pack_last [OF assms(1)] by (cases "es = []") auto
    have "AList.update k v es = es @ [(k, v)]" using False by (induction es) auto
    moreover have "AList.delete k es = es" using False by (simp add: AList.delete_id)
    moreover have "find_param [] (pack es) k = None" using assms(1) False by (rule find_param_None)
    ultimately show ?thesis
      using k0 rt by (auto simp: dc_param_set_def Let_def nonempty_def pack_append pack_Cons line_def)
  next
    case True
    then obtain w where "(k, w) \<in> set es" by auto
    then obtain xs ys where es: "es = xs @ (k, w) # ys" by (meson split_list)
    have nk: "k \<notin> fst ` set xs" "k \<notin> fst ` set ys" using assms(1) by (auto simp: es es_ok_def)
    have ok: "es_ok xs" "es_ok ys"
      using assms(1) es_ok_append [of xs "(k, w) # ys"] by (auto simp: es es_ok_Cons)
    have up: "AList.update k v es = xs @ (k, v) # ys"
      using nk(1) unfolding es by (induction xs) auto
    have de: "AList.delete k es = xs @ ys"
      using nk unfolding es by (induction xs) (auto simp: AList.delete_id)
    have f: "find_param [] (pack es) k =
        Some (lines_before xs, line (k, w), if ys = [] then [] else NL # pack ys)"
      using find_param_Some [of xs k w ys "[]"] assms(1) by (simp add: es)
    have l: "dc_ltrim (NL # pack ys) = pack ys" if "ys \<noteq> []"
      using pack_hd [OF ok(2) that] that by (cases "pack ys") (auto simp: ltrim_conv)
    show ?thesis
      using k0 f l rtrim_lines_before [OF ok(1)]
      by (auto simp: dc_param_set_def Let_def nonempty_def up de pack_append pack_Cons line_def)
  qed
  then show "dc_param_set (pack es) k (Some v) = pack (AList.update k v es)"
    "dc_param_set (pack es) k None = pack (AList.delete k es)" by auto
qed


lemma split_loop_line: "NL \<notin> set l \<Longrightarrow> split_loop acc (l @ NL # r) = (acc @ l) # split_loop [] r"
  by (induction l arbitrary: acc) auto

lemma split_loop_last: "NL \<notin> set l \<Longrightarrow> split_loop acc l = [acc @ l]"
  by (induction l arbitrary: acc) auto

lemma split_join: "ls \<noteq> [] \<Longrightarrow> \<forall>l \<in> set ls. NL \<notin> set l \<Longrightarrow> dc_split_into_lines (join_lines ls) = ls"
  unfolding dc_split_into_lines_def
  by (induction ls rule: join_lines.induct) (auto simp: split_loop_line split_loop_last)

lemma entries_pack: "es_ok es \<Longrightarrow> entries (pack es) = es"
proof (cases "es = []")
  case True
  then show ?thesis by (simp add: entries_def)
next
  case False
  assume ok: "es_ok es"
  then have "\<forall>l \<in> set (map line es). NL \<notin> set l"
    using line_NL by (fastforce simp: es_ok_def)
  with False have "dc_split_into_lines (pack es) = map line es"
    unfolding pack_def by (intro split_join) auto
  with False show ?thesis by (simp add: entries_def comp_def line_def)
qed

lemma param_ok_pack: "es_ok es \<Longrightarrow> param_ok (pack es)"
  by (simp add: param_ok_def entries_pack)

lemma param_okE:
  assumes "param_ok s"
  obtains es where "s = pack es" "es_ok es"
  using assms that [of "entries s"] by (simp add: param_ok_def)

lemma es_ok_update: "es_ok es \<Longrightarrow> okk k \<Longrightarrow> okv v \<Longrightarrow> es_ok (AList.update k v es)"
proof -
  assume a: "es_ok es" "okk k" "okv v"
  then have "distinct (map fst (AList.update k v es))"
    by (intro distinct_update) (simp add: es_ok_def)
  moreover have "set (AList.update k v es) \<subseteq> insert (k, v) (set es)"
    by (induction es) auto
  ultimately show ?thesis using a by (fastforce simp: es_ok_def)
qed

lemma es_ok_delete: "es_ok es \<Longrightarrow> es_ok (AList.delete k es)"
proof -
  assume ok: "es_ok es"
  then have "distinct (map fst (AList.delete k es))"
    by (intro distinct_delete) (simp add: es_ok_def)
  moreover have "set (AList.delete k es) \<subseteq> set es"
    by (induction es) auto
  ultimately show ?thesis using ok by (fastforce simp: es_ok_def)
qed

interpretation params: kv_store param_ok okk okv
  "\<lambda>s k. dc_param_get s k None" "\<lambda>s k v. dc_param_set s k (Some v)" "\<lambda>s k. dc_param_set s k None"
proof unfold_locales
  show "param_ok (dc_param_set s k (Some v))" if "param_ok s" "okk k" "okv v" for s k v
    using that by (auto elim!: param_okE simp: set_pack intro!: param_ok_pack es_ok_update)
  show "param_ok (dc_param_set s k None)" if "param_ok s" "okk k" for s k
    using that by (auto elim!: param_okE simp: set_pack intro!: param_ok_pack es_ok_delete)
  show "dc_param_get (dc_param_set s k (Some v)) k None = Some v"
    if "param_ok s" "okk k" "okv v" for s k v
    using that by (auto elim!: param_okE simp: set_pack get_pack es_ok_update update_conv')
  show "dc_param_get (dc_param_set s k (Some v)) j None = dc_param_get s j None"
    if "param_ok s" "okk k" "okk j" "okv v" "j \<noteq> k" for s k j v
    using that by (auto elim!: param_okE simp: set_pack get_pack es_ok_update update_conv')
  show "dc_param_get (dc_param_set s k None) k None = None" if "param_ok s" "okk k" for s k
    using that by (auto elim!: param_okE simp: set_pack get_pack es_ok_delete delete_conv')
  show "dc_param_get (dc_param_set s k None) j None = dc_param_get s j None"
    if "param_ok s" "okk k" "okk j" "j \<noteq> k" for s k j
    using that by (auto elim!: param_okE simp: set_pack get_pack es_ok_delete delete_conv')
qed

lemma okv_show_int [simp]: "okv (show_int i)"
proof -
  have "\<not> c_isspace c" if "c \<in> set (show_int i)" for c
    using show_int_chars [OF that] by (auto simp: c_isdigit_def c_isspace_def)
  from this [of NL] this [of "last (show_int i)"] show ?thesis by (auto simp: okv_def)
qed

lemma get_set_int:
  "param_ok s \<Longrightarrow> okk k \<Longrightarrow> int32_range i \<Longrightarrow> dc_param_get_int (dc_param_set_int s k i) k d = i"
  by (simp add: dc_param_get_int_def dc_param_set_int_def params.get_put_same) (simp add: okk_def)

lemma get_set_int_other:
  "param_ok s \<Longrightarrow> okk k \<Longrightarrow> okk j \<Longrightarrow> j \<noteq> k \<Longrightarrow>
     dc_param_get_int (dc_param_set_int s k i) j d = dc_param_get_int s j d"
  by (simp add: dc_param_get_int_def dc_param_set_int_def params.get_put_other)

lemma set_int_ok [inv_intros]: "param_ok s \<Longrightarrow> okk k \<Longrightarrow> param_ok (dc_param_set_int s k i)"
  by (simp add: dc_param_set_int_def params.put_wf)

lemma param_ok_new [simp, inv_intros]: "param_ok dc_param_new"
  by (simp add: dc_param_new_def param_ok_def entries_def)

lemma exists_get: "okk k \<Longrightarrow> dc_param_exists s k \<longleftrightarrow> dc_param_get s k None \<noteq> None"
  by (auto simp: dc_param_exists_def dc_param_get_def okk_def dc_strdup_keep_null_def
      split: option.splits)

section \<open>Properties\<close>

lemma set_urlencoded_char:
  "dc_param_set_urlencoded p (Some u) = map (\<lambda>c. if c = CHR ''&'' then NL else c) u"
  using str_replace_char [of u "CHR ''&''" NL]
  by (simp add: dc_param_set_urlencoded_def dc_strdup_def Let_def)

text \<open>
  C38: On well-formed packed texts \<open>dc_param_set\<close> is the update, and with \<open>NULL\<close> the deletion, of
  one entry of an association list that keeps the order of the others: every other parameter
  keeps its value and place, the result is well formed again, and \<open>dc_param_get\<close> is the lookup
  in that list.
\<close>

theorem param_set_refines_alist:
  assumes "param_ok s" "okk k" "okv v" "okk j"
  shows "param_ok (dc_param_set s k (Some v)) \<and>
      entries (dc_param_set s k (Some v)) = AList.update k v (entries s) \<and>
      param_ok (dc_param_set s k None) \<and>
      entries (dc_param_set s k None) = AList.delete k (entries s) \<and>
      dc_param_get s j (Some d) = Some (case map_of (entries s) j of Some w \<Rightarrow> w | None \<Rightarrow> d) \<and>
      dc_param_get (dc_param_set s k (Some v)) j None = ((map_of (entries s))(k \<mapsto> v)) j"
proof -
  obtain es where s: "s = pack es" "es_ok es" using assms(1) by (rule param_okE)
  have "dc_param_get s j (Some d) = Some (case dc_param_get s j None of Some w \<Rightarrow> w | None \<Rightarrow> d)"
    using assms(4) by (auto simp: dc_param_get_def dc_strdup_keep_null_def dc_strdup_def okk_def
        split: option.splits)
  moreover have "dc_param_get s j None = map_of (entries s) j"
    using s assms(4) by (simp add: get_pack entries_pack)
  ultimately show ?thesis
    using s assms
    by (simp add: set_pack get_pack entries_pack es_ok_update es_ok_delete param_ok_pack update_conv')
qed

theorem param_set_refines_alist_witness:
  "entries (dc_param_set (''f=pic.jpg'' @ NL # ''w=640'') (CHR ''f'') (Some ''a b'')) =
     [(CHR ''f'', ''a b''), (CHR ''w'', ''640'')]"
proof -
  have s: "param_ok (''f=pic.jpg'' @ NL # ''w=640'')" "okk (CHR ''f'')" "okv ''a b''"
    by code_simp+
  have "entries (''f=pic.jpg'' @ NL # ''w=640'') = [(CHR ''f'', ''pic.jpg''), (CHR ''w'', ''640'')]"
    by code_simp
  with param_set_refines_alist [OF s s(2)] show ?thesis by simp
qed

text \<open>
  A parameter block in URL form (\<open>a=..&n=..\<close>, as the secure-join QR codes carry it) is read
  as the same entries: after \<open>dc_param_set_urlencoded\<close> the block is well formed and looking a
  key up gives its value, for any entries whose keys and values hold no \<open>&\<close>.
\<close>

theorem param_urlencoded_reads_entries:
  assumes "es_ok es" "\<forall>e \<in> set es. CHR ''&'' \<notin> set (line e)" "okk k"
  shows "param_ok (dc_param_set_urlencoded p (Some (map (\<lambda>c. if c = NL then CHR ''&'' else c) (pack es)))) \<and>
      dc_param_get (dc_param_set_urlencoded p
          (Some (map (\<lambda>c. if c = NL then CHR ''&'' else c) (pack es)))) k None = map_of es k"
proof -
  have "CHR ''&'' \<notin> set (pack es)"
    using assms(2) by (induction es) (auto simp: pack_Cons)
  then have "map (\<lambda>c. if c = CHR ''&'' then NL else c)
      (map (\<lambda>c. if c = NL then CHR ''&'' else c) (pack es)) = pack es"
    by (induction "pack es") (auto intro!: map_idI)
  then show ?thesis
    using assms by (simp add: set_urlencoded_char param_ok_pack get_pack del: map_map)
qed

theorem param_urlencoded_reads_entries_witness:
  "dc_param_get (dc_param_set_urlencoded [] (Some ''a=x@y&s=k7'')) (CHR ''s'') None = Some ''k7''"
proof -
  let ?es = "[(CHR ''a'', ''x@y''), (CHR ''s'', ''k7'')]"
  have es: "es_ok ?es" "\<forall>e \<in> set ?es. CHR ''&'' \<notin> set (line e)" "okk (CHR ''s'')"
    by code_simp+
  have "map (\<lambda>c. if c = NL then CHR ''&'' else c) (pack ?es) = ''a=x@y&s=k7''"
    by code_simp
  with param_urlencoded_reads_entries [OF es, of "[]"] show ?thesis by simp
qed

end
