(* ===== verification/Strencode.thy ===== *)
theory Strencode
  imports Tools
begin

text \<open>
  \<open>src/dc_strencode.c\<close>: URL encoding (RFC 3986), encoded header words (RFC 2047), modified UTF-7
  (RFC 2192) and extended header values (RFC 2231, RFC 5987).  A \<open>char\<close> is signed on the
  platforms of the core, so \<open>*pstr >> 4\<close> is an arithmetic shift.  The memory string of libetpan
  (\<open>MMAPString\<close>) only ever grows by what is appended to it; its decoder and \<open>charconv\<close> are
  parameters.
\<close>

section \<open>URL encoding\<close>

definition upper_hex :: string where
  "upper_hex = ''0123456789ABCDEF''"

definition int_2_uppercase_hex :: "u8 \<Rightarrow> char" where
  "int_2_uppercase_hex code = upper_hex ! unat (code AND 15)"

definition hex_2_int :: "char \<Rightarrow> u8" where
  "hex_2_int ch = (if c_isdigit ch then of_char ch - 48 else of_char (c_tolower ch) - 97 + 10)"

definition url_plain :: "char \<Rightarrow> bool" where
  "url_plain c \<longleftrightarrow> c_isalnum c \<or> c = CHR ''-'' \<or> c = CHR ''_'' \<or> c = CHR ''.'' \<or> c = CHR ''~''"

definition percent_hex :: "char \<Rightarrow> string" where
  "percent_hex c = [CHR ''%'', int_2_uppercase_hex (signed_drop_bit 4 (of_char c :: u8)),
                    int_2_uppercase_hex ((of_char c :: u8) AND 15)]"

fun urlencode_loop :: "string \<Rightarrow> string" where
  "urlencode_loop [] = []"
| "urlencode_loop (c # cs) =
     (if url_plain c then c # urlencode_loop cs
      else if c = CHR '' '' then CHR ''+'' # urlencode_loop cs
      else percent_hex c @ urlencode_loop cs)"

definition dc_urlencode :: "cptr \<Rightarrow> string" where
  "dc_urlencode p = (case p of None \<Rightarrow> [] | Some s \<Rightarrow> urlencode_loop s)"

definition hex_byte :: "char \<Rightarrow> char \<Rightarrow> char" where
  "hex_byte a b = char_of (unat (push_bit 4 (hex_2_int a) OR hex_2_int b))"

fun urldecode_loop :: "string \<Rightarrow> string" where
  "urldecode_loop [] = []"
| "urldecode_loop (c # cs) =
     (if c = CHR ''%'' then
        (case cs of a # b # r \<Rightarrow> hex_byte a b # urldecode_loop r | _ \<Rightarrow> urldecode_loop cs)
      else if c = CHR ''+'' then CHR '' '' # urldecode_loop cs
      else c # urldecode_loop cs)"

definition dc_urldecode :: "cptr \<Rightarrow> string" where
  "dc_urldecode p = (case p of None \<Rightarrow> [] | Some s \<Rightarrow> c_string (urldecode_loop s))"

section \<open>Extended header values\<close>

definition dc_needs_ext_header :: "cptr \<Rightarrow> bool" where
  "dc_needs_ext_header p = (case p of None \<Rightarrow> False | Some s \<Rightarrow> (\<exists>c \<in> set s. \<not> url_plain c))"

definition ext_prefix :: string where
  "ext_prefix = ''utf-8'' @ [CHR 0x27, CHR 0x27]"

fun ext_loop :: "string \<Rightarrow> string" where
  "ext_loop [] = []"
| "ext_loop (c # cs) = (if url_plain c then c # ext_loop cs else percent_hex c @ ext_loop cs)"

definition dc_encode_ext_header :: "cptr \<Rightarrow> string" where
  "dc_encode_ext_header p = (case p of None \<Rightarrow> ext_prefix | Some s \<Rightarrow> ext_prefix @ ext_loop s)"

text \<open>\<open>charconv charset text\<close> is libetpan's conversion to UTF-8, \<open>None\<close> where it fails.\<close>

definition dc_decode_ext_header :: "(string \<Rightarrow> string \<Rightarrow> cptr) \<Rightarrow> cptr \<Rightarrow> string" where
  "dc_decode_ext_header charconv p =
     (case p of None \<Rightarrow> dc_strdup None
      | Some to_decode \<Rightarrow>
          (case strchr to_decode (CHR 0x27) of
             None \<Rightarrow> to_decode
           | Some p2 \<Rightarrow>
               if p2 = to_decode then to_decode
               else
                 let charset = dc_null_terminate to_decode (length to_decode - length p2) in
                 case strchr (tl p2) (CHR 0x27) of
                   None \<Rightarrow> to_decode
                 | Some p3 \<Rightarrow>
                     let decoded = dc_urldecode (Some (tl p3)) in
                     if charset \<noteq> ''utf-8'' \<and> charset \<noteq> ''UTF-8''
                     then (case charconv charset decoded of Some conv \<Rightarrow> conv | None \<Rightarrow> decoded)
                     else decoded))"

section \<open>Encoded header words\<close>

definition quote_special :: string where
  "quote_special = '',:!#$@[]^{|}~=?_'' @ [CHR 0x22, CHR 0x5C, CHR 0x60]"

definition must_quote :: "char \<Rightarrow> bool" where
  "must_quote c \<longleftrightarrow> c \<in> set quote_special \<or> byte_of c \<ge> 128"

definition to_be_quoted :: "string \<Rightarrow> bool" where
  "to_be_quoted word = list_ex must_quote word"

definition word_sep :: "char \<Rightarrow> bool" where
  "word_sep c \<longleftrightarrow> c = CHR '' '' \<or> c = CHR 0x09"

text \<open>\<open>get_word\<close>: the rest of the text behind the word (\<open>*pend\<close>) and \<open>*pto_be_quoted\<close>.\<close>

definition get_word :: "string \<Rightarrow> string \<times> bool" where
  "get_word beg =
     (dropWhile (\<lambda>c. \<not> word_sep c) beg, to_be_quoted (takeWhile (\<lambda>c. \<not> word_sep c) beg))"

text \<open>\<open>snprintf(hex, 4, "=%2.2X", ...)\<close>.\<close>

definition quote_char :: "char \<Rightarrow> string" where
  "quote_char c = [CHR ''='', uc_hex_digit (byte_of c div 16), uc_hex_digit (byte_of c mod 16)]"

fun quote_word_loop :: "string \<Rightarrow> string" where
  "quote_word_loop [] = []"
| "quote_word_loop (c # cs) =
     (if must_quote c then quote_char c
      else if c = CHR '' '' then [CHR ''_''] else [c]) @ quote_word_loop cs"

definition quote_word :: "string \<Rightarrow> string \<Rightarrow> string" where
  "quote_word display_charset word =
     ''=?'' @ display_charset @ ''?Q?'' @ quote_word_loop word @ ''?=''"

text \<open>
  The inner loop: \<open>cur\<close> and \<open>end\<close> are the remaining texts the two pointers point at.
\<close>

lemma to_be_quoted_Nil [simp]: "\<not> to_be_quoted []"
  by (simp add: to_be_quoted_def)

lemma get_word_length: "length (fst (get_word s)) \<le> length s"
  by (simp add: get_word_def)

lemma get_word_progress: "snd (get_word s) \<Longrightarrow> length (fst (get_word s)) < length s"
  by (cases s) (auto simp: get_word_def less_Suc_eq_le split: if_splits)

function words_loop :: "string \<Rightarrow> string \<Rightarrow> bool \<Rightarrow> string \<times> string \<times> bool" where
  "words_loop cur fin quote_words =
     (if cur = [] then (cur, fin, quote_words)
      else let (cur', do_quote) = get_word cur in
           if do_quote then words_loop (if cur' = [] then cur' else tl cur') cur' True
           else (cur', fin, quote_words))"
  by pat_completeness auto
termination
proof (relation "measure (\<lambda>(cur, e, q). length cur)", goal_cases)
  case (2 cur fin q x cur' do_quote)
  then have "length cur' < length cur"
    by (metis get_word_progress fst_conv snd_conv)
  then show ?case by auto
qed simp

declare words_loop.simps [simp del]

text \<open>One round of the outer loop: what it appends and where \<open>cur\<close> is afterwards.\<close>

definition header_round :: "string \<Rightarrow> string \<times> string" where
  "header_round beg =
     (let (cur, fin, quote_words) = words_loop beg beg False;
          body =
            (if quote_words then
               quote_word ''utf-8'' (take (length beg - length fin) beg) @
               (let sep = (if fin \<noteq> [] \<and> word_sep (hd fin) then [hd fin] else []);
                    fin = drop (length sep) fin
                in sep @ take (length fin - length cur) fin)
             else take (length beg - length cur) beg)
      in if cur \<noteq> [] \<and> word_sep (hd cur) then (body @ [hd cur], tl cur) else (body, cur))"

lemma words_loop_length:
  "words_loop cur e q = (c', e', q') \<Longrightarrow> length c' \<le> length cur"
proof (induction cur e q rule: words_loop.induct)
  case (1 cur e q)
  note eq = words_loop.simps [of cur e q]
  obtain c d where g: "get_word cur = (c, d)" by force
  then have c: "length c \<le> length cur" using get_word_length [of cur] by simp
  show ?case
  proof (cases "cur = []")
    case True
    with 1(2) eq show ?thesis by simp
  next
    case ne: False
    show ?thesis
    proof (cases d)
      case True
      with 1(2) eq ne g have "words_loop (if c = [] then c else tl c) c True = (c', e', q')" by simp
      with 1(1) [OF ne g [symmetric]] True g
      have "length c' \<le> length (if c = [] then c else tl c)" by auto
      with c show ?thesis by (auto split: if_splits)
    next
      case False
      with 1(2) eq ne g c show ?thesis by simp
    qed
  qed
qed

lemma header_round_progress:
  assumes "s \<noteq> []"
  shows "length (snd (header_round s)) < length s"
proof -
  obtain cur e q where w: "words_loop s s False = (cur, e, q)" by (metis prod_cases3)
  obtain c d where g: "get_word s = (c, d)" by force
  have le: "length cur \<le> length s" using words_loop_length [OF w] .
  show ?thesis
  proof (cases d)
    case True
    have "length c < length s" using get_word_progress [of s] True g by simp
    moreover have "length cur \<le> length (if c = [] then c else tl c)"
      using words_loop_length w assms g True by (simp add: words_loop.simps [of s])
    ultimately have "length cur < length s" by (cases c) auto
    then show ?thesis using w by (auto simp: header_round_def Let_def)
  next
    case False
    with w g assms have "cur = c" by (simp add: words_loop.simps [of s])
    moreover have "length c < length s \<or> (c \<noteq> [] \<and> word_sep (hd c))"
      using g assms by (cases s) (auto simp: get_word_def less_Suc_eq_le)
    moreover have "0 < length s" using assms by simp
    ultimately show ?thesis using w le by (cases c) (auto simp: header_round_def Let_def)
  qed
qed

function header_loop :: "string \<Rightarrow> string" where
  "header_loop cur =
     (if cur = [] then [] else fst (header_round cur) @ header_loop (snd (header_round cur)))"
  by pat_completeness auto
termination
  by (relation "measure length") (auto dest: header_round_progress)

declare header_loop.simps [simp del, code]

definition dc_encode_header_words :: "cptr \<Rightarrow> cptr" where
  "dc_encode_header_words p = (case p of None \<Rightarrow> None | Some s \<Rightarrow> Some (header_loop s))"

text \<open>\<open>parse\<close> is \<open>mailmime_encoded_phrase_parse\<close> of libetpan, \<open>None\<close> where it fails.\<close>

definition dc_decode_header_words :: "(string \<Rightarrow> cptr) \<Rightarrow> cptr \<Rightarrow> cptr" where
  "dc_decode_header_words parse p =
     (case p of None \<Rightarrow> None
      | Some s \<Rightarrow> (case parse s of Some t \<Rightarrow> Some t | None \<Rightarrow> Some (dc_strdup (Some s))))"

section \<open>Modified UTF-7\<close>

definition base64chars :: string where
  "base64chars = ''ABCDEFGHIJKLMNOPQRSTUVWXYZabcdefghijklmnopqrstuvwxyz0123456789+,''"

abbreviation UTF16MASK :: u64 where "UTF16MASK \<equiv> 0x3FF"
abbreviation UTF16BASE :: u64 where "UTF16BASE \<equiv> 0x10000"
abbreviation UTF16HIGHSTART :: u64 where "UTF16HIGHSTART \<equiv> 0xD800"
abbreviation UTF16HIGHEND :: u64 where "UTF16HIGHEND \<equiv> 0xDBFF"
abbreviation UTF16LOSTART :: u64 where "UTF16LOSTART \<equiv> 0xDC00"
abbreviation UTF16LOEND :: u64 where "UTF16LOEND \<equiv> 0xDFFF"

text \<open>\<open>base64chars[x & 0x3F]\<close>.\<close>

definition b64_char :: "u64 \<Rightarrow> char" where
  "b64_char x = base64chars ! unat (x AND 0x3F)"

text \<open>The local variables of the encoder that live across characters.\<close>

record utf7_state =
  u7_mode :: bool
  u7_pos :: nat
  u7_total :: nat
  u7_togo :: nat
  u7_ucs4 :: u64
  u7_buf :: u64

definition utf7_start :: utf7_state where
  "utf7_start = \<lparr>u7_mode = False, u7_pos = 0, u7_total = 0, u7_togo = 0, u7_ucs4 = 0, u7_buf = 0\<rparr>"

text \<open>\<open>while (bitstogo >= 6)\<close>: the base64 digits and the bits that stay.\<close>

fun spew :: "u64 \<Rightarrow> nat \<Rightarrow> string \<times> nat" where
  "spew bitbuf bitstogo =
     (if bitstogo \<ge> 6 then
        let (out, left) = spew bitbuf (bitstogo - 6) in
        (b64_char (if bitstogo - 6 \<noteq> 0 then drop_bit (bitstogo - 6) bitbuf else bitbuf) # out, left)
      else ([], bitstogo))"

declare spew.simps [simp del, code]

text \<open>\<open>do ... while (utf16flag)\<close>: a code point beyond the basic plane becomes a surrogate pair.\<close>

definition utf16_low :: "u64 \<Rightarrow> u64" where
  "utf16_low ucs4 = ((ucs4 - UTF16BASE) AND UTF16MASK) + UTF16LOSTART"

lemma utf16_low_less: "unat (utf16_low ucs4) < 0x10000"
proof -
  have "unat ((ucs4 - UTF16BASE) AND UTF16MASK) \<le> unat UTF16MASK"
    by (simp only: word_le_nat_alt [symmetric] word_and_le1)
  then show ?thesis
    unfolding utf16_low_def unat_word_ariths(1)
    by (intro le_less_trans [OF mod_less_eq_dividend]) simp
qed

function utf16_split :: "u64 \<Rightarrow> u64 \<Rightarrow> nat \<Rightarrow> string \<times> u64 \<times> u64 \<times> nat" where
  "utf16_split ucs4 bitbuf bitstogo =
     (if ucs4 \<ge> UTF16BASE then
        let bitbuf' = push_bit 16 bitbuf OR (drop_bit 10 (ucs4 - UTF16BASE) + UTF16HIGHSTART);
            (out, left) = spew bitbuf' (bitstogo + 16);
            (out', r) = utf16_split (utf16_low ucs4) bitbuf' left
        in (out @ out', r)
      else
        let bitbuf' = push_bit 16 bitbuf OR ucs4;
            (out, left) = spew bitbuf' (bitstogo + 16)
        in (out, ucs4, bitbuf', left))"
  by pat_completeness auto
termination
proof (relation "measure (\<lambda>(u, b, t). unat u)", goal_cases)
  case (2 ucs4 bitbuf bitstogo)
  then have "0x10000 \<le> unat ucs4" by (simp add: word_le_nat_alt)
  with utf16_low_less [of ucs4] show ?case by simp
qed simp

declare utf16_split.simps [simp del, code]

definition utf7_leave :: "utf7_state \<Rightarrow> string" where
  "utf7_leave st =
     (if u7_mode st then
        (if u7_togo st \<noteq> 0 then [b64_char (push_bit (6 - u7_togo st) (u7_buf st))] else []) @ ''-''
      else [])"

text \<open>One round of the encoder's loop: what is written to \<open>dst\<close> and the variables afterwards.\<close>

definition utf7_flush :: "utf7_state \<Rightarrow> string \<times> utf7_state" where
  "utf7_flush st =
     (let (out, ucs4, bitbuf, left) = utf16_split (u7_ucs4 st) (u7_buf st) (u7_togo st)
      in (out, st\<lparr>u7_total := 0, u7_ucs4 := ucs4, u7_buf := bitbuf, u7_togo := left\<rparr>))"

definition utf7_round :: "bool \<Rightarrow> utf7_state \<Rightarrow> char \<Rightarrow> string \<times> utf7_state" where
  "utf7_round change_spaces st ch =
     (let c = byte_of ch in
      if 32 \<le> c \<and> c \<le> 126 \<and> (ch \<noteq> CHR ''_'' \<or> \<not> change_spaces) then
        (utf7_leave st @
         (if change_spaces \<and> ch = CHR '' '' then ''_'' else [ch]) @
         (if ch = CHR ''&'' then ''-'' else []),
         if u7_mode st
         then st\<lparr>u7_mode := False, u7_pos := 0, u7_togo := 0, u7_total := 0\<rparr> else st)
      else
        let opening = (if u7_mode st then [] else ''&'');
            st = st\<lparr>u7_mode := True\<rparr>;
            w = of_nat c
        in if c < 0x80 then
             let (out, st) = utf7_flush (st\<lparr>u7_ucs4 := w\<rparr>) in (opening @ out, st)
           else if u7_total st \<noteq> 0 then
             let st = st\<lparr>u7_ucs4 := push_bit 6 (u7_ucs4 st) OR (w AND 0x3F),
                         u7_pos := u7_pos st + 1\<rparr>
             in if u7_pos st < u7_total st then (opening, st)
                else let (out, st) = utf7_flush st in (opening @ out, st)
           else
             (opening,
              if c < 0xE0 then st\<lparr>u7_pos := 1, u7_total := 2, u7_ucs4 := w AND 0x1F\<rparr>
              else if c < 0xF0 then st\<lparr>u7_pos := 1, u7_total := 3, u7_ucs4 := w AND 0x0F\<rparr>
              else st\<lparr>u7_pos := 1, u7_total := 4, u7_ucs4 := w AND 0x03\<rparr>))"

fun utf7_loop :: "bool \<Rightarrow> utf7_state \<Rightarrow> string \<Rightarrow> string" where
  "utf7_loop change_spaces st [] = utf7_leave st"
| "utf7_loop change_spaces st (c # cs) =
     (let (out, st') = utf7_round change_spaces st c in out @ utf7_loop change_spaces st' cs)"

text \<open>\<open>malloc(2*strlen(to_encode)+1)\<close>.\<close>

definition utf7_alloc :: "string \<Rightarrow> nat" where
  "utf7_alloc to_encode = 2 * length to_encode + 1"

definition dc_encode_modified_utf7 :: "cptr \<Rightarrow> bool \<Rightarrow> string" where
  "dc_encode_modified_utf7 p change_spaces =
     (case p of None \<Rightarrow> dc_strdup (Some []) | Some s \<Rightarrow> utf7_loop change_spaces utf7_start s)"

subsection \<open>Decoding\<close>

text \<open>\<open>base64[c]\<close>, \<open>None\<close> for \<open>UNDEFINED\<close> (the NUL at the end of \<open>base64chars\<close> is \<open>UNDEFINED\<close> too).\<close>

fun index_of :: "'a \<Rightarrow> 'a list \<Rightarrow> nat option" where
  "index_of x [] = None"
| "index_of x (y # ys) = (if x = y then Some 0 else map_option Suc (index_of x ys))"

definition base64_val :: "char \<Rightarrow> u64 option" where
  "base64_val c = map_option of_nat (index_of c base64chars)"

definition w_char :: "u64 \<Rightarrow> char" where
  "w_char w = char_of (unat w)"

definition ucs4_to_utf8 :: "u64 \<Rightarrow> string" where
  "ucs4_to_utf8 u =
     (if u \<le> 0x7F then [w_char u]
      else if u \<le> 0x7FF then
        [w_char (0xC0 OR drop_bit 6 u), w_char (0x80 OR (u AND 0x3F))]
      else if u \<le> 0xFFFF then
        [w_char (0xE0 OR drop_bit 12 u), w_char (0x80 OR (drop_bit 6 u AND 0x3F)),
         w_char (0x80 OR (u AND 0x3F))]
      else
        [w_char (0xF0 OR drop_bit 18 u), w_char (0x80 OR (drop_bit 12 u AND 0x3F)),
         w_char (0x80 OR (drop_bit 6 u AND 0x3F)), w_char (0x80 OR (u AND 0x3F))])"

definition high_surrogate :: "u64 \<Rightarrow> bool" where
  "high_surrogate utf16 \<longleftrightarrow> utf16 \<ge> UTF16HIGHSTART \<and> utf16 \<le> UTF16HIGHEND"

definition low_surrogate :: "u64 \<Rightarrow> bool" where
  "low_surrogate utf16 \<longleftrightarrow> utf16 \<ge> UTF16LOSTART \<and> utf16 \<le> UTF16LOEND"

definition utf16_unit :: "u64 \<Rightarrow> nat \<Rightarrow> u64" where
  "utf16_unit bitbuf bitcount = (if bitcount \<noteq> 0 then drop_bit bitcount bitbuf else bitbuf) AND 0xFFFF"

definition next_bits :: "u64 \<Rightarrow> u64 \<Rightarrow> u64" where
  "next_bits bitbuf c = push_bit 6 bitbuf OR c"

text \<open>The base64 run behind a \<open>&\<close>: its output and the rest of the source.\<close>

fun base64_run :: "u64 \<Rightarrow> nat \<Rightarrow> u64 \<Rightarrow> string \<Rightarrow> string \<times> string" where
  "base64_run bitbuf bitcount ucs4 [] = ([], [])"
| "base64_run bitbuf bitcount ucs4 (ch # src) =
     (case base64_val ch of
        None \<Rightarrow> ([], ch # src)
      | Some c \<Rightarrow>
          let bitbuf = next_bits bitbuf c; bitcount = bitcount + 6 in
          if bitcount \<ge> 16 then
            let bitcount = bitcount - 16; utf16 = utf16_unit bitbuf bitcount in
            if high_surrogate utf16 then
              base64_run bitbuf bitcount (push_bit 10 (utf16 - UTF16HIGHSTART)) src
            else
              let ucs4 = (if low_surrogate utf16 then ucs4 + (utf16 - UTF16LOSTART + UTF16BASE)
                          else utf16);
                  (out, rest) = base64_run bitbuf bitcount ucs4 src
              in (ucs4_to_utf8 ucs4 @ out, rest)
          else base64_run bitbuf bitcount ucs4 src)"

lemma base64_run_length: "length (snd (base64_run b n u s)) \<le> length s"
proof (induction s arbitrary: b n u)
  case (Cons c s)
  show ?case
    by (cases "base64_val c")
      (simp_all add: Let_def split_beta Cons.IH [THEN le_SucI])
qed simp

fun utf7_skip :: "string \<Rightarrow> string" where
  "utf7_skip src = (case src of [] \<Rightarrow> [] | c # r \<Rightarrow> if c = CHR ''-'' then r else src)"

function utf7_decode_loop :: "bool \<Rightarrow> string \<Rightarrow> string" where
  "utf7_decode_loop change_spaces [] = []"
| "utf7_decode_loop change_spaces (c # src) =
     (if c \<noteq> CHR ''&'' \<or> (src \<noteq> [] \<and> hd src = CHR ''-'') then
        (if change_spaces \<and> c = CHR ''_'' then CHR '' '' else c) #
        utf7_decode_loop change_spaces (if c = CHR ''&'' then tl src else src)
      else
        fst (base64_run 0 0 0 src) @
        utf7_decode_loop change_spaces (utf7_skip (snd (base64_run 0 0 0 src))))"
  by pat_completeness auto
termination
proof (relation "measure (length \<circ> snd)", goal_cases)
  case (3 change_spaces c src)
  have "length (utf7_skip t) \<le> length t" for t by (cases t) auto
  from this [of "snd (base64_run 0 0 0 src)"] base64_run_length [of 0 0 0 src]
  show ?case by simp
qed auto

text \<open>\<open>malloc(4*strlen(to_decode)+1)\<close>.\<close>

definition utf7_decode_alloc :: "string \<Rightarrow> nat" where
  "utf7_decode_alloc to_decode = 4 * length to_decode + 1"

definition dc_decode_modified_utf7 :: "cptr \<Rightarrow> bool \<Rightarrow> string" where
  "dc_decode_modified_utf7 p change_spaces =
     (case p of None \<Rightarrow> dc_strdup (Some []) | Some s \<Rightarrow> c_string (utf7_decode_loop change_spaces s))"

section \<open>URL and extended header values round trip\<close>

lemma hex_2_int_upper: "n < 16 \<Longrightarrow> hex_2_int (upper_hex ! n) = of_nat n"
proof -
  have "\<forall>n \<in> set [0..<16]. hex_2_int (upper_hex ! n) = of_nat n" by code_simp
  then show "n < 16 \<Longrightarrow> ?thesis" by simp
qed

lemma hex_2_int_uppercase: "hex_2_int (int_2_uppercase_hex w) = w AND 15"
proof -
  have "unat (w AND 15) \<le> unat (15 :: u8)"
    by (simp only: word_le_nat_alt [symmetric] word_and_le1)
  then show ?thesis by (simp add: int_2_uppercase_hex_def hex_2_int_upper)
qed

lemma nibbles: "push_bit 4 (signed_drop_bit 4 w AND 15) OR ((w AND 15) AND 15) = (w :: u8)"
proof (rule bit_word_eqI)
  fix n assume "n < LENGTH(8)"
  then have "n \<in> {0, 1, 2, 3, 4, 5, 6, 7}" by auto
  then show "bit (push_bit 4 (signed_drop_bit 4 w AND 15) OR ((w AND 15) AND 15)) n = bit w n"
    by (auto simp: bit_simps)
qed

lemma hex_byte_percent:
  "hex_byte (int_2_uppercase_hex (signed_drop_bit 4 (of_char c :: u8)))
     (int_2_uppercase_hex ((of_char c :: u8) AND 15)) = c"
  by (simp only: hex_byte_def hex_2_int_uppercase nibbles) simp

lemma url_plain_other: "url_plain c \<Longrightarrow> c \<noteq> CHR ''%'' \<and> c \<noteq> CHR ''+'' \<and> c \<noteq> CHR 0x27"
  by (auto simp: url_plain_def c_isalnum_def c_isdigit_def c_isupper_def c_islower_def)

lemma urldecode_plain [simp]: "url_plain c \<Longrightarrow> urldecode_loop (c # t) = c # urldecode_loop t"
  using url_plain_other [of c] by simp

lemma urldecode_percent [simp]: "urldecode_loop (percent_hex c @ t) = c # urldecode_loop t"
  by (simp add: percent_hex_def hex_byte_percent)

lemma urldecode_urlencode: "urldecode_loop (urlencode_loop s) = s"
  by (induction s) (simp_all del: urldecode_loop.simps(2) add: urldecode_loop.simps(2) [where c = "CHR ''+''"])

lemma urldecode_ext: "urldecode_loop (ext_loop s) = s"
  by (induction s) (simp_all del: urldecode_loop.simps(2))

lemma decode_ext_prefix: "dc_decode_ext_header cc (Some (ext_prefix @ t)) = dc_urldecode (Some t)"
  by (simp add: dc_decode_ext_header_def ext_prefix_def dc_null_terminate_def Let_def)

interpretation url: codec "\<lambda>s. CHR 0x00 \<notin> set s" "\<lambda>s. dc_urlencode (Some s)" "\<lambda>t. dc_urldecode (Some t)"
  by unfold_locales (simp add: dc_urlencode_def dc_urldecode_def urldecode_urlencode c_string_id)

interpretation ext: codec "\<lambda>s. CHR 0x00 \<notin> set s" "\<lambda>s. dc_encode_ext_header (Some s)"
    "\<lambda>t. dc_decode_ext_header cc (Some t)" for cc
  by unfold_locales
    (simp add: dc_encode_ext_header_def decode_ext_prefix dc_urldecode_def urldecode_ext c_string_id)

section \<open>Header words\<close>

definition plain_text :: "string \<Rightarrow> bool" where
  "plain_text s \<longleftrightarrow> (\<forall>c \<in> set s. \<not> must_quote c)"

lemma plain_text_simps [simp]:
  "plain_text []" "plain_text (c # s) \<longleftrightarrow> \<not> must_quote c \<and> plain_text s"
  "plain_text (s @ t) \<longleftrightarrow> plain_text s \<and> plain_text t"
  by (auto simp: plain_text_def)

lemma to_be_quoted_conv: "to_be_quoted s \<longleftrightarrow> \<not> plain_text s"
  by (auto simp: to_be_quoted_def plain_text_def list_ex_iff)

lemma word_sep_plain: "word_sep c \<Longrightarrow> \<not> must_quote c"
  by (auto simp: word_sep_def must_quote_def quote_special_def)

lemma get_word_split:
  assumes "get_word s = (t, d)"
  obtains w where "s = w @ t" "d \<longleftrightarrow> \<not> plain_text w" "t = [] \<or> word_sep (hd t)"
proof
  show "s = takeWhile (\<lambda>c. \<not> word_sep c) s @ t"
    using assms takeWhile_dropWhile_id [of "\<lambda>c. \<not> word_sep c" s] by (auto simp: get_word_def)
  show "d \<longleftrightarrow> \<not> plain_text (takeWhile (\<lambda>c. \<not> word_sep c) s)"
    using assms by (auto simp: get_word_def to_be_quoted_conv)
  show "t = [] \<or> word_sep (hd t)"
    using assms hd_dropWhile [of "\<lambda>c. \<not> word_sep c" s] by (auto simp: get_word_def)
qed

text \<open>
  What the inner loop returns: \<open>end\<close> is before \<open>cur\<close>, the text between them needs no quoting, and
  as long as nothing is quoted \<open>end\<close> has not moved.
\<close>

lemma words_loop_between:
  assumes "words_loop cur e q = (cur', e', q')" "e = x @ cur" "plain_text x"
  shows "\<exists>x. e' = x @ cur' \<and> plain_text x"
  using assms
proof (induction cur e q arbitrary: x rule: words_loop.induct)
  case (1 cur e q)
  note eq = words_loop.simps [of cur e q]
  show ?case
  proof (cases "cur = []")
    case True
    with 1 eq show ?thesis by simp
  next
    case ne: False
    obtain c d where g: "get_word cur = (c, d)" by force
    then obtain w where w: "cur = w @ c" "d \<longleftrightarrow> \<not> plain_text w" "c = [] \<or> word_sep (hd c)"
      by (rule get_word_split)
    show ?thesis
    proof (cases d)
      case False
      with 1 eq ne g w show ?thesis by auto
    next
      case True
      with 1(2) eq ne g have rec: "words_loop (if c = [] then c else tl c) c True = (cur', e', q')" by simp
      obtain y where "c = y @ (if c = [] then c else tl c)" "plain_text y"
        using w(3) word_sep_plain by (cases c) auto
      with 1(1) [OF ne g [symmetric] refl True rec] w(3) show ?thesis by auto
    qed
  qed
qed

lemma words_loop_end: "words_loop cur e q = (cur', e', q') \<Longrightarrow> \<not> q' \<Longrightarrow> e' = e \<and> \<not> q"
proof (induction cur e q rule: words_loop.induct)
  case (1 cur e q)
  then show ?case using words_loop.simps [of cur e q]
    by (auto split: if_splits prod.splits)
qed

lemma words_loop_plain:
  "plain_text cur \<Longrightarrow> fst (snd (words_loop cur e q)) = e \<and> snd (snd (words_loop cur e q)) = q"
proof (cases "cur = []")
  case False
  assume "plain_text cur"
  obtain c d where g: "get_word cur = (c, d)" by force
  then obtain w where "cur = w @ c" "d \<longleftrightarrow> \<not> plain_text w"
    by (rule get_word_split)
  with \<open>plain_text cur\<close> g False show ?thesis using words_loop.simps [of cur e q] by auto
qed (simp add: words_loop.simps [of "[]"])

lemma quote_char_ascii: "\<forall>x \<in> set (quote_char c). byte_of x < 128"
proof -
  have digit: "n < 16 \<Longrightarrow> byte_of (uc_hex_digit n) < 128" for n
    by (auto simp: uc_hex_digit_def)
  have "byte_of c < 256" by simp
  then have "byte_of c div 16 < 16" by (intro less_mult_imp_div_less) simp
  then show ?thesis by (simp add: quote_char_def digit)
qed

lemma quote_word_ascii: "\<forall>x \<in> set (quote_word ''utf-8'' w). byte_of x < 128"
proof -
  have "\<forall>x \<in> set (quote_word_loop w). byte_of x < 128"
    using quote_char_ascii by (induction w) (auto simp: must_quote_def not_le)
  then show ?thesis by (auto simp: quote_word_def)
qed


text \<open>One round: ASCII out, and a plain text passes unchanged.\<close>

lemma plain_text_ascii: "plain_text s \<Longrightarrow> \<forall>x \<in> set s. byte_of x < 128"
  by (auto simp: plain_text_def must_quote_def not_le)

lemma plain_text_drop: "plain_text s \<Longrightarrow> plain_text (drop n s)" "plain_text s \<Longrightarrow> plain_text (take n s)"
  by (auto simp: plain_text_def dest: in_set_dropD in_set_takeD)

lemma header_round_ascii: "\<forall>x \<in> set (fst (header_round s)). byte_of x < 128"
proof -
  obtain cur e q where w: "words_loop s s False = (cur, e, q)" by (metis prod_cases3)
  then obtain x where x: "e = x @ cur" "plain_text x"
    using words_loop_between [OF w, of "[]"] by auto
  have q: "\<not> q \<Longrightarrow> e = s"
    using w words_loop_end [OF w] by simp
  define body where "body =
    (if q then quote_word ''utf-8'' (take (length s - length e) s) @
               (let sep = (if e \<noteq> [] \<and> word_sep (hd e) then [hd e] else []);
                    e = drop (length sep) e in sep @ take (length e - length cur) e)
     else take (length s - length cur) s)"
  define rest where "rest = (if cur \<noteq> [] \<and> word_sep (hd cur) then [hd cur] else [])"
  have "fst (header_round s) = body @ rest"
    by (simp add: header_round_def w body_def rest_def)
  moreover have "\<forall>x \<in> set rest. byte_of x < 128"
    by (auto simp: rest_def word_sep_def)
  moreover have "\<forall>x \<in> set body. byte_of x < 128"
  proof (cases q)
    case False
    have "s = x @ cur" using q [OF False] x by simp
    then have "body = x" using False by (simp add: body_def)
    then show ?thesis using x plain_text_ascii by simp
  next
    case True
    define sep where "sep = (if e \<noteq> [] \<and> word_sep (hd e) then [hd e] else [])"
    have sep: "\<forall>x \<in> set sep. byte_of x < 128" by (auto simp: sep_def word_sep_def)
    have "take (length (drop (length sep) e) - length cur) (drop (length sep) e) = drop (length sep) x"
      by (simp add: x sep_def)
    then have "body = quote_word ''utf-8'' (take (length s - length e) s) @ sep @ drop (length sep) x"
      using True by (simp add: body_def sep_def Let_def)
    moreover have "\<forall>x \<in> set (drop (length sep) x). byte_of x < 128"
      using plain_text_ascii plain_text_drop(1) x(2) by blast
    ultimately show ?thesis using sep quote_word_ascii by auto
  qed
  ultimately show ?thesis by auto
qed

lemma header_loop_ascii: "\<forall>x \<in> set (header_loop s). byte_of x < 128"
proof (induction s rule: header_loop.induct)
  case (1 s)
  then show ?case using header_round_ascii [of s] by (subst header_loop.simps) auto
qed

lemma header_round_plain:
  assumes "plain_text s"
  shows "fst (header_round s) @ snd (header_round s) = s"
proof -
  obtain cur e q where w: "words_loop s s False = (cur, e, q)" by (metis prod_cases3)
  obtain x where x: "e = x @ cur" using words_loop_between [OF w, of "[]"] by auto
  have "e = s" "\<not> q" using words_loop_plain [OF assms, of s False] w by auto
  with w x show ?thesis by (auto simp: header_round_def Let_def)
qed

lemma header_loop_plain: "plain_text s \<Longrightarrow> header_loop s = s"
proof (induction s rule: header_loop.induct)
  case (1 s)
  have eq: "fst (header_round s) @ snd (header_round s) = s" using 1(2) by (rule header_round_plain)
  with 1(2) have "plain_text (snd (header_round s))" by (metis plain_text_simps(3))
  with 1 eq show ?case by (subst header_loop.simps) auto
qed

section \<open>Modified UTF-7 fits its buffer when decoded\<close>

lemma ucs4_to_utf8_length: "length (ucs4_to_utf8 u) \<le> 4"
  by (simp add: ucs4_to_utf8_def)

lemma base64_run_step:
  assumes "base64_val c = Some v"
  obtains out b' n' u' where "length out \<le> 4"
    "base64_run b n u (c # s) = (out @ fst (base64_run b' n' u' s), snd (base64_run b' n' u' s))"
proof -
  consider "\<not> n + 6 \<ge> 16" | "n + 6 \<ge> 16" "high_surrogate (utf16_unit (next_bits b v) (n + 6 - 16))"
    | "n + 6 \<ge> 16" "\<not> high_surrogate (utf16_unit (next_bits b v) (n + 6 - 16))" by blast
  then show thesis
  proof cases
    case 1
    with assms that [of "[]"] show thesis by (simp add: Let_def)
  next
    case 2
    with assms that [of "[]"] show thesis by (simp add: Let_def)
  next
    case 3
    then show thesis
      using assms that [OF ucs4_to_utf8_length] by (simp add: Let_def split_beta split del: if_split)
  qed
qed

lemma base64_run_fits:
  "length (fst (base64_run b n u s)) + 4 * length (snd (base64_run b n u s)) \<le> 4 * length s"
proof (induction s arbitrary: b n u)
  case (Cons c s)
  show ?case
  proof (cases "base64_val c")
    case (Some v)
    then obtain out b' n' u' where "length out \<le> 4"
      "base64_run b n u (c # s) = (out @ fst (base64_run b' n' u' s), snd (base64_run b' n' u' s))"
      by (rule base64_run_step)
    with Cons.IH [of b' n' u'] show ?thesis by simp
  qed simp
qed simp

lemma utf7_skip_length: "length (utf7_skip s) \<le> length s"
  by (cases s) auto

lemma utf7_decode_loop_fits: "length (utf7_decode_loop cs s) \<le> 4 * length s"
proof (induction cs s rule: utf7_decode_loop.induct)
  case (2 cs c src)
  show ?case
  proof (cases "c \<noteq> CHR ''&'' \<or> (src \<noteq> [] \<and> hd src = CHR ''-'')")
    case True
    then have "length (utf7_decode_loop cs (if c = CHR ''&'' then tl src else src))
                 \<le> 4 * length (if c = CHR ''&'' then tl src else src)"
      by (rule 2(1))
    also have "\<dots> \<le> 4 * length src" by simp
    finally show ?thesis using True by simp
  next
    case False
    note 2(2) [OF False]
    also note utf7_skip_length [THEN mult_le_mono2]
    finally have "length (utf7_decode_loop cs (utf7_skip (snd (base64_run 0 0 0 src))))
        \<le> 4 * length (snd (base64_run 0 0 0 src))" .
    moreover have "utf7_decode_loop cs (c # src) = fst (base64_run 0 0 0 src) @
        utf7_decode_loop cs (utf7_skip (snd (base64_run 0 0 0 src)))"
      using False by (subst utf7_decode_loop.simps) (simp only: if_False)
    ultimately show ?thesis using base64_run_fits [of 0 0 0 src] by simp
  qed
qed simp

text \<open>
  The encoder's buffer is too small already for one control character: \<open>&AAE-\<close> and its NUL are
  six bytes, three are allocated.
\<close>

lemma utf7_encode_overruns:
  "utf7_alloc [CHR 0x01] < length (dc_encode_modified_utf7 (Some [CHR 0x01]) cs) + 1"
proof -
  have "length (dc_encode_modified_utf7 (Some [CHR 0x01]) True) = 5"
    "length (dc_encode_modified_utf7 (Some [CHR 0x01]) False) = 5" by code_simp+
  then show ?thesis by (cases cs) (simp_all add: utf7_alloc_def)
qed

lemma utf7_encode_umlaut:
  "dc_encode_modified_utf7 (Some (''j'' @ [CHR 0xC3, CHR 0xB6, CHR '' ''])) True = ''j&APY-_''"
  by code_simp

section \<open>Properties\<close>

lemma urlencode_safe: "\<forall>c \<in> set (urlencode_loop s). url_plain c \<or> c = CHR ''%'' \<or> c = CHR ''+''"
proof -
  have hex: "url_plain (int_2_uppercase_hex w)" for w
  proof -
    have "unat (w AND 15) \<le> unat (15 :: u8)"
      by (simp only: word_le_nat_alt [symmetric] word_and_le1)
    moreover have "\<forall>n \<in> set [0..<16]. url_plain (upper_hex ! n)" by code_simp
    ultimately show ?thesis by (simp add: int_2_uppercase_hex_def)
  qed
  show ?thesis by (induction s) (auto simp: percent_hex_def hex)
qed

text \<open>
  The value codecs lose nothing: a text (without a null byte) that \<open>dc_urlencode\<close> or
  \<open>dc_encode_ext_header\<close> has encoded is read back by \<open>dc_urldecode\<close> and
  \<open>dc_decode_ext_header\<close>, whatever the character set converter does, and the URL encoded text
  consists of characters that are safe in a link.
\<close>

theorem url_and_ext_round_trip:
  assumes "CHR 0x00 \<notin> set s"
  shows "dc_urldecode (Some (dc_urlencode (Some s))) = s \<and>
    dc_decode_ext_header cc (Some (dc_encode_ext_header (Some s))) = s \<and>
    (\<forall>c \<in> set (dc_urlencode (Some s)). url_plain c \<or> c = CHR ''%'' \<or> c = CHR ''+'')"
  using assms url.dec_enc ext.dec_enc [where cc = cc] urlencode_safe
  by (simp add: dc_urlencode_def)

theorem url_and_ext_round_trip_witness:
  "dc_urldecode (Some (dc_urlencode (Some [CHR 0xF6, CHR '' '', CHR ''%'']))) =
     [CHR 0xF6, CHR '' '', CHR ''%'']"
  using url_and_ext_round_trip [of "[CHR 0xF6, CHR '' '', CHR ''%'']"] by simp

text \<open>
  Encoded header words are safe to send and never touch a plain text: the result of
  \<open>dc_encode_header_words\<close> has 7-bit bytes only, for every input, and an input with no byte that
  needs quoting comes out unchanged.
\<close>

theorem header_words_safe:
  "\<exists>t. dc_encode_header_words (Some s) = Some t \<and> list_all (\<lambda>c. byte_of c < 128) t \<and>
       (to_be_quoted s \<or> t = s)"
  using header_loop_ascii [of s] header_loop_plain [of s]
  by (auto simp: dc_encode_header_words_def to_be_quoted_conv list_all_iff)

text \<open>
  C40: Decoding a mailbox name never writes past the buffer of four bytes per input byte that
  \<open>dc_decode_modified_utf7\<close> allocates, however the name sent by the server is formed.
\<close>

theorem utf7_decode_fits:
  "length (utf7_decode_loop change_spaces s) + 1 \<le> utf7_decode_alloc s \<and>
   length (dc_decode_modified_utf7 (Some s) change_spaces) < utf7_decode_alloc s"
  using utf7_decode_loop_fits [of change_spaces s]
    c_string_length [of "utf7_decode_loop change_spaces s"]
  by (simp add: utf7_decode_alloc_def dc_decode_modified_utf7_def)

end
