(* ===== verification/Address.thy ===== *)
theory Address
  imports Tools
begin

text \<open>
  The pure part of \<open>src/dc_contact.c\<close>: normalising and comparing e-mail addresses and display
  names.  The contacts table is in theory \<open>Contacts\<close>.
\<close>

section \<open>Addresses\<close>

definition dc_addr_normalize :: "cptr \<Rightarrow> string" where
  "dc_addr_normalize addr =
     (let addr_normalized = dc_trim (dc_strdup addr) in
      if starts_with ''mailto:'' addr_normalized
      then dc_trim (dc_strdup (Some (drop 7 addr_normalized)))
      else addr_normalized)"

text \<open>
  \<open>dc_addr_cmp\<close> is 0: the addresses as given are compared, the normalised copies are freed
  unused.
\<close>

definition dc_addr_cmp_eq :: "string \<Rightarrow> string \<Rightarrow> bool" where
  "dc_addr_cmp_eq addr1 addr2 = strcaseeq addr1 addr2"

text \<open>The check that the callers make before an address is stored.\<close>

definition rough_addr :: "string \<Rightarrow> bool" where
  "rough_addr addr \<longleftrightarrow> \<not> (length addr < 3 \<or> strchr addr (CHR ''@'') = None \<or> strchr addr (CHR ''.'') = None)"

text \<open>\<open>self_addr\<close> is the configuration value \<open>configured_addr\<close>.\<close>

definition dc_addr_equals_self :: "cptr \<Rightarrow> cptr \<Rightarrow> bool" where
  "dc_addr_equals_self self_addr addr =
     (case (addr, self_addr) of
        (Some a, Some s) \<Rightarrow> strcaseeq (dc_addr_normalize (Some a)) s
      | _ \<Rightarrow> False)"

section \<open>Names\<close>

definition dc_get_first_name :: "cptr \<Rightarrow> string" where
  "dc_get_first_name full_name =
     (let first_name = dc_strdup full_name in
      case strchr first_name (CHR '' '') of
        None \<Rightarrow> first_name
      | Some p1 \<Rightarrow>
          let first = dc_rtrim (take (length first_name - length p1) first_name) in
          if first = [] then dc_strdup full_name else first)"

definition quote_pair :: "char \<Rightarrow> char \<Rightarrow> bool" where
  "quote_pair a b \<longleftrightarrow> (a = CHR 0x27 \<and> b = CHR 0x27) \<or> (a = CHR 0x22 \<and> b = CHR 0x22) \<or>
     (a = CHR ''<'' \<and> b = CHR ''>'')"

definition blank_quotes :: "string \<Rightarrow> string" where
  "blank_quotes s =
     (if s \<noteq> [] \<and> quote_pair (hd s) (last s)
      then (s[0 := CHR '' ''])[length s - 1 := CHR '' ''] else s)"

definition dc_normalize_name :: "string \<Rightarrow> string" where
  "dc_normalize_name buf =
     (let full_name = blank_quotes (dc_trim buf) in
      case strchr full_name (CHR '','') of
        Some p1 \<Rightarrow>
          let last_name = dc_trim (take (length full_name - length p1) full_name);
              first_name = dc_trim (tl p1)
          in first_name @ '' '' @ last_name
      | None \<Rightarrow> dc_trim full_name)"

section \<open>Facts\<close>

text \<open>What the comparison misses: the copy with a blank in front is the same address.\<close>

lemma addr_cmp_ignores_normalization:
  "dc_addr_normalize (Some '' a@b.c'') = dc_addr_normalize (Some ''a@b.c'')"
  "\<not> dc_addr_cmp_eq '' a@b.c'' ''a@b.c''"
  by code_simp+

text \<open>A name that ends in a comma comes back with a blank in front.\<close>

lemma normalize_name_not_trimmed: "dc_normalize_name ''Petersen,'' = '' Petersen''"
  by code_simp

lemma trim_length: "length (dc_trim s) \<le> length s"
proof -
  have "length (dc_rtrim t) \<le> length t" for t
    using rtrim_split [of t] by (metis le_add1 length_append)
  moreover have "length (dc_ltrim s) \<le> length s" by (simp add: ltrim_conv length_dropWhile_le)
  ultimately show ?thesis unfolding dc_trim_def by (rule order_trans)
qed

lemma blank_quotes_length [simp]: "length (blank_quotes s) = length s"
  by (simp add: blank_quotes_def)

lemma normalize_name_length: "length (dc_normalize_name buf) \<le> length buf"
proof -
  let ?f = "blank_quotes (dc_trim buf)"
  have f: "length ?f \<le> length buf" by (simp add: trim_length)
  show ?thesis
  proof (cases "strchr ?f (CHR '','')")
    case None
    then show ?thesis
      using trim_length [of ?f] f by (simp add: dc_normalize_name_def)
  next
    case (Some p1)
    then have "CHR '','' \<in> set ?f" "p1 = dropWhile (\<lambda>c. c \<noteq> CHR '','') ?f"
      using strchr_Some by blast+
    then have p1: "p1 \<noteq> []" "length p1 \<le> length ?f"
      by (auto simp del: blank_quotes_length simp: length_dropWhile_le)
    have "length (dc_normalize_name buf) =
        length (dc_trim (tl p1)) + 1 + length (dc_trim (take (length ?f - length p1) ?f))"
      using Some by (simp add: dc_normalize_name_def Let_def)
    also have "\<dots> \<le> length (tl p1) + 1 + length (take (length ?f - length p1) ?f)"
      by (intro add_mono trim_length order_refl)
    also have "\<dots> \<le> length ?f" using p1 by (cases p1) auto
    finally show ?thesis using f by simp
  qed
qed

lemma addr_normalize_trimmed:
  "s = [] \<or> \<not> c_isspace (hd s) \<and> \<not> c_isspace (last s) \<Longrightarrow> \<not> starts_with ''mailto:'' s \<Longrightarrow>
     dc_addr_normalize (Some s) = s"
  by (simp add: dc_addr_normalize_def dc_strdup_def trim_id Let_def)

end
