(* ===== verification/Base64.thy ===== *)
theory Base64
  imports Interfaces
begin

text \<open>
  The base64 codec of libetpan that the core calls for keys and headers: \<open>encode_base64\<close> of
  \<open>libs/libetpan/src/data-types/base64.c\<close> and \<open>mailmime_base64_body_parse\<close> of
  \<open>libs/libetpan/src/low-level/mime/mailmime_content.c\<close>.  Allocation failures are left out, so
  the parser always succeeds.
\<close>

section \<open>Encoding\<close>

definition basis_64 :: string where
  "basis_64 = ''ABCDEFGHIJKLMNOPQRSTUVWXYZabcdefghijklmnopqrstuvwxyz0123456789+/''"

definition b64 :: "u8 \<Rightarrow> char" where
  "b64 v = basis_64 ! unat v"

fun encode_base64 :: "u8 list \<Rightarrow> string" where
  "encode_base64 [] = []"
| "encode_base64 [a] = [b64 (drop_bit 2 a), b64 (push_bit 4 a AND 0x30), CHR ''='', CHR ''='']"
| "encode_base64 [a, b] =
     [b64 (drop_bit 2 a), b64 ((push_bit 4 a AND 0x30) OR drop_bit 4 b), b64 (push_bit 2 b AND 0x3C), CHR ''='']"
| "encode_base64 (a # b # c # r) =
     b64 (drop_bit 2 a) # b64 ((push_bit 4 a AND 0x30) OR drop_bit 4 b) #
     b64 ((push_bit 2 b AND 0x3C) OR drop_bit 6 c) # b64 (c AND 0x3F) # encode_base64 r"

section \<open>Decoding\<close>

text \<open>\<open>None\<close> is the value \<open>-1\<close>, of the padding as of every other character.\<close>

definition get_base64_value :: "char \<Rightarrow> u8 option" where
  "get_base64_value ch =
     (if c_isupper ch then Some (of_char ch - 65)
      else if c_islower ch then Some (of_char ch - 97 + 26)
      else if c_isdigit ch then Some (of_char ch - 48 + 52)
      else if ch = CHR ''+'' then Some 62
      else if ch = CHR ''/'' then Some 63
      else None)"

text \<open>What is written for the values left in \<open>chunk\<close> at the end; unset ones are 0.\<close>

fun chunk_rest :: "u8 list \<Rightarrow> u8 list" where
  "chunk_rest [] = []"
| "chunk_rest [x] = [push_bit 2 x OR drop_bit 4 0]"
| "chunk_rest [x, y] = [push_bit 2 x OR drop_bit 4 y]"
| "chunk_rest (x # y # z # r) = [push_bit 2 x OR drop_bit 4 y, push_bit 4 y OR drop_bit 2 z]"

fun chunk_bytes :: "u8 list \<Rightarrow> u8 \<Rightarrow> u8 list" where
  "chunk_bytes [x, y, z] w =
     [push_bit 2 x OR drop_bit 4 y, push_bit 4 y OR drop_bit 2 z, push_bit 6 z OR w]"
| "chunk_bytes chunk w = []"

fun base64_parse_loop :: "u8 list \<Rightarrow> string \<Rightarrow> u8 list" where
  "base64_parse_loop chunk [] = chunk_rest chunk"
| "base64_parse_loop chunk (c # cs) =
     (case get_base64_value c of
        None \<Rightarrow> base64_parse_loop chunk cs
      | Some v \<Rightarrow>
          if length chunk = 3 then chunk_bytes chunk v @ base64_parse_loop [] cs
          else base64_parse_loop (chunk @ [v]) cs)"

definition mailmime_base64_body_parse :: "string \<Rightarrow> u8 list option" where
  "mailmime_base64_body_parse message = Some (base64_parse_loop [] message)"

section \<open>Round trip\<close>

lemma b64_value:
  assumes "v \<le> 63"
  shows "get_base64_value (b64 v) = Some v"
proof -
  have "\<forall>n \<in> set [0..<64]. get_base64_value (basis_64 ! n) = Some (of_nat n)" by code_simp
  moreover have "unat v < 64" using assms by (simp add: word_le_nat_alt)
  ultimately show ?thesis by (simp add: b64_def)
qed

text \<open>A filter of \<open>n\<close> low bits stays below its mask.\<close>

lemma le_63I: "v AND 0x3F = v \<Longrightarrow> v \<le> (63 :: u8)"
  by (metis word_and_le1)

lemma bits8: "(\<And>n. n \<in> {0, 1, 2, 3, 4, 5, 6, 7} \<Longrightarrow> bit v n = bit w n) \<Longrightarrow> v = (w :: u8)"
  by (rule bit_word_eqI) (auto simp: numeral_eq_Suc less_Suc_eq)

lemma u8_bit_high: "8 \<le> n \<Longrightarrow> \<not> bit (w :: u8) n"
  using bit_imp_le_length [of w n] by auto

lemmas u8_bits = bit_simps u8_bit_high numeral_2_eq_2 [symmetric] numeral_3_eq_3 [symmetric]

lemma sextets:
  "drop_bit 2 a \<le> (63 :: u8)" "push_bit 4 a AND 0x30 \<le> (63 :: u8)" "push_bit 2 b AND 0x3C \<le> (63 :: u8)"
  "(push_bit 4 a AND 0x30) OR drop_bit 4 b \<le> (63 :: u8)"
  "(push_bit 2 b AND 0x3C) OR drop_bit 6 c \<le> (63 :: u8)" "c AND 0x3F \<le> (63 :: u8)"
  by (rule le_63I, rule bits8, auto simp: u8_bits)+

lemma octets:
  "push_bit 2 (drop_bit 2 a) OR drop_bit 4 (push_bit 4 a AND 0x30) = (a :: u8)"
  "push_bit 2 (drop_bit 2 a) OR drop_bit 4 ((push_bit 4 a AND 0x30) OR drop_bit 4 b) = (a :: u8)"
  "push_bit 4 ((push_bit 4 a AND 0x30) OR drop_bit 4 b) OR drop_bit 2 (push_bit 2 b AND 0x3C) = (b :: u8)"
  "push_bit 4 ((push_bit 4 a AND 0x30) OR drop_bit 4 b) OR drop_bit 2 ((push_bit 2 b AND 0x3C) OR drop_bit 6 c) = (b :: u8)"
  "push_bit 6 ((push_bit 2 b AND 0x3C) OR drop_bit 6 c) OR (c AND 0x3F) = (c :: u8)"
  by (rule bits8, auto simp: u8_bits)+

lemma padding_value [simp]: "get_base64_value (CHR ''='') = None"
  by code_simp

lemma base64_parse_encode: "base64_parse_loop [] (encode_base64 b) = b"
  by (induction b rule: encode_base64.induct) (simp_all only: encode_base64.simps base64_parse_loop.simps
    b64_value sextets option.case list.size append.simps chunk_bytes.simps chunk_rest.simps octets padding_value
    if_True if_False, simp_all)

text \<open>The decoder skips whatever is not a base64 digit: blanks, line ends, the padding.\<close>

definition b64_digit :: "char \<Rightarrow> bool" where
  "b64_digit c \<longleftrightarrow> get_base64_value c \<noteq> None"

lemma base64_parse_filter: "base64_parse_loop ch s = base64_parse_loop ch (filter b64_digit s)"
  by (induction ch s rule: base64_parse_loop.induct) (auto simp: b64_digit_def split: option.splits)

definition b64_text :: "string \<Rightarrow> bool" where
  "b64_text s \<longleftrightarrow> (\<forall>c \<in> set s. b64_digit c \<or> c = CHR ''='')"

lemma encode_base64_text: "b64_text (encode_base64 b)"
  by (induction b rule: encode_base64.induct) (simp_all add: b64_text_def b64_digit_def b64_value sextets)

lemma encode_base64_Nil [simp]: "encode_base64 b = [] \<longleftrightarrow> b = []"
  by (cases b rule: encode_base64.cases) auto

interpretation b64: codec "\<lambda>b. True" encode_base64 "\<lambda>s. the (mailmime_base64_body_parse s)"
  by unfold_locales (simp add: mailmime_base64_body_parse_def base64_parse_encode)

end
