(* ===== verification/Aheader.thy ===== *)
theory Aheader
  imports Keys
begin

text \<open>
  \<open>src/dc_aheader.c\<close>: the Autocrypt header.  A header object is rendered to the text of an
  \<open>Autocrypt:\<close> header line and filled from one; a message with more than one valid header for the
  sender has none.
\<close>

abbreviation DC_PE_NOPREFERENCE :: int where "DC_PE_NOPREFERENCE \<equiv> 0"
abbreviation DC_PE_MUTUAL :: int where "DC_PE_MUTUAL \<equiv> 1"
abbreviation DC_PE_RESET :: int where "DC_PE_RESET \<equiv> 20"

record dc_aheader_t =
  ah_addr :: cptr
  ah_public_key :: dc_key_t
  ah_prefer_encrypt :: int

definition dc_aheader_new :: dc_aheader_t where
  "dc_aheader_new = \<lparr>ah_addr = None, ah_public_key = dc_key_new, ah_prefer_encrypt = 0\<rparr>"

definition dc_aheader_empty :: "dc_aheader_t \<Rightarrow> dc_aheader_t" where
  "dc_aheader_empty h =
     (let h = h\<lparr>ah_prefer_encrypt := 0, ah_addr := None\<rparr> in
      if key_binary (ah_public_key h) \<noteq> None then h\<lparr>ah_public_key := dc_key_new\<rparr> else h)"

section \<open>Rendering\<close>

definition dc_aheader_render :: "dc_aheader_t option \<Rightarrow> cptr" where
  "dc_aheader_render p =
     (case p of None \<Rightarrow> None
      | Some h \<Rightarrow>
          (case ah_addr h of None \<Rightarrow> None
           | Some addr \<Rightarrow>
               if key_binary (ah_public_key h) = None \<or> key_type (ah_public_key h) \<noteq> DC_KEY_PUBLIC then None
               else
                 (case dc_key_render_base64 (Some (ah_public_key h)) 78 '' '' 0 of
                    None \<Rightarrow> None
                  | Some keybase64_wrapped \<Rightarrow>
                      Some (''addr='' @ addr @ ''; '' @
                            (if ah_prefer_encrypt h = DC_PE_MUTUAL then ''prefer-encrypt=mutual; '' else []) @
                            ''keydata= '' @ keybase64_wrapped))))"

section \<open>Parsing\<close>

definition add_attribute :: "dc_aheader_t \<Rightarrow> string \<Rightarrow> cptr \<Rightarrow> bool \<times> dc_aheader_t" where
  "add_attribute h name value_ptr =
     (if strcaseeq name ''addr'' then
        (case value_ptr of None \<Rightarrow> (False, h)
         | Some v \<Rightarrow> if \<not> rough_addr v \<or> ah_addr h \<noteq> None then (False, h)
                     else (True, h\<lparr>ah_addr := Some (dc_addr_normalize (Some v))\<rparr>))
      else if strcaseeq name ''prefer-encrypt'' then
        (case value_ptr of
           Some v \<Rightarrow> if strcaseeq v ''mutual'' then (True, h\<lparr>ah_prefer_encrypt := DC_PE_MUTUAL\<rparr>) else (True, h)
         | None \<Rightarrow> (True, h))
      else if strcaseeq name ''keydata'' then
        (if value_ptr = None \<or> key_binary (ah_public_key h) \<noteq> None \<or> key_bytes (ah_public_key h) \<noteq> 0
         then (False, h)
         else let (r, k) = dc_key_set_from_base64 (ah_public_key h) value_ptr DC_KEY_PUBLIC
              in (r, h\<lparr>ah_public_key := k\<rparr>))
      else if name \<noteq> [] \<and> hd name = CHR ''_'' then (True, h)
      else (False, h))"

definition AHEADER_WS :: string where
  "AHEADER_WS = [CHR 0x09, CR, NL, CHR '' '']"

text \<open>\<open>p += strspn(p, chars)\<close>, \<open>p += strcspn(p, chars)\<close> and the text that the latter passes.\<close>

definition skip_span :: "string \<Rightarrow> string \<Rightarrow> string" where
  "skip_span chars p = dropWhile (\<lambda>c. c \<in> set chars) p"

definition skip_cspan :: "string \<Rightarrow> string \<Rightarrow> string" where
  "skip_cspan chars p = dropWhile (\<lambda>c. c \<notin> set chars) p"

definition cspan :: "string \<Rightarrow> string \<Rightarrow> string" where
  "cspan chars p = takeWhile (\<lambda>c. c \<notin> set chars) p"

text \<open>The text behind the name: the value, if there is one, and where the next round starts.\<close>

definition attr_value :: "string \<Rightarrow> cptr \<times> string" where
  "attr_value p =
     (let p = skip_span AHEADER_WS p in
      if p \<noteq> [] \<and> hd p = CHR ''='' then
        let p = skip_span (AHEADER_WS @ ''='') p
        in (Some (dc_trim (cspan '';'' p)), drop 1 (skip_cspan '';'' p))
      else (None, skip_span (AHEADER_WS @ '';'') p))"

text \<open>The result is \<open>False\<close> where a bad attribute makes the whole header invalid.\<close>

lemma skip_length: "length (skip_span a p) \<le> length p" "length (skip_cspan a p) \<le> length p"
  by (simp_all add: skip_span_def skip_cspan_def length_dropWhile_le)

lemma attr_value_length: "length (snd (attr_value p)) \<le> length p"
proof -
  have "length (skip_span a (skip_span b p)) \<le> length p" for a b
    by (rule order_trans [OF skip_length(1) skip_length(1)])
  moreover have "length (drop 1 (skip_cspan c (skip_span a (skip_span b p)))) \<le> length p" for a b c
    unfolding length_drop
    by (rule order_trans [OF diff_le_self order_trans [OF skip_length(2) order_trans [OF skip_length(1) skip_length(1)]]])
  ultimately show ?thesis by (simp add: attr_value_def Let_def)
qed

lemma cspan_progress: "cspan a p \<noteq> [] \<Longrightarrow> length (skip_cspan a p) < length p"
  by (cases p) (auto simp: cspan_def skip_cspan_def less_Suc_eq_le length_dropWhile_le split: if_splits)

text \<open>One round: \<open>Inl\<close> ends the loop, \<open>Inr\<close> goes on with the rest of the text.\<close>

definition aheader_round ::
    "dc_aheader_t \<Rightarrow> string \<Rightarrow> (bool \<times> dc_aheader_t) + (dc_aheader_t \<times> string)" where
  "aheader_round h p =
     (let beg_attr_name = skip_span (AHEADER_WS @ ''=;'') p;
          name = cspan (AHEADER_WS @ ''=;'') beg_attr_name;
          (value_ptr, p') = attr_value (skip_cspan (AHEADER_WS @ ''=;'') beg_attr_name);
          (ok, h') = add_attribute h name value_ptr
      in if name = [] then Inl (True, h) else if ok then Inr (h', p') else Inl (False, h'))"

lemma aheader_round_length:
  assumes "aheader_round h p = Inr (h', p')"
  shows "length p' < length p"
proof -
  let ?b = "skip_span (AHEADER_WS @ ''=;'') p"
  let ?q = "skip_cspan (AHEADER_WS @ ''=;'') ?b"
  have ne: "cspan (AHEADER_WS @ ''=;'') ?b \<noteq> []" and p': "p' = snd (attr_value ?q)"
    using assms by (auto simp only: aheader_round_def Let_def snd_conv split: prod.splits if_splits)
  have "length p' \<le> length ?q" unfolding p' by (rule attr_value_length)
  also have "\<dots> < length ?b" using ne by (rule cspan_progress)
  also have "\<dots> \<le> length p" by (rule skip_length)
  finally show ?thesis .
qed

function aheader_loop :: "dc_aheader_t \<Rightarrow> string \<Rightarrow> bool \<times> dc_aheader_t" where
  "aheader_loop h p =
     (if p = [] then (True, h)
      else case aheader_round h p of Inl r \<Rightarrow> r | Inr (h', p') \<Rightarrow> aheader_loop h' p')"
  by pat_completeness auto
termination
  by (relation "measure (length \<circ> snd)") (auto dest: aheader_round_length)

declare aheader_loop.simps [simp del, code]

definition dc_aheader_set_from_string :: "dc_aheader_t \<Rightarrow> cptr \<Rightarrow> bool \<times> dc_aheader_t" where
  "dc_aheader_set_from_string h header_str =
     (let h = dc_aheader_empty h in
      case header_str of None \<Rightarrow> (False, dc_aheader_empty h)
      | Some s \<Rightarrow>
          (case aheader_loop (h\<lparr>ah_prefer_encrypt := DC_PE_NOPREFERENCE\<rparr>) s of
             (True, h') \<Rightarrow>
               if ah_addr h' \<noteq> None \<and> key_binary (ah_public_key h') \<noteq> None then (True, h')
               else (False, dc_aheader_empty h')
           | (False, h') \<Rightarrow> (False, dc_aheader_empty h')))"

section \<open>The header of a message\<close>

text \<open>
  The fields of the mail: \<open>None\<close> stands for a field that is not an optional one (libetpan parses
  the standard fields into structures of their own); else the name and the value of the field.
\<close>

definition autocrypt_candidate :: "string \<Rightarrow> (cptr \<times> cptr) option \<Rightarrow> dc_aheader_t option" where
  "autocrypt_candidate wanted_from field =
     (case field of
        Some (Some fld_name, fld_value) \<Rightarrow>
          if strcaseeq fld_name ''Autocrypt'' then
            (case dc_aheader_set_from_string dc_aheader_new fld_value of
               (True, test) \<Rightarrow>
                 if dc_addr_cmp_eq (case ah_addr test of Some a \<Rightarrow> a | None \<Rightarrow> []) wanted_from
                 then Some test else None
             | (False, test) \<Rightarrow> None)
          else None
      | _ \<Rightarrow> None)"

fun imffields_loop :: "string \<Rightarrow> dc_aheader_t option \<Rightarrow> (cptr \<times> cptr) option list \<Rightarrow> dc_aheader_t option" where
  "imffields_loop wanted_from fine_header [] = fine_header"
| "imffields_loop wanted_from fine_header (fld # flds) =
     (let test = autocrypt_candidate wanted_from fld in
      if fine_header = None then imffields_loop wanted_from test flds
      else if test \<noteq> None then None
      else imffields_loop wanted_from fine_header flds)"

definition dc_aheader_new_from_imffields ::
    "cptr \<Rightarrow> (cptr \<times> cptr) option list option \<Rightarrow> dc_aheader_t option" where
  "dc_aheader_new_from_imffields wanted_from header =
     (case (wanted_from, header) of
        (Some w, Some flds) \<Rightarrow> imffields_loop w None flds
      | _ \<Rightarrow> None)"

section \<open>Only one valid header counts\<close>

lemma imffields_loop_conv:
  "imffields_loop w f flds =
     (case (case f of None \<Rightarrow> [] | Some h \<Rightarrow> [h]) @ List.map_filter (autocrypt_candidate w) flds of
        [h] \<Rightarrow> Some h | _ \<Rightarrow> None)"
  by (induction w f flds rule: imffields_loop.induct)
    (auto simp: Let_def List.map_filter_simps split: option.splits list.splits)

section \<open>A rendered header is read back\<close>

text \<open>
  Addresses that survive the header: as they are stored (trimmed, plausible), and without the
  characters that end an attribute or are skipped in front of a value.
\<close>

definition header_addr :: "string \<Rightarrow> bool" where
  "header_addr a \<longleftrightarrow> rough_addr a \<and> CHR '';'' \<notin> set a \<and> hd a \<noteq> CHR ''='' \<and> \<not> c_isspace (hd a) \<and>
     \<not> c_isspace (last a) \<and> \<not> starts_with ''mailto:'' a"

lemma ws_space: "c \<in> set AHEADER_WS \<Longrightarrow> c_isspace c"
  by (auto simp: AHEADER_WS_def c_isspace_def)

lemma skip_span_stop: "p \<noteq> [] \<Longrightarrow> hd p \<notin> set chars \<Longrightarrow> skip_span chars p = p"
  by (cases p) (auto simp: skip_span_def)

lemma cspan_append: "set u \<inter> set chars = {} \<Longrightarrow> c \<in> set chars \<Longrightarrow>
    cspan chars (u @ c # v) = u \<and> skip_cspan chars (u @ c # v) = c # v"
  by (induction u) (auto simp: cspan_def skip_cspan_def)

lemma cspan_all: "set u \<inter> set chars = {} \<Longrightarrow> cspan chars u = u \<and> skip_cspan chars u = []"
  by (induction u) (auto simp: cspan_def skip_cspan_def)

text \<open>An attribute \<open>name=value\<close> at the beginning of the text, behind a blank or not.\<close>

lemma attr_value_eq:
  assumes "v \<noteq> []" "hd v \<notin> set AHEADER_WS" "hd v \<noteq> CHR ''=''" "CHR '';'' \<notin> set v"
    and "blank = [] \<or> blank = '' ''"
  shows "attr_value (''='' @ blank @ v @ '';'' @ rest) = (Some (dc_trim v), rest)"
    "attr_value (''='' @ blank @ v) = (Some (dc_trim v), [])"
proof -
  have sk: "skip_span (AHEADER_WS @ ''='') (v @ w) = v @ w" for w
    using assms(1-3) by (intro skip_span_stop) auto
  then have skip: "skip_span (AHEADER_WS @ ''='') (''='' @ blank @ v @ w) = v @ w" for w
    using assms(5) by (auto simp: skip_span_def AHEADER_WS_def)
  have first: "skip_span AHEADER_WS (''='' @ w) = ''='' @ w" for w
    by (rule skip_span_stop) (auto simp: AHEADER_WS_def)
  show "attr_value (''='' @ blank @ v @ '';'' @ rest) = (Some (dc_trim v), rest)"
    unfolding attr_value_def first Let_def skip
    using cspan_append [of v "'';''" "CHR '';''" rest] assms(4) by simp
  show "attr_value (''='' @ blank @ v) = (Some (dc_trim v), [])"
    unfolding attr_value_def first Let_def skip [of "[]", simplified]
    using cspan_all [of v "'';''"] assms(4) skip [of "[]"] by simp
qed

lemma aheader_loop_step:
  assumes "name \<noteq> []" "set name \<inter> set (AHEADER_WS @ ''=;'') = {}" "blank = [] \<or> blank = '' ''"
    and "attr_value (''='' @ w) = (v, rest)"
  shows "aheader_loop h (blank @ name @ ''='' @ w) =
    (case add_attribute h name v of (True, h') \<Rightarrow> aheader_loop h' rest | (False, h') \<Rightarrow> (False, h'))"
proof -
  have disj: "hd name \<notin> set (AHEADER_WS @ ''=;'')" using assms(2) hd_in_set [OF assms(1)] by blast
  have "skip_span (AHEADER_WS @ ''=;'') (name @ ''='' @ w) = name @ ''='' @ w"
    using disj assms(1) by (intro skip_span_stop) simp_all
  then have "skip_span (AHEADER_WS @ ''=;'') (blank @ name @ ''='' @ w) = name @ ''='' @ w"
    using assms(3) by (auto simp: skip_span_def AHEADER_WS_def)
  moreover have "cspan (AHEADER_WS @ ''=;'') (name @ ''='' @ w) = name \<and>
      skip_cspan (AHEADER_WS @ ''=;'') (name @ ''='' @ w) = ''='' @ w"
    using cspan_append [OF assms(2), of "CHR ''=''" w] by simp
  ultimately show ?thesis
    using assms(1,4) by (subst aheader_loop.simps) (auto simp: aheader_round_def Let_def split: prod.splits bool.splits)
qed

lemma wrapped_key:
  assumes "b \<noteq> []"
  defines "w \<equiv> breaks_loop (encode_base64 b) 0 78 '' ''"
  shows "w \<noteq> []" "\<not> c_isspace (hd w)" "hd w \<noteq> CHR ''=''" "CHR '';'' \<notin> set w" "base64_parse_loop [] (dc_trim w) = b"
proof -
  have h: "b64_digit (hd (encode_base64 b))" using assms(1) by (rule encode_base64_hd)
  then show "w \<noteq> []" "\<not> c_isspace (hd w)" "hd w \<noteq> CHR ''=''"
    using breaks_loop_hd [of "encode_base64 b" 0 78 "'' ''"] assms(1) b64_digit_values [OF h] no_digit_blank(3)
    by (auto simp: w_def)
  have "b64_digit c \<or> c = CHR ''='' \<or> c = CHR '' ''" if "c \<in> set w" for c
    using that breaks_loop_set [of "encode_base64 b" 0 78 "'' ''"] encode_base64_text [of b]
    by (auto simp: w_def b64_text_def)
  moreover have "\<not> b64_digit (CHR '';'')" by (simp add: b64_digit_def get_base64_value_def ctype_defs)
  ultimately show "CHR '';'' \<notin> set w" by fastforce
  have sp: "filter b64_digit (dc_trim t) = filter b64_digit t" for t
  proof -
    have "filter b64_digit (dropWhile c_isspace u) = filter b64_digit u" for u
      using b64_digit_values by (induction u) auto
    then show ?thesis by (simp add: dc_trim_def ltrim_conv rtrim_conv rev_filter [symmetric])
  qed
  have "base64_parse_loop [] (dc_trim w) = base64_parse_loop [] (filter b64_digit w)"
    using base64_parse_filter [of "[]" "dc_trim w"] by (simp add: sp)
  also have "\<dots> = base64_parse_loop [] (filter b64_digit (encode_base64 b))"
    by (simp add: w_def filter_breaks no_digit_blank)
  also have "\<dots> = b" by (simp add: base64_parse_filter [symmetric] base64_parse_encode)
  finally show "base64_parse_loop [] (dc_trim w) = b" .
qed

definition header_ok :: "dc_aheader_t \<Rightarrow> bool" where
  "header_ok h \<longleftrightarrow> (\<exists>a. ah_addr h = Some a \<and> header_addr a) \<and>
     (\<exists>b. key_binary (ah_public_key h) = Some b \<and> b \<noteq> []) \<and> key_type (ah_public_key h) = DC_KEY_PUBLIC \<and>
     ah_prefer_encrypt h \<in> {DC_PE_NOPREFERENCE, DC_PE_MUTUAL}"

lemma name_chars:
  "set ''addr'' \<inter> set (AHEADER_WS @ ''=;'') = {}" "set ''prefer-encrypt'' \<inter> set (AHEADER_WS @ ''=;'') = {}"
  "set ''keydata'' \<inter> set (AHEADER_WS @ ''=;'') = {}"
  by (simp_all add: AHEADER_WS_def)

lemma attr_names:
  "\<not> strcaseeq ''prefer-encrypt'' ''addr''" "\<not> strcaseeq ''keydata'' ''addr''"
  "\<not> strcaseeq ''keydata'' ''prefer-encrypt''"
  by code_simp+

lemma loop_keydata:
  assumes b: "b \<noteq> []" and g: "key_binary (ah_public_key g) = None"
  defines "w \<equiv> breaks_loop (encode_base64 b) 0 78 '' ''"
  shows "aheader_loop g ('' '' @ ''keydata'' @ ''='' @ ('' '' @ w)) =
    (True, g\<lparr>ah_public_key := \<lparr>key_binary = Some b, key_type = DC_KEY_PUBLIC\<rparr>\<rparr>)"
proof -
  note w = wrapped_key [OF b, folded w_def]
  have av: "attr_value (''='' @ '' '' @ w) = (Some (dc_trim w), [])"
    using w(1-4) ws_space by (intro attr_value_eq(2)) auto
  have "add_attribute g ''keydata'' (Some (dc_trim w)) =
      (True, g\<lparr>ah_public_key := \<lparr>key_binary = Some b, key_type = DC_KEY_PUBLIC\<rparr>\<rparr>)"
    using g b attr_names
    by (simp add: add_attribute_def key_bytes_def dc_key_set_from_base64_def mailmime_base64_body_parse_def w(5)
        dc_key_set_from_binary_def dc_key_empty_def Let_def)
  moreover have "aheader_loop g ('' '' @ ''keydata'' @ ''='' @ ('' '' @ w)) =
      (case add_attribute g ''keydata'' (Some (dc_trim w)) of
         (True, h') \<Rightarrow> aheader_loop h' [] | (False, h') \<Rightarrow> (False, h'))"
    using av name_chars(3) by (intro aheader_loop_step) auto
  ultimately show ?thesis by (simp add: aheader_loop.simps [of _ "[]"])
qed

lemma loop_mutual:
  "aheader_loop g ('' '' @ ''prefer-encrypt=mutual;'' @ rest) =
     aheader_loop (g\<lparr>ah_prefer_encrypt := DC_PE_MUTUAL\<rparr>) rest"
proof -
  have av: "attr_value (''='' @ [] @ ''mutual'' @ '';'' @ rest) = (Some (dc_trim ''mutual''), rest)"
    by (rule attr_value_eq(1)) (auto simp: AHEADER_WS_def)
  have "aheader_loop g ('' '' @ ''prefer-encrypt'' @ ''='' @ ([] @ ''mutual'' @ '';'' @ rest)) =
     (case add_attribute g ''prefer-encrypt'' (Some (dc_trim ''mutual'')) of
         (True, h') \<Rightarrow> aheader_loop h' rest | (False, h') \<Rightarrow> (False, h'))"
    using av name_chars(2) by (intro aheader_loop_step) auto
  moreover have "dc_trim ''mutual'' = ''mutual''" by code_simp
  ultimately show ?thesis using attr_names by (simp add: add_attribute_def)
qed

lemma loop_addr:
  assumes a: "header_addr a" and g: "ah_addr g = None"
  shows "aheader_loop g (''addr'' @ ''='' @ (a @ '';'' @ rest)) = aheader_loop (g\<lparr>ah_addr := Some a\<rparr>) rest"
proof -
  have aa: "a \<noteq> []" "hd a \<notin> set AHEADER_WS" "hd a \<noteq> CHR ''=''" "CHR '';'' \<notin> set a" "dc_trim a = a"
    "dc_addr_normalize (Some a) = a" "rough_addr a"
    using a ws_space addr_normalize_trimmed [of a] by (auto simp: header_addr_def rough_addr_def trim_id)
  have "aheader_loop g ([] @ ''addr'' @ ''='' @ (a @ '';'' @ rest)) =
      (case add_attribute g ''addr'' (Some a) of
         (True, h') \<Rightarrow> aheader_loop h' rest | (False, h') \<Rightarrow> (False, h'))"
    using attr_value_eq(1) [OF aa(1-4), of "[]"] aa(5) name_chars(1) by (intro aheader_loop_step) auto
  then show ?thesis using aa(6,7) g by (simp add: add_attribute_def)
qed

lemma header_read_back:
  assumes ok: "header_ok h"
  obtains s where "dc_aheader_render (Some h) = Some s" "dc_aheader_set_from_string h0 (Some s) = (True, h)"
proof -
  obtain a b where a: "ah_addr h = Some a" "header_addr a" and b: "key_binary (ah_public_key h) = Some b" "b \<noteq> []"
    and t: "key_type (ah_public_key h) = DC_KEY_PUBLIC" and pe: "ah_prefer_encrypt h \<in> {DC_PE_NOPREFERENCE, DC_PE_MUTUAL}"
    using ok by (auto simp: header_ok_def)
  let ?pref = "if ah_prefer_encrypt h = DC_PE_MUTUAL then ''prefer-encrypt=mutual; '' else []"
  let ?kd = "''keydata'' @ ''='' @ ('' '' @ breaks_loop (encode_base64 b) 0 78 '' '')"
  define s where "s = ''addr'' @ ''='' @ (a @ '';'' @ '' '' @ ?pref @ ?kd)"
  have render: "dc_aheader_render (Some h) = Some s"
    using a b t by (simp add: dc_aheader_render_def dc_key_render_base64_def dc_render_base64_def
        dc_insert_breaks_def s_def)
  define h1 where "h1 = (dc_aheader_empty h0)\<lparr>ah_prefer_encrypt := DC_PE_NOPREFERENCE\<rparr>"
  have h1: "ah_addr h1 = None" "ah_prefer_encrypt h1 = DC_PE_NOPREFERENCE" "key_binary (ah_public_key h1) = None"
    by (auto simp: h1_def dc_aheader_empty_def dc_key_new_def Let_def)
  have "aheader_loop h1 s = aheader_loop (h1\<lparr>ah_addr := Some a\<rparr>) ('' '' @ ?pref @ ?kd)"
    using loop_addr [OF a(2) h1(1)] by (simp only: s_def)
  also have "\<dots> = aheader_loop (h1\<lparr>ah_addr := Some a, ah_prefer_encrypt := ah_prefer_encrypt h\<rparr>) ('' '' @ ?kd)"
    using pe h1(2) loop_mutual [of _ "'' '' @ ?kd"] by (cases h1) auto
  also have "\<dots> = (True, h1\<lparr>ah_addr := Some a, ah_prefer_encrypt := ah_prefer_encrypt h,
        ah_public_key := \<lparr>key_binary = Some b, key_type = DC_KEY_PUBLIC\<rparr>\<rparr>)"
    using h1 b by (subst loop_keydata) simp_all
  also have "\<dots> = (True, h)" using a b t by (cases h, cases h1) simp
  finally show thesis
    using that [OF render] a b by (simp add: dc_aheader_set_from_string_def h1_def)
qed

section \<open>Properties\<close>

text \<open>
  C37: An Autocrypt header survives the transport: parsing what \<open>dc_aheader_render\<close> writes for a header
  object (whose address has no character that is special in the header) yields the same object,
  address, key and preference, whatever object the result is stored in.
\<close>

theorem aheader_round_trip:
  assumes "header_ok h"
  shows "\<exists>s. dc_aheader_render (Some h) = Some s \<and> dc_aheader_set_from_string h0 (Some s) = (True, h)"
  using header_read_back [OF assms] by blast

definition sample_header :: dc_aheader_t where
  "sample_header = \<lparr>ah_addr = Some ''a@b.example.com'',
     ah_public_key = \<lparr>key_binary = Some [1, 2, 3, 4], key_type = DC_KEY_PUBLIC\<rparr>,
     ah_prefer_encrypt = DC_PE_MUTUAL\<rparr>"

theorem aheader_round_trip_witness:
  "\<exists>s. dc_aheader_render (Some sample_header) = Some s \<and>
     dc_aheader_set_from_string dc_aheader_new (Some s) = (True, sample_header)"
proof (rule aheader_round_trip)
  have "header_addr ''a@b.example.com''" by code_simp
  then show "header_ok sample_header" by (simp add: header_ok_def sample_header_def)
qed

text \<open>
  The Autocrypt header of a message is its only valid one: \<open>dc_aheader_new_from_imffields\<close> returns a
  header exactly if one field, and no other, parses as an Autocrypt header for the sender.
\<close>

theorem aheader_unique:
  "dc_aheader_new_from_imffields (Some from) (Some flds) =
     (case List.map_filter (autocrypt_candidate from) flds of [h] \<Rightarrow> Some h | _ \<Rightarrow> None)"
  by (simp add: dc_aheader_new_from_imffields_def imffields_loop_conv)

end
