(* ===== verification/Peerstate.thy ===== *)
theory Peerstate
  imports Aheader
begin

text \<open>
  \<open>src/dc_apeerstate.c\<close>: what is known about the key of a peer (the Autocrypt peer state), the table
  \<open>acpeerstates\<close> it is kept in, and its transitions on Autocrypt headers, gossip headers, mails
  without a header and verifications.

  The key fields of the structure are pointers and \<open>dc_apeerstate_set_verified\<close> makes two of them
  point to the same key object, which \<open>dc_apeerstate_apply_header\<close> then changes in place.  So the
  model has a store: \<open>ps_keys\<close> holds the key objects of the peer state, a pointer is an index into it,
  a new object is appended.
\<close>

abbreviation DC_NOT_VERIFIED :: int where "DC_NOT_VERIFIED \<equiv> 0"
abbreviation DC_BIDIRECT_VERIFIED :: int where "DC_BIDIRECT_VERIFIED \<equiv> 2"
abbreviation DC_SAVE_TIMESTAMPS :: u32 where "DC_SAVE_TIMESTAMPS \<equiv> 1"
abbreviation DC_SAVE_ALL :: u32 where "DC_SAVE_ALL \<equiv> 2"
abbreviation DC_DE_ENCRYPTION_PAUSED :: u32 where "DC_DE_ENCRYPTION_PAUSED \<equiv> 1"
abbreviation DC_DE_FINGERPRINT_CHANGED :: u32 where "DC_DE_FINGERPRINT_CHANGED \<equiv> 2"
abbreviation DC_PS_GOSSIP_KEY :: int where "DC_PS_GOSSIP_KEY \<equiv> 0"
abbreviation DC_PS_PUBLIC_KEY :: int where "DC_PS_PUBLIC_KEY \<equiv> 1"

record dc_apeerstate_t =
  ps_addr :: cptr
  ps_last_seen :: int
  ps_last_seen_autocrypt :: int
  ps_prefer_encrypt :: int
  ps_public_key :: "nat option"
  ps_public_key_fingerprint :: cptr
  ps_gossip_key :: "nat option"
  ps_gossip_timestamp :: int
  ps_gossip_key_fingerprint :: cptr
  ps_verified_key :: "nat option"
  ps_verified_key_fingerprint :: cptr
  ps_to_save :: u32
  ps_degrade_event :: u32
  ps_keys :: "dc_key_t list"

definition key_of :: "dc_apeerstate_t \<Rightarrow> nat option \<Rightarrow> dc_key_t option" where
  "key_of ps p = (case p of None \<Rightarrow> None | Some i \<Rightarrow> if i < length (ps_keys ps) then Some (ps_keys ps ! i) else None)"

definition dc_apeerstate_new :: dc_apeerstate_t where
  "dc_apeerstate_new =
     \<lparr>ps_addr = None, ps_last_seen = 0, ps_last_seen_autocrypt = 0, ps_prefer_encrypt = 0,
      ps_public_key = None, ps_public_key_fingerprint = None, ps_gossip_key = None,
      ps_gossip_timestamp = 0, ps_gossip_key_fingerprint = None, ps_verified_key = None,
      ps_verified_key_fingerprint = None, ps_to_save = 0, ps_degrade_event = 0, ps_keys = []\<rparr>"

definition dc_apeerstate_empty :: "dc_apeerstate_t \<Rightarrow> dc_apeerstate_t" where
  "dc_apeerstate_empty ps =
     ps\<lparr>ps_last_seen := 0, ps_last_seen_autocrypt := 0, ps_prefer_encrypt := 0, ps_to_save := 0,
        ps_addr := None, ps_public_key_fingerprint := None, ps_gossip_key_fingerprint := None,
        ps_verified_key_fingerprint := None, ps_public_key := None, ps_gossip_timestamp := 0,
        ps_gossip_key := None, ps_verified_key := None, ps_degrade_event := 0\<rparr>"

text \<open>\<open>dc_key_new()\<close> for a field, and \<open>dc_key_set_from_...\<close> on the object a field points to.\<close>

definition new_public :: "dc_apeerstate_t \<Rightarrow> dc_apeerstate_t" where
  "new_public ps = ps\<lparr>ps_public_key := Some (length (ps_keys ps)), ps_keys := ps_keys ps @ [dc_key_new]\<rparr>"

definition new_gossip :: "dc_apeerstate_t \<Rightarrow> dc_apeerstate_t" where
  "new_gossip ps = ps\<lparr>ps_gossip_key := Some (length (ps_keys ps)), ps_keys := ps_keys ps @ [dc_key_new]\<rparr>"

definition new_verified :: "dc_apeerstate_t \<Rightarrow> dc_apeerstate_t" where
  "new_verified ps = ps\<lparr>ps_verified_key := Some (length (ps_keys ps)), ps_keys := ps_keys ps @ [dc_key_new]\<rparr>"

definition set_object :: "dc_apeerstate_t \<Rightarrow> nat option \<Rightarrow> (dc_key_t \<Rightarrow> bool \<times> dc_key_t) \<Rightarrow> dc_apeerstate_t" where
  "set_object ps p f =
     (case p of None \<Rightarrow> ps
      | Some i \<Rightarrow> ps\<lparr>ps_keys := (ps_keys ps)[i := snd (f (ps_keys ps ! i))]\<rparr>)"

section \<open>Fingerprints\<close>

definition nonempty_fp :: "cptr \<Rightarrow> bool" where
  "nonempty_fp fp \<longleftrightarrow> fp \<noteq> None \<and> fp \<noteq> Some []"

definition fp_changed :: "cptr \<Rightarrow> string \<Rightarrow> bool" where
  "fp_changed old_fp new_fp \<longleftrightarrow>
     \<not> nonempty_fp old_fp \<or> new_fp = [] \<or> \<not> strcaseeq (the old_fp) new_fp"

definition note_fp_change :: "cptr \<Rightarrow> string \<Rightarrow> dc_apeerstate_t \<Rightarrow> dc_apeerstate_t" where
  "note_fp_change old_fp new_fp ps =
     (if fp_changed old_fp new_fp
      then ps\<lparr>ps_to_save := ps_to_save ps OR DC_SAVE_ALL,
              ps_degrade_event := (if nonempty_fp old_fp
                                   then ps_degrade_event ps OR DC_DE_FINGERPRINT_CHANGED
                                   else ps_degrade_event ps)\<rparr>
      else ps)"

definition dc_apeerstate_recalc_fingerprint ::
    "(u8 list \<Rightarrow> u8 list option) \<Rightarrow> dc_apeerstate_t \<Rightarrow> dc_apeerstate_t" where
  "dc_apeerstate_recalc_fingerprint pgp ps =
     (let ps = (if ps_public_key ps \<noteq> None then
                  let fp = dc_key_get_fingerprint pgp (key_of ps (ps_public_key ps)) in
                  note_fp_change (ps_public_key_fingerprint ps) fp (ps\<lparr>ps_public_key_fingerprint := Some fp\<rparr>)
                else ps)
      in if ps_gossip_key ps \<noteq> None then
           let fp = dc_key_get_fingerprint pgp (key_of ps (ps_gossip_key ps)) in
           note_fp_change (ps_gossip_key_fingerprint ps) fp (ps\<lparr>ps_gossip_key_fingerprint := Some fp\<rparr>)
         else ps)"

section \<open>Transitions\<close>

definition dc_apeerstate_init_from_header ::
    "(u8 list \<Rightarrow> u8 list option) \<Rightarrow> dc_apeerstate_t \<Rightarrow> dc_aheader_t option \<Rightarrow> int \<Rightarrow> bool \<times> dc_apeerstate_t" where
  "dc_apeerstate_init_from_header pgp ps hdr message_time =
     (case hdr of None \<Rightarrow> (False, ps)
      | Some h \<Rightarrow>
          let ps = (dc_apeerstate_empty ps)\<lparr>ps_addr := Some (dc_strdup (ah_addr h)),
                     ps_last_seen := message_time, ps_last_seen_autocrypt := message_time,
                     ps_to_save := DC_SAVE_ALL, ps_prefer_encrypt := ah_prefer_encrypt h\<rparr>;
              ps = new_public ps;
              ps = set_object ps (ps_public_key ps) (\<lambda>k. dc_key_set_from_key k (Some (ah_public_key h)))
          in (True, dc_apeerstate_recalc_fingerprint pgp ps))"

definition dc_apeerstate_init_from_gossip ::
    "(u8 list \<Rightarrow> u8 list option) \<Rightarrow> dc_apeerstate_t \<Rightarrow> dc_aheader_t option \<Rightarrow> int \<Rightarrow> bool \<times> dc_apeerstate_t" where
  "dc_apeerstate_init_from_gossip pgp ps gossip_header message_time =
     (case gossip_header of None \<Rightarrow> (False, ps)
      | Some h \<Rightarrow>
          let ps = (dc_apeerstate_empty ps)\<lparr>ps_addr := Some (dc_strdup (ah_addr h)),
                     ps_gossip_timestamp := message_time, ps_to_save := DC_SAVE_ALL\<rparr>;
              ps = new_gossip ps;
              ps = set_object ps (ps_gossip_key ps) (\<lambda>k. dc_key_set_from_key k (Some (ah_public_key h)))
          in (True, dc_apeerstate_recalc_fingerprint pgp ps))"

definition dc_apeerstate_degrade_encryption :: "dc_apeerstate_t \<Rightarrow> int \<Rightarrow> dc_apeerstate_t" where
  "dc_apeerstate_degrade_encryption ps message_time =
     (let ps = (if ps_prefer_encrypt ps = DC_PE_MUTUAL
                then ps\<lparr>ps_degrade_event := ps_degrade_event ps OR DC_DE_ENCRYPTION_PAUSED\<rparr> else ps)
      in ps\<lparr>ps_prefer_encrypt := DC_PE_RESET, ps_last_seen := message_time, ps_to_save := DC_SAVE_ALL\<rparr>)"

text \<open>The guard of both \<open>apply\<close> operations.\<close>

definition header_applies :: "dc_apeerstate_t \<Rightarrow> dc_aheader_t \<Rightarrow> bool" where
  "header_applies ps h \<longleftrightarrow>
     (case (ps_addr ps, ah_addr h) of
        (Some a, Some b) \<Rightarrow> key_binary (ah_public_key h) \<noteq> None \<and> strcaseeq a b
      | _ \<Rightarrow> False)"

definition apply_preference :: "dc_apeerstate_t \<Rightarrow> dc_aheader_t \<Rightarrow> dc_apeerstate_t" where
  "apply_preference ps h =
     (if (ah_prefer_encrypt h = DC_PE_MUTUAL \<or> ah_prefer_encrypt h = DC_PE_NOPREFERENCE) \<and>
         ah_prefer_encrypt h \<noteq> ps_prefer_encrypt ps
      then
        let ps = (if ps_prefer_encrypt ps = DC_PE_MUTUAL \<and> ah_prefer_encrypt h \<noteq> DC_PE_MUTUAL
                  then ps\<lparr>ps_degrade_event := ps_degrade_event ps OR DC_DE_ENCRYPTION_PAUSED\<rparr> else ps)
        in ps\<lparr>ps_prefer_encrypt := ah_prefer_encrypt h, ps_to_save := ps_to_save ps OR DC_SAVE_ALL\<rparr>
      else ps)"

definition apply_public_key :: "(u8 list \<Rightarrow> u8 list option) \<Rightarrow> dc_apeerstate_t \<Rightarrow> dc_key_t \<Rightarrow> dc_apeerstate_t" where
  "apply_public_key pgp ps k =
     (let ps = (if ps_public_key ps = None then new_public ps else ps) in
      if \<not> dc_key_equals (key_of ps (ps_public_key ps)) (Some k) then
        let ps = set_object ps (ps_public_key ps) (\<lambda>old. dc_key_set_from_key old (Some k));
            ps = dc_apeerstate_recalc_fingerprint pgp ps
        in ps\<lparr>ps_to_save := ps_to_save ps OR DC_SAVE_ALL\<rparr>
      else ps)"

definition apply_gossip_key :: "(u8 list \<Rightarrow> u8 list option) \<Rightarrow> dc_apeerstate_t \<Rightarrow> dc_key_t \<Rightarrow> dc_apeerstate_t" where
  "apply_gossip_key pgp ps k =
     (let ps = (if ps_gossip_key ps = None then new_gossip ps else ps) in
      if \<not> dc_key_equals (key_of ps (ps_gossip_key ps)) (Some k) then
        let ps = set_object ps (ps_gossip_key ps) (\<lambda>old. dc_key_set_from_key old (Some k));
            ps = dc_apeerstate_recalc_fingerprint pgp ps
        in ps\<lparr>ps_to_save := ps_to_save ps OR DC_SAVE_ALL\<rparr>
      else ps)"

definition dc_apeerstate_apply_header ::
    "(u8 list \<Rightarrow> u8 list option) \<Rightarrow> dc_apeerstate_t \<Rightarrow> dc_aheader_t option \<Rightarrow> int \<Rightarrow> dc_apeerstate_t" where
  "dc_apeerstate_apply_header pgp ps hdr message_time =
     (case hdr of None \<Rightarrow> ps
      | Some h \<Rightarrow>
          if \<not> header_applies ps h then ps
          else if message_time > ps_last_seen_autocrypt ps then
            let ps = ps\<lparr>ps_last_seen := message_time, ps_last_seen_autocrypt := message_time,
                        ps_to_save := ps_to_save ps OR DC_SAVE_TIMESTAMPS\<rparr>
            in apply_public_key pgp (apply_preference ps h) (ah_public_key h)
          else ps)"

definition dc_apeerstate_apply_gossip ::
    "(u8 list \<Rightarrow> u8 list option) \<Rightarrow> dc_apeerstate_t \<Rightarrow> dc_aheader_t option \<Rightarrow> int \<Rightarrow> dc_apeerstate_t" where
  "dc_apeerstate_apply_gossip pgp ps gossip_header message_time =
     (case gossip_header of None \<Rightarrow> ps
      | Some h \<Rightarrow>
          if \<not> header_applies ps h then ps
          else if message_time > ps_gossip_timestamp ps then
            let ps = ps\<lparr>ps_gossip_timestamp := message_time, ps_to_save := ps_to_save ps OR DC_SAVE_TIMESTAMPS\<rparr>
            in apply_gossip_key pgp ps (ah_public_key h)
          else ps)"

definition fp_matches :: "cptr \<Rightarrow> string \<Rightarrow> bool" where
  "fp_matches stored fingerprint \<longleftrightarrow>
     nonempty_fp stored \<and> fingerprint \<noteq> [] \<and> strcaseeq (the stored) fingerprint"

definition dc_apeerstate_set_verified ::
    "dc_apeerstate_t \<Rightarrow> int \<Rightarrow> string \<Rightarrow> int \<Rightarrow> bool \<times> dc_apeerstate_t" where
  "dc_apeerstate_set_verified ps which_key fingerprint verified =
     (if (which_key \<noteq> DC_PS_GOSSIP_KEY \<and> which_key \<noteq> DC_PS_PUBLIC_KEY) \<or> verified \<noteq> DC_BIDIRECT_VERIFIED
      then (False, ps)
      else if which_key = DC_PS_PUBLIC_KEY \<and> fp_matches (ps_public_key_fingerprint ps) fingerprint then
        (True, ps\<lparr>ps_to_save := ps_to_save ps OR DC_SAVE_ALL, ps_verified_key := ps_public_key ps,
                  ps_verified_key_fingerprint := Some (dc_strdup (ps_public_key_fingerprint ps))\<rparr>)
      else if which_key = DC_PS_GOSSIP_KEY \<and> fp_matches (ps_gossip_key_fingerprint ps) fingerprint then
        (True, ps\<lparr>ps_to_save := ps_to_save ps OR DC_SAVE_ALL, ps_verified_key := ps_gossip_key ps,
                  ps_verified_key_fingerprint := Some (dc_strdup (ps_gossip_key_fingerprint ps))\<rparr>)
      else (False, ps))"

section \<open>Reading a peer state\<close>

definition bad_key :: "dc_apeerstate_t \<Rightarrow> nat option \<Rightarrow> bool" where
  "bad_key ps p \<longleftrightarrow> p \<noteq> None \<and> (case key_of ps p of None \<Rightarrow> True | Some k \<Rightarrow> key_binary k = None \<or> key_bytes k = 0)"

definition dc_apeerstate_peek_key :: "dc_apeerstate_t option \<Rightarrow> bool \<Rightarrow> dc_key_t option" where
  "dc_apeerstate_peek_key p min_verified =
     (case p of None \<Rightarrow> None
      | Some ps \<Rightarrow>
          if bad_key ps (ps_public_key ps) \<or> bad_key ps (ps_gossip_key ps) \<or> bad_key ps (ps_verified_key ps) then None
          else if min_verified then key_of ps (ps_verified_key ps)
          else if ps_public_key ps \<noteq> None then key_of ps (ps_public_key ps)
          else key_of ps (ps_gossip_key ps))"

text \<open>
  A header object without a key (\<open>public_key == NULL\<close>) is dereferenced by \<open>dc_aheader_render\<close>: the
  outer \<open>None\<close> is that crash.
\<close>

definition dc_apeerstate_render_gossip_header :: "dc_apeerstate_t option \<Rightarrow> bool \<Rightarrow> cptr option" where
  "dc_apeerstate_render_gossip_header p min_verified =
     (case p of None \<Rightarrow> Some None
      | Some ps \<Rightarrow>
          (case ps_addr ps of None \<Rightarrow> Some None
           | Some addr \<Rightarrow>
               (case dc_apeerstate_peek_key p min_verified of
                  None \<Rightarrow> None
                | Some k \<Rightarrow> Some (dc_aheader_render
                    (Some \<lparr>ah_addr = Some addr, ah_public_key = k, ah_prefer_encrypt = DC_PE_NOPREFERENCE\<rparr>)))))"

text \<open>
  The fingerprints of the signatures of a mail, a hash used as a set; its string keys are compared
  without regard to case.
\<close>

definition dc_apeerstate_has_verified_key :: "dc_apeerstate_t option \<Rightarrow> string list option \<Rightarrow> bool" where
  "dc_apeerstate_has_verified_key p fingerprints =
     (case (p, fingerprints) of
        (Some ps, Some fps) \<Rightarrow>
          ps_verified_key ps \<noteq> None \<and>
          (case ps_verified_key_fingerprint ps of None \<Rightarrow> False | Some fp \<Rightarrow> \<exists>f \<in> set fps. strcaseeq f fp)
      | _ \<Rightarrow> False)"

section \<open>The table acpeerstates\<close>

text \<open>Text columns may be null; a blob column without bytes is null.\<close>

record peer_row =
  pr_addr :: string
  pr_last_seen :: int
  pr_last_seen_autocrypt :: int
  pr_prefer_encrypted :: int
  pr_public_key :: "u8 list option"
  pr_gossip_timestamp :: int
  pr_gossip_key :: "u8 list option"
  pr_public_key_fingerprint :: cptr
  pr_gossip_key_fingerprint :: cptr
  pr_verified_key :: "u8 list option"
  pr_verified_key_fingerprint :: cptr

text \<open>\<open>gossip_timestamp\<close> and \<open>prefer_encrypted\<close> are read as 32-bit integers.\<close>

definition dc_apeerstate_set_from_stmt :: "dc_apeerstate_t \<Rightarrow> peer_row \<Rightarrow> dc_apeerstate_t" where
  "dc_apeerstate_set_from_stmt ps r =
     (let ps = ps\<lparr>ps_addr := Some (pr_addr r), ps_last_seen := pr_last_seen r,
                 ps_last_seen_autocrypt := pr_last_seen_autocrypt r,
                 ps_prefer_encrypt := to_int32 (pr_prefer_encrypted r),
                 ps_gossip_timestamp := to_int32 (pr_gossip_timestamp r),
                 ps_public_key_fingerprint := Some (dc_strdup (pr_public_key_fingerprint r)),
                 ps_gossip_key_fingerprint := Some (dc_strdup (pr_gossip_key_fingerprint r)),
                 ps_verified_key_fingerprint := Some (dc_strdup (pr_verified_key_fingerprint r))\<rparr>;
          ps = (if pr_public_key r \<noteq> None
                then let ps = new_public ps in
                     set_object ps (ps_public_key ps) (\<lambda>k. dc_key_set_from_stmt k (pr_public_key r) DC_KEY_PUBLIC)
                else ps);
          ps = (if pr_gossip_key r \<noteq> None
                then let ps = new_gossip ps in
                     set_object ps (ps_gossip_key ps) (\<lambda>k. dc_key_set_from_stmt k (pr_gossip_key r) DC_KEY_PUBLIC)
                else ps)
      in if pr_verified_key r \<noteq> None
         then let ps = new_verified ps in
              set_object ps (ps_verified_key ps) (\<lambda>k. dc_key_set_from_stmt k (pr_verified_key r) DC_KEY_PUBLIC)
         else ps)"

definition dc_apeerstate_load_by_addr ::
    "dc_apeerstate_t \<Rightarrow> peer_row list \<Rightarrow> cptr \<Rightarrow> bool \<times> dc_apeerstate_t" where
  "dc_apeerstate_load_by_addr ps acpeerstates addr =
     (case addr of None \<Rightarrow> (False, ps)
      | Some a \<Rightarrow>
          let ps = dc_apeerstate_empty ps in
          (case find (\<lambda>r. strcaseeq (pr_addr r) a) acpeerstates of
             None \<Rightarrow> (False, ps)
           | Some r \<Rightarrow> (True, dc_apeerstate_set_from_stmt ps r)))"

text \<open>
  The rows with the fingerprint; \<open>ORDER BY public_key_fingerprint=? DESC\<close> compares with the case of
  the letters and puts null last.
\<close>

definition fp_is :: "string \<Rightarrow> cptr \<Rightarrow> bool" where
  "fp_is fingerprint column \<longleftrightarrow> (case column of None \<Rightarrow> False | Some f \<Rightarrow> strcaseeq f fingerprint)"

definition fp_rank :: "string \<Rightarrow> peer_row \<Rightarrow> nat" where
  "fp_rank fingerprint r =
     (case pr_public_key_fingerprint r of None \<Rightarrow> 2 | Some f \<Rightarrow> if f = fingerprint then 0 else 1)"

definition dc_apeerstate_load_by_fingerprint ::
    "dc_apeerstate_t \<Rightarrow> peer_row list \<Rightarrow> cptr \<Rightarrow> bool \<times> dc_apeerstate_t" where
  "dc_apeerstate_load_by_fingerprint ps acpeerstates fingerprint =
     (case fingerprint of None \<Rightarrow> (False, ps)
      | Some f \<Rightarrow>
          let ps = dc_apeerstate_empty ps in
          (case sort_key (fp_rank f)
                  (filter (\<lambda>r. fp_is f (pr_public_key_fingerprint r) \<or> fp_is f (pr_gossip_key_fingerprint r)) acpeerstates) of
             [] \<Rightarrow> (False, ps)
           | r # _ \<Rightarrow> (True, dc_apeerstate_set_from_stmt ps r)))"

definition key_blob :: "dc_apeerstate_t \<Rightarrow> nat option \<Rightarrow> u8 list option" where
  "key_blob ps p =
     (case key_of ps p of None \<Rightarrow> None
      | Some k \<Rightarrow> (case key_binary k of Some b \<Rightarrow> if b = [] then None else Some b | None \<Rightarrow> None))"

definition new_row :: "string \<Rightarrow> peer_row" where
  "new_row addr =
     \<lparr>pr_addr = addr, pr_last_seen = 0, pr_last_seen_autocrypt = 0, pr_prefer_encrypted = 0,
      pr_public_key = None, pr_gossip_timestamp = 0, pr_gossip_key = None,
      pr_public_key_fingerprint = Some [], pr_gossip_key_fingerprint = Some [],
      pr_verified_key = None, pr_verified_key_fingerprint = Some []\<rparr>"

definition update_all :: "dc_apeerstate_t \<Rightarrow> peer_row \<Rightarrow> peer_row" where
  "update_all ps r =
     r\<lparr>pr_last_seen := ps_last_seen ps, pr_last_seen_autocrypt := ps_last_seen_autocrypt ps,
       pr_prefer_encrypted := ps_prefer_encrypt ps, pr_public_key := key_blob ps (ps_public_key ps),
       pr_gossip_timestamp := ps_gossip_timestamp ps, pr_gossip_key := key_blob ps (ps_gossip_key ps),
       pr_public_key_fingerprint := ps_public_key_fingerprint ps,
       pr_gossip_key_fingerprint := ps_gossip_key_fingerprint ps,
       pr_verified_key := key_blob ps (ps_verified_key ps),
       pr_verified_key_fingerprint := ps_verified_key_fingerprint ps\<rparr>"

definition update_timestamps :: "dc_apeerstate_t \<Rightarrow> peer_row \<Rightarrow> peer_row" where
  "update_timestamps ps r =
     r\<lparr>pr_last_seen := ps_last_seen ps, pr_last_seen_autocrypt := ps_last_seen_autocrypt ps,
       pr_gossip_timestamp := ps_gossip_timestamp ps\<rparr>"

text \<open>The statements are taken to succeed.\<close>

definition dc_apeerstate_save_to_db ::
    "dc_apeerstate_t \<Rightarrow> peer_row list \<Rightarrow> bool \<Rightarrow> bool \<times> peer_row list" where
  "dc_apeerstate_save_to_db ps acpeerstates create =
     (case ps_addr ps of None \<Rightarrow> (False, acpeerstates)
      | Some a \<Rightarrow>
          let rows = (if create then acpeerstates @ [new_row a] else acpeerstates) in
          if ps_to_save ps AND DC_SAVE_ALL \<noteq> 0 \<or> create then
            (True, map (\<lambda>r. if strcaseeq (pr_addr r) a then update_all ps r else r) rows)
          else if ps_to_save ps AND DC_SAVE_TIMESTAMPS \<noteq> 0 then
            (True, map (\<lambda>r. if strcaseeq (pr_addr r) a then update_timestamps ps r else r) rows)
          else (True, rows))"

section \<open>Runs of a peer state\<close>

datatype ps_event =
    PS_Header dc_aheader_t int
  | PS_Gossip dc_aheader_t int
  | PS_NoHeader int
  | PS_Verify int string int

fun ps_step :: "(u8 list \<Rightarrow> u8 list option) \<Rightarrow> dc_apeerstate_t \<Rightarrow> ps_event \<Rightarrow> dc_apeerstate_t" where
  "ps_step pgp ps (PS_Header h t) = dc_apeerstate_apply_header pgp ps (Some h) t"
| "ps_step pgp ps (PS_Gossip h t) = dc_apeerstate_apply_gossip pgp ps (Some h) t"
| "ps_step pgp ps (PS_NoHeader t) = dc_apeerstate_degrade_encryption ps t"
| "ps_step pgp ps (PS_Verify w fp v) = snd (dc_apeerstate_set_verified ps w fp v)"

text \<open>The parts of the transitions: what each leaves alone.\<close>

lemmas ps_ops = new_public_def new_gossip_def set_object_def note_fp_change_def

lemma ps_frame [frame]:
  "ps_last_seen_autocrypt (new_public ps) = ps_last_seen_autocrypt ps"
  "ps_last_seen_autocrypt (new_gossip ps) = ps_last_seen_autocrypt ps"
  "ps_last_seen_autocrypt (set_object ps p f) = ps_last_seen_autocrypt ps"
  "ps_last_seen_autocrypt (note_fp_change old_fp fp ps) = ps_last_seen_autocrypt ps"
  "ps_last_seen_autocrypt (apply_preference ps h) = ps_last_seen_autocrypt ps"
  "ps_prefer_encrypt (new_public ps) = ps_prefer_encrypt ps"
  "ps_prefer_encrypt (new_gossip ps) = ps_prefer_encrypt ps"
  "ps_prefer_encrypt (set_object ps p f) = ps_prefer_encrypt ps"
  "ps_prefer_encrypt (note_fp_change old_fp fp ps) = ps_prefer_encrypt ps"
  "ps_public_key_fingerprint (new_public ps) = ps_public_key_fingerprint ps"
  "ps_public_key_fingerprint (new_gossip ps) = ps_public_key_fingerprint ps"
  "ps_public_key_fingerprint (set_object ps p f) = ps_public_key_fingerprint ps"
  "ps_public_key_fingerprint (note_fp_change old_fp fp ps) = ps_public_key_fingerprint ps"
  "ps_public_key_fingerprint (apply_preference ps h) = ps_public_key_fingerprint ps"
  "ps_degrade_event (new_public ps) = ps_degrade_event ps"
  "ps_degrade_event (new_gossip ps) = ps_degrade_event ps"
  "ps_degrade_event (set_object ps p f) = ps_degrade_event ps"
  by (simp_all add: ps_ops apply_preference_def Let_def split: option.splits)

lemma recalc_frame [frame]:
  "ps_last_seen_autocrypt (dc_apeerstate_recalc_fingerprint pgp ps) = ps_last_seen_autocrypt ps"
  "ps_prefer_encrypt (dc_apeerstate_recalc_fingerprint pgp ps) = ps_prefer_encrypt ps"
  by (simp_all add: dc_apeerstate_recalc_fingerprint_def Let_def frame)

lemma apply_key_frame [frame]:
  "ps_last_seen_autocrypt (apply_public_key pgp ps k) = ps_last_seen_autocrypt ps"
  "ps_prefer_encrypt (apply_public_key pgp ps k) = ps_prefer_encrypt ps"
  "ps_last_seen_autocrypt (apply_gossip_key pgp ps k) = ps_last_seen_autocrypt ps"
  "ps_prefer_encrypt (apply_gossip_key pgp ps k) = ps_prefer_encrypt ps"
  by (simp_all add: apply_public_key_def apply_gossip_key_def Let_def frame)

lemma ps_step_autocrypt: "ps_last_seen_autocrypt ps \<le> ps_last_seen_autocrypt (ps_step pgp ps e)"
  by (cases e) (simp_all add: dc_apeerstate_apply_header_def dc_apeerstate_apply_gossip_def
      dc_apeerstate_degrade_encryption_def dc_apeerstate_set_verified_def Let_def frame)

interpretation autocrypt: ranked_machine "\<lambda>ps. True" "ps_step pgp" ps_last_seen_autocrypt for pgp
  by unfold_locales (simp_all add: ps_step_autocrypt)

section \<open>No silent downgrade\<close>

definition has_flag :: "u32 \<Rightarrow> u32 \<Rightarrow> bool" where
  "has_flag w f \<longleftrightarrow> w AND f \<noteq> 0"

lemma has_flag_or [simp]: "has_flag (w OR v) f \<longleftrightarrow> has_flag w f \<or> has_flag v f"
  by (simp add: has_flag_def bit.conj_disj_distrib2 or_eq_0_iff)

lemma has_flag_self [simp]: "has_flag f f \<longleftrightarrow> f \<noteq> 0"
  by (simp add: has_flag_def)

definition fp_kept :: "cptr \<Rightarrow> cptr \<Rightarrow> bool" where
  "fp_kept old_fp fp \<longleftrightarrow> (\<exists>g. fp = Some g \<and> strcaseeq (the old_fp) g)"

text \<open>What the degrade flags of \<open>ps\<close> tell about the changes since \<open>s0\<close>.\<close>

definition flagged :: "dc_apeerstate_t \<Rightarrow> dc_apeerstate_t \<Rightarrow> bool" where
  "flagged s0 ps \<longleftrightarrow>
     (ps_prefer_encrypt s0 = DC_PE_MUTUAL \<and> ps_prefer_encrypt ps \<noteq> DC_PE_MUTUAL \<longrightarrow>
        has_flag (ps_degrade_event ps) DC_DE_ENCRYPTION_PAUSED) \<and>
     (nonempty_fp (ps_public_key_fingerprint s0) \<and>
      \<not> fp_kept (ps_public_key_fingerprint s0) (ps_public_key_fingerprint ps) \<longrightarrow>
        has_flag (ps_degrade_event ps) DC_DE_FINGERPRINT_CHANGED)"

lemma flagged_refl: "flagged s0 s0"
  by (auto simp: flagged_def fp_kept_def nonempty_fp_def)

lemma flagged_keep:
  assumes "flagged s0 ps" "ps_prefer_encrypt t = ps_prefer_encrypt ps"
    "ps_public_key_fingerprint t = ps_public_key_fingerprint ps"
    "ps_degrade_event t = ps_degrade_event ps \<or> (\<exists>f. ps_degrade_event t = ps_degrade_event ps OR f)"
  shows "flagged s0 t"
  using assms by (auto simp: flagged_def)

lemma flagged_frame [inv_intros]:
  "flagged s0 ps \<Longrightarrow> flagged s0 (new_public ps)"
  "flagged s0 ps \<Longrightarrow> flagged s0 (new_gossip ps)"
  "flagged s0 ps \<Longrightarrow> flagged s0 (set_object ps p g)"
  "flagged s0 ps \<Longrightarrow> flagged s0 (ps\<lparr>ps_last_seen := t, ps_last_seen_autocrypt := u\<rparr>)"
  "flagged s0 ps \<Longrightarrow> flagged s0 (ps\<lparr>ps_gossip_timestamp := t\<rparr>)"
  "flagged s0 ps \<Longrightarrow> flagged s0 (ps\<lparr>ps_to_save := w\<rparr>)"
  by (erule flagged_keep; simp add: frame)+

lemma flagged_public_fp [inv_intros]:
  assumes "flagged s0 ps"
  shows "flagged s0 (note_fp_change (ps_public_key_fingerprint ps) fp (ps\<lparr>ps_public_key_fingerprint := Some fp\<rparr>))"
proof (cases "fp_changed (ps_public_key_fingerprint ps) fp")
  case True
  with assms show ?thesis
    by (auto simp: flagged_def note_fp_change_def fp_changed_def fp_kept_def nonempty_fp_def)
next
  case False
  then have "strcaseeq (the (ps_public_key_fingerprint ps)) fp" by (simp add: fp_changed_def)
  with assms False show ?thesis
    by (auto simp: flagged_def note_fp_change_def fp_kept_def nonempty_fp_def intro: strcaseeq_trans)
qed

lemma flagged_gossip_fp [inv_intros]:
  "flagged s0 ps \<Longrightarrow>
     flagged s0 (note_fp_change old_fp fp (ps\<lparr>ps_gossip_key_fingerprint := Some fp\<rparr>))"
  by (erule flagged_keep) (auto simp: note_fp_change_def)

lemma flagged_recalc [inv_intros]:
  "flagged s0 ps \<Longrightarrow> flagged s0 (dc_apeerstate_recalc_fingerprint pgp ps)"
  unfolding dc_apeerstate_recalc_fingerprint_def Let_def by (auto intro!: inv_intros)

lemma flagged_preference [inv_intros]: "flagged s0 ps \<Longrightarrow> flagged s0 (apply_preference ps h)"
  by (auto simp: flagged_def apply_preference_def)

lemma flagged_keys [inv_intros]:
  "flagged s0 ps \<Longrightarrow> flagged s0 (apply_public_key pgp ps k)"
  "flagged s0 ps \<Longrightarrow> flagged s0 (apply_gossip_key pgp ps k)"
  unfolding apply_public_key_def apply_gossip_key_def Let_def by (auto intro!: inv_intros)

lemma flagged_step: "flagged s0 ps \<Longrightarrow> flagged s0 (ps_step pgp ps e)"
proof (cases e)
  case (PS_NoHeader t)
  then show "flagged s0 ps \<Longrightarrow> ?thesis"
    by (auto simp: dc_apeerstate_degrade_encryption_def flagged_def)
next
  case (PS_Verify w fp v)
  then show "flagged s0 ps \<Longrightarrow> ?thesis"
    by (auto simp: dc_apeerstate_set_verified_def flagged_def)
qed (auto simp: dc_apeerstate_apply_header_def dc_apeerstate_apply_gossip_def Let_def intro!: inv_intros)

interpretation downgrade: machine "flagged s0" "ps_step pgp" for s0 pgp
  by unfold_locales (rule flagged_step)

section \<open>Saving and loading\<close>

text \<open>The values of a peer state, without the store.\<close>

record peer_facts =
  pv_last_seen :: int
  pv_last_seen_autocrypt :: int
  pv_prefer_encrypt :: int
  pv_public_key :: "dc_key_t option"
  pv_gossip_timestamp :: int
  pv_gossip_key :: "dc_key_t option"
  pv_verified_key :: "dc_key_t option"
  pv_fingerprints :: "string list"

definition peer_view :: "dc_apeerstate_t \<Rightarrow> peer_facts" where
  "peer_view ps =
     \<lparr>pv_last_seen = ps_last_seen ps, pv_last_seen_autocrypt = ps_last_seen_autocrypt ps,
      pv_prefer_encrypt = ps_prefer_encrypt ps, pv_public_key = key_of ps (ps_public_key ps),
      pv_gossip_timestamp = ps_gossip_timestamp ps, pv_gossip_key = key_of ps (ps_gossip_key ps),
      pv_verified_key = key_of ps (ps_verified_key ps),
      pv_fingerprints = map dc_strdup [ps_public_key_fingerprint ps, ps_gossip_key_fingerprint ps,
                                       ps_verified_key_fingerprint ps]\<rparr>"

text \<open>A key object of a peer state is a public key with data.\<close>

definition good_key :: "dc_apeerstate_t \<Rightarrow> nat option \<Rightarrow> bool" where
  "good_key ps p \<longleftrightarrow> p = None \<or>
     (\<exists>b. key_of ps p = Some \<lparr>key_binary = Some b, key_type = DC_KEY_PUBLIC\<rparr> \<and> b \<noteq> [])"

definition peer_ok :: "dc_apeerstate_t \<Rightarrow> bool" where
  "peer_ok ps \<longleftrightarrow> ps_addr ps \<noteq> None \<and> int32_range (ps_prefer_encrypt ps) \<and>
     good_key ps (ps_public_key ps) \<and> good_key ps (ps_gossip_key ps) \<and> good_key ps (ps_verified_key ps)"

text \<open>What loading a row shows.\<close>

definition row_key :: "u8 list option \<Rightarrow> dc_key_t option" where
  "row_key column = (case column of None \<Rightarrow> None | Some b \<Rightarrow> Some (snd (dc_key_set_from_binary dc_key_new (Some b) DC_KEY_PUBLIC)))"

lemma key_of_append [simp]: "i < length (ps_keys ps) \<Longrightarrow> key_of (ps\<lparr>ps_keys := ps_keys ps @ ks\<rparr>) (Some i) = key_of ps (Some i)"
  by (simp add: key_of_def nth_append)

lemma load_view:
  "peer_view (dc_apeerstate_set_from_stmt (dc_apeerstate_empty ps) r) =
     \<lparr>pv_last_seen = pr_last_seen r, pv_last_seen_autocrypt = pr_last_seen_autocrypt r,
      pv_prefer_encrypt = to_int32 (pr_prefer_encrypted r), pv_public_key = row_key (pr_public_key r),
      pv_gossip_timestamp = to_int32 (pr_gossip_timestamp r), pv_gossip_key = row_key (pr_gossip_key r),
      pv_verified_key = row_key (pr_verified_key r),
      pv_fingerprints = map dc_strdup [pr_public_key_fingerprint r, pr_gossip_key_fingerprint r,
                                       pr_verified_key_fingerprint r]\<rparr>"
  by (cases "pr_public_key r"; cases "pr_gossip_key r"; cases "pr_verified_key r")
    (simp_all add: peer_view_def dc_apeerstate_set_from_stmt_def dc_apeerstate_empty_def new_public_def
      new_gossip_def new_verified_def set_object_def key_of_def row_key_def nth_append list_update_append
      dc_key_set_from_stmt_def dc_key_set_from_binary_def dc_key_empty_def dc_key_new_def dc_strdup_def Let_def)

lemma good_key_blob:
  assumes "good_key ps p"
  shows "row_key (key_blob ps p) = key_of ps p"
  using assms by (auto simp: good_key_def row_key_def key_blob_def key_of_def
      dc_key_set_from_binary_def dc_key_empty_def dc_key_new_def split: option.splits if_splits)

lemma find_map_update:
  assumes "find (\<lambda>r. strcaseeq (pr_addr r) a) rows = Some r" "\<And>r. pr_addr (f r) = pr_addr r"
  shows "find (\<lambda>r. strcaseeq (pr_addr r) a) (map (\<lambda>r. if strcaseeq (pr_addr r) a then f r else r) rows) = Some (f r)"
  using assms by (induction rows) auto

lemma recalc_verified [frame]:
  "ps_verified_key (dc_apeerstate_recalc_fingerprint pgp ps) = ps_verified_key ps"
  "ps_verified_key_fingerprint (dc_apeerstate_recalc_fingerprint pgp ps) = ps_verified_key_fingerprint ps"
  "ps_keys (dc_apeerstate_recalc_fingerprint pgp ps) = ps_keys ps"
  by (simp_all add: dc_apeerstate_recalc_fingerprint_def note_fp_change_def Let_def)

section \<open>Properties\<close>




text \<open>
  A peer state that is saved is loaded with the same values: times, preference, keys and
  fingerprints; the gossip time only if it fits 32 bits, since the column is read as an \<open>int\<close> (it is
  truncated otherwise).
\<close>

theorem peerstate_save_load:
  assumes ok: "peer_ok ps" "ps_addr ps = Some a"
    and save: "has_flag (ps_to_save ps) DC_SAVE_ALL \<or> create"
    and there: "create \<or> (\<exists>r \<in> set rows. strcaseeq (pr_addr r) a)"
  shows "\<exists>rows' ps'. dc_apeerstate_save_to_db ps rows create = (True, rows') \<and>
    dc_apeerstate_load_by_addr ps0 rows' (Some a) = (True, ps') \<and>
    peer_view ps' = (peer_view ps)\<lparr>pv_gossip_timestamp := to_int32 (ps_gossip_timestamp ps)\<rparr>"
proof -
  let ?P = "\<lambda>r. strcaseeq (pr_addr r) a"
  define rows1 where "rows1 = (if create then rows @ [new_row a] else rows)"
  obtain r where r: "find ?P rows1 = Some r"
  proof -
    have "\<exists>r \<in> set rows1. ?P r" using there by (auto simp: rows1_def new_row_def)
    then show thesis using that by (metis find_None_iff not_None_eq)
  qed
  define rows' where "rows' = map (\<lambda>r. if ?P r then update_all ps r else r) rows1"
  have f: "find ?P rows' = Some (update_all ps r)"
    unfolding rows'_def by (rule find_map_update [OF r]) (simp add: update_all_def)
  have saved: "dc_apeerstate_save_to_db ps rows create = (True, rows')"
    using save ok(2) by (simp add: dc_apeerstate_save_to_db_def has_flag_def rows1_def rows'_def Let_def)
  have "peer_view (dc_apeerstate_set_from_stmt (dc_apeerstate_empty ps0) (update_all ps r)) =
      (peer_view ps)\<lparr>pv_gossip_timestamp := to_int32 (ps_gossip_timestamp ps)\<rparr>"
    using ok(1) by (simp add: load_view update_all_def peer_ok_def good_key_blob) (simp add: peer_view_def)
  with saved f show ?thesis by (simp add: dc_apeerstate_load_by_addr_def Let_def)
qed

definition sample_peer :: dc_apeerstate_t where
  "sample_peer = dc_apeerstate_new\<lparr>ps_addr := Some ''a@b.c'', ps_to_save := DC_SAVE_ALL,
     ps_gossip_timestamp := 2 ^ 31, ps_public_key := Some 0, ps_public_key_fingerprint := Some ''AA'',
     ps_keys := [\<lparr>key_binary = Some [1], key_type = DC_KEY_PUBLIC\<rparr>]\<rparr>"

theorem peerstate_save_load_witness:
  "\<exists>rows' ps'. dc_apeerstate_save_to_db sample_peer [] True = (True, rows') \<and>
    dc_apeerstate_load_by_addr dc_apeerstate_new rows' (Some ''a@b.c'') = (True, ps') \<and>
    peer_view ps' = (peer_view sample_peer)\<lparr>pv_gossip_timestamp := to_int32 (ps_gossip_timestamp sample_peer)\<rparr>"
  by (rule peerstate_save_load)
    (auto simp: peer_ok_def sample_peer_def dc_apeerstate_new_def good_key_def key_of_def int32_range_def)

text \<open>
  Verified keys are shared, not copied: after \<open>dc_apeerstate_set_verified\<close> has marked the public
  key as verified, a newer Autocrypt header with another key that is applied to the same object
  replaces the verified key, too, while the verified fingerprint stays that of the old key.
\<close>

theorem verified_key_is_shared:
  assumes verify: "dc_apeerstate_set_verified ps DC_PS_PUBLIC_KEY fp DC_BIDIRECT_VERIFIED = (True, vs)"
    and ptr: "ps_public_key ps = Some i" "i < length (ps_keys ps)"
    and hdr: "header_applies vs h" "ps_last_seen_autocrypt vs < t"
      "key_binary (ah_public_key h) = Some b" "b \<noteq> []"
      "\<not> dc_key_equals (key_of vs (ps_public_key vs)) (Some (ah_public_key h))"
    and after: "after = dc_apeerstate_apply_header pgp vs (Some h) t"
  shows "key_of after (ps_verified_key after) = Some (ah_public_key h) \<and>
    ps_verified_key_fingerprint after = Some (dc_strdup (ps_public_key_fingerprint ps))"
proof -
  have vs: "ps_verified_key vs = Some i" "ps_public_key vs = Some i" "ps_keys vs = ps_keys ps"
    "ps_verified_key_fingerprint vs = Some (dc_strdup (ps_public_key_fingerprint ps))"
    using verify ptr by (auto simp: dc_apeerstate_set_verified_def split: if_splits)
  define us where "us = apply_preference (vs\<lparr>ps_last_seen := t, ps_last_seen_autocrypt := t,
      ps_to_save := ps_to_save vs OR DC_SAVE_TIMESTAMPS\<rparr>) h"
  have us: "ps_verified_key us = Some i" "ps_public_key us = Some i" "ps_keys us = ps_keys ps"
    "ps_verified_key_fingerprint us = Some (dc_strdup (ps_public_key_fingerprint ps))"
    using vs by (simp_all add: us_def apply_preference_def Let_def)
  then have "\<not> dc_key_equals (key_of us (ps_public_key us)) (Some (ah_public_key h))"
    using hdr(5) unfolding key_of_def us vs by simp
  moreover have "snd (dc_key_set_from_key k (Some (ah_public_key h))) = ah_public_key h" for k
    using hdr(3,4) by (cases "ah_public_key h") (simp add: dc_key_set_from_key_def dc_key_set_from_binary_def dc_key_empty_def Let_def)
  ultimately show ?thesis
    using us ptr hdr(1,2)
    by (simp add: after dc_apeerstate_apply_header_def us_def [symmetric] apply_public_key_def set_object_def
        recalc_verified key_of_def Let_def)
qed

definition verified_peer :: dc_apeerstate_t where
  "verified_peer = sample_peer\<lparr>ps_verified_key := Some 0, ps_verified_key_fingerprint := Some ''AA''\<rparr>"

definition new_key_header :: dc_aheader_t where
  "new_key_header = \<lparr>ah_addr = Some ''a@b.c'',
     ah_public_key = \<lparr>key_binary = Some [2], key_type = DC_KEY_PUBLIC\<rparr>, ah_prefer_encrypt = 0\<rparr>"

theorem verified_key_is_shared_witness:
  "let after = dc_apeerstate_apply_header Some verified_peer (Some new_key_header) 5 in
     key_of after (ps_verified_key after) = Some (ah_public_key new_key_header) \<and>
     ps_verified_key_fingerprint after = Some (dc_strdup (ps_public_key_fingerprint sample_peer))"
proof -
  have "dc_apeerstate_set_verified sample_peer 1 ''AA'' 2 = (True, verified_peer)"
    by (simp add: dc_apeerstate_set_verified_def fp_matches_def nonempty_fp_def sample_peer_def
        verified_peer_def dc_apeerstate_new_def dc_strdup_def)
  moreover have "header_applies verified_peer new_key_header"
    by (simp add: header_applies_def verified_peer_def sample_peer_def new_key_header_def)
  moreover have "\<not> dc_key_equals (key_of verified_peer (ps_public_key verified_peer)) (Some (ah_public_key new_key_header))"
    "ps_public_key sample_peer = Some 0" "0 < length (ps_keys sample_peer)" "ps_last_seen_autocrypt verified_peer < 5"
    "key_binary (ah_public_key new_key_header) = Some [2]" "[2] \<noteq> ([] :: u8 list)"
    by (simp_all add: verified_peer_def sample_peer_def new_key_header_def dc_apeerstate_new_def key_of_def dc_key_equals_def)
  ultimately show ?thesis
    unfolding Let_def by (metis verified_key_is_shared)
qed

end
