(* ===== verification/Database.thy ===== *)
theory Database
  imports Tools Param
begin

text \<open>
  \<open>src/dc_sqlite3.c\<close> and what the other components use of SQLite: the configuration, the tables of
  contacts, chats and messages, rowids, the collation \<open>NOCASE\<close> (\<open>strcaseeq\<close>), \<open>LOWER\<close> and the operator
  \<open>LIKE\<close>.  A table is the list of its rows in the order of their keys: a new row gets the largest
  key, so it comes last.  Columns are unbounded integers and strings without null bytes.
\<close>

section \<open>Keys, LOWER, LIKE\<close>

text \<open>The key of an \<open>INTEGER PRIMARY KEY\<close> that is not given is one more than the largest.\<close>

definition next_rowid :: "nat list \<Rightarrow> nat" where
  "next_rowid ids = (if ids = [] then 1 else Suc (Max (set ids)))"

definition sql_lower :: "string \<Rightarrow> string" where
  "sql_lower s = map c_tolower s"

text \<open>The rest of a text behind its first UTF-8 character.\<close>

definition utf8_tail :: "char \<Rightarrow> string \<Rightarrow> string" where
  "utf8_tail c t = (if byte_of c \<ge> 192 then dropWhile (\<lambda>d. 128 \<le> byte_of d \<and> byte_of d < 192) t else t)"

lemma utf8_tail_length [termination_simp]: "length (utf8_tail c t) < Suc (length t)"
  by (simp add: utf8_tail_def le_imp_less_Suc)

fun sql_like :: "string \<Rightarrow> string \<Rightarrow> bool" where
  "sql_like [] s \<longleftrightarrow> s = []"
| "sql_like (p # ps) [] \<longleftrightarrow> p = CHR 0x25 \<and> sql_like ps []"
| "sql_like (p # ps) (c # t) \<longleftrightarrow>
     (if p = CHR 0x25 then sql_like ps (c # t) \<or> sql_like (p # ps) (utf8_tail c t)
      else if p = CHR ''_'' then sql_like ps (utf8_tail c t)
      else c_tolower c = c_tolower p \<and> sql_like ps t)"

lemma next_rowid_greater: "i \<in> set ids \<Longrightarrow> i < next_rowid ids"
  by (auto simp: next_rowid_def le_imp_less_Suc)

lemma next_rowid_fresh: "next_rowid ids \<notin> set ids"
  using next_rowid_greater [of "next_rowid ids" ids] by auto

lemma like_star: "sql_like [CHR 0x25] s"
proof (induction s rule: length_induct)
  case (1 s)
  then show ?case
  proof (cases s)
    case (Cons c t)
    then have "sql_like [CHR 0x25] (utf8_tail c t)" using 1 utf8_tail_length [of c t] by simp
    then show ?thesis by (simp add: Cons)
  qed simp
qed

section \<open>Configuration\<close>

type_synonym config = "(string \<times> string) list"

definition dc_sqlite3_get_config :: "config \<Rightarrow> cptr \<Rightarrow> cptr \<Rightarrow> cptr" where
  "dc_sqlite3_get_config cfg key def =
     (case key of
        None \<Rightarrow> dc_strdup_keep_null def
      | Some k \<Rightarrow> (case map_of cfg k of Some v \<Rightarrow> Some (dc_strdup (Some v)) | None \<Rightarrow> dc_strdup_keep_null def))"

definition dc_sqlite3_set_config :: "config \<Rightarrow> cptr \<Rightarrow> cptr \<Rightarrow> bool \<times> config" where
  "dc_sqlite3_set_config cfg key value =
     (case key of
        None \<Rightarrow> (False, cfg)
      | Some k \<Rightarrow>
          (case value of
             Some v \<Rightarrow>
               if map_of cfg k = None then (True, cfg @ [(k, v)])
               else (True, map (\<lambda>(k', v'). if k' = k then (k', v) else (k', v')) cfg)
           | None \<Rightarrow> (True, filter (\<lambda>(k', v'). k' \<noteq> k) cfg)))"

definition dc_sqlite3_get_config_int :: "config \<Rightarrow> cptr \<Rightarrow> int \<Rightarrow> int" where
  "dc_sqlite3_get_config_int cfg key def =
     (case dc_sqlite3_get_config cfg key None of None \<Rightarrow> def | Some str \<Rightarrow> to_int32 (atol str))"

definition dc_sqlite3_set_config_int :: "config \<Rightarrow> cptr \<Rightarrow> int \<Rightarrow> bool \<times> config" where
  "dc_sqlite3_set_config_int cfg key value = dc_sqlite3_set_config cfg key (Some (show_int value))"

section \<open>Tables\<close>

record contact_row =
  ct_id :: nat
  ct_name :: string
  ct_addr :: string
  ct_origin :: int
  ct_blocked :: int
  ct_authname :: string

record chat_row =
  ch_id :: nat
  ch_type :: int
  ch_name :: string
  ch_draft_timestamp :: int
  ch_draft_txt :: string
  ch_blocked :: int
  ch_grpid :: string
  ch_param :: param
  ch_archived :: int

record msg_row =
  ms_id :: nat
  ms_rfc724_mid :: string
  ms_server_folder :: string
  ms_server_uid :: nat
  ms_chat_id :: nat
  ms_from_id :: nat
  ms_to_id :: nat
  ms_timestamp :: int
  ms_type :: int
  ms_state :: int
  ms_msgrmsg :: int
  ms_txt :: string
  ms_param :: param
  ms_starred :: int
  ms_hidden :: int
  ms_timestamp_sent :: int
  ms_timestamp_rcvd :: int
  ms_txt_raw :: string

text \<open>
  \<open>db_mdns\<close> is the table \<open>msgs_mdns\<close> (message, contact, time of the receipt), \<open>db_events\<close> lists the calls of \<open>context->cb\<close> (the event and its two data), \<open>db_outbox\<close> the messages handed to
  \<open>dc_send_msg_object\<close> (the chat, the text and the parameters).
\<close>

record database =
  db_config :: config
  db_contacts :: "contact_row list"
  db_chats :: "chat_row list"
  db_chats_contacts :: "(nat \<times> nat) list"
  db_msgs :: "msg_row list"
  db_mdns :: "(nat \<times> nat \<times> int) list"
  db_leftgrps :: "string list"
  db_events :: "(int \<times> nat \<times> nat) list"
  db_outbox :: "(nat \<times> string \<times> param) list"

definition cb :: "database \<Rightarrow> int \<Rightarrow> nat \<Rightarrow> nat \<Rightarrow> database" where
  "cb db event data1 data2 = db\<lparr>db_events := db_events db @ [(event, data1, data2)]\<rparr>"

section \<open>Facts\<close>

lemma map_of_set [simp]:
  "map_of (map (\<lambda>(k', v'). if k' = k then (k', v) else (k', v')) cfg) j =
     (if j = k then (case map_of cfg k of None \<Rightarrow> None | Some _ \<Rightarrow> Some v) else map_of cfg j)"
  by (induction cfg) (auto split: option.splits)

lemma map_of_del [simp]:
  "map_of (filter (\<lambda>(k', v'). k' \<noteq> k) cfg) j = (if j = k then None else map_of cfg j)"
  by (induction cfg) auto

lemmas config_defs = dc_sqlite3_get_config_def dc_sqlite3_set_config_def dc_strdup_def dc_strdup_keep_null_def

interpretation config: kv_store
  "\<lambda>_. True" "\<lambda>_. True" "\<lambda>_. True"
  "\<lambda>cfg k. dc_sqlite3_get_config cfg (Some k) None"
  "\<lambda>cfg k v. snd (dc_sqlite3_set_config cfg (Some k) (Some v))"
  "\<lambda>cfg k. snd (dc_sqlite3_set_config cfg (Some k) None)"
  by unfold_locales (auto simp: config_defs map_add_def split: option.splits)

lemma config_int_reads_back:
  assumes "int32_range i"
  shows "dc_sqlite3_get_config_int (snd (dc_sqlite3_set_config_int cfg (Some k) i)) (Some k) d = i"
  using config.get_put_same [where s = cfg and k = k and v = "show_int i"] assms
  by (simp add: dc_sqlite3_get_config_int_def dc_sqlite3_set_config_int_def)

end
