(* ===== verification/Contacts.thy ===== *)
theory Contacts
  imports Peerstate Database "HOL-Library.List_Lexorder" "HOL-Library.Product_Lexorder"
begin

text \<open>
  \<open>src/dc_contact.c\<close> without the string functions of theory \<open>Address\<close>: the contact object, the table of
  contacts, and the operations that create, change, list, block and delete contacts.  A contact
  pointer that is \<open>NULL\<close> is \<open>None\<close>; \<open>self_name\<close> stands for the stock string "Me".
\<close>

section \<open>The contact object\<close>

abbreviation DC_CONTACT_ID_SELF :: nat where "DC_CONTACT_ID_SELF \<equiv> 1"
abbreviation DC_CONTACT_ID_LAST_SPECIAL :: nat where "DC_CONTACT_ID_LAST_SPECIAL \<equiv> 9"
abbreviation DC_CHAT_TYPE_SINGLE :: int where "DC_CHAT_TYPE_SINGLE \<equiv> 100"
abbreviation DC_STATE_IN_FRESH :: int where "DC_STATE_IN_FRESH \<equiv> 10"
abbreviation DC_STATE_IN_NOTICED :: int where "DC_STATE_IN_NOTICED \<equiv> 13"
abbreviation DC_EVENT_CONTACTS_CHANGED :: int where "DC_EVENT_CONTACTS_CHANGED \<equiv> 2030"
abbreviation DC_ORIGIN_INCOMING_UNKNOWN_FROM :: int where "DC_ORIGIN_INCOMING_UNKNOWN_FROM \<equiv> 0x10"
abbreviation DC_ORIGIN_INCOMING_REPLY_TO :: int where "DC_ORIGIN_INCOMING_REPLY_TO \<equiv> 0x100"
abbreviation DC_ORIGIN_ADRESS_BOOK :: int where "DC_ORIGIN_ADRESS_BOOK \<equiv> 0x80000"
abbreviation DC_ORIGIN_SECUREJOIN_INVITED :: int where "DC_ORIGIN_SECUREJOIN_INVITED \<equiv> 0x1000000"
abbreviation DC_ORIGIN_SECUREJOIN_JOINED :: int where "DC_ORIGIN_SECUREJOIN_JOINED \<equiv> 0x2000000"
abbreviation DC_ORIGIN_MANUALLY_CREATED :: int where "DC_ORIGIN_MANUALLY_CREATED \<equiv> 0x4000000"
abbreviation DC_ORIGIN_MIN_CONTACT_LIST :: int where "DC_ORIGIN_MIN_CONTACT_LIST \<equiv> DC_ORIGIN_INCOMING_REPLY_TO"
abbreviation DC_GCL_VERIFIED_ONLY :: u32 where "DC_GCL_VERIFIED_ONLY \<equiv> 1"
abbreviation DC_GCL_ADD_SELF :: u32 where "DC_GCL_ADD_SELF \<equiv> 2"
abbreviation CONTACT_MODIFIED :: nat where "CONTACT_MODIFIED \<equiv> 1"
abbreviation CONTACT_CREATED :: nat where "CONTACT_CREATED \<equiv> 2"

record dc_contact_t =
  c_id :: nat
  c_name :: cptr
  c_authname :: cptr
  c_addr :: cptr
  c_blocked :: int
  c_origin :: int

definition dc_contact_new :: dc_contact_t where
  "dc_contact_new = \<lparr>c_id = 0, c_name = None, c_authname = None, c_addr = None, c_blocked = 0, c_origin = 0\<rparr>"

definition dc_contact_empty :: "dc_contact_t \<Rightarrow> dc_contact_t" where
  "dc_contact_empty contact =
     contact\<lparr>c_id := 0, c_name := None, c_authname := None, c_addr := None, c_origin := 0, c_blocked := 0\<rparr>"

definition dc_contact_get_id :: "dc_contact_t option \<Rightarrow> nat" where
  "dc_contact_get_id contact = (case contact of None \<Rightarrow> 0 | Some c \<Rightarrow> c_id c)"

definition dc_contact_get_addr :: "dc_contact_t option \<Rightarrow> string" where
  "dc_contact_get_addr contact = (case contact of None \<Rightarrow> dc_strdup None | Some c \<Rightarrow> dc_strdup (c_addr c))"

definition dc_contact_get_name :: "dc_contact_t option \<Rightarrow> string" where
  "dc_contact_get_name contact = (case contact of None \<Rightarrow> dc_strdup None | Some c \<Rightarrow> dc_strdup (c_name c))"

definition name_set :: "dc_contact_t \<Rightarrow> bool" where
  "name_set c \<longleftrightarrow> (case c_name c of None \<Rightarrow> False | Some s \<Rightarrow> s \<noteq> [])"

definition dc_contact_get_display_name :: "dc_contact_t option \<Rightarrow> string" where
  "dc_contact_get_display_name contact =
     (case contact of None \<Rightarrow> dc_strdup None
      | Some c \<Rightarrow> if name_set c then dc_strdup (c_name c) else dc_strdup (c_addr c))"

text \<open>\<open>"%s (%s)"\<close>; the address of a contact that was loaded is not \<open>NULL\<close>.\<close>

definition dc_contact_get_name_n_addr :: "dc_contact_t option \<Rightarrow> string" where
  "dc_contact_get_name_n_addr contact =
     (case contact of None \<Rightarrow> dc_strdup None
      | Some c \<Rightarrow> if name_set c then dc_strdup (c_name c) @ '' ('' @ dc_strdup (c_addr c) @ '')''
                 else dc_strdup (c_addr c))"

definition dc_contact_get_first_name :: "dc_contact_t option \<Rightarrow> string" where
  "dc_contact_get_first_name contact =
     (case contact of None \<Rightarrow> dc_strdup None
      | Some c \<Rightarrow> if name_set c then dc_get_first_name (c_name c) else dc_strdup (c_addr c))"

definition dc_contact_is_blocked :: "dc_contact_t option \<Rightarrow> int" where
  "dc_contact_is_blocked contact = (case contact of None \<Rightarrow> 0 | Some c \<Rightarrow> c_blocked c)"

definition dc_contact_is_verified_ex ::
    "peer_row list \<Rightarrow> dc_contact_t option \<Rightarrow> dc_apeerstate_t option \<Rightarrow> int" where
  "dc_contact_is_verified_ex acpeerstates contact peerstate =
     (case contact of None \<Rightarrow> DC_NOT_VERIFIED
      | Some c \<Rightarrow>
          if c_id c = DC_CONTACT_ID_SELF then DC_BIDIRECT_VERIFIED
          else
            let (found, ps) = (case peerstate of Some ps \<Rightarrow> (True, ps)
                 | None \<Rightarrow> dc_apeerstate_load_by_addr dc_apeerstate_new acpeerstates (c_addr c))
            in if \<not> found then DC_NOT_VERIFIED
               else if ps_verified_key ps \<noteq> None then DC_BIDIRECT_VERIFIED else 0)"

definition dc_contact_is_verified :: "peer_row list \<Rightarrow> dc_contact_t option \<Rightarrow> int" where
  "dc_contact_is_verified acpeerstates contact = dc_contact_is_verified_ex acpeerstates contact None"

definition dc_contact_load_from_db :: "string \<Rightarrow> dc_contact_t \<Rightarrow> database \<Rightarrow> nat \<Rightarrow> bool \<times> dc_contact_t" where
  "dc_contact_load_from_db self_name contact db contact_id =
     (let contact = dc_contact_empty contact in
      if contact_id = DC_CONTACT_ID_SELF then
        (True, contact\<lparr>c_id := contact_id, c_name := Some self_name,
                 c_addr := dc_sqlite3_get_config (db_config db) (Some ''configured_addr'') (Some [])\<rparr>)
      else
        (case find (\<lambda>r. ct_id r = contact_id) (db_contacts db) of
           None \<Rightarrow> (False, contact)
         | Some r \<Rightarrow> (True, contact\<lparr>c_id := contact_id, c_name := Some (ct_name r), c_addr := Some (ct_addr r),
                              c_origin := ct_origin r, c_blocked := ct_blocked r, c_authname := Some (ct_authname r)\<rparr>)))"

definition dc_get_contact :: "string \<Rightarrow> database \<Rightarrow> nat \<Rightarrow> dc_contact_t option" where
  "dc_get_contact self_name db contact_id =
     (let (ok, contact) = dc_contact_load_from_db self_name dc_contact_new db contact_id
      in if ok then Some contact else None)"

section \<open>Creating and changing contacts\<close>

definition dc_addr_equals_contact :: "string \<Rightarrow> database \<Rightarrow> cptr \<Rightarrow> nat \<Rightarrow> bool" where
  "dc_addr_equals_contact self_name db addr contact_id =
     (case addr of None \<Rightarrow> False
      | Some a \<Rightarrow>
          let (ok, contact) = dc_contact_load_from_db self_name dc_contact_new db contact_id in
          ok \<and> (case c_addr contact of None \<Rightarrow> False | Some ca \<Rightarrow> strcaseeq ca (dc_addr_normalize (Some a))))"

definition dc_real_contact_exists :: "database \<Rightarrow> nat \<Rightarrow> bool" where
  "dc_real_contact_exists db contact_id \<longleftrightarrow>
     contact_id > DC_CONTACT_ID_LAST_SPECIAL \<and> contact_id \<in> set (map ct_id (db_contacts db))"

definition dc_get_real_contact_cnt :: "database \<Rightarrow> nat" where
  "dc_get_real_contact_cnt db = length (filter (\<lambda>r. ct_id r > DC_CONTACT_ID_LAST_SPECIAL) (db_contacts db))"

definition by_addr :: "string \<Rightarrow> contact_row \<Rightarrow> bool" where
  "by_addr addr r \<longleftrightarrow> strcaseeq (ct_addr r) addr"

text \<open>The four decisions on a row that is there already.\<close>

definition update_name :: "cptr \<Rightarrow> int \<Rightarrow> contact_row \<Rightarrow> bool" where
  "update_name name origin r \<longleftrightarrow>
     (case name of None \<Rightarrow> False
      | Some n \<Rightarrow> n \<noteq> [] \<and> (ct_name r \<noteq> [] \<longrightarrow> origin \<ge> ct_origin r \<and> n \<noteq> ct_name r))"

definition update_authname :: "cptr \<Rightarrow> int \<Rightarrow> contact_row \<Rightarrow> bool" where
  "update_authname name origin r \<longleftrightarrow>
     (case name of None \<Rightarrow> False
      | Some n \<Rightarrow> n \<noteq> [] \<and> origin = DC_ORIGIN_INCOMING_UNKNOWN_FROM \<and> n \<noteq> ct_authname r)"

definition update_addr :: "string \<Rightarrow> int \<Rightarrow> contact_row \<Rightarrow> bool" where
  "update_addr addr origin r \<longleftrightarrow> origin \<ge> ct_origin r \<and> addr \<noteq> ct_addr r"

definition updated_row :: "cptr \<Rightarrow> string \<Rightarrow> int \<Rightarrow> contact_row \<Rightarrow> contact_row" where
  "updated_row name addr origin r =
     r\<lparr>ct_name := if update_name name origin r then dc_strdup name else ct_name r,
       ct_addr := if update_addr addr origin r then addr else ct_addr r,
       ct_origin := if origin > ct_origin r then origin else ct_origin r,
       ct_authname := if update_authname name origin r then dc_strdup name else ct_authname r\<rparr>"

text \<open>\<open>UPDATE chats ... WHERE type=? AND id IN(SELECT chat_id FROM chats_contacts WHERE contact_id=?)\<close>.\<close>

definition update_single_chats :: "nat \<Rightarrow> (chat_row \<Rightarrow> chat_row) \<Rightarrow> database \<Rightarrow> database" where
  "update_single_chats contact_id f db =
     db\<lparr>db_chats := map (\<lambda>ch. if ch_type ch = DC_CHAT_TYPE_SINGLE \<and>
          (ch_id ch, contact_id) \<in> set (db_chats_contacts db) then f ch else ch) (db_chats db)\<rparr>"

definition modify_contact :: "database \<Rightarrow> cptr \<Rightarrow> string \<Rightarrow> int \<Rightarrow> contact_row \<Rightarrow> nat \<times> database" where
  "modify_contact db name addr origin r =
     (if update_name name origin r \<or> update_authname name origin r \<or> update_addr addr origin r \<or> origin > ct_origin r
      then
        let db = db\<lparr>db_contacts := map (\<lambda>x. if ct_id x = ct_id r
               then x\<lparr>ct_name := ct_name (updated_row name addr origin r), ct_addr := ct_addr (updated_row name addr origin r),
                      ct_origin := ct_origin (updated_row name addr origin r),
                      ct_authname := ct_authname (updated_row name addr origin r)\<rparr> else x) (db_contacts db)\<rparr>;
            db = (if update_name name origin r
                  then update_single_chats (ct_id r) (\<lambda>ch. ch\<lparr>ch_name := dc_strdup name\<rparr>) db else db)
        in (CONTACT_MODIFIED, db)
      else (0, db))"

definition insert_contact :: "database \<Rightarrow> cptr \<Rightarrow> string \<Rightarrow> int \<Rightarrow> database" where
  "insert_contact db name addr origin =
     db\<lparr>db_contacts := db_contacts db @
          [\<lparr>ct_id = next_rowid (map ct_id (db_contacts db)), ct_name = dc_strdup name, ct_addr = addr,
            ct_origin = origin, ct_blocked = 0, ct_authname = []\<rparr>]\<rparr>"

text \<open>\<open>dc_sqlite3_get_rowid\<close> on the column \<open>addr\<close>, which has the collation \<open>NOCASE\<close>; 0 if there is no row.\<close>

definition contact_rowid :: "database \<Rightarrow> string \<Rightarrow> nat" where
  "contact_rowid db addr = (case find (by_addr addr) (db_contacts db) of None \<Rightarrow> 0 | Some r \<Rightarrow> ct_id r)"

text \<open>The result, \<open>*sth_modified\<close> and the database.\<close>

definition dc_add_or_lookup_contact :: "database \<Rightarrow> cptr \<Rightarrow> cptr \<Rightarrow> int \<Rightarrow> nat \<times> nat \<times> database" where
  "dc_add_or_lookup_contact db name addr origin =
     (if addr = None \<or> origin \<le> 0 then (0, 0, db)
      else
        let addr = dc_addr_normalize addr in
        if \<not> rough_addr addr then (0, 0, db)
        else
          (case find (by_addr addr) (db_contacts db) of
             Some r \<Rightarrow> let (sth_modified, db) = modify_contact db name addr origin r in (ct_id r, sth_modified, db)
           | None \<Rightarrow> let db = insert_contact db name addr origin in (contact_rowid db addr, CONTACT_CREATED, db)))"

definition dc_scaleup_contact_origin :: "database \<Rightarrow> nat \<Rightarrow> int \<Rightarrow> database" where
  "dc_scaleup_contact_origin db contact_id origin =
     db\<lparr>db_contacts := map (\<lambda>r. if ct_id r = contact_id \<and> ct_origin r < origin then r\<lparr>ct_origin := origin\<rparr> else r)
          (db_contacts db)\<rparr>"

definition dc_is_contact_blocked :: "string \<Rightarrow> database \<Rightarrow> nat \<Rightarrow> bool" where
  "dc_is_contact_blocked self_name db contact_id =
     (let (ok, contact) = dc_contact_load_from_db self_name dc_contact_new db contact_id
      in ok \<and> c_blocked contact \<noteq> 0)"

text \<open>The origin and \<open>*ret_blocked\<close>.\<close>

definition dc_get_contact_origin :: "string \<Rightarrow> database \<Rightarrow> nat \<Rightarrow> int \<times> bool" where
  "dc_get_contact_origin self_name db contact_id =
     (let (ok, contact) = dc_contact_load_from_db self_name dc_contact_new db contact_id
      in if \<not> ok then (0, False) else if c_blocked contact \<noteq> 0 then (0, True) else (c_origin contact, False))"

definition dc_marknoticed_contact :: "database \<Rightarrow> nat \<Rightarrow> database" where
  "dc_marknoticed_contact db contact_id =
     db\<lparr>db_msgs := map (\<lambda>m. if ms_from_id m = contact_id \<and> ms_state m = DC_STATE_IN_FRESH
          then m\<lparr>ms_state := DC_STATE_IN_NOTICED\<rparr> else m) (db_msgs db)\<rparr>"

definition dc_block_contact :: "string \<Rightarrow> database \<Rightarrow> nat \<Rightarrow> int \<Rightarrow> database" where
  "dc_block_contact self_name db contact_id new_blocking =
     (if contact_id \<le> DC_CONTACT_ID_LAST_SPECIAL then db
      else
        let (ok, contact) = dc_contact_load_from_db self_name dc_contact_new db contact_id in
        if ok \<and> c_blocked contact \<noteq> new_blocking then
          let db = db\<lparr>db_contacts := map (\<lambda>r. if ct_id r = contact_id then r\<lparr>ct_blocked := new_blocking\<rparr> else r)
                 (db_contacts db)\<rparr>;
              db = update_single_chats contact_id (\<lambda>ch. ch\<lparr>ch_blocked := new_blocking\<rparr>) db;
              db = dc_marknoticed_contact db contact_id
          in cb db DC_EVENT_CONTACTS_CHANGED 0 0
        else db)"

definition dc_create_contact :: "string \<Rightarrow> database \<Rightarrow> cptr \<Rightarrow> cptr \<Rightarrow> nat \<times> database" where
  "dc_create_contact self_name db name addr =
     (if addr = None \<or> addr = Some [] then (0, db)
      else
        let (contact_id, sth_modified, db) = dc_add_or_lookup_contact db name addr DC_ORIGIN_MANUALLY_CREATED;
            blocked = dc_is_contact_blocked self_name db contact_id;
            db = cb db DC_EVENT_CONTACTS_CHANGED (if sth_modified = CONTACT_CREATED then contact_id else 0) 0
        in (contact_id, if blocked then dc_block_contact self_name db contact_id 0 else db))"

fun book_loop :: "nat \<Rightarrow> database \<Rightarrow> string list \<Rightarrow> nat \<times> database" where
  "book_loop modify_cnt db (name # addr # lines) =
     (let (contact_id, sth_modified, db) =
            dc_add_or_lookup_contact db (Some (dc_normalize_name name)) (Some addr) DC_ORIGIN_ADRESS_BOOK
      in book_loop (if sth_modified \<noteq> 0 then Suc modify_cnt else modify_cnt) db lines)"
| "book_loop modify_cnt db _ = (modify_cnt, db)"

definition dc_add_address_book :: "database \<Rightarrow> cptr \<Rightarrow> nat \<times> database" where
  "dc_add_address_book db adr_book =
     (case adr_book of None \<Rightarrow> (0, db) | Some s \<Rightarrow> book_loop 0 db (dc_split_into_lines s))"

definition dc_delete_contact :: "database \<Rightarrow> nat \<Rightarrow> bool \<times> database" where
  "dc_delete_contact db contact_id =
     (if contact_id \<le> DC_CONTACT_ID_LAST_SPECIAL then (False, db)
      else if length (filter (\<lambda>(chat, contact). contact = contact_id) (db_chats_contacts db)) \<ge> 1 then (False, db)
      else if length (filter (\<lambda>m. ms_from_id m = contact_id \<or> ms_to_id m = contact_id) (db_msgs db)) \<ge> 1
      then (False, db)
      else (True, cb (db\<lparr>db_contacts := filter (\<lambda>r. ct_id r \<noteq> contact_id) (db_contacts db)\<rparr>)
                    DC_EVENT_CONTACTS_CHANGED 0 0))"

section \<open>Listing contacts\<close>

text \<open>\<open>ORDER BY LOWER(name||addr),id\<close>.\<close>

definition contact_rank :: "contact_row \<Rightarrow> string \<times> nat" where
  "contact_rank r = (sql_lower (ct_name r @ ct_addr r), ct_id r)"

definition in_contact_list :: "string \<Rightarrow> contact_row \<Rightarrow> bool" where
  "in_contact_list self_addr r \<longleftrightarrow>
     \<not> strcaseeq (ct_addr r) self_addr \<and> ct_id r > DC_CONTACT_ID_LAST_SPECIAL \<and>
     ct_origin r \<ge> DC_ORIGIN_MIN_CONTACT_LIST \<and> ct_blocked r = 0"

text \<open>\<open>contacts c LEFT JOIN acpeerstates ps ON c.addr=ps.addr\<close>.\<close>

definition join_peers :: "peer_row list \<Rightarrow> contact_row \<Rightarrow> (contact_row \<times> peer_row option) list" where
  "join_peers acpeerstates r =
     (case filter (\<lambda>p. strcaseeq (ct_addr r) (pr_addr p)) acpeerstates of
        [] \<Rightarrow> [(r, None)]
      | ps \<Rightarrow> map (\<lambda>p. (r, Some p)) ps)"

definition joined_verified :: "peer_row option \<Rightarrow> bool" where
  "joined_verified p \<longleftrightarrow>
     (case p of None \<Rightarrow> False
      | Some p \<Rightarrow> (case pr_verified_key_fingerprint p of None \<Rightarrow> False | Some fp \<Rightarrow> length fp \<noteq> 0))"

definition dc_get_contacts ::
    "string \<Rightarrow> database \<Rightarrow> peer_row list \<Rightarrow> u32 \<Rightarrow> cptr \<Rightarrow> nat list" where
  "dc_get_contacts self_stock db acpeerstates listflags query =
     (let self_addr = dc_strdup (dc_sqlite3_get_config (db_config db) (Some ''configured_addr'') (Some []));
          (ids, add_self) =
            (if listflags AND DC_GCL_VERIFIED_ONLY \<noteq> 0 \<or> query \<noteq> None then
               let pattern = ''%'' @ dc_strdup query @ ''%'';
                   any = (listflags AND DC_GCL_VERIFIED_ONLY = 0);
                   rows = filter (\<lambda>(r, p). in_contact_list self_addr r \<and>
                              (sql_like pattern (ct_name r) \<or> sql_like pattern (ct_addr r)) \<and>
                              (any \<or> joined_verified p))
                            (concat (map (join_peers acpeerstates) (db_contacts db)));
                   self_name = dc_sqlite3_get_config (db_config db) (Some ''displayname'') (Some [])
               in (map (ct_id \<circ> fst) (sort_key (contact_rank \<circ> fst) rows),
                   query = None \<or> dc_str_contains (Some self_addr) query \<or> dc_str_contains self_name query \<or>
                     dc_str_contains (Some self_stock) query)
             else (map ct_id (sort_key contact_rank (filter (in_contact_list self_addr) (db_contacts db))), True))
      in if listflags AND DC_GCL_ADD_SELF \<noteq> 0 \<and> add_self then ids @ [DC_CONTACT_ID_SELF] else ids)"

definition is_blocked_row :: "contact_row \<Rightarrow> bool" where
  "is_blocked_row r \<longleftrightarrow> ct_id r > DC_CONTACT_ID_LAST_SPECIAL \<and> ct_blocked r \<noteq> 0"

definition dc_get_blocked_contacts :: "database \<Rightarrow> nat list" where
  "dc_get_blocked_contacts db = map ct_id (sort_key contact_rank (filter is_blocked_row (db_contacts db)))"

definition dc_get_blocked_cnt :: "database \<Rightarrow> nat" where
  "dc_get_blocked_cnt db = length (filter is_blocked_row (db_contacts db))"

section \<open>The table of contacts\<close>

definition real_row :: "contact_row \<Rightarrow> bool" where
  "real_row r \<longleftrightarrow> ct_id r > DC_CONTACT_ID_LAST_SPECIAL"

definition row_ok :: "contact_row \<Rightarrow> bool" where
  "row_ok r \<longleftrightarrow> (if real_row r then rough_addr (ct_addr r) \<and> dc_trim (ct_addr r) = ct_addr r else ct_addr r = [])"

text \<open>
  The rows 1 to 9 are reserved and have no address; every other row has a checked, trimmed address
  that no other row has in any spelling.
\<close>

definition contacts_ok :: "contact_row list \<Rightarrow> bool" where
  "contacts_ok T \<longleftrightarrow> distinct (map ct_id T) \<and> DC_CONTACT_ID_LAST_SPECIAL \<in> set (map ct_id T) \<and>
     (\<forall>r \<in> set T. row_ok r) \<and> distinct (map (sql_lower \<circ> ct_addr) (filter real_row T))"

lemma contacts_okD:
  assumes "contacts_ok T"
  shows "distinct (map ct_id T)" "DC_CONTACT_ID_LAST_SPECIAL \<in> set (map ct_id T)"
    "r \<in> set T \<Longrightarrow> row_ok r" "distinct (map (sql_lower \<circ> ct_addr) (filter real_row T))"
  using assms by (auto simp: contacts_ok_def)

lemma contacts_ok_id:
  "contacts_ok T \<Longrightarrow> r \<in> set T \<Longrightarrow> x \<in> set T \<Longrightarrow> ct_id x = ct_id r \<longleftrightarrow> x = r"
  by (auto simp: contacts_ok_def distinct_map inj_on_def)

lemma by_addr_lower: "by_addr a r \<longleftrightarrow> sql_lower (ct_addr r) = sql_lower a"
  by (simp add: by_addr_def strcaseeq_def sql_lower_def)

lemma rough_addr_nonempty [simp]: "\<not> rough_addr []"
  by (simp add: rough_addr_def)

lemma by_addr_real:
  assumes "contacts_ok T" "r \<in> set T" "by_addr a r" "a \<noteq> []"
  shows "real_row r"
  using assms by (auto simp: contacts_ok_def row_ok_def by_addr_def split: if_splits)

text \<open>There is at most one row for an address.\<close>

lemma by_addr_unique:
  assumes T: "contacts_ok T" and a: "a \<noteq> []" and r: "r \<in> set T" "by_addr a r" and x: "x \<in> set T" "by_addr a x"
  shows "x = r"
proof -
  have "x \<in> set (filter real_row T)" "r \<in> set (filter real_row T)"
    using by_addr_real [OF T _ _ a] r x by auto
  moreover have "inj_on (sql_lower \<circ> ct_addr) (set (filter real_row T))"
    using T by (simp add: contacts_ok_def distinct_map)
  ultimately show ?thesis using r(2) x(2) by (auto simp: by_addr_lower inj_on_def)
qed

lemma find_by_addr:
  assumes "contacts_ok T" "a \<noteq> []" "r \<in> set T" "by_addr a r"
  shows "find (by_addr a) T = Some r"
proof -
  obtain x where x: "find (by_addr a) T = Some x" using assms(3,4) by (cases "find (by_addr a) T") (auto simp: find_None_iff)
  then have "x \<in> set T" "by_addr a x" by (auto simp: find_Some_iff)
  then show ?thesis using by_addr_unique [OF assms] x by simp
qed

lemma updated_row_fields [simp]:
  "ct_id (updated_row name addr origin r) = ct_id r" "ct_blocked (updated_row name addr origin r) = ct_blocked r"
  by (simp_all add: updated_row_def)

lemma updated_row_same:
  "\<not> (update_name name origin r \<or> update_authname name origin r \<or> update_addr addr origin r \<or> origin > ct_origin r) \<Longrightarrow>
   updated_row name addr origin r = r"
  by (simp add: updated_row_def)

lemma single_chats_frame [simp]:
  "db_contacts (update_single_chats i f db) = db_contacts db" "db_msgs (update_single_chats i f db) = db_msgs db"
  "db_chats_contacts (update_single_chats i f db) = db_chats_contacts db"
  "db_config (update_single_chats i f db) = db_config db"
  by (simp_all add: update_single_chats_def)

text \<open>Whatever is decided, the table changes in the one row, to \<open>updated_row\<close>.\<close>

lemma modify_table:
  assumes "contacts_ok (db_contacts db)" "r \<in> set (db_contacts db)"
  shows "db_contacts (snd (modify_contact db name addr origin r)) =
    map (\<lambda>x. if x = r then updated_row name addr origin r else x) (db_contacts db)"
proof (cases "update_name name origin r \<or> update_authname name origin r \<or> update_addr addr origin r \<or> origin > ct_origin r")
  case False
  then show ?thesis using updated_row_same [OF False]
    by (simp add: modify_contact_def cong: if_cong)
next
  case True
  have *: "r\<lparr>ct_name := ct_name (updated_row name addr origin r), ct_addr := ct_addr (updated_row name addr origin r),
          ct_origin := ct_origin (updated_row name addr origin r),
          ct_authname := ct_authname (updated_row name addr origin r)\<rparr> = updated_row name addr origin r"
    by (simp add: updated_row_def)
  show ?thesis using True contacts_ok_id [OF assms] *
    by (auto simp: modify_contact_def Let_def intro!: map_cong)
qed

lemma map_filter_cong:
  "(\<And>x. x \<in> set xs \<Longrightarrow> P (g x) = P x \<and> f (g x) = f x) \<Longrightarrow> map f (filter P (map g xs)) = map f (filter P xs)"
  by (induction xs) auto

text \<open>A change that keeps the keys, the spelling-free addresses and the form of the rows.\<close>

lemma contacts_ok_map:
  assumes "contacts_ok T"
    and "\<And>r. r \<in> set T \<Longrightarrow> ct_id (g r) = ct_id r \<and> sql_lower (ct_addr (g r)) = sql_lower (ct_addr r) \<and> row_ok (g r)"
  shows "contacts_ok (map g T)"
proof -
  have "map ct_id (map g T) = map ct_id T" using assms(2) by simp
  moreover have "map (sql_lower \<circ> ct_addr) (filter real_row (map g T)) = map (sql_lower \<circ> ct_addr) (filter real_row T)"
    using assms(2) by (intro map_filter_cong) (auto simp: real_row_def)
  ultimately show ?thesis using assms unfolding contacts_ok_def by (metis (no_types, lifting) imageE image_set)
qed

lemma modify_ok:
  assumes T: "contacts_ok (db_contacts db)" and r: "r \<in> set (db_contacts db)" "by_addr addr r"
    and a: "rough_addr addr" "dc_trim addr = addr"
  shows "contacts_ok (db_contacts (snd (modify_contact db name addr origin r)))"
proof -
  have "addr \<noteq> []" using a(1) by auto
  then have "real_row r" using by_addr_real T r by blast
  then have "row_ok (updated_row name addr origin r)"
    using a contacts_okD(3) [OF T r(1)] by (auto simp: row_ok_def real_row_def updated_row_def)
  moreover have "sql_lower (ct_addr (updated_row name addr origin r)) = sql_lower (ct_addr r)"
    using r(2) by (simp add: updated_row_def by_addr_lower)
  ultimately show ?thesis using T r(1) unfolding modify_table [OF T r(1)]
    by (intro contacts_ok_map) (auto dest: contacts_okD(3))
qed

lemma insert_ok:
  assumes T: "contacts_ok (db_contacts db)" and new: "find (by_addr addr) (db_contacts db) = None"
    and a: "rough_addr addr" "dc_trim addr = addr"
  shows "contacts_ok (db_contacts (insert_contact db name addr origin))"
proof -
  let ?T = "db_contacts db" and ?i = "next_rowid (map ct_id (db_contacts db))"
  have "?i > DC_CONTACT_ID_LAST_SPECIAL" using next_rowid_greater [OF contacts_okD(2) [OF T]] .
  moreover have "?i \<notin> set (map ct_id ?T)" by (rule next_rowid_fresh)
  moreover have "sql_lower addr \<notin> (sql_lower \<circ> ct_addr) ` set (filter real_row ?T)"
    using new by (auto simp: find_None_iff by_addr_lower)
  ultimately show ?thesis using T a
    by (auto simp: insert_contact_def contacts_ok_def row_ok_def real_row_def)
qed

lemma addr_normalize_trim: "dc_trim (dc_addr_normalize a) = dc_addr_normalize a"
  by (simp add: dc_addr_normalize_def Let_def)

lemma add_or_lookup_ok:
  assumes "contacts_ok (db_contacts db)"
  shows "contacts_ok (db_contacts (snd (snd (dc_add_or_lookup_contact db name addr origin))))"
proof (cases "addr = None \<or> origin \<le> 0 \<or> \<not> rough_addr (dc_addr_normalize addr)")
  case True
  with assms show ?thesis by (auto simp: dc_add_or_lookup_contact_def Let_def)
next
  case False
  let ?a = "dc_addr_normalize addr"
  show ?thesis
  proof (cases "find (by_addr ?a) (db_contacts db)")
    case None
    with False show ?thesis using insert_ok [OF assms None] addr_normalize_trim
      by (auto simp: dc_add_or_lookup_contact_def Let_def)
  next
    case (Some r)
    then have "r \<in> set (db_contacts db)" "by_addr ?a r" by (auto simp: find_Some_iff)
    from modify_ok [OF assms this] False Some show ?thesis using addr_normalize_trim
      by (auto simp: dc_add_or_lookup_contact_def Let_def split_def)
  qed
qed

lemma marknoticed_frame [simp]:
  "db_contacts (dc_marknoticed_contact db i) = db_contacts db" "db_chats (dc_marknoticed_contact db i) = db_chats db"
  by (simp_all add: dc_marknoticed_contact_def)

lemma cb_frame [simp]:
  "db_contacts (cb db e i j) = db_contacts db" "db_chats (cb db e i j) = db_chats db" "db_msgs (cb db e i j) = db_msgs db"
  "db_chats_contacts (cb db e i j) = db_chats_contacts db" "db_config (cb db e i j) = db_config db"
  by (simp_all add: cb_def)

text \<open>Changes of the origin and of the blocking of rows.\<close>

lemma block_table:
  "db_contacts (dc_block_contact self db i b) = db_contacts db \<or>
   db_contacts (dc_block_contact self db i b) = map (\<lambda>r. if ct_id r = i then r\<lparr>ct_blocked := b\<rparr> else r) (db_contacts db)"
  by (auto simp: dc_block_contact_def Let_def split_def)

lemma block_ok:
  assumes "contacts_ok (db_contacts db)"
  shows "contacts_ok (db_contacts (dc_block_contact self db i b))"
proof -
  have "contacts_ok (map (\<lambda>r. if ct_id r = i then r\<lparr>ct_blocked := b\<rparr> else r) (db_contacts db))"
    using assms by (rule contacts_ok_map) (use contacts_okD(3) [OF assms] in \<open>auto simp: row_ok_def real_row_def\<close>)
  then show ?thesis using block_table [of self db i b] assms by metis
qed

lemma scaleup_ok:
  assumes "contacts_ok (db_contacts db)"
  shows "contacts_ok (db_contacts (dc_scaleup_contact_origin db i origin))"
  unfolding dc_scaleup_contact_origin_def
  using contacts_ok_map [OF assms, of "\<lambda>r. if ct_id r = i \<and> ct_origin r < origin then r\<lparr>ct_origin := origin\<rparr> else r"]
    contacts_okD(3) [OF assms]
  by (fastforce simp: row_ok_def real_row_def)

lemma create_ok:
  assumes "contacts_ok (db_contacts db)"
  shows "contacts_ok (db_contacts (snd (dc_create_contact self db name addr)))"
proof -
  let ?r = "dc_add_or_lookup_contact db name addr DC_ORIGIN_MANUALLY_CREATED"
  have "contacts_ok (db_contacts (snd (snd ?r)))" by (rule add_or_lookup_ok [OF assms])
  with assms show ?thesis by (auto simp: dc_create_contact_def Let_def split_def intro!: block_ok)
qed

lemma book_ok: "contacts_ok (db_contacts db) \<Longrightarrow> contacts_ok (db_contacts (snd (book_loop n db lines)))"
proof (induction n db lines rule: book_loop.induct)
  case (1 n db name addr lines)
  let ?r = "dc_add_or_lookup_contact db (Some (dc_normalize_name name)) (Some addr) DC_ORIGIN_ADRESS_BOOK"
  obtain i m db' where r: "?r = (i, m, db')" by (cases ?r)
  then have "contacts_ok (db_contacts db')" using add_or_lookup_ok [OF 1(2)] by (metis snd_conv)
  then show ?case using 1(1) r by simp
qed simp_all

lemma delete_ok:
  assumes "contacts_ok (db_contacts db)"
  shows "contacts_ok (db_contacts (snd (dc_delete_contact db i)))"
proof -
  have "contacts_ok (filter (\<lambda>r. ct_id r \<noteq> i) (db_contacts db))" if "i > DC_CONTACT_ID_LAST_SPECIAL"
  proof -
    let ?T = "db_contacts db"
    have "distinct (map (sql_lower \<circ> ct_addr) (filter real_row (filter (\<lambda>r. ct_id r \<noteq> i) ?T)))"
      using distinct_map_filter [OF contacts_okD(4) [OF assms], of "\<lambda>r. ct_id r \<noteq> i"]
      by (simp add: conj_commute)
    moreover have "DC_CONTACT_ID_LAST_SPECIAL \<in> set (map ct_id (filter (\<lambda>r. ct_id r \<noteq> i) ?T))"
      using contacts_okD(2) [OF assms] that by auto
    ultimately show ?thesis using assms by (auto simp: contacts_ok_def distinct_map_filter)
  qed
  with assms show ?thesis by (simp add: dc_delete_contact_def)
qed

datatype contact_op =
    Add_Or_Lookup cptr cptr int
  | Create_Contact cptr cptr
  | Address_Book cptr
  | Block_Contact nat int
  | Scaleup_Origin nat int
  | Mark_Noticed nat
  | Delete_Contact nat

fun contact_step :: "string \<Rightarrow> database \<Rightarrow> contact_op \<Rightarrow> database" where
  "contact_step self db (Add_Or_Lookup name addr origin) = snd (snd (dc_add_or_lookup_contact db name addr origin))"
| "contact_step self db (Create_Contact name addr) = snd (dc_create_contact self db name addr)"
| "contact_step self db (Address_Book book) = snd (dc_add_address_book db book)"
| "contact_step self db (Block_Contact i b) = dc_block_contact self db i b"
| "contact_step self db (Scaleup_Origin i origin) = dc_scaleup_contact_origin db i origin"
| "contact_step self db (Mark_Noticed i) = dc_marknoticed_contact db i"
| "contact_step self db (Delete_Contact i) = snd (dc_delete_contact db i)"

interpretation contacts: machine "\<lambda>db. contacts_ok (db_contacts db)" "contact_step self" for self
proof unfold_locales
  fix db :: database and op :: contact_op
  assume ok: "contacts_ok (db_contacts db)"
  show "contacts_ok (db_contacts (contact_step self db op))"
  proof (cases op)
    case (Address_Book book)
    with ok show ?thesis by (auto simp: dc_add_address_book_def book_ok split: option.split)
  qed (simp_all add: ok add_or_lookup_ok create_ok block_ok scaleup_ok delete_ok)
qed

section \<open>Names that the user gave\<close>

text \<open>The operations that no explicit action of the user stands behind.\<close>

definition automatic :: "contact_op \<Rightarrow> bool" where
  "automatic op \<longleftrightarrow>
     (case op of
        Add_Or_Lookup name addr origin \<Rightarrow> origin < DC_ORIGIN_MANUALLY_CREATED
      | Scaleup_Origin i origin \<Rightarrow> origin \<le> DC_ORIGIN_MANUALLY_CREATED
      | Create_Contact name addr \<Rightarrow> False
      | Delete_Contact i \<Rightarrow> False
      | _ \<Rightarrow> True)"

definition named_row :: "nat \<Rightarrow> string \<Rightarrow> string \<Rightarrow> contact_row \<Rightarrow> bool" where
  "named_row i n a r \<longleftrightarrow> ct_id r = i \<and> ct_name r = n \<and> ct_addr r = a \<and> ct_origin r = DC_ORIGIN_MANUALLY_CREATED"

definition named :: "nat \<Rightarrow> string \<Rightarrow> string \<Rightarrow> database \<Rightarrow> bool" where
  "named i n a db \<longleftrightarrow> n \<noteq> [] \<and> contacts_ok (db_contacts db) \<and> list_ex (named_row i n a) (db_contacts db)"

lemma named_map:
  assumes "list_ex (named_row i n a) T" "\<And>r. r \<in> set T \<Longrightarrow> named_row i n a r \<Longrightarrow> named_row i n a (g r)"
  shows "list_ex (named_row i n a) (map g T)"
  using assms by (auto simp: list_ex_iff)

lemma named_add:
  assumes n: "named i n a db" and o: "origin < DC_ORIGIN_MANUALLY_CREATED"
  shows "named i n a (snd (snd (dc_add_or_lookup_contact db name addr origin)))"
proof -
  let ?r = "dc_add_or_lookup_contact db name addr origin" and ?a = "dc_addr_normalize addr"
  have ok: "contacts_ok (db_contacts db)" and e: "list_ex (named_row i n a) (db_contacts db)" and ne: "n \<noteq> []"
    using n by (auto simp: named_def)
  have "list_ex (named_row i n a) (db_contacts (snd (snd ?r)))"
  proof (cases "find (by_addr ?a) (db_contacts db)")
    case None
    with e show ?thesis by (auto simp: dc_add_or_lookup_contact_def insert_contact_def Let_def)
  next
    case (Some r)
    then have r: "r \<in> set (db_contacts db)" by (auto simp: find_Some_iff)
    have "named_row i n a (updated_row name ?a origin x)" if "named_row i n a x" for x
      using that o ne by (auto simp: named_row_def updated_row_def update_name_def update_addr_def split: option.split)
    then have "list_ex (named_row i n a) (db_contacts (snd (modify_contact db name ?a origin r)))"
      unfolding modify_table [OF ok r] using e by (intro named_map) auto
    with Some e show ?thesis by (auto simp: dc_add_or_lookup_contact_def Let_def split_def)
  qed
  with ne show ?thesis using add_or_lookup_ok [OF ok] by (simp add: named_def)
qed

lemma named_book: "named i n a db \<Longrightarrow> named i n a (snd (book_loop m db lines))"
proof (induction m db lines rule: book_loop.induct)
  case (1 m db name addr lines)
  let ?r = "dc_add_or_lookup_contact db (Some (dc_normalize_name name)) (Some addr) DC_ORIGIN_ADRESS_BOOK"
  obtain j k db' where r: "?r = (j, k, db')" by (cases ?r)
  then have "named i n a db'" using named_add [OF 1(2), of DC_ORIGIN_ADRESS_BOOK "Some (dc_normalize_name name)" "Some addr"] by simp
  then show ?case using 1(1) r by simp
qed simp_all

definition automatic_step :: "string \<Rightarrow> database \<Rightarrow> contact_op \<Rightarrow> database" where
  "automatic_step self db op = (if automatic op then contact_step self db op else db)"

interpretation user_names: machine "named i n a" "automatic_step self" for i n a self
proof unfold_locales
  fix db :: database and op :: contact_op
  assume n: "named i n a db"
  then have ok: "contacts_ok (db_contacts (contact_step self db op))"
    by (intro contacts.step_inv) (simp add: named_def)
  show "named i n a (automatic_step self db op)"
  proof (cases op)
    case (Add_Or_Lookup name addr origin)
    with n show ?thesis by (simp add: automatic_step_def automatic_def named_add)
  next
    case (Address_Book book)
    with n show ?thesis
      by (auto simp: automatic_step_def automatic_def dc_add_address_book_def named_book split: option.split)
  next
    case (Block_Contact j b)
    have "list_ex (named_row i n a) (map (\<lambda>r. if ct_id r = j then r\<lparr>ct_blocked := b\<rparr> else r) (db_contacts db))"
      using n by (intro named_map) (auto simp: named_def named_row_def)
    then show ?thesis using n ok block_table [of self db j b]
      by (auto simp: automatic_step_def automatic_def named_def Block_Contact)
  next
    case (Scaleup_Origin j origin)
    with n ok show ?thesis
      by (auto simp: automatic_step_def automatic_def named_def dc_scaleup_contact_origin_def named_row_def
          intro!: named_map)
  next
    case (Mark_Noticed j)
    with n show ?thesis by (simp add: automatic_step_def named_def)
  qed (use n in \<open>simp_all add: automatic_step_def automatic_def\<close>)
qed

section \<open>What is listed\<close>

lemma in_set_sort_filter: "x \<in> set (map f (sort_key k (filter P xs))) \<longleftrightarrow> (\<exists>r \<in> set xs. P r \<and> x = f r)"
  by auto

lemma set_join_peers:
  "(r', p) \<in> set (join_peers ps r) \<longleftrightarrow> r' = r \<and>
     (case p of None \<Rightarrow> (\<forall>q \<in> set ps. \<not> strcaseeq (ct_addr r) (pr_addr q))
      | Some q \<Rightarrow> q \<in> set ps \<and> strcaseeq (ct_addr r) (pr_addr q))"
proof -
  let ?F = "filter (\<lambda>q. strcaseeq (ct_addr r) (pr_addr q)) ps"
  have F: "set ?F = {q \<in> set ps. strcaseeq (ct_addr r) (pr_addr q)}" by auto
  show ?thesis
  proof (cases "?F = []")
    case True
    then have "join_peers ps r = [(r, None)]" by (simp add: join_peers_def)
    moreover have "\<forall>q \<in> set ps. \<not> strcaseeq (ct_addr r) (pr_addr q)" using True by (simp add: filter_empty_conv)
    ultimately show ?thesis by (auto split: option.split)
  next
    case False
    then have "join_peers ps r = map (\<lambda>p. (r, Some p)) ?F" by (auto simp: join_peers_def split: list.split)
    then have "set (join_peers ps r) = (\<lambda>p. (r, Some p)) ` {q \<in> set ps. strcaseeq (ct_addr r) (pr_addr q)}"
      by (simp only: set_map F)
    moreover have "\<exists>q \<in> set ps. strcaseeq (ct_addr r) (pr_addr q)" using False by (simp add: filter_empty_conv)
    ultimately show ?thesis by (auto split: option.split)
  qed
qed

text \<open>The pattern \<open>%%\<close> of an empty query matches everything.\<close>

lemma like_two_stars: "sql_like [CHR 0x25, CHR 0x25] s"
  using like_star [of s] by (cases s) auto

section \<open>Properties\<close>

text \<open>
  C24: The table of contacts stays well-formed, whatever the user, the address book and received mails
  do: ids are unique, a contact has a checked and trimmed address, and no two contacts have
  the same address in different spellings, although the column has no such constraint.
\<close>

theorem contacts_stay_unique:
  assumes "contacts_ok (db_contacts db)"
  shows "let T = db_contacts (foldl (contact_step self) db ops) in
    distinct (map ct_id T) \<and> list_all row_ok T \<and>
    distinct (map (\<lambda>r. sql_lower (ct_addr r)) (filter (\<lambda>r. ct_id r > DC_CONTACT_ID_LAST_SPECIAL) T))"
  using contacts.run_inv [OF assms, of self ops]
  by (simp add: contacts_ok_def list_all_iff Let_def comp_def real_row_def [abs_def])

definition reserved_row :: "nat \<Rightarrow> contact_row" where
  "reserved_row i =
     \<lparr>ct_id = i, ct_name = ''rsvd'', ct_addr = [], ct_origin = 0x40000, ct_blocked = 0, ct_authname = []\<rparr>"

definition fresh_database :: database where
  "fresh_database = \<lparr>db_config = [(''configured_addr'', ''me@me.org'')], db_contacts = map reserved_row [1..<10], db_chats = [],
     db_chats_contacts = [], db_msgs = [], db_mdns = [], db_leftgrps = [], db_events = [], db_outbox = []\<rparr>"

lemma fresh_database_ok: "contacts_ok (db_contacts fresh_database)"
  by (auto simp: contacts_ok_def fresh_database_def reserved_row_def row_ok_def real_row_def upt_rec)

lemma contacts_stay_unique_witness:
  "map ct_id (db_contacts fresh_database) = [1..<10] \<and>
   distinct (map ct_id (db_contacts (foldl (contact_step ''Me'') fresh_database
     [Create_Contact (Some ''Ada'') (Some ''ada@x.org''), Add_Or_Lookup None (Some ''mailto:ADA@x.org'') 16])))"
  using contacts_stay_unique [OF fresh_database_ok, of "''Me''" "[Create_Contact (Some ''Ada'') (Some ''ada@x.org''),
     Add_Or_Lookup None (Some ''mailto:ADA@x.org'') 16]"]
  by (simp add: Let_def fresh_database_def reserved_row_def upt_rec)

lemma find_snoc: "find P (xs @ [y]) = (case find P xs of None \<Rightarrow> if P y then Some y else None | Some x \<Rightarrow> Some x)"
  by (induction xs) auto

lemma find_map_other:
  assumes "\<And>x. x \<in> set T \<Longrightarrow> g x = x \<or> \<not> P x \<and> \<not> P (g x)"
  shows "find P (map g T) = find P T"
  using assms by (induction T) force+

text \<open>
  \<open>dc_add_or_lookup_contact\<close> implements a finite map from addresses, read without case, to contacts.
  For a valid address it answers with the one contact of this address, which is the row there was,
  changed as the origin allows, or a new row; every other address has the contact it had; and
  the database is left alone when nothing is reported as modified.
\<close>

theorem add_or_lookup_spec:
  assumes ok: "contacts_ok (db_contacts db)" and a: "rough_addr (dc_addr_normalize (Some s))" and o: "origin > 0"
  shows "let a = dc_addr_normalize (Some s); old = find (by_addr a) (db_contacts db);
      new = (case old of Some r \<Rightarrow> updated_row name a origin r
             | None \<Rightarrow> \<lparr>ct_id = next_rowid (map ct_id (db_contacts db)), ct_name = dc_strdup name, ct_addr = a,
                        ct_origin = origin, ct_blocked = 0, ct_authname = []\<rparr>);
      (i, sth_modified, db') = dc_add_or_lookup_contact db name (Some s) origin in
    i = ct_id new \<and> (sth_modified = CONTACT_CREATED \<longleftrightarrow> old = None) \<and> (sth_modified = 0 \<longrightarrow> db' = db) \<and>
    (\<forall>b. find (by_addr b) (db_contacts db') =
       (if strcaseeq a b then Some new else find (by_addr b) (db_contacts db)))"
proof -
  let ?a = "dc_addr_normalize (Some s)" and ?T = "db_contacts db"
  let ?r = "dc_add_or_lookup_contact db name (Some s) origin"
  have ne: "?a \<noteq> []" using a by auto
  have ok': "contacts_ok (db_contacts (snd (snd ?r)))" by (rule add_or_lookup_ok [OF ok])
  have found: "find (by_addr b) (db_contacts (snd (snd ?r))) = Some n"
    if "n \<in> set (db_contacts (snd (snd ?r)))" "by_addr b n" "strcaseeq ?a b" for n b
  proof -
    have "b \<noteq> []" using ne that(3) by auto
    from find_by_addr [OF ok' this that(1,2)] show ?thesis .
  qed
  show ?thesis
  proof (cases "find (by_addr ?a) ?T")
    case None
    let ?n = "\<lparr>ct_id = next_rowid (map ct_id ?T), ct_name = dc_strdup name, ct_addr = ?a,
        ct_origin = origin, ct_blocked = 0, ct_authname = []\<rparr>"
    have r: "db_contacts (snd (snd ?r)) = ?T @ [?n]" "fst ?r = contact_rowid (insert_contact db name ?a origin) ?a"
      "fst (snd ?r) = CONTACT_CREATED"
      using None a o by (simp_all add: dc_add_or_lookup_contact_def insert_contact_def Let_def)
    have n: "by_addr ?a ?n" by (simp add: by_addr_def)
    have i: "fst ?r = ct_id ?n"
      using r(1,2) found [of ?n ?a] n None a o
      by (simp add: contact_rowid_def dc_add_or_lookup_contact_def Let_def)
    have "find (by_addr b) (db_contacts (snd (snd ?r))) = (if strcaseeq ?a b then Some ?n else find (by_addr b) ?T)" for b
      using found [of ?n b] r(1) by (cases "find (by_addr b) ?T") (auto simp: by_addr_def find_snoc)
    with None i r(3) show ?thesis by (simp add: Let_def split_def)
  next
    case (Some r)
    then have rT: "r \<in> set ?T" "by_addr ?a r" by (auto simp: find_Some_iff)
    let ?n = "updated_row name ?a origin r"
    have res: "?r = (ct_id r, modify_contact db name ?a origin r)"
      using Some a o by (simp add: dc_add_or_lookup_contact_def Let_def split_def)
    have tab: "db_contacts (snd (snd ?r)) = map (\<lambda>x. if x = r then ?n else x) ?T"
      using modify_table [OF ok rT(1)] by (simp add: res)
    have n: "by_addr b ?n \<longleftrightarrow> by_addr b r" for b
      using rT(2) by (auto simp: updated_row_def by_addr_lower)
    have br: "by_addr b r \<longleftrightarrow> strcaseeq ?a b" for b
      using rT(2) by (auto simp: by_addr_def intro: strcaseeq_trans dest: strcaseeq_sym [THEN iffD1])
    have "find (by_addr b) (db_contacts (snd (snd ?r))) = (if strcaseeq ?a b then Some ?n else find (by_addr b) ?T)" for b
    proof (cases "strcaseeq ?a b")
      case True
      then show ?thesis using found [of ?n b] n br rT(1) by (simp add: tab)
    next
      case False
      then show ?thesis unfolding tab using n br by (simp add: find_map_other)
    qed
    moreover have "fst (modify_contact db name ?a origin r) = 0 \<longrightarrow> snd (modify_contact db name ?a origin r) = db"
      "fst (modify_contact db name ?a origin r) \<noteq> CONTACT_CREATED"
      by (simp_all add: modify_contact_def Let_def)
    ultimately show ?thesis using Some by (simp add: res Let_def split_def)
  qed
qed

lemma add_or_lookup_spec_witness:
  "let (i, m, db') = dc_add_or_lookup_contact fresh_database (Some ''Ada'') (Some ''mailto:ada@x.org'') 16 in
     i = 10 \<and> m = CONTACT_CREATED \<and> find (by_addr ''ada@x.org'') (db_contacts db') \<noteq> None"
proof -
  have norm: "dc_addr_normalize (Some ''mailto:ada@x.org'') = ''ada@x.org''" by code_simp
  have "rough_addr (dc_addr_normalize (Some ''mailto:ada@x.org''))" by code_simp
  from add_or_lookup_spec [OF fresh_database_ok this, of 16 "Some ''Ada''"]
  have "let a = ''ada@x.org''; old = find (by_addr a) (db_contacts fresh_database);
      new = (case old of Some r \<Rightarrow> updated_row (Some ''Ada'') a 16 r
             | None \<Rightarrow> \<lparr>ct_id = next_rowid (map ct_id (db_contacts fresh_database)), ct_name = dc_strdup (Some ''Ada''), ct_addr = a,
                        ct_origin = 16, ct_blocked = 0, ct_authname = []\<rparr>);
      (i, sth_modified, db') = dc_add_or_lookup_contact fresh_database (Some ''Ada'') (Some ''mailto:ada@x.org'') 16 in
    i = ct_id new \<and> (sth_modified = CONTACT_CREATED \<longleftrightarrow> old = None) \<and> (sth_modified = 0 \<longrightarrow> db' = fresh_database) \<and>
    (\<forall>b. find (by_addr b) (db_contacts db') =
       (if strcaseeq a b then Some new else find (by_addr b) (db_contacts fresh_database)))"
    unfolding norm by simp
  moreover have "find (by_addr ''ada@x.org'') (db_contacts fresh_database) = None" by code_simp
  moreover have "next_rowid (map ct_id (db_contacts fresh_database)) = 10" by code_simp
  ultimately show ?thesis by (auto simp: Let_def split_def)
qed

text \<open>
  C25: What the user entered survives what arrives: after \<open>dc_create_contact\<close> has given a contact a name
  and an address, no received mail, address book, blocking or handshake changes the name, the
  spelling of the address or the origin, in whatever order and number they come.
\<close>

theorem user_names_survive:
  assumes "contacts_ok (db_contacts db)" and "n \<noteq> []"
    and "r \<in> set (db_contacts db)" and "ct_id r = i" "ct_name r = n" "ct_addr r = a" "ct_origin r = DC_ORIGIN_MANUALLY_CREATED"
  shows "list_ex (\<lambda>x. ct_id x = i \<and> ct_name x = n \<and> ct_addr x = a \<and> ct_origin x = DC_ORIGIN_MANUALLY_CREATED)
    (db_contacts (foldl (automatic_step self) db ops))"
proof -
  have "named i n a db" using assms by (auto simp: named_def named_row_def list_ex_iff)
  from user_names.run_inv [OF this, of self ops] show ?thesis
    by (simp add: named_def named_row_def [abs_def])
qed

definition ada_row :: contact_row where
  "ada_row = \<lparr>ct_id = 10, ct_name = ''Ada'', ct_addr = ''ada@x.org'', ct_origin = DC_ORIGIN_MANUALLY_CREATED,
     ct_blocked = 0, ct_authname = []\<rparr>"

definition ada_database :: database where
  "ada_database = fresh_database\<lparr>db_contacts := db_contacts fresh_database @ [ada_row],
     db_chats := [\<lparr>ch_id = 10, ch_type = 100, ch_name = ''Ada'', ch_draft_timestamp = 0, ch_draft_txt = [], ch_blocked = 0,
       ch_grpid = ''ada@x.org'', ch_param = [], ch_archived = 0\<rparr>],
     db_chats_contacts := [(10, 10)]\<rparr>"

lemma ada_database_ok: "contacts_ok (db_contacts ada_database)"
proof -
  have "rough_addr ''ada@x.org'' \<and> dc_trim ''ada@x.org'' = ''ada@x.org''" by code_simp
  then show ?thesis
    by (auto simp: contacts_ok_def ada_database_def ada_row_def fresh_database_def reserved_row_def row_ok_def
        real_row_def upt_rec)
qed

lemma user_names_survive_witness:
  "list_ex (\<lambda>x. ct_id x = 10 \<and> ct_name x = ''Ada'' \<and> ct_addr x = ''ada@x.org'' \<and> ct_origin x = DC_ORIGIN_MANUALLY_CREATED)
    (db_contacts (foldl (automatic_step ''Me'') ada_database
      [Add_Or_Lookup (Some ''Mallory'') (Some ''Ada@X.org'') 16, Address_Book (Some ''A. L.\<newline>ada@x.org''), Block_Contact 10 1]))"
proof -
  have "ada_row \<in> set (db_contacts ada_database)" by (simp add: ada_database_def)
  moreover have "ct_id ada_row = 10" "ct_name ada_row = ''Ada''" "ct_addr ada_row = ''ada@x.org''"
    "ct_origin ada_row = DC_ORIGIN_MANUALLY_CREATED" by (simp_all add: ada_row_def)
  moreover have "''Ada'' \<noteq> []" by simp
  ultimately show ?thesis by (intro user_names_survive [OF ada_database_ok])
qed

lemma joined_ids:
  "set (map (ct_id \<circ> fst) (sort_key k (filter Q (concat (map (join_peers ps) T))))) =
     {ct_id r | r p. r \<in> set T \<and> (r, p) \<in> set (join_peers ps r) \<and> Q (r, p)}" (is "?l = ?r")
proof -
  have fst: "r' = r" if "(r', p) \<in> set (join_peers ps r)" for r r' p using that by (simp add: set_join_peers)
  have "?l = (ct_id \<circ> fst) ` {x. Q x \<and> (\<exists>r \<in> set T. x \<in> set (join_peers ps r))}" by auto
  also have "\<dots> = ?r" using fst by (force simp: image_iff)
  finally show ?thesis .
qed

lemma join_total: "\<exists>p. (r, p) \<in> set (join_peers ps r)"
proof (cases "\<exists>q \<in> set ps. strcaseeq (ct_addr r) (pr_addr q)")
  case True
  then obtain q where "q \<in> set ps" "strcaseeq (ct_addr r) (pr_addr q)" by blast
  then have "(r, Some q) \<in> set (join_peers ps r)" by (simp add: set_join_peers)
  then show ?thesis by blast
next
  case False
  then have "(r, None) \<in> set (join_peers ps r)" by (auto simp: set_join_peers)
  then show ?thesis by blast
qed

lemma join_verified:
  "(\<exists>p. (r, p) \<in> set (join_peers ps r) \<and> joined_verified p) \<longleftrightarrow>
   (\<exists>q \<in> set ps. strcaseeq (ct_addr r) (pr_addr q) \<and> joined_verified (Some q))"
proof -
  have "(\<exists>p. (r, p) \<in> set (join_peers ps r) \<and> joined_verified p) \<longleftrightarrow>
      (\<exists>q. (r, Some q) \<in> set (join_peers ps r) \<and> joined_verified (Some q))"
    by (metis joined_verified_def not_None_eq option.simps(4))
  then show ?thesis by (auto simp: set_join_peers)
qed

lemma bex_ids: "i \<in> {ct_id r | r p. r \<in> T \<and> A r p \<and> B r \<and> C p} \<longleftrightarrow> (\<exists>r \<in> T. i = ct_id r \<and> B r \<and> (\<exists>p. A r p \<and> C p))"
  by blast

lemma contact_list_conv:
  "i \<in> set (dc_get_contacts self_stock db acpeerstates listflags query) \<and> i \<noteq> DC_CONTACT_ID_SELF \<longleftrightarrow>
   (\<exists>r \<in> set (db_contacts db). i = ct_id r \<and>
      in_contact_list (dc_strdup (dc_sqlite3_get_config (db_config db) (Some ''configured_addr'') (Some []))) r \<and>
      (case query of None \<Rightarrow> True
       | Some q \<Rightarrow> sql_like (''%'' @ q @ ''%'') (ct_name r) \<or> sql_like (''%'' @ q @ ''%'') (ct_addr r)) \<and>
      (listflags AND DC_GCL_VERIFIED_ONLY = 0 \<or>
       (\<exists>p \<in> set acpeerstates. strcaseeq (ct_addr r) (pr_addr p) \<and> joined_verified (Some p))))"
  (is "?l \<longleftrightarrow> (\<exists>r \<in> _. ?P r)")
proof -
  let ?self = "dc_strdup (dc_sqlite3_get_config (db_config db) (Some ''configured_addr'') (Some []))"
  let ?L = "dc_get_contacts self_stock db acpeerstates listflags query"
  have big: "in_contact_list ?self r \<Longrightarrow> ct_id r \<noteq> DC_CONTACT_ID_SELF" for r
    by (auto simp: in_contact_list_def)
  show ?thesis
  proof (cases "listflags AND DC_GCL_VERIFIED_ONLY \<noteq> 0 \<or> query \<noteq> None")
    case False
    then have "set ?L - {DC_CONTACT_ID_SELF} = ct_id ` {r \<in> set (db_contacts db). in_contact_list ?self r}"
      using big by (auto simp: dc_get_contacts_def Let_def)
    with False show ?thesis by auto
  next
    case True
    let ?any = "listflags AND DC_GCL_VERIFIED_ONLY = 0" and ?pat = "''%'' @ dc_strdup query @ ''%''"
    have join: "(\<exists>p. (r, p) \<in> set (join_peers acpeerstates r) \<and> (?any \<or> joined_verified p)) \<longleftrightarrow>
        ?any \<or> (\<exists>p \<in> set acpeerstates. strcaseeq (ct_addr r) (pr_addr p) \<and> joined_verified (Some p))" for r
      using join_total [of r acpeerstates] join_verified [of r acpeerstates] by blast
    have pat: "(sql_like ?pat (ct_name r) \<or> sql_like ?pat (ct_addr r)) \<longleftrightarrow>
        (case query of None \<Rightarrow> True
         | Some q \<Rightarrow> sql_like (''%'' @ q @ ''%'') (ct_name r) \<or> sql_like (''%'' @ q @ ''%'') (ct_addr r))" for r
      using like_two_stars by (auto simp: dc_strdup_def split: option.split)
    define Q where "Q = (\<lambda>(r, p). in_contact_list ?self r \<and>
        (sql_like ?pat (ct_name r) \<or> sql_like ?pat (ct_addr r)) \<and> (?any \<or> joined_verified p))"
    define ids where "ids = map (ct_id \<circ> fst) (sort_key (contact_rank \<circ> fst) (filter Q (concat (map (join_peers acpeerstates) (db_contacts db)))))"
    have L: "?L = ids \<or> ?L = ids @ [DC_CONTACT_ID_SELF]"
      using True unfolding dc_get_contacts_def Q_def ids_def by (simp only: Let_def if_True split: prod.split if_split) simp
    have "DC_CONTACT_ID_SELF \<notin> set ids" unfolding ids_def joined_ids using big by (force simp: Q_def)
    then have "?l \<longleftrightarrow> i \<in> set ids" using L by auto
    also have "\<dots> \<longleftrightarrow> i \<in> {ct_id r | r p. r \<in> set (db_contacts db) \<and> (r, p) \<in> set (join_peers acpeerstates r) \<and>
        (in_contact_list ?self r \<and> (sql_like ?pat (ct_name r) \<or> sql_like ?pat (ct_addr r))) \<and> (?any \<or> joined_verified p)}"
      unfolding ids_def joined_ids Q_def by simp
    also have "\<dots> \<longleftrightarrow> (\<exists>r \<in> set (db_contacts db). ?P r)"
      unfolding bex_ids pat join by blast
    finally show ?thesis .
  qed
qed

lemma listed_row:
  assumes "i \<in> set (dc_get_contacts self_stock db acpeerstates listflags query)" "i \<noteq> DC_CONTACT_ID_SELF"
  obtains r a where "r \<in> set (db_contacts db)" "i = ct_id r" "in_contact_list a r"
  using iffD1 [OF contact_list_conv conjI, OF assms] by blast

text \<open>
  \<open>dc_get_contacts\<close> lists exactly the visible contacts.  Besides ourselves a contact is listed if and
  only if it is no reserved one, not blocked, not our own address, known well enough not to be spam,
  matched by the query, and, when asked for, has a peer state with a verified key; this holds for
  both statements of the function, with and without the join of the peer states.
\<close>

theorem contact_list_exact:
  "i \<in> set (dc_get_contacts self_stock db acpeerstates listflags query) \<and> i \<noteq> DC_CONTACT_ID_SELF \<longleftrightarrow>
   (\<exists>r \<in> set (db_contacts db). i = ct_id r \<and>
      in_contact_list (dc_strdup (dc_sqlite3_get_config (db_config db) (Some ''configured_addr'') (Some []))) r \<and>
      (case query of None \<Rightarrow> True
       | Some q \<Rightarrow> sql_like (''%'' @ q @ ''%'') (ct_name r) \<or> sql_like (''%'' @ q @ ''%'') (ct_addr r)) \<and>
      (listflags AND DC_GCL_VERIFIED_ONLY = 0 \<or>
       (\<exists>p \<in> set acpeerstates. strcaseeq (ct_addr r) (pr_addr p) \<and> joined_verified (Some p))))"
  by (rule contact_list_conv)

lemma find_contact:
  assumes "contacts_ok T" "r \<in> set T" "ct_id r = i"
  shows "find (\<lambda>x. ct_id x = i) T = Some r"
proof -
  obtain x where x: "find (\<lambda>x. ct_id x = i) T = Some x"
    using assms(2,3) by (cases "find (\<lambda>x. ct_id x = i) T") (auto simp: find_None_iff)
  then have "x \<in> set T" "ct_id x = i" by (auto simp: find_Some_iff)
  then show ?thesis using contacts_ok_id [OF assms(1,2)] assms(3) x by auto
qed

lemma marknoticed_rest [simp]:
  "db_config (dc_marknoticed_contact db i) = db_config db"
  "db_chats_contacts (dc_marknoticed_contact db i) = db_chats_contacts db"
  by (simp_all add: dc_marknoticed_contact_def)

text \<open>
  Blocking a contact hides it everywhere.  Afterwards it is in no list of contacts, with
  whatever flags and query, but in the list of the blocked ones; its single chats are blocked with it,
  it has no fresh messages left, and no other contact, chat or message is changed.
\<close>

theorem blocking_hides:
  assumes ok: "contacts_ok (db_contacts db)" and r: "r \<in> set (db_contacts db)" "ct_blocked r = 0"
    and big: "ct_id r > DC_CONTACT_ID_LAST_SPECIAL"
  shows "let db' = dc_block_contact self db (ct_id r) 1 in
    ct_id r \<notin> set (dc_get_contacts self_stock db' acpeerstates listflags query) \<and>
    ct_id r \<in> set (dc_get_blocked_contacts db') \<and>
    list_all (\<lambda>m. \<not> (ms_from_id m = ct_id r \<and> ms_state m = DC_STATE_IN_FRESH)) (db_msgs db') \<and>
    db_chats db' = map (\<lambda>ch. if ch_type ch = DC_CHAT_TYPE_SINGLE \<and> (ch_id ch, ct_id r) \<in> set (db_chats_contacts db)
                             then ch\<lparr>ch_blocked := 1\<rparr> else ch) (db_chats db) \<and>
    filter (\<lambda>x. ct_id x \<noteq> ct_id r) (db_contacts db') = filter (\<lambda>x. ct_id x \<noteq> ct_id r) (db_contacts db)"
proof -
  let ?i = "ct_id r" and ?db' = "dc_block_contact self db (ct_id r) 1"
  let ?g = "\<lambda>x. if ct_id x = ct_id r then x\<lparr>ct_blocked := 1\<rparr> else x"
  have load: "dc_contact_load_from_db self dc_contact_new db ?i =
      (True, dc_contact_new\<lparr>c_id := ?i, c_name := Some (ct_name r), c_addr := Some (ct_addr r),
         c_origin := ct_origin r, c_blocked := ct_blocked r, c_authname := Some (ct_authname r)\<rparr>)"
    using find_contact [OF ok r(1) refl] big
    by (simp add: dc_contact_load_from_db_def dc_contact_empty_def dc_contact_new_def)
  have db': "?db' = cb (dc_marknoticed_contact (update_single_chats ?i (\<lambda>ch. ch\<lparr>ch_blocked := 1\<rparr>)
      (db\<lparr>db_contacts := map ?g (db_contacts db)\<rparr>)) ?i) DC_EVENT_CONTACTS_CHANGED 0 0"
    using big r(2) by (simp add: dc_block_contact_def load Let_def)
  have tab: "db_contacts ?db' = map ?g (db_contacts db)" by (simp add: db')
  have hidden: "\<not> in_contact_list a x" if x: "x \<in> set (map ?g (db_contacts db))" "?i = ct_id x" for a x
  proof -
    obtain y where y: "x = ?g y" using x(1) unfolding set_map by blast
    then have "ct_blocked x = 1" using x(2) by (cases "ct_id y = ct_id r") simp_all
    then show ?thesis by (simp add: in_contact_list_def)
  qed
  have "?i \<notin> set (dc_get_contacts self_stock ?db' acpeerstates listflags query)"
  proof
    assume "?i \<in> set (dc_get_contacts self_stock ?db' acpeerstates listflags query)"
    then obtain x a where "x \<in> set (db_contacts ?db')" "?i = ct_id x" "in_contact_list a x"
      using big by (elim listed_row) auto
    then show False using hidden unfolding tab by blast
  qed
  moreover have "?g r \<in> set (db_contacts ?db')" "is_blocked_row (?g r)" "ct_id (?g r) = ?i"
    using r(1) big unfolding tab by (auto simp: is_blocked_row_def)
  then have "?i \<in> set (dc_get_blocked_contacts ?db')"
    by (auto simp: dc_get_blocked_contacts_def image_iff intro!: bexI [where x = "?g r"])
  moreover have "list_all (\<lambda>m. \<not> (ms_from_id m = ?i \<and> ms_state m = DC_STATE_IN_FRESH)) (db_msgs ?db')"
    by (auto simp: db' dc_marknoticed_contact_def list_all_iff)
  moreover have "filter (\<lambda>x. ct_id x \<noteq> ?i) (map ?g T) = filter (\<lambda>x. ct_id x \<noteq> ?i) T" for T
    by (induction T) auto
  ultimately show ?thesis unfolding Let_def tab by (simp add: db' update_single_chats_def)
qed

lemma blocking_hides_witness:
  "10 \<notin> set (dc_get_contacts ''Me'' (dc_block_contact ''Me'' ada_database 10 1) [] 2 (Some ''ada''))"
proof -
  have "ada_row \<in> set (db_contacts ada_database)" by (simp add: ada_database_def)
  moreover have "ct_id ada_row = 10" "ct_blocked ada_row = 0" by (simp_all add: ada_row_def)
  ultimately show ?thesis
    using blocking_hides [OF ada_database_ok, of ada_row "''Me''" "''Me''" "[]" 2 "Some ''ada''"] by (simp add: Let_def)
qed

section \<open>Contacts in use\<close>

text \<open>The members of chats and the senders and receivers of messages are contacts; 0 is no contact.\<close>

definition used_ids :: "database \<Rightarrow> nat set" where
  "used_ids db = snd ` set (db_chats_contacts db) \<union> ms_from_id ` set (db_msgs db) \<union> ms_to_id ` set (db_msgs db)"

definition refs_ok :: "database \<Rightarrow> bool" where
  "refs_ok db \<longleftrightarrow> used_ids db \<subseteq> insert 0 (ct_id ` set (db_contacts db))"

text \<open>What the operations other than deletion have in common.\<close>

definition contacts_kept :: "database \<Rightarrow> database \<Rightarrow> bool" where
  "contacts_kept db db' \<longleftrightarrow> used_ids db' = used_ids db \<and> ct_id ` set (db_contacts db) \<subseteq> ct_id ` set (db_contacts db')"

lemma contacts_kept_refl [intro, simp]: "contacts_kept db db"
  by (simp add: contacts_kept_def)

lemma contacts_kept_trans: "contacts_kept db1 db2 \<Longrightarrow> contacts_kept db2 db3 \<Longrightarrow> contacts_kept db1 db3"
  unfolding contacts_kept_def by (metis subset_trans)

lemma contacts_kept_map:
  assumes "\<And>r. ct_id (g r) = ct_id r"
  shows "contacts_kept db (db\<lparr>db_contacts := map g (db_contacts db)\<rparr>)"
  using assms by (auto simp: contacts_kept_def used_ids_def image_iff)

lemma contacts_kept_simple [simp, intro]:
  "contacts_kept db (cb db e i j)" "contacts_kept db (update_single_chats k f db)"
  by (simp_all add: contacts_kept_def used_ids_def cb_def update_single_chats_def)

lemma contacts_kept_noticed [simp, intro]: "contacts_kept db (dc_marknoticed_contact db i)"
proof -
  have "map ms_from_id (db_msgs (dc_marknoticed_contact db i)) = map ms_from_id (db_msgs db)"
    "map ms_to_id (db_msgs (dc_marknoticed_contact db i)) = map ms_to_id (db_msgs db)"
    by (simp_all add: dc_marknoticed_contact_def)
  then have "set (map ms_from_id (db_msgs (dc_marknoticed_contact db i))) = set (map ms_from_id (db_msgs db))"
    "set (map ms_to_id (db_msgs (dc_marknoticed_contact db i))) = set (map ms_to_id (db_msgs db))"
    by presburger+
  then show ?thesis by (simp add: contacts_kept_def used_ids_def)
qed

lemma contacts_kept_intros:
  assumes "contacts_kept db db'"
  shows "contacts_kept db (cb db' e i j)" "contacts_kept db (update_single_chats k f db')"
    "contacts_kept db (dc_marknoticed_contact db' i)"
  using assms by (rule contacts_kept_trans, simp)+

lemma contacts_kept_modify: "contacts_kept db (snd (modify_contact db name addr origin r))"
proof -
  have "contacts_kept db (update_single_chats i f (db\<lparr>db_contacts := map g (db_contacts db)\<rparr>))"
    if "\<And>x. ct_id (g x) = ct_id x" for i f g
    by (intro contacts_kept_intros contacts_kept_map that)
  then show ?thesis by (simp add: modify_contact_def Let_def contacts_kept_map)
qed

lemma contacts_kept_add: "contacts_kept db (snd (snd (dc_add_or_lookup_contact db name addr origin)))"
proof -
  have "contacts_kept db (insert_contact db name a origin)" for a
    by (auto simp: insert_contact_def contacts_kept_def used_ids_def)
  then show ?thesis using contacts_kept_modify
    by (auto simp: dc_add_or_lookup_contact_def Let_def split_def split: option.split)
qed

lemma contacts_kept_block: "contacts_kept db (dc_block_contact self db i b)"
proof -
  have "contacts_kept db (cb (dc_marknoticed_contact (update_single_chats i f (db\<lparr>db_contacts := map g (db_contacts db)\<rparr>)) i) e 0 0)"
    if "\<And>r. ct_id (g r) = ct_id r" for f g e
    by (intro contacts_kept_intros contacts_kept_map that)
  from this [of "\<lambda>r. if ct_id r = i then r\<lparr>ct_blocked := b\<rparr> else r"] show ?thesis
    by (simp add: dc_block_contact_def Let_def split_def)
qed

lemma contacts_kept_create: "contacts_kept db (snd (dc_create_contact self db name addr))"
proof -
  let ?r = "dc_add_or_lookup_contact db name addr DC_ORIGIN_MANUALLY_CREATED"
  have "contacts_kept db (cb (snd (snd ?r)) e i j)" for e i j
    by (intro contacts_kept_intros contacts_kept_add)
  then show ?thesis using contacts_kept_trans [OF _ contacts_kept_block]
    by (auto simp: dc_create_contact_def Let_def split_def)
qed

lemma contacts_kept_book: "contacts_kept db (snd (book_loop n db lines))"
proof (induction n db lines rule: book_loop.induct)
  case (1 n db name addr lines)
  let ?r = "dc_add_or_lookup_contact db (Some (dc_normalize_name name)) (Some addr) DC_ORIGIN_ADRESS_BOOK"
  obtain i m db' where r: "?r = (i, m, db')" by (cases ?r)
  then have "contacts_kept db db'"
    using contacts_kept_add [of db "Some (dc_normalize_name name)" "Some addr" DC_ORIGIN_ADRESS_BOOK] by simp
  then show ?case using 1 r by (auto intro: contacts_kept_trans)
qed simp_all

lemma refs_ok_kept: "contacts_kept db db' \<Longrightarrow> refs_ok db \<Longrightarrow> refs_ok db'"
  unfolding contacts_kept_def refs_ok_def by (metis insert_mono subset_trans)

lemma refs_ok_delete:
  assumes "refs_ok db"
  shows "refs_ok (snd (dc_delete_contact db i))"
proof -
  have "i \<notin> used_ids db" if "fst (dc_delete_contact db i)"
    using that
    by (auto simp: dc_delete_contact_def used_ids_def filter_empty_conv not_le Suc_le_eq split: if_splits)
  moreover have "refs_ok (cb (db\<lparr>db_contacts := filter (\<lambda>r. ct_id r \<noteq> i) (db_contacts db)\<rparr>) e 0 0)"
    if "i \<notin> used_ids db" for e
  proof -
    have "ct_id ` set (filter (\<lambda>r. ct_id r \<noteq> i) (db_contacts db)) = ct_id ` set (db_contacts db) - {i}" by auto
    then show ?thesis using assms that by (auto simp: refs_ok_def used_ids_def cb_def)
  qed
  ultimately show ?thesis using assms by (auto simp: dc_delete_contact_def)
qed

interpretation references: machine refs_ok "contact_step self" for self
proof unfold_locales
  fix db :: database and op :: contact_op
  assume ok: "refs_ok db"
  have "contacts_kept db (contact_step self db op)" if "\<forall>i. op \<noteq> Delete_Contact i"
  proof (cases op)
    case (Address_Book book)
    then show ?thesis by (simp add: dc_add_address_book_def contacts_kept_book split: option.split)
  next
    case (Scaleup_Origin i origin)
    then show ?thesis by (auto simp: dc_scaleup_contact_origin_def intro: contacts_kept_map)
  qed (use that in \<open>simp_all add: contacts_kept_add contacts_kept_block contacts_kept_create\<close>)
  then show "refs_ok (contact_step self db op)"
    using refs_ok_delete [OF ok] refs_ok_kept [OF _ ok] by (cases "\<exists>i. op = Delete_Contact i") auto
qed

text \<open>
  C34: A contact that is in use is never deleted: whatever sequence of operations is performed, every
  member of a chat and every sender or receiver of a message remains a row of the table of contacts.
\<close>

theorem used_contacts_kept:
  assumes "refs_ok db"
  shows "used_ids (foldl (contact_step self) db ops) \<subseteq>
    insert 0 (ct_id ` set (db_contacts (foldl (contact_step self) db ops)))"
  using references.run_inv [OF assms, of self ops] by (simp add: refs_ok_def)

lemma used_contacts_kept_witness:
  "used_ids (foldl (contact_step ''Me'') ada_database [Delete_Contact 10]) \<subseteq>
    insert 0 (ct_id ` set (db_contacts (foldl (contact_step ''Me'') ada_database [Delete_Contact 10])))"
  by (rule used_contacts_kept)
    (simp add: refs_ok_def used_ids_def ada_database_def fresh_database_def reserved_row_def ada_row_def)

end
