(* ===== verification/Chats.thy ===== *)
theory Chats
  imports Contacts
begin

text \<open>
  \<open>src/dc_chat.c\<close>: the chat object, the tables \<open>chats\<close> and \<open>chats_contacts\<close>, single chats and groups.
  \<open>stock id args\<close> stands for the stock strings and their replacements, \<open>sent\<close> for the id that
  \<open>dc_send_msg_object\<close> gives the message handed to it, \<open>now\<close> for \<open>time(NULL)\<close>.
\<close>

section \<open>The chat object\<close>

abbreviation DC_CHAT_ID_DEADDROP :: nat where "DC_CHAT_ID_DEADDROP \<equiv> 1"
abbreviation DC_CHAT_ID_STARRED :: nat where "DC_CHAT_ID_STARRED \<equiv> 5"
abbreviation DC_CHAT_ID_ARCHIVED_LINK :: nat where "DC_CHAT_ID_ARCHIVED_LINK \<equiv> 6"
abbreviation DC_CHAT_ID_LAST_SPECIAL :: nat where "DC_CHAT_ID_LAST_SPECIAL \<equiv> 9"
abbreviation DC_CHAT_TYPE_UNDEFINED :: int where "DC_CHAT_TYPE_UNDEFINED \<equiv> 0"
abbreviation DC_CHAT_TYPE_GROUP :: int where "DC_CHAT_TYPE_GROUP \<equiv> 120"
abbreviation DC_CHAT_TYPE_VERIFIED_GROUP :: int where "DC_CHAT_TYPE_VERIFIED_GROUP \<equiv> 130"
abbreviation DC_CHAT_NOT_BLOCKED :: int where "DC_CHAT_NOT_BLOCKED \<equiv> 0"
abbreviation DC_CHAT_DEADDROP_BLOCKED :: int where "DC_CHAT_DEADDROP_BLOCKED \<equiv> 2"
abbreviation DC_ORIGIN_CREATE_CHAT :: int where "DC_ORIGIN_CREATE_CHAT \<equiv> 0x800"
abbreviation DC_EVENT_MSGS_CHANGED :: int where "DC_EVENT_MSGS_CHANGED \<equiv> 2000"
abbreviation DC_EVENT_CHAT_MODIFIED :: int where "DC_EVENT_CHAT_MODIFIED \<equiv> 2020"
abbreviation DC_STR_SELF :: nat where "DC_STR_SELF \<equiv> 2"
abbreviation DC_STR_DEADDROP :: nat where "DC_STR_DEADDROP \<equiv> 8"
abbreviation DC_STR_NEWGROUPDRAFT :: nat where "DC_STR_NEWGROUPDRAFT \<equiv> 14"
abbreviation DC_STR_MSGGRPNAME :: nat where "DC_STR_MSGGRPNAME \<equiv> 15"
abbreviation DC_STR_MSGGRPIMGCHANGED :: nat where "DC_STR_MSGGRPIMGCHANGED \<equiv> 16"
abbreviation DC_STR_MSGADDMEMBER :: nat where "DC_STR_MSGADDMEMBER \<equiv> 17"
abbreviation DC_STR_MSGDELMEMBER :: nat where "DC_STR_MSGDELMEMBER \<equiv> 18"
abbreviation DC_STR_MSGGROUPLEFT :: nat where "DC_STR_MSGGROUPLEFT \<equiv> 19"
abbreviation DC_STR_MSGGRPIMGDELETED :: nat where "DC_STR_MSGGRPIMGDELETED \<equiv> 33"
abbreviation DC_STR_ARCHIVEDCHATS :: nat where "DC_STR_ARCHIVEDCHATS \<equiv> 40"
abbreviation DC_STR_STARREDMSGS :: nat where "DC_STR_STARREDMSGS \<equiv> 41"
abbreviation DC_PARAM_CMD :: char where "DC_PARAM_CMD \<equiv> CHR ''S''"
abbreviation DC_PARAM_CMD_ARG :: char where "DC_PARAM_CMD_ARG \<equiv> CHR ''E''"
abbreviation DC_PARAM_CMD_ARG2 :: char where "DC_PARAM_CMD_ARG2 \<equiv> CHR ''F''"
abbreviation DC_PARAM_UNPROMOTED :: char where "DC_PARAM_UNPROMOTED \<equiv> CHR ''U''"
abbreviation DC_PARAM_PROFILE_IMAGE :: char where "DC_PARAM_PROFILE_IMAGE \<equiv> CHR ''i''"
abbreviation DC_PARAM_FORCE_PLAINTEXT :: char where "DC_PARAM_FORCE_PLAINTEXT \<equiv> CHR ''u''"
abbreviation DC_PARAM_GUARANTEE_E2EE :: char where "DC_PARAM_GUARANTEE_E2EE \<equiv> CHR ''c''"
abbreviation DC_PARAM_SELFTALK :: char where "DC_PARAM_SELFTALK \<equiv> CHR ''K''"
abbreviation DC_CMD_GROUPNAME_CHANGED :: int where "DC_CMD_GROUPNAME_CHANGED \<equiv> 2"
abbreviation DC_CMD_GROUPIMAGE_CHANGED :: int where "DC_CMD_GROUPIMAGE_CHANGED \<equiv> 3"
abbreviation DC_CMD_MEMBER_ADDED_TO_GROUP :: int where "DC_CMD_MEMBER_ADDED_TO_GROUP \<equiv> 4"
abbreviation DC_CMD_MEMBER_REMOVED_FROM_GROUP :: int where "DC_CMD_MEMBER_REMOVED_FROM_GROUP \<equiv> 5"
abbreviation DC_CMD_SECUREJOIN_MESSAGE :: int where "DC_CMD_SECUREJOIN_MESSAGE \<equiv> 7"
abbreviation DC_FROM_HANDSHAKE :: int where "DC_FROM_HANDSHAKE \<equiv> 1"

type_synonym stock = "nat \<Rightarrow> string list \<Rightarrow> string"

record dc_chat_t =
  chat_id :: nat
  chat_type :: int
  chat_name :: cptr
  chat_draft_text :: cptr
  chat_draft_timestamp :: int
  chat_archived :: int
  chat_grpid :: cptr
  chat_blocked :: int
  chat_param :: param

definition dc_chat_new :: dc_chat_t where
  "dc_chat_new = \<lparr>chat_id = 0, chat_type = DC_CHAT_TYPE_UNDEFINED, chat_name = None, chat_draft_text = None,
     chat_draft_timestamp = 0, chat_archived = 0, chat_grpid = None, chat_blocked = 0, chat_param = dc_param_new\<rparr>"

definition dc_chat_empty :: "dc_chat_t \<Rightarrow> dc_chat_t" where
  "dc_chat_empty chat =
     chat\<lparr>chat_draft_text := None, chat_draft_timestamp := 0, chat_name := None, chat_type := DC_CHAT_TYPE_UNDEFINED,
          chat_id := 0, chat_grpid := None, chat_blocked := 0, chat_param := dc_param_set_packed (chat_param chat) None\<rparr>"

definition dc_chat_get_id :: "dc_chat_t option \<Rightarrow> nat" where
  "dc_chat_get_id chat = (case chat of None \<Rightarrow> 0 | Some c \<Rightarrow> chat_id c)"

definition dc_chat_get_type :: "dc_chat_t option \<Rightarrow> int" where
  "dc_chat_get_type chat = (case chat of None \<Rightarrow> DC_CHAT_TYPE_UNDEFINED | Some c \<Rightarrow> chat_type c)"

definition dc_chat_get_name :: "dc_chat_t option \<Rightarrow> string" where
  "dc_chat_get_name chat = (case chat of None \<Rightarrow> ''Err'' | Some c \<Rightarrow> dc_strdup (chat_name c))"

definition dc_chat_get_draft :: "dc_chat_t option \<Rightarrow> cptr" where
  "dc_chat_get_draft chat = (case chat of None \<Rightarrow> None | Some c \<Rightarrow> dc_strdup_keep_null (chat_draft_text c))"

definition dc_chat_get_draft_timestamp :: "dc_chat_t option \<Rightarrow> int" where
  "dc_chat_get_draft_timestamp chat = (case chat of None \<Rightarrow> 0 | Some c \<Rightarrow> chat_draft_timestamp c)"

definition dc_chat_get_archived :: "dc_chat_t option \<Rightarrow> int" where
  "dc_chat_get_archived chat = (case chat of None \<Rightarrow> 0 | Some c \<Rightarrow> chat_archived c)"

definition dc_chat_is_unpromoted :: "dc_chat_t option \<Rightarrow> int" where
  "dc_chat_is_unpromoted chat = (case chat of None \<Rightarrow> 0 | Some c \<Rightarrow> dc_param_get_int (chat_param c) DC_PARAM_UNPROMOTED 0)"

definition dc_chat_is_verified :: "dc_chat_t option \<Rightarrow> bool" where
  "dc_chat_is_verified chat = (case chat of None \<Rightarrow> False | Some c \<Rightarrow> chat_type c = DC_CHAT_TYPE_VERIFIED_GROUP)"

definition dc_chat_is_self_talk :: "dc_chat_t option \<Rightarrow> bool" where
  "dc_chat_is_self_talk chat = (case chat of None \<Rightarrow> False | Some c \<Rightarrow> dc_param_exists (chat_param c) DC_PARAM_SELFTALK)"

definition dc_get_archived_cnt :: "database \<Rightarrow> nat" where
  "dc_get_archived_cnt db = length (filter (\<lambda>ch. ch_blocked ch = 0 \<and> ch_archived ch = 1) (db_chats db))"

definition special_name :: "stock \<Rightarrow> database \<Rightarrow> chat_row \<Rightarrow> string" where
  "special_name stock db r =
     (if ch_id r = DC_CHAT_ID_DEADDROP then stock DC_STR_DEADDROP []
      else if ch_id r = DC_CHAT_ID_ARCHIVED_LINK
      then stock DC_STR_ARCHIVEDCHATS [] @ '' ('' @ show_nat (dc_get_archived_cnt db) @ '')''
      else if ch_id r = DC_CHAT_ID_STARRED then stock DC_STR_STARREDMSGS []
      else if dc_param_exists (ch_param r) DC_PARAM_SELFTALK then stock DC_STR_SELF []
      else ch_name r)"

definition dc_chat_set_from_stmt :: "stock \<Rightarrow> database \<Rightarrow> dc_chat_t \<Rightarrow> chat_row \<Rightarrow> dc_chat_t" where
  "dc_chat_set_from_stmt stock db chat r =
     (let chat = dc_chat_empty chat;
          draft = (ch_draft_timestamp r \<noteq> 0 \<and> ch_draft_txt r \<noteq> [])
      in chat\<lparr>chat_id := ch_id r, chat_type := ch_type r, chat_name := Some (special_name stock db r),
              chat_draft_timestamp := (if draft then ch_draft_timestamp r else 0),
              chat_draft_text := (if draft then Some (ch_draft_txt r) else None),
              chat_grpid := Some (ch_grpid r), chat_param := dc_param_set_packed (chat_param chat) (Some (ch_param r)),
              chat_archived := ch_archived r, chat_blocked := ch_blocked r\<rparr>)"

definition dc_chat_load_from_db :: "stock \<Rightarrow> dc_chat_t \<Rightarrow> database \<Rightarrow> nat \<Rightarrow> bool \<times> dc_chat_t" where
  "dc_chat_load_from_db stock chat db cid =
     (let chat = dc_chat_empty chat in
      case find (\<lambda>r. ch_id r = cid) (db_chats db) of
        None \<Rightarrow> (False, chat)
      | Some r \<Rightarrow> (True, dc_chat_set_from_stmt stock db chat r))"

definition dc_get_chat :: "stock \<Rightarrow> database \<Rightarrow> nat \<Rightarrow> dc_chat_t option" where
  "dc_get_chat stock db cid =
     (let (ok, chat) = dc_chat_load_from_db stock dc_chat_new db cid in if ok then Some chat else None)"

text \<open>\<open>UPDATE chats SET ... WHERE id=?\<close>.\<close>

definition update_chat :: "nat \<Rightarrow> (chat_row \<Rightarrow> chat_row) \<Rightarrow> database \<Rightarrow> database" where
  "update_chat cid f db = db\<lparr>db_chats := map (\<lambda>ch. if ch_id ch = cid then f ch else ch) (db_chats db)\<rparr>"

definition dc_chat_update_param :: "database \<Rightarrow> dc_chat_t \<Rightarrow> database" where
  "dc_chat_update_param db chat = update_chat (chat_id chat) (\<lambda>ch. ch\<lparr>ch_param := chat_param chat\<rparr>) db"

section \<open>Chats and their members\<close>

definition dc_get_chat_cnt :: "database \<Rightarrow> nat" where
  "dc_get_chat_cnt db = length (filter (\<lambda>ch. ch_id ch > DC_CHAT_ID_LAST_SPECIAL \<and> ch_blocked ch = 0) (db_chats db))"

definition dc_add_to_chat_contacts_table :: "database \<Rightarrow> nat \<Rightarrow> nat \<Rightarrow> database" where
  "dc_add_to_chat_contacts_table db cid contact_id = db\<lparr>db_chats_contacts := db_chats_contacts db @ [(cid, contact_id)]\<rparr>"

definition dc_is_contact_in_chat :: "database \<Rightarrow> nat \<Rightarrow> nat \<Rightarrow> bool" where
  "dc_is_contact_in_chat db cid contact_id \<longleftrightarrow> (cid, contact_id) \<in> set (db_chats_contacts db)"

definition dc_get_chat_contact_cnt :: "database \<Rightarrow> nat \<Rightarrow> nat" where
  "dc_get_chat_contact_cnt db cid = length (filter (\<lambda>(ch, ct). ch = cid) (db_chats_contacts db))"

definition dc_marknoticed_chat :: "database \<Rightarrow> nat \<Rightarrow> database" where
  "dc_marknoticed_chat db cid =
     db\<lparr>db_msgs := map (\<lambda>m. if ms_chat_id m = cid \<and> ms_state m = DC_STATE_IN_FRESH
          then m\<lparr>ms_state := DC_STATE_IN_NOTICED\<rparr> else m) (db_msgs db)\<rparr>"

definition dc_get_msg_cnt :: "database \<Rightarrow> nat \<Rightarrow> nat" where
  "dc_get_msg_cnt db cid = length (filter (\<lambda>m. ms_chat_id m = cid) (db_msgs db))"

definition dc_get_fresh_msg_cnt :: "database \<Rightarrow> nat \<Rightarrow> nat" where
  "dc_get_fresh_msg_cnt db cid =
     length (filter (\<lambda>m. ms_state m = DC_STATE_IN_FRESH \<and> ms_hidden m = 0 \<and> ms_chat_id m = cid) (db_msgs db))"

text \<open>The chat and whether it is blocked, by the chats in the order of their ids.\<close>

definition dc_lookup_real_nchat_by_contact_id :: "database \<Rightarrow> nat \<Rightarrow> nat \<times> int" where
  "dc_lookup_real_nchat_by_contact_id db contact_id =
     (case find (\<lambda>ch. ch_type ch = DC_CHAT_TYPE_SINGLE \<and> ch_id ch > DC_CHAT_ID_LAST_SPECIAL \<and>
                      (ch_id ch, contact_id) \<in> set (db_chats_contacts db)) (db_chats db) of
        None \<Rightarrow> (0, 0) | Some ch \<Rightarrow> (ch_id ch, ch_blocked ch))"

text \<open>\<open>dc_sqlite3_get_rowid\<close> on the column \<open>grpid\<close>.\<close>

definition chat_rowid :: "database \<Rightarrow> string \<Rightarrow> nat" where
  "chat_rowid db grpid = (case find (\<lambda>ch. ch_grpid ch = grpid) (db_chats db) of None \<Rightarrow> 0 | Some ch \<Rightarrow> ch_id ch)"

definition insert_chat :: "int \<Rightarrow> string \<Rightarrow> int \<Rightarrow> string \<Rightarrow> int \<Rightarrow> string \<Rightarrow> param \<Rightarrow> database \<Rightarrow> database" where
  "insert_chat type name draft_timestamp draft_txt blocked grpid param db =
     db\<lparr>db_chats := db_chats db @
          [\<lparr>ch_id = next_rowid (map ch_id (db_chats db)), ch_type = type, ch_name = name,
            ch_draft_timestamp = draft_timestamp, ch_draft_txt = draft_txt, ch_blocked = blocked, ch_grpid = grpid,
            ch_param = param, ch_archived = 0\<rparr>]\<rparr>"

text \<open>The chat id, whether it is blocked, and the database.\<close>

definition dc_create_or_lookup_nchat_by_contact_id ::
    "stock \<Rightarrow> database \<Rightarrow> nat \<Rightarrow> int \<Rightarrow> nat \<times> int \<times> database" where
  "dc_create_or_lookup_nchat_by_contact_id stock db contact_id create_blocked =
     (if contact_id = 0 then (0, 0, db)
      else
        let (cid, blocked) = dc_lookup_real_nchat_by_contact_id db contact_id in
        if cid \<noteq> 0 then (cid, blocked, db)
        else
          let (ok, contact) = dc_contact_load_from_db (stock DC_STR_SELF []) dc_contact_new db contact_id in
          if \<not> ok then (0, create_blocked, db)
          else
            let name = (if name_set contact then dc_strdup (c_name contact) else dc_strdup (c_addr contact));
                addr = dc_strdup (c_addr contact);
                db = insert_chat DC_CHAT_TYPE_SINGLE name 0 [] create_blocked addr
                       (if contact_id = DC_CONTACT_ID_SELF then ''K=1'' else []) db;
                cid = chat_rowid db addr
            in (cid, create_blocked, dc_add_to_chat_contacts_table db cid contact_id))"

definition dc_get_chat_id_by_contact_id :: "database \<Rightarrow> nat \<Rightarrow> nat" where
  "dc_get_chat_id_by_contact_id db contact_id =
     (let (cid, blocked) = dc_lookup_real_nchat_by_contact_id db contact_id in if blocked \<noteq> 0 then 0 else cid)"

text \<open>The chat, whether it is blocked, whether it is a verified group.\<close>

definition dc_get_chat_id_by_grpid :: "database \<Rightarrow> cptr \<Rightarrow> nat \<times> int \<times> bool" where
  "dc_get_chat_id_by_grpid db grpid =
     (case grpid of None \<Rightarrow> (0, 0, False)
      | Some g \<Rightarrow>
          (case find (\<lambda>ch. ch_grpid ch = g) (db_chats db) of
             None \<Rightarrow> (0, 0, False)
           | Some ch \<Rightarrow> (ch_id ch, ch_blocked ch, ch_type ch = DC_CHAT_TYPE_VERIFIED_GROUP)))"

definition dc_block_chat :: "database \<Rightarrow> nat \<Rightarrow> int \<Rightarrow> database" where
  "dc_block_chat db cid new_blocking = update_chat cid (\<lambda>ch. ch\<lparr>ch_blocked := new_blocking\<rparr>) db"

definition dc_unblock_chat :: "database \<Rightarrow> nat \<Rightarrow> database" where
  "dc_unblock_chat db cid = dc_block_chat db cid DC_CHAT_NOT_BLOCKED"

definition dc_create_chat_by_contact_id :: "stock \<Rightarrow> database \<Rightarrow> nat \<Rightarrow> nat \<times> database" where
  "dc_create_chat_by_contact_id stock db contact_id =
     (let (cid, blocked) = dc_lookup_real_nchat_by_contact_id db contact_id in
      if cid \<noteq> 0 then
        (cid, if blocked \<noteq> 0 then cb (dc_unblock_chat db cid) DC_EVENT_MSGS_CHANGED 0 0 else db)
      else if \<not> dc_real_contact_exists db contact_id \<and> contact_id \<noteq> DC_CONTACT_ID_SELF then (cid, db)
      else
        let (cid, blocked, db) = dc_create_or_lookup_nchat_by_contact_id stock db contact_id DC_CHAT_NOT_BLOCKED;
            db = dc_scaleup_contact_origin db contact_id DC_ORIGIN_CREATE_CHAT
        in (cid, if cid \<noteq> 0 then cb db DC_EVENT_MSGS_CHANGED 0 0 else db))"

text \<open>\<open>ORDER BY c.id=1, LOWER(c.name||c.addr), c.id\<close>; a missing contact is null, which sorts first.\<close>

definition member_rank :: "database \<Rightarrow> nat \<Rightarrow> nat \<times> nat \<times> string \<times> nat" where
  "member_rank db contact_id =
     (case find (\<lambda>r. ct_id r = contact_id) (db_contacts db) of
        None \<Rightarrow> (0, 0, [], 0)
      | Some r \<Rightarrow> (1, if contact_id = 1 then 1 else 0, sql_lower (ct_name r @ ct_addr r), contact_id))"

definition dc_get_chat_contacts :: "database \<Rightarrow> nat \<Rightarrow> nat list" where
  "dc_get_chat_contacts db cid =
     (if cid = DC_CHAT_ID_DEADDROP then []
      else sort_key (member_rank db) (map snd (filter (\<lambda>(ch, ct). ch = cid) (db_chats_contacts db))))"

definition dc_set_draft :: "int \<Rightarrow> stock \<Rightarrow> database \<Rightarrow> nat \<Rightarrow> cptr \<Rightarrow> database" where
  "dc_set_draft now stock db cid msg =
     (case dc_get_chat stock db cid of
        None \<Rightarrow> db
      | Some chat \<Rightarrow>
          let msg = (if msg = Some [] then None else msg) in
          if chat_draft_text chat = None \<and> msg = None \<and> chat_draft_timestamp chat = 0 then db
          else if chat_draft_timestamp chat \<noteq> 0 \<and> chat_draft_text chat \<noteq> None \<and> msg \<noteq> None \<and> chat_draft_text chat = msg
          then db
          else cb (update_chat (chat_id chat)
                     (\<lambda>ch. ch\<lparr>ch_draft_timestamp := (if msg \<noteq> None then now else 0), ch_draft_txt := dc_strdup msg\<rparr>) db)
                 DC_EVENT_MSGS_CHANGED cid 0)"

definition dc_unarchive_chat :: "database \<Rightarrow> nat \<Rightarrow> database" where
  "dc_unarchive_chat db cid = update_chat cid (\<lambda>ch. ch\<lparr>ch_archived := 0\<rparr>) db"

definition dc_archive_chat :: "database \<Rightarrow> nat \<Rightarrow> int \<Rightarrow> database" where
  "dc_archive_chat db cid archive =
     (if cid \<le> DC_CHAT_ID_LAST_SPECIAL \<or> (archive \<noteq> 0 \<and> archive \<noteq> 1) then db
      else cb (update_chat cid (\<lambda>ch. ch\<lparr>ch_archived := archive\<rparr>) db) DC_EVENT_MSGS_CHANGED 0 0)"

definition dc_delete_chat :: "stock \<Rightarrow> database \<Rightarrow> nat \<Rightarrow> database" where
  "dc_delete_chat stock db cid =
     (if cid \<le> DC_CHAT_ID_LAST_SPECIAL then db
      else
        let (ok, obj) = dc_chat_load_from_db stock dc_chat_new db cid in
        if \<not> ok then db
        else
          let db = db\<lparr>db_mdns := filter (\<lambda>(m, c). m \<notin> ms_id ` {x \<in> set (db_msgs db). ms_chat_id x = cid}) (db_mdns db)\<rparr>;
              db = db\<lparr>db_msgs := filter (\<lambda>m. ms_chat_id m \<noteq> cid) (db_msgs db)\<rparr>;
              db = db\<lparr>db_chats_contacts := filter (\<lambda>(ch, ct). ch \<noteq> cid) (db_chats_contacts db)\<rparr>;
              db = db\<lparr>db_chats := filter (\<lambda>ch. ch_id ch \<noteq> cid) (db_chats db)\<rparr>
          in cb db DC_EVENT_MSGS_CHANGED 0 0)"

section \<open>Groups\<close>

definition dc_is_group_explicitly_left :: "database \<Rightarrow> string \<Rightarrow> bool" where
  "dc_is_group_explicitly_left db grpid \<longleftrightarrow> grpid \<in> set (db_leftgrps db)"

definition dc_set_group_explicitly_left :: "database \<Rightarrow> string \<Rightarrow> database" where
  "dc_set_group_explicitly_left db grpid =
     (if dc_is_group_explicitly_left db grpid then db else db\<lparr>db_leftgrps := db_leftgrps db @ [grpid]\<rparr>)"

definition dc_real_group_exists :: "database \<Rightarrow> nat \<Rightarrow> bool" where
  "dc_real_group_exists db cid \<longleftrightarrow>
     cid > DC_CHAT_ID_LAST_SPECIAL \<and>
     list_ex (\<lambda>ch. ch_id ch = cid \<and> (ch_type ch = DC_CHAT_TYPE_GROUP \<or> ch_type ch = DC_CHAT_TYPE_VERIFIED_GROUP)) (db_chats db)"

text \<open>\<open>grpid\<close> is the result of \<open>dc_create_id\<close>; after the insertion the membership is added and an event sent.\<close>

definition dc_create_group_chat :: "int \<Rightarrow> string \<Rightarrow> stock \<Rightarrow> database \<Rightarrow> bool \<Rightarrow> cptr \<Rightarrow> nat \<times> database" where
  "dc_create_group_chat now grpid stock db verified name =
     (case name of None \<Rightarrow> (0, db)
      | Some n \<Rightarrow>
          if n = [] then (0, db)
          else
            let db = insert_chat (if verified then DC_CHAT_TYPE_VERIFIED_GROUP else DC_CHAT_TYPE_GROUP) n now
                       (stock DC_STR_NEWGROUPDRAFT [n]) 0 grpid ''U=1'' db;
                cid = chat_rowid db grpid
            in if cid = 0 then (0, db)
               else (cid, cb (dc_add_to_chat_contacts_table db cid DC_CONTACT_ID_SELF) DC_EVENT_MSGS_CHANGED 0 0))"

definition IS_SELF_IN_GROUP :: "database \<Rightarrow> nat \<Rightarrow> bool" where
  "IS_SELF_IN_GROUP db cid \<longleftrightarrow> dc_is_contact_in_chat db cid DC_CONTACT_ID_SELF"

definition DO_SEND_STATUS_MAILS :: "dc_chat_t \<Rightarrow> bool" where
  "DO_SEND_STATUS_MAILS chat \<longleftrightarrow> dc_param_get_int (chat_param chat) DC_PARAM_UNPROMOTED 0 = 0"

definition send_status :: "nat \<Rightarrow> nat \<Rightarrow> string \<Rightarrow> param \<Rightarrow> database \<Rightarrow> database" where
  "send_status sent cid msg_text msg_param db =
     cb (db\<lparr>db_outbox := db_outbox db @ [(cid, msg_text, msg_param)]\<rparr>) DC_EVENT_MSGS_CHANGED cid sent"

definition dc_set_chat_name :: "nat \<Rightarrow> stock \<Rightarrow> database \<Rightarrow> nat \<Rightarrow> cptr \<Rightarrow> bool \<times> database" where
  "dc_set_chat_name sent stock db cid new_name =
     (case new_name of None \<Rightarrow> (False, db)
      | Some n \<Rightarrow>
          if n = [] \<or> cid \<le> DC_CHAT_ID_LAST_SPECIAL then (False, db)
          else
            let (ok, chat) = dc_chat_load_from_db stock dc_chat_new db cid in
            if \<not> dc_real_group_exists db cid \<or> \<not> ok then (False, db)
            else if chat_name chat = Some n then (True, db)
            else if \<not> IS_SELF_IN_GROUP db cid then (False, db)
            else
              let db = update_chat cid (\<lambda>ch. ch\<lparr>ch_name := n\<rparr>) db;
                  db = (if DO_SEND_STATUS_MAILS chat
                        then send_status sent cid (stock DC_STR_MSGGRPNAME [dc_strdup (chat_name chat), n])
                               (dc_param_set_int dc_param_new DC_PARAM_CMD DC_CMD_GROUPNAME_CHANGED) db
                        else db)
              in (True, cb db DC_EVENT_CHAT_MODIFIED cid 0))"

definition dc_set_chat_profile_image :: "nat \<Rightarrow> stock \<Rightarrow> database \<Rightarrow> nat \<Rightarrow> cptr \<Rightarrow> bool \<times> database" where
  "dc_set_chat_profile_image sent stock db cid new_image =
     (let (ok, chat) = dc_chat_load_from_db stock dc_chat_new db cid in
      if cid \<le> DC_CHAT_ID_LAST_SPECIAL \<or> \<not> dc_real_group_exists db cid \<or> \<not> ok then (False, db)
      else if \<not> IS_SELF_IN_GROUP db cid then (False, db)
      else
        let chat = chat\<lparr>chat_param := dc_param_set (chat_param chat) DC_PARAM_PROFILE_IMAGE new_image\<rparr>;
            db = dc_chat_update_param db chat;
            db = (if DO_SEND_STATUS_MAILS chat
                  then send_status sent cid
                         (stock (if new_image \<noteq> None then DC_STR_MSGGRPIMGCHANGED else DC_STR_MSGGRPIMGDELETED) [])
                         (dc_param_set (dc_param_set_int dc_param_new DC_PARAM_CMD DC_CMD_GROUPIMAGE_CHANGED)
                            DC_PARAM_CMD_ARG new_image) db
                  else db)
        in (True, cb db DC_EVENT_CHAT_MODIFIED cid 0))"

text \<open>The name of a contact in the status messages.\<close>

definition spread_name :: "dc_contact_t \<Rightarrow> string" where
  "spread_name contact =
     (case c_authname contact of Some n \<Rightarrow> if n \<noteq> [] then n else dc_strdup (c_addr contact)
      | None \<Rightarrow> dc_strdup (c_addr contact))"

definition added_status :: "nat \<Rightarrow> stock \<Rightarrow> nat \<Rightarrow> dc_chat_t \<Rightarrow> dc_contact_t \<Rightarrow> int \<Rightarrow> database \<Rightarrow> database" where
  "added_status sent stock cid chat contact flags db =
     cb (if DO_SEND_STATUS_MAILS chat
         then send_status sent cid (stock DC_STR_MSGADDMEMBER [spread_name contact])
                (dc_param_set_int
                   (dc_param_set (dc_param_set_int dc_param_new DC_PARAM_CMD DC_CMD_MEMBER_ADDED_TO_GROUP)
                      DC_PARAM_CMD_ARG (c_addr contact))
                   DC_PARAM_CMD_ARG2 flags) db
         else db) DC_EVENT_CHAT_MODIFIED cid 0"

definition dc_add_contact_to_chat_ex ::
    "nat \<Rightarrow> stock \<Rightarrow> peer_row list \<Rightarrow> database \<Rightarrow> nat \<Rightarrow> nat \<Rightarrow> int \<Rightarrow> bool \<times> database" where
  "dc_add_contact_to_chat_ex sent stock acpeerstates db cid contact_id flags =
     (case dc_get_contact (stock DC_STR_SELF []) db contact_id of
        None \<Rightarrow> (False, db)
      | Some contact \<Rightarrow>
          let (ok, chat) = dc_chat_load_from_db stock dc_chat_new db cid in
          if cid \<le> DC_CHAT_ID_LAST_SPECIAL \<or> \<not> dc_real_group_exists db cid
             \<or> (\<not> dc_real_contact_exists db contact_id \<and> contact_id \<noteq> DC_CONTACT_ID_SELF) \<or> \<not> ok
          then (False, db)
          else if \<not> IS_SELF_IN_GROUP db cid then (False, db)
          else
            let handshake = (flags AND DC_FROM_HANDSHAKE \<noteq> 0);
                promote = (handshake \<and> dc_param_get_int (chat_param chat) DC_PARAM_UNPROMOTED 0 = 1);
                chat = (if promote then chat\<lparr>chat_param := dc_param_set (chat_param chat) DC_PARAM_UNPROMOTED None\<rparr> else chat);
                db = (if promote then dc_chat_update_param db chat else db);
                self_addr = dc_strdup (dc_sqlite3_get_config (db_config db) (Some ''configured_addr'') (Some []))
            in if strcaseeq (dc_strdup (c_addr contact)) self_addr then (False, db)
               else if dc_is_contact_in_chat db cid contact_id then
                 (if \<not> handshake then (True, db) else (True, added_status sent stock cid chat contact flags db))
               else if chat_type chat = DC_CHAT_TYPE_VERIFIED_GROUP
                       \<and> dc_contact_is_verified acpeerstates (Some contact) \<noteq> DC_BIDIRECT_VERIFIED
               then (False, db)
               else (True, added_status sent stock cid chat contact flags (dc_add_to_chat_contacts_table db cid contact_id)))"

definition dc_add_contact_to_chat ::
    "nat \<Rightarrow> stock \<Rightarrow> peer_row list \<Rightarrow> database \<Rightarrow> nat \<Rightarrow> nat \<Rightarrow> bool \<times> database" where
  "dc_add_contact_to_chat sent stock acpeerstates db cid contact_id =
     dc_add_contact_to_chat_ex sent stock acpeerstates db cid contact_id 0"

definition removed_status :: "nat \<Rightarrow> stock \<Rightarrow> nat \<Rightarrow> dc_chat_t \<Rightarrow> dc_contact_t \<Rightarrow> database \<Rightarrow> database" where
  "removed_status sent stock cid chat contact db =
     (if DO_SEND_STATUS_MAILS chat then
        let self = (c_id contact = DC_CONTACT_ID_SELF);
            db = (if self then dc_set_group_explicitly_left db (dc_strdup (chat_grpid chat)) else db);
            msg_text = (if self then stock DC_STR_MSGGROUPLEFT [] else stock DC_STR_MSGDELMEMBER [spread_name contact])
        in send_status sent cid msg_text
             (dc_param_set (dc_param_set_int dc_param_new DC_PARAM_CMD DC_CMD_MEMBER_REMOVED_FROM_GROUP)
                DC_PARAM_CMD_ARG (c_addr contact)) db
      else db)"

definition dc_remove_contact_from_chat :: "nat \<Rightarrow> stock \<Rightarrow> database \<Rightarrow> nat \<Rightarrow> nat \<Rightarrow> bool \<times> database" where
  "dc_remove_contact_from_chat sent stock db cid contact_id =
     (if cid \<le> DC_CHAT_ID_LAST_SPECIAL \<or> (contact_id \<le> DC_CONTACT_ID_LAST_SPECIAL \<and> contact_id \<noteq> DC_CONTACT_ID_SELF)
      then (False, db)
      else
        let (ok, chat) = dc_chat_load_from_db stock dc_chat_new db cid in
        if \<not> dc_real_group_exists db cid \<or> \<not> ok then (False, db)
        else if \<not> IS_SELF_IN_GROUP db cid then (False, db)
        else
          let db = (case dc_get_contact (stock DC_STR_SELF []) db contact_id of
                      None \<Rightarrow> db | Some contact \<Rightarrow> removed_status sent stock cid chat contact db);
              db = db\<lparr>db_chats_contacts := filter (\<lambda>p. p \<noteq> (cid, contact_id)) (db_chats_contacts db)\<rparr>
          in (True, cb db DC_EVENT_CHAT_MODIFIED cid 0))"

section \<open>Runs of chat operations\<close>

text \<open>Groups get their id from \<open>dc_create_id\<close>, whose random bits are part of the operation.\<close>

datatype chat_op =
    Create_Chat nat
  | Lookup_Nchat nat int
  | Create_Group "u32 \<times> u32 \<times> u32" bool cptr
  | Add_Member nat nat int
  | Remove_Member nat nat
  | Set_Chat_Name nat cptr
  | Set_Chat_Image nat cptr
  | Set_Draft nat cptr
  | Archive_Chat nat int
  | Block_Chat nat int
  | Delete_Chat nat
  | Notice_Chat nat

fun chat_step :: "int \<Rightarrow> nat \<Rightarrow> stock \<Rightarrow> peer_row list \<Rightarrow> database \<Rightarrow> chat_op \<Rightarrow> database" where
  "chat_step now sent stock peers db (Create_Chat i) = snd (dc_create_chat_by_contact_id stock db i)"
| "chat_step now sent stock peers db (Lookup_Nchat i b) = snd (snd (dc_create_or_lookup_nchat_by_contact_id stock db i b))"
| "chat_step now sent stock peers db (Create_Group bits verified name) =
     snd (dc_create_group_chat now (dc_create_id bits) stock db verified name)"
| "chat_step now sent stock peers db (Add_Member c i flags) = snd (dc_add_contact_to_chat_ex sent stock peers db c i flags)"
| "chat_step now sent stock peers db (Remove_Member c i) = snd (dc_remove_contact_from_chat sent stock db c i)"
| "chat_step now sent stock peers db (Set_Chat_Name c n) = snd (dc_set_chat_name sent stock db c n)"
| "chat_step now sent stock peers db (Set_Chat_Image c n) = snd (dc_set_chat_profile_image sent stock db c n)"
| "chat_step now sent stock peers db (Set_Draft c m) = dc_set_draft now stock db c m"
| "chat_step now sent stock peers db (Archive_Chat c a) = dc_archive_chat db c a"
| "chat_step now sent stock peers db (Block_Chat c b) = dc_block_chat db c b"
| "chat_step now sent stock peers db (Delete_Chat c) = dc_delete_chat stock db c"
| "chat_step now sent stock peers db (Notice_Chat c) = dc_marknoticed_chat db c"

text \<open>What an operation on the attributes of chats leaves alone.\<close>

definition chat_keys :: "database \<Rightarrow> (nat \<times> int \<times> string) list" where
  "chat_keys db = map (\<lambda>ch. (ch_id ch, ch_type ch, ch_grpid ch)) (db_chats db)"

definition contact_addrs :: "database \<Rightarrow> (nat \<times> string) list" where
  "contact_addrs db = map (\<lambda>r. (ct_id r, ct_addr r)) (db_contacts db)"

definition same_chats :: "database \<Rightarrow> database \<Rightarrow> bool" where
  "same_chats db db' \<longleftrightarrow> chat_keys db' = chat_keys db \<and> db_chats_contacts db' = db_chats_contacts db \<and>
     contact_addrs db' = contact_addrs db"

lemma same_chats_refl [simp, intro]: "same_chats db db"
  by (simp add: same_chats_def)

lemma same_chats_trans: "same_chats db1 db2 \<Longrightarrow> same_chats db2 db3 \<Longrightarrow> same_chats db1 db3"
  by (simp add: same_chats_def)

lemma map_attr: "(\<And>x. g (h x) = g x) \<Longrightarrow> map g (map h xs) = map g xs"
  by simp

lemma addrs_scaleup: "contact_addrs (dc_scaleup_contact_origin db i origin) = contact_addrs db"
  unfolding contact_addrs_def dc_scaleup_contact_origin_def by (simp del: map_map add: map_attr)

lemma keys_update:
  assumes "\<And>ch. ch_id (f ch) = ch_id ch \<and> ch_type (f ch) = ch_type ch \<and> ch_grpid (f ch) = ch_grpid ch"
  shows "chat_keys (update_chat c f db) = chat_keys db"
  unfolding chat_keys_def update_chat_def using assms by (simp del: map_map add: map_attr)

lemma same_chats_intros:
  "same_chats db db' \<Longrightarrow> same_chats db (cb db' e i j)"
  "same_chats db db' \<Longrightarrow> same_chats db (send_status sent c t p db')"
  "same_chats db db' \<Longrightarrow> same_chats db (dc_set_group_explicitly_left db' g)"
  "same_chats db db' \<Longrightarrow> same_chats db (dc_scaleup_contact_origin db' i origin)"
  "same_chats db db' \<Longrightarrow> same_chats db (dc_marknoticed_chat db' c)"
  using addrs_scaleup [of db' i origin]
  by (auto simp: same_chats_def chat_keys_def contact_addrs_def cb_def send_status_def dc_set_group_explicitly_left_def
      dc_scaleup_contact_origin_def dc_marknoticed_chat_def simp del: map_map)

lemma same_chats_update:
  assumes "same_chats db db'" "\<And>ch. ch_id (f ch) = ch_id ch \<and> ch_type (f ch) = ch_type ch \<and> ch_grpid (f ch) = ch_grpid ch"
  shows "same_chats db (update_chat c f db')"
  using assms keys_update [of f c db'] by (simp add: same_chats_def) (simp add: contact_addrs_def update_chat_def)

lemma same_chats_status:
  "same_chats db db' \<Longrightarrow> same_chats db (added_status sent stock c chat contact flags db')"
  "same_chats db db' \<Longrightarrow> same_chats db (removed_status sent stock c chat contact db')"
  by (auto simp: added_status_def removed_status_def Let_def intro!: same_chats_intros)

section \<open>Verified groups\<close>

definition member_verified :: "peer_row list \<Rightarrow> database \<Rightarrow> nat \<Rightarrow> bool" where
  "member_verified peers db i \<longleftrightarrow>
     i = DC_CONTACT_ID_SELF \<or> dc_contact_is_verified peers (dc_get_contact [] db i) = DC_BIDIRECT_VERIFIED"

text \<open>Chats with their types and group ids, the memberships, and who counts as verified.\<close>

definition groups_ok :: "(nat \<times> int \<times> string) list \<Rightarrow> (nat \<times> nat) set \<Rightarrow> (nat \<Rightarrow> bool) \<Rightarrow> bool" where
  "groups_ok K M V \<longleftrightarrow>
     distinct (map fst K) \<and> fst ` M \<subseteq> fst ` set K \<and>
     (\<forall>c t g. (c, t, g) \<in> set K \<longrightarrow> t = DC_CHAT_TYPE_VERIFIED_GROUP \<longrightarrow> g \<noteq> [] \<and> CHR ''@'' \<notin> set g) \<and>
     (\<forall>c t g i. (c, t, g) \<in> set K \<longrightarrow> t = DC_CHAT_TYPE_VERIFIED_GROUP \<longrightarrow> (c, i) \<in> M \<longrightarrow> V i)"

definition verified_groups_ok :: "peer_row list \<Rightarrow> database \<Rightarrow> bool" where
  "verified_groups_ok peers db \<longleftrightarrow>
     groups_ok (chat_keys db) (set (db_chats_contacts db)) (member_verified peers db) \<and>
     (\<forall>(i, a) \<in> set (contact_addrs db). a = [] \<or> CHR ''@'' \<in> set a)"

lemma groups_join:
  assumes "groups_ok K M V" "(c, t, g) \<in> set K" "t = DC_CHAT_TYPE_VERIFIED_GROUP \<Longrightarrow> V i"
  shows "groups_ok K (insert (c, i) M) V"
proof -
  have same: "t' = t" if "(c, t', g') \<in> set K" for t' g'
    using assms(1,2) that eq_key_imp_eq_value [of K c] unfolding groups_ok_def by blast
  have "c \<in> fst ` set K" using assms(2) by force
  moreover have "V j" if "(c', t', g') \<in> set K" "t' = DC_CHAT_TYPE_VERIFIED_GROUP" "(c', j) \<in> insert (c, i) M" for c' t' g' j
  proof (cases "(c', j) \<in> M")
    case True
    then show ?thesis using assms(1) that(1,2) unfolding groups_ok_def by blast
  next
    case False
    then show ?thesis using that same assms(3) by blast
  qed
  ultimately show ?thesis using assms(1) unfolding groups_ok_def by auto
qed

lemma groups_fewer:
  assumes "groups_ok K M V" "M' \<subseteq> M" "fst ` M' \<subseteq> fst ` set (filter P K)"
  shows "groups_ok (filter P K) M' V"
proof -
  have d: "distinct (map fst (filter P K))" using assms(1) by (simp add: groups_ok_def distinct_map_filter)
  have "g \<noteq> [] \<and> CHR ''@'' \<notin> set g" if "(c, t, g) \<in> set (filter P K)" "t = DC_CHAT_TYPE_VERIFIED_GROUP" for c t g
  proof -
    have "(c, t, g) \<in> set K" using that(1) by simp
    then show ?thesis using assms(1) that(2) unfolding groups_ok_def by blast
  qed
  moreover have "V i" if "(c, t, g) \<in> set (filter P K)" "t = DC_CHAT_TYPE_VERIFIED_GROUP" "(c, i) \<in> M'" for c t g i
  proof -
    have "(c, t, g) \<in> set K" "(c, i) \<in> M" using that(1,3) assms(2) by auto
    then show ?thesis using assms(1) that(2) unfolding groups_ok_def by blast
  qed
  ultimately show ?thesis using d assms(3) unfolding groups_ok_def by blast
qed

lemma groups_new:
  assumes "groups_ok K M V" "c \<notin> fst ` set K" "t = DC_CHAT_TYPE_VERIFIED_GROUP \<Longrightarrow> g \<noteq> [] \<and> CHR ''@'' \<notin> set g"
  shows "groups_ok (K @ [(c, t, g)]) M V"
proof -
  have "(c, i) \<notin> M" for i using assms(1,2) unfolding groups_ok_def by force
  with assms show ?thesis unfolding groups_ok_def by auto
qed

lemma found: "find P xs = Some x \<Longrightarrow> x \<in> set xs \<and> P x"
  by (auto simp: find_Some_iff)

text \<open>Whether a contact is verified depends on its address alone.\<close>

lemma find_addr:
  "map_option ct_addr (find (\<lambda>r. ct_id r = i) T) = map_of (map (\<lambda>r. (ct_id r, ct_addr r)) T) i"
  by (induction T) auto

lemma verified_by_addr:
  assumes "i \<noteq> DC_CONTACT_ID_SELF"
  shows "dc_contact_is_verified peers (dc_get_contact self db i) =
    (case map_of (contact_addrs db) i of None \<Rightarrow> DC_NOT_VERIFIED
     | Some a \<Rightarrow> (let (found, ps) = dc_apeerstate_load_by_addr dc_apeerstate_new peers (Some a)
                  in if found \<and> ps_verified_key ps \<noteq> None then DC_BIDIRECT_VERIFIED else 0))"
proof (cases "find (\<lambda>r. ct_id r = i) (db_contacts db)")
  case None
  then have "map_of (contact_addrs db) i = None" using find_addr [of i "db_contacts db"] by (simp add: contact_addrs_def)
  with None assms show ?thesis
    by (simp add: dc_contact_is_verified_def dc_contact_is_verified_ex_def dc_get_contact_def dc_contact_load_from_db_def)
next
  case (Some r)
  then have "map_of (contact_addrs db) i = Some (ct_addr r)" "ct_id r = i"
    using find_addr [of i "db_contacts db"] by (auto simp: contact_addrs_def dest: found)
  with Some assms show ?thesis
    by (simp add: dc_contact_is_verified_def dc_contact_is_verified_ex_def dc_get_contact_def dc_contact_load_from_db_def
        split: prod.splits)
qed

lemma member_verified_addr:
  "member_verified peers db i \<longleftrightarrow> i = DC_CONTACT_ID_SELF \<or> dc_contact_is_verified peers (dc_get_contact self db i) = DC_BIDIRECT_VERIFIED"
  unfolding member_verified_def using verified_by_addr [of i peers self db] verified_by_addr [of i peers "[]" db] by presburger

lemma member_verified_same: "contact_addrs db' = contact_addrs db \<Longrightarrow> member_verified peers db' i = member_verified peers db i"
  unfolding member_verified_def using verified_by_addr [of i peers "[]" db] verified_by_addr [of i peers "[]" db'] by presburger


lemma vg_same: "same_chats db db' \<Longrightarrow> verified_groups_ok peers db \<Longrightarrow> verified_groups_ok peers db'"
  unfolding verified_groups_ok_def same_chats_def using member_verified_same [of db' db peers] by presburger

lemma verified_members: "contact_addrs db' = contact_addrs db \<Longrightarrow> member_verified peers db' = member_verified peers db"
  using member_verified_same by blast

lemma vg_join:
  assumes "verified_groups_ok peers db" "(c, t, g) \<in> set (chat_keys db)"
    "t = DC_CHAT_TYPE_VERIFIED_GROUP \<Longrightarrow> member_verified peers db i"
  shows "verified_groups_ok peers (dc_add_to_chat_contacts_table db c i)"
proof -
  let ?db = "dc_add_to_chat_contacts_table db c i"
  have k: "chat_keys ?db = chat_keys db" "contact_addrs ?db = contact_addrs db"
    "set (db_chats_contacts ?db) = insert (c, i) (set (db_chats_contacts db))"
    by (simp_all add: dc_add_to_chat_contacts_table_def chat_keys_def contact_addrs_def)
  show ?thesis
    unfolding verified_groups_ok_def k verified_members [OF k(2)]
    using assms unfolding verified_groups_ok_def by (blast intro: groups_join)
qed

lemma vg_fewer:
  assumes "verified_groups_ok peers db" "contact_addrs db' = contact_addrs db"
    "set (db_chats_contacts db') \<subseteq> set (db_chats_contacts db)" "chat_keys db' = filter P (chat_keys db)"
    "fst ` set (db_chats_contacts db') \<subseteq> fst ` set (chat_keys db')"
  shows "verified_groups_ok peers db'"
  using assms(1,3,5) groups_fewer unfolding verified_groups_ok_def assms(2,4) verified_members [OF assms(2)] by blast

lemma insert_keys:
  "chat_keys (insert_chat t n dt dx b g p db) = chat_keys db @ [(next_rowid (map fst (chat_keys db)), t, g)]"
  "db_chats_contacts (insert_chat t n dt dx b g p db) = db_chats_contacts db"
  "contact_addrs (insert_chat t n dt dx b g p db) = contact_addrs db"
  by (simp_all add: insert_chat_def chat_keys_def contact_addrs_def comp_def)

lemma vg_insert:
  assumes "verified_groups_ok peers db" "t = DC_CHAT_TYPE_VERIFIED_GROUP \<Longrightarrow> g \<noteq> [] \<and> CHR ''@'' \<notin> set g"
  shows "verified_groups_ok peers (insert_chat t n dt dx b g p db)"
proof -
  have "next_rowid (map fst (chat_keys db)) \<notin> fst ` set (chat_keys db)"
    using next_rowid_fresh [of "map fst (chat_keys db)"] by simp
  then show ?thesis
    using assms unfolding verified_groups_ok_def insert_keys verified_members [OF insert_keys(3)] by (blast intro: groups_new)
qed

lemma rowid_key:
  assumes "(c, t, g) \<in> set (chat_keys db)"
  shows "\<exists>t'. (chat_rowid db g, t', g) \<in> set (chat_keys db)"
proof -
  have "\<exists>ch \<in> set (db_chats db). ch_grpid ch = g" using assms by (auto simp: chat_keys_def)
  then have "find (\<lambda>ch. ch_grpid ch = g) (db_chats db) \<noteq> None" by (auto simp: find_None_iff)
  then obtain ch where ch: "find (\<lambda>ch. ch_grpid ch = g) (db_chats db) = Some ch" by blast
  then have "ch \<in> set (db_chats db)" "ch_grpid ch = g" using found [OF ch] by simp_all
  then have "(ch_id ch, ch_type ch, g) \<in> set (chat_keys db)" unfolding chat_keys_def by force
  moreover have "chat_rowid db g = ch_id ch" by (simp add: chat_rowid_def ch)
  ultimately show ?thesis by auto
qed

lemma rowid_inserted:
  "\<exists>t'. (chat_rowid (insert_chat t n dt dx b g p db) g, t', g) \<in> set (chat_keys (insert_chat t n dt dx b g p db))"
  by (rule rowid_key [where c = "next_rowid (map fst (chat_keys db))" and t = t]) (simp add: insert_keys)


section \<open>The operations keep them verified\<close>

lemma vg_nchat:
  assumes ok: "verified_groups_ok peers db"
  shows "verified_groups_ok peers (snd (snd (dc_create_or_lookup_nchat_by_contact_id stock db i b)))"
proof (cases "i = 0 \<or> fst (dc_lookup_real_nchat_by_contact_id db i) \<noteq> 0 \<or>
    \<not> fst (dc_contact_load_from_db (stock DC_STR_SELF []) dc_contact_new db i)")
  case True
  then show ?thesis using ok by (auto simp: dc_create_or_lookup_nchat_by_contact_id_def Let_def split: prod.splits)
next
  case False
  then obtain contact where c: "dc_contact_load_from_db (stock DC_STR_SELF []) dc_contact_new db i = (True, contact)"
    by (cases "dc_contact_load_from_db (stock DC_STR_SELF []) dc_contact_new db i") auto
  define a where "a = dc_strdup (c_addr contact)"
  define name where "name = (if name_set contact then dc_strdup (c_name contact) else a)"
  define db1 where "db1 = insert_chat DC_CHAT_TYPE_SINGLE name 0 [] b a (if i = DC_CONTACT_ID_SELF then ''K=1'' else []) db"
  have ok1: "verified_groups_ok peers db1" unfolding db1_def by (rule vg_insert [OF ok]) simp
  obtain t where t: "(chat_rowid db1 a, t, a) \<in> set (chat_keys db1)"
    using rowid_inserted unfolding db1_def by blast
  have a: "i = DC_CONTACT_ID_SELF \<or> a = [] \<or> CHR ''@'' \<in> set a"
  proof (cases "find (\<lambda>r. ct_id r = i) (db_contacts db)")
    case (Some r)
    then have "(ct_id r, ct_addr r) \<in> set (contact_addrs db)" using found [OF Some] by (auto simp: contact_addrs_def)
    then have "ct_addr r = [] \<or> CHR ''@'' \<in> set (ct_addr r)" using ok unfolding verified_groups_ok_def by blast
    moreover have "i = DC_CONTACT_ID_SELF \<or> a = ct_addr r"
      using c Some by (auto simp: dc_contact_load_from_db_def a_def dc_strdup_def Let_def split: if_splits)
    ultimately show ?thesis by auto
  qed (use c in \<open>auto simp: dc_contact_load_from_db_def Let_def split: if_splits\<close>)
  have "verified_groups_ok peers (dc_add_to_chat_contacts_table db1 (chat_rowid db1 a) i)"
  proof (rule vg_join [OF ok1 t])
    assume "t = DC_CHAT_TYPE_VERIFIED_GROUP"
    then have "a \<noteq> [] \<and> CHR ''@'' \<notin> set a" using ok1 t unfolding verified_groups_ok_def groups_ok_def by blast
    then show "member_verified peers db1 i" using a by (auto simp: member_verified_def)
  qed
  moreover have "snd (snd (dc_create_or_lookup_nchat_by_contact_id stock db i b)) = dc_add_to_chat_contacts_table db1 (chat_rowid db1 a) i"
  proof -
    obtain b0 where l: "dc_lookup_real_nchat_by_contact_id db i = (0, b0)" "i \<noteq> 0"
      using False by (cases "dc_lookup_real_nchat_by_contact_id db i") auto
    show ?thesis
      unfolding dc_create_or_lookup_nchat_by_contact_id_def l(1) Let_def prod.case c db1_def name_def a_def by (simp add: l(2))
  qed
  ultimately show ?thesis by simp
qed

lemma vg_create_chat:
  assumes ok: "verified_groups_ok peers db"
  shows "verified_groups_ok peers (snd (dc_create_chat_by_contact_id stock db i))"
proof -
  obtain c b where cb: "dc_lookup_real_nchat_by_contact_id db i = (c, b)" by fastforce
  obtain c1 b1 db1 where n: "dc_create_or_lookup_nchat_by_contact_id stock db i DC_CHAT_NOT_BLOCKED = (c1, b1, db1)"
    by (cases "dc_create_or_lookup_nchat_by_contact_id stock db i DC_CHAT_NOT_BLOCKED") auto
  have ok1: "verified_groups_ok peers db1" using vg_nchat [OF ok, of stock i DC_CHAT_NOT_BLOCKED] n by simp
  have "same_chats db (cb (dc_unblock_chat db c) e x y)" for e x y
    unfolding dc_unblock_chat_def dc_block_chat_def by (intro same_chats_intros same_chats_update same_chats_refl) simp
  then have "verified_groups_ok peers (cb (dc_unblock_chat db c) e x y)" for e x y
    by (rule vg_same [OF _ ok])
  moreover have "verified_groups_ok peers (dc_scaleup_contact_origin db1 j origin)"
    "verified_groups_ok peers (cb (dc_scaleup_contact_origin db1 j origin) e x y)" for e x y origin j
    by (rule vg_same [OF _ ok1], intro same_chats_intros same_chats_refl)+
  ultimately show ?thesis
    using ok by (simp add: dc_create_chat_by_contact_id_def cb n Let_def)
qed

lemma vg_create_group:
  assumes ok: "verified_groups_ok peers db"
  shows "verified_groups_ok peers (snd (dc_create_group_chat now (dc_create_id bits) stock db verified name))"
proof (cases "name = None \<or> name = Some []")
  case False
  then obtain n where n: "name = Some n" "n \<noteq> []" by auto
  let ?g = "dc_create_id bits"
  define db1 where "db1 = insert_chat (if verified then DC_CHAT_TYPE_VERIFIED_GROUP else DC_CHAT_TYPE_GROUP) n now
      (stock DC_STR_NEWGROUPDRAFT [n]) 0 ?g ''U=1'' db"
  have "CHR ''@'' \<notin> set id_chars" by (simp add: id_chars_def)
  then have g: "?g \<noteq> []" "CHR ''@'' \<notin> set ?g"
    using create_id_chars [of "CHR ''@''" bits] by (auto simp: dc_create_id_def encode_66bits_as_base64_def split: prod.splits)
  then have ok1: "verified_groups_ok peers db1" unfolding db1_def by (intro vg_insert [OF ok]) simp
  obtain t where t: "(chat_rowid db1 ?g, t, ?g) \<in> set (chat_keys db1)"
    using rowid_inserted unfolding db1_def by blast
  have "verified_groups_ok peers (cb (dc_add_to_chat_contacts_table db1 (chat_rowid db1 ?g) DC_CONTACT_ID_SELF) e x y)" for e x y
    by (rule vg_same [OF same_chats_intros(1) [OF same_chats_refl] vg_join [OF ok1 t]]) (simp add: member_verified_def)
  with ok1 n show ?thesis by (simp add: dc_create_group_chat_def db1_def Let_def)
qed (use ok in \<open>auto simp: dc_create_group_chat_def\<close>)


lemma chat_loaded:
  assumes "dc_chat_load_from_db stock chat db c = (True, obj)"
  shows "chat_id obj = c" "\<exists>g. (c, chat_type obj, g) \<in> set (chat_keys db)"
proof -
  obtain r where r: "find (\<lambda>r. ch_id r = c) (db_chats db) = Some r" "obj = dc_chat_set_from_stmt stock db (dc_chat_empty chat) r"
    using assms unfolding dc_chat_load_from_db_def Let_def by (cases "find (\<lambda>r. ch_id r = c) (db_chats db)") simp_all
  then have "r \<in> set (db_chats db)" "ch_id r = c" using found [OF r(1)] by simp_all
  then have "(c, ch_type r, ch_grpid r) \<in> set (chat_keys db)" unfolding chat_keys_def by force
  with r \<open>ch_id r = c\<close> show "chat_id obj = c" "\<exists>g. (c, chat_type obj, g) \<in> set (chat_keys db)"
    by (auto simp: dc_chat_set_from_stmt_def Let_def)
qed

lemma vg_add_member:
  assumes ok: "verified_groups_ok peers db"
  shows "verified_groups_ok peers (snd (dc_add_contact_to_chat_ex sent stock peers db c i flags))"
proof (cases "dc_get_contact (stock DC_STR_SELF []) db i")
  case (Some contact)
  obtain found chat where chat: "dc_chat_load_from_db stock dc_chat_new db c = (found, chat)" by fastforce
  define promote where "promote = (flags AND DC_FROM_HANDSHAKE \<noteq> 0 \<and> dc_param_get_int (chat_param chat) DC_PARAM_UNPROMOTED 0 = 1)"
  define chat1 where "chat1 = (if promote then chat\<lparr>chat_param := dc_param_set (chat_param chat) DC_PARAM_UNPROMOTED None\<rparr> else chat)"
  define db1 where "db1 = (if promote then dc_chat_update_param db chat1 else db)"
  have same: "same_chats db db1"
    unfolding db1_def dc_chat_update_param_def by (auto intro!: same_chats_update)
  have ok1: "verified_groups_ok peers db1" by (rule vg_same [OF same ok])
  have status: "verified_groups_ok peers (added_status sent stock c ch contact flags db')"
    if "verified_groups_ok peers db'" for ch db'
    by (rule vg_same [OF same_chats_status(1) [OF same_chats_refl] that])
  have join: "verified_groups_ok peers (dc_add_to_chat_contacts_table db1 c i)"
    if "found" "chat_type chat = DC_CHAT_TYPE_VERIFIED_GROUP \<Longrightarrow> dc_contact_is_verified peers (Some contact) = DC_BIDIRECT_VERIFIED"
  proof -
    have "dc_chat_load_from_db stock dc_chat_new db c = (True, chat)" using chat that(1) by simp
    from chat_loaded(2) [OF this] obtain g where "(c, chat_type chat, g) \<in> set (chat_keys db)" by blast
    then have "(c, chat_type chat, g) \<in> set (chat_keys db1)" using same by (simp add: same_chats_def)
    then show ?thesis
    proof (rule vg_join [OF ok1])
      assume "chat_type chat = DC_CHAT_TYPE_VERIFIED_GROUP"
      then have "dc_contact_is_verified peers (dc_get_contact (stock DC_STR_SELF []) db i) = DC_BIDIRECT_VERIFIED"
        using that(2) Some by simp
      then have "member_verified peers db i" using member_verified_addr by blast
      then show "member_verified peers db1 i" using same verified_members [of db1 db peers] by (simp add: same_chats_def)
    qed
  qed
  have types: "chat_type chat1 = chat_type chat" by (simp add: chat1_def)
  define missing where "missing = (\<not> dc_real_contact_exists db i \<and> i \<noteq> DC_CONTACT_ID_SELF)"
  show ?thesis
    unfolding dc_add_contact_to_chat_ex_def missing_def [symmetric] Some option.case Let_def chat prod.case
      promote_def [symmetric] chat1_def [symmetric] db1_def [symmetric] types
    by (auto intro: ok ok1 status join)
qed (simp add: dc_add_contact_to_chat_ex_def ok)

lemma vg_remove_member:
  assumes ok: "verified_groups_ok peers db"
  shows "verified_groups_ok peers (snd (dc_remove_contact_from_chat sent stock db c i))"
proof -
  have gone: "verified_groups_ok peers (cb (db'\<lparr>db_chats_contacts := filter P (db_chats_contacts db')\<rparr>) e x y)"
    if "verified_groups_ok peers db'" for db' P e x y
  proof (rule vg_fewer [OF that, where P = "\<lambda>_. True"])
    show "fst ` set (db_chats_contacts (cb (db'\<lparr>db_chats_contacts := filter P (db_chats_contacts db')\<rparr>) e x y))
      \<subseteq> fst ` set (chat_keys (cb (db'\<lparr>db_chats_contacts := filter P (db_chats_contacts db')\<rparr>) e x y))"
      using that by (auto simp: verified_groups_ok_def groups_ok_def cb_def chat_keys_def)
  qed (auto simp: cb_def chat_keys_def contact_addrs_def)
  have "verified_groups_ok peers (removed_status sent stock c chat contact db)" for chat contact
    by (rule vg_same [OF same_chats_status(2) [OF same_chats_refl] ok])
  then show ?thesis
    using ok gone by (simp add: dc_remove_contact_from_chat_def Let_def split: option.splits prod.splits)
qed

lemma vg_delete:
  assumes ok: "verified_groups_ok peers db"
  shows "verified_groups_ok peers (dc_delete_chat stock db c)"
proof -
  let ?db = "\<lambda>M T e x y. cb (db\<lparr>db_mdns := M, db_msgs := T, db_chats_contacts := filter (\<lambda>(ch, ct). ch \<noteq> c) (db_chats_contacts db),
      db_chats := filter (\<lambda>ch. ch_id ch \<noteq> c) (db_chats db)\<rparr>) e x y"
  have keys: "chat_keys (?db M T e x y) = filter (\<lambda>k. fst k \<noteq> c) (chat_keys db)" for M T e x y
    by (simp add: chat_keys_def cb_def filter_map comp_def)
  have "verified_groups_ok peers (?db M T e x y)" for M T e x y
  proof (rule vg_fewer [OF ok _ _ keys])
    have "fst ` set (db_chats_contacts db) \<subseteq> fst ` set (chat_keys db)"
      using ok by (simp add: verified_groups_ok_def groups_ok_def)
    then show "fst ` set (db_chats_contacts (?db M T e x y)) \<subseteq> fst ` set (chat_keys (?db M T e x y))"
      unfolding keys by (force simp: cb_def)
  qed (auto simp: cb_def contact_addrs_def)
  then show ?thesis using ok by (simp add: dc_delete_chat_def Let_def split: prod.splits)
qed


lemma vg_attributes:
  assumes "verified_groups_ok peers db"
  shows "verified_groups_ok peers (snd (dc_set_chat_name sent stock db c n))"
    "verified_groups_ok peers (snd (dc_set_chat_profile_image sent stock db c n))"
    "verified_groups_ok peers (dc_set_draft now stock db c n)"
    "verified_groups_ok peers (dc_archive_chat db c a)"
    "verified_groups_ok peers (dc_block_chat db c b)"
    "verified_groups_ok peers (dc_marknoticed_chat db c)"
proof -
  have "same_chats db (snd (dc_set_chat_name sent stock db c n))"
    by (auto simp: dc_set_chat_name_def Let_def split: option.split prod.splits intro!: same_chats_intros same_chats_update)
  moreover have "same_chats db (snd (dc_set_chat_profile_image sent stock db c n))"
    by (auto simp: dc_set_chat_profile_image_def dc_chat_update_param_def Let_def split: prod.splits
        intro!: same_chats_intros same_chats_update)
  moreover have "same_chats db (dc_set_draft now stock db c n)"
    by (auto simp: dc_set_draft_def Let_def split: option.splits intro!: same_chats_intros same_chats_update)
  moreover have "same_chats db (dc_archive_chat db c a)"
    by (auto simp: dc_archive_chat_def intro!: same_chats_intros same_chats_update)
  moreover have "same_chats db (dc_block_chat db c b)"
    by (auto simp: dc_block_chat_def intro!: same_chats_update)
  moreover have "same_chats db (dc_marknoticed_chat db c)" by (intro same_chats_intros same_chats_refl)
  ultimately show "verified_groups_ok peers (snd (dc_set_chat_name sent stock db c n))"
    "verified_groups_ok peers (snd (dc_set_chat_profile_image sent stock db c n))"
    "verified_groups_ok peers (dc_set_draft now stock db c n)"
    "verified_groups_ok peers (dc_archive_chat db c a)"
    "verified_groups_ok peers (dc_block_chat db c b)"
    "verified_groups_ok peers (dc_marknoticed_chat db c)"
    using vg_same [OF _ assms] by blast+
qed

interpretation verified_groups: machine "verified_groups_ok peers" "chat_step now sent stock peers" for now sent stock peers
proof
  fix db op
  assume "verified_groups_ok peers db"
  then show "verified_groups_ok peers (chat_step now sent stock peers db op)"
    by (cases op) (simp_all only: chat_step.simps vg_nchat vg_create_chat vg_create_group vg_add_member vg_remove_member
        vg_delete vg_attributes)
qed

section \<open>Properties\<close>


definition ada_peer_row :: "cptr \<Rightarrow> peer_row" where
  "ada_peer_row key = (new_row ''ada@x.org'')\<lparr>pr_verified_key := (case key of None \<Rightarrow> None | Some k \<Rightarrow> Some [1])\<rparr>"

lemma ada_groups_ok: "verified_groups_ok peers ada_database"
  by (auto simp: verified_groups_ok_def groups_ok_def chat_keys_def contact_addrs_def ada_database_def fresh_database_def
      ada_row_def reserved_row_def)


text \<open>
  C22: A single chat is found again, unless its address is taken for a group id: where
  \<open>dc_create_or_lookup_nchat_by_contact_id\<close> finds no chat with a contact, it makes a new one, which it and
  \<open>dc_lookup_real_nchat_by_contact_id\<close> then return; but if a chat has the address of the contact as its group
  id, the contact becomes a member of that chat instead, also of a verified group.
\<close>

theorem single_chat_found_again:
  assumes r: "find (\<lambda>r. ct_id r = i) (db_contacts db) = Some r" "i > DC_CONTACT_ID_LAST_SPECIAL"
    and new: "fst (dc_lookup_real_nchat_by_contact_id db i) = 0" "DC_CHAT_ID_LAST_SPECIAL \<in> ch_id ` set (db_chats db)"
    and call: "dc_create_or_lookup_nchat_by_contact_id stock db i b = (c, b', db')"
  shows "case find (\<lambda>ch. ch_grpid ch = ct_addr r) (db_chats db) of
      None \<Rightarrow> c \<notin> ch_id ` set (db_chats db) \<and> dc_lookup_real_nchat_by_contact_id db' i = (c, b) \<and>
              dc_create_or_lookup_nchat_by_contact_id stock db' i b2 = (c, b, db')
    | Some ch \<Rightarrow> c = ch_id ch \<and> dc_is_contact_in_chat db' (ch_id ch) i"
proof -
  let ?P = "\<lambda>db ch. ch_type ch = DC_CHAT_TYPE_SINGLE \<and> ch_id ch > DC_CHAT_ID_LAST_SPECIAL \<and> (ch_id ch, i) \<in> set (db_chats_contacts db)"
  have none: "find (?P db) (db_chats db) = None"
  proof (rule ccontr)
    assume "find (?P db) (db_chats db) \<noteq> None"
    then obtain ch where ch: "find (?P db) (db_chats db) = Some ch" by blast
    then have "dc_lookup_real_nchat_by_contact_id db i = (ch_id ch, ch_blocked ch)"
      by (simp add: dc_lookup_real_nchat_by_contact_id_def)
    then show False using new(1) found [OF ch] by simp
  qed
  then have l: "dc_lookup_real_nchat_by_contact_id db i = (0, 0)" by (simp add: dc_lookup_real_nchat_by_contact_id_def)
  obtain contact where contact: "dc_contact_load_from_db (stock DC_STR_SELF []) dc_contact_new db i = (True, contact)"
      "c_addr contact = Some (ct_addr r)"
    using r by (simp add: dc_contact_load_from_db_def)
  define name where "name = (if name_set contact then dc_strdup (c_name contact) else dc_strdup (c_addr contact))"
  define param where "param = (if i = DC_CONTACT_ID_SELF then ''K=1'' else [])"
  have "dc_create_or_lookup_nchat_by_contact_id stock db i b =
      (let db1 = insert_chat DC_CHAT_TYPE_SINGLE name 0 [] b (ct_addr r) param db; c = chat_rowid db1 (ct_addr r)
       in (c, b, dc_add_to_chat_contacts_table db1 c i))"
    unfolding dc_create_or_lookup_nchat_by_contact_id_def l contact(1) Let_def prod.case name_def [symmetric] param_def [symmetric]
    using r(2) by (simp add: contact(2) dc_strdup_def)
  then have db1: "db' = dc_add_to_chat_contacts_table
      (insert_chat DC_CHAT_TYPE_SINGLE name 0 [] b (ct_addr r) param db) c i"
      "c = chat_rowid (insert_chat DC_CHAT_TYPE_SINGLE name 0 [] b (ct_addr r) param db) (ct_addr r)" "b' = b"
    using call by (simp_all add: Let_def)
  show ?thesis
  proof (cases "find (\<lambda>ch. ch_grpid ch = ct_addr r) (db_chats db)")
    case (Some ch)
    then show ?thesis
      by (simp add: db1 chat_rowid_def insert_chat_def find_snoc dc_is_contact_in_chat_def dc_add_to_chat_contacts_table_def)
  next
    case None
    let ?new = "next_rowid (map ch_id (db_chats db))"
    have c: "c = ?new" using None by (simp add: db1 chat_rowid_def insert_chat_def find_snoc)
    have fresh: "?new \<notin> ch_id ` set (db_chats db)" using next_rowid_fresh [of "map ch_id (db_chats db)"] by simp
    have big: "?new > DC_CHAT_ID_LAST_SPECIAL" using new(2) next_rowid_greater [of DC_CHAT_ID_LAST_SPECIAL "map ch_id (db_chats db)"] by simp
    have chats: "db_chats db' = db_chats db @ [\<lparr>ch_id = ?new, ch_type = DC_CHAT_TYPE_SINGLE, ch_name = name, ch_draft_timestamp = 0,
        ch_draft_txt = [], ch_blocked = b, ch_grpid = ct_addr r, ch_param = param, ch_archived = 0\<rparr>]"
      "db_chats_contacts db' = db_chats_contacts db @ [(?new, i)]"
      by (simp_all add: db1(1) c dc_add_to_chat_contacts_table_def insert_chat_def)
    have "\<not> ?P db' ch" if "ch \<in> set (db_chats db)" for ch
    proof -
      have "ch_id ch \<noteq> ?new" using fresh that by force
      then show ?thesis using none that unfolding find_None_iff chats by auto
    qed
    then have "find (?P db') (db_chats db) = None" unfolding find_None_iff by blast
    then have look: "dc_lookup_real_nchat_by_contact_id db' i = (c, b)"
      unfolding dc_lookup_real_nchat_by_contact_id_def chats(1) find_snoc using big by (simp add: chats(2) c)
    then have "dc_create_or_lookup_nchat_by_contact_id stock db' i b2 = (c, b, db')"
      using r(2) big c by (simp add: dc_create_or_lookup_nchat_by_contact_id_def)
    with None look fresh c show ?thesis by simp
  qed
qed

text \<open>A verified group whose id is the address of Ada, whose key is not verified.\<close>

definition clash_chat :: chat_row where
  "clash_chat = \<lparr>ch_id = 9, ch_type = DC_CHAT_TYPE_VERIFIED_GROUP, ch_name = ''G'', ch_draft_timestamp = 0, ch_draft_txt = [],
     ch_blocked = 0, ch_grpid = ''ada@x.org'', ch_param = [], ch_archived = 0\<rparr>"

definition clash_database :: database where
  "clash_database = ada_database\<lparr>db_chats := [clash_chat], db_chats_contacts := [(9, 1)]\<rparr>"

theorem single_chat_found_again_witness:
  "let (c, b, db') = dc_create_or_lookup_nchat_by_contact_id (\<lambda>_ _. []) clash_database 10 0 in
     c = 9 \<and> dc_is_contact_in_chat db' 9 10 \<and> dc_chat_is_verified (dc_get_chat (\<lambda>_ _. []) db' 9) \<and>
     dc_contact_is_verified [ada_peer_row None] (dc_get_contact [] db' 10) = 0"
proof -
  obtain c b db' where call: "dc_create_or_lookup_nchat_by_contact_id (\<lambda>_ _. []) clash_database 10 0 = (c, b, db')"
    by (cases "dc_create_or_lookup_nchat_by_contact_id (\<lambda>_ _. []) clash_database 10 0") auto
  have row: "find (\<lambda>r. ct_id r = 10) (db_contacts clash_database) = Some ada_row" by code_simp
  have "10 > (9 :: nat)" "fst (dc_lookup_real_nchat_by_contact_id clash_database 10) = 0" "9 \<in> ch_id ` set (db_chats clash_database)"
    by code_simp+
  from single_chat_found_again [OF row this call, of 0]
  have "c = 9 \<and> dc_is_contact_in_chat db' 9 10"
    by (simp add: clash_database_def clash_chat_def ada_row_def)
  moreover have "let (c, b, db') = dc_create_or_lookup_nchat_by_contact_id (\<lambda>_ _. []) clash_database 10 0 in
      dc_chat_is_verified (dc_get_chat (\<lambda>_ _. []) db' 9) \<and>
      dc_contact_is_verified [ada_peer_row None] (dc_get_contact [] db' 10) = 0"
    by code_simp
  ultimately show ?thesis by (simp add: call)
qed

text \<open>
  C23: Deleting a chat removes it with its messages, their delivery receipts and its memberships, and nothing else:
  every other chat, its messages, their receipts and members are as before, and no contact is deleted.
\<close>

theorem deleted_chat_leaves_nothing:
  assumes "dc_get_chat stock db c = Some chat" "c > DC_CHAT_ID_LAST_SPECIAL"
  shows "let db' = dc_delete_chat stock db c in
    dc_get_chat stock db' c = None \<and> dc_get_msg_cnt db' c = 0 \<and> dc_get_chat_contact_cnt db' c = 0 \<and>
    list_all (\<lambda>m. ms_chat_id m = c \<or> m \<in> set (db_msgs db')) (db_msgs db) \<and>
    (\<forall>m i. (m, i) \<in> set (db_mdns db') \<longleftrightarrow>
       (m, i) \<in> set (db_mdns db) \<and> list_all (\<lambda>x. ms_id x \<noteq> m \<or> ms_chat_id x \<noteq> c) (db_msgs db)) \<and>
    (\<forall>d. d \<noteq> c \<longrightarrow> dc_get_msg_cnt db' d = dc_get_msg_cnt db d \<and>
       dc_get_chat_contacts db' d = dc_get_chat_contacts db d \<and>
       find (\<lambda>ch. ch_id ch = d) (db_chats db') = find (\<lambda>ch. ch_id ch = d) (db_chats db)) \<and>
    db_contacts db' = db_contacts db"
proof -
  obtain obj where "dc_chat_load_from_db stock dc_chat_new db c = (True, obj)"
    using assms(1) by (cases "dc_chat_load_from_db stock dc_chat_new db c") (auto simp: dc_get_chat_def split: if_splits)
  then have db': "dc_delete_chat stock db c = cb
    (db\<lparr>db_mdns := filter (\<lambda>(m, i). m \<notin> ms_id ` {x \<in> set (db_msgs db). ms_chat_id x = c}) (db_mdns db),
       db_msgs := filter (\<lambda>m. ms_chat_id m \<noteq> c) (db_msgs db),
       db_chats_contacts := filter (\<lambda>(ch, ct). ch \<noteq> c) (db_chats_contacts db),
       db_chats := filter (\<lambda>ch. ch_id ch \<noteq> c) (db_chats db)\<rparr>) DC_EVENT_MSGS_CHANGED 0 0"
    using assms(2) by (simp add: dc_delete_chat_def Let_def)
  have skip: "d \<noteq> c \<Longrightarrow> find (\<lambda>ch. ch_id ch = d) (filter (\<lambda>ch. ch_id ch \<noteq> c) T) = find (\<lambda>ch. ch_id ch = d) T"
    for d and T :: "chat_row list" by (induction T) auto
  have gone: "find (\<lambda>ch. ch_id ch = c) (filter (\<lambda>ch. ch_id ch \<noteq> c) T) = None" for T :: "chat_row list"
    by (induction T) auto
  have twice: "d \<noteq> c \<Longrightarrow> filter (\<lambda>p. f p \<noteq> c \<and> f p = d) xs = filter (\<lambda>p. f p = d) xs" for d f and xs :: "'b list"
    by (rule filter_cong) auto
  have rank: "member_rank (dc_delete_chat stock db c) = member_rank db" by (simp add: fun_eq_iff member_rank_def db' cb_def)
  have members: "d \<noteq> c \<Longrightarrow> dc_get_chat_contacts (dc_delete_chat stock db c) d = dc_get_chat_contacts db d" for d
    using twice [of d fst "db_chats_contacts db"]
    by (simp add: dc_get_chat_contacts_def rank) (simp add: db' cb_def case_prod_beta' conj_commute)
  have "d \<noteq> c \<Longrightarrow> dc_get_msg_cnt (dc_delete_chat stock db c) d = dc_get_msg_cnt db d" for d
    using twice [of d ms_chat_id "db_msgs db"] by (simp add: dc_get_msg_cnt_def db' cb_def conj_commute)
  moreover have "dc_get_chat stock (dc_delete_chat stock db c) c = None"
    by (simp add: dc_get_chat_def dc_chat_load_from_db_def db' cb_def gone)
  moreover have "dc_get_msg_cnt (dc_delete_chat stock db c) c = 0" "dc_get_chat_contact_cnt (dc_delete_chat stock db c) c = 0"
    by (auto simp: dc_get_msg_cnt_def dc_get_chat_contact_cnt_def db' cb_def filter_empty_conv)
  moreover have "find (\<lambda>ch. ch_id ch = d) (db_chats (dc_delete_chat stock db c)) = find (\<lambda>ch. ch_id ch = d) (db_chats db)" if "d \<noteq> c" for d
    using skip [OF that] by (simp add: db' cb_def)
  ultimately show ?thesis
    using members by (auto simp: Let_def db' cb_def list_all_iff)
qed

definition group_database :: database where
  "group_database = clash_database\<lparr>db_chats := [clash_chat, clash_chat\<lparr>ch_id := 10\<rparr>], db_chats_contacts := [(9, 1), (10, 1), (10, 10)]\<rparr>"

theorem deleted_chat_leaves_nothing_witness:
  "let db' = dc_delete_chat (\<lambda>_ _. []) group_database 10 in
     dc_get_chat (\<lambda>_ _. []) db' 10 = None \<and> dc_get_chat_contact_cnt db' 10 = 0 \<and>
     dc_get_chat_contacts db' 9 = dc_get_chat_contacts group_database 9"
proof -
  have "dc_get_chat (\<lambda>_ _. []) group_database 10 = Some (dc_chat_set_from_stmt (\<lambda>_ _. []) group_database dc_chat_new (clash_chat\<lparr>ch_id := 10\<rparr>))"
    by code_simp
  from deleted_chat_leaves_nothing [OF this] show ?thesis by (simp add: Let_def)
qed

end
