(* ===== verification/Jobs.thy ===== *)
theory Jobs
  imports Param Chats "HOL-Library.Product_Lexorder"
begin

text \<open>
  \<open>src/dc_job.c\<close>: the queue of jobs that are performed in the IMAP and in the SMTP thread, the retry
  logic, and the flags by which the other threads wake the SMTP thread.

  The table \<open>jobs\<close> is a list of rows.  \<open>SELECT ... ORDER BY\<close> needs a sort, so SQLite has read all rows
  before the first job is performed: the loop runs over a snapshot.  Calls into the network, the
  mail factory and the callback of the user interface are answers of an environment; what the
  handlers do to the outside world is recorded as a list of effects.
\<close>

abbreviation DC_IMAP_THREAD :: int where "DC_IMAP_THREAD \<equiv> 100"
abbreviation DC_SMTP_THREAD :: int where "DC_SMTP_THREAD \<equiv> 5000"
abbreviation DC_JOB_DELETE_MSG_ON_IMAP :: int where "DC_JOB_DELETE_MSG_ON_IMAP \<equiv> 110"
abbreviation DC_JOB_MARKSEEN_MDN_ON_IMAP :: int where "DC_JOB_MARKSEEN_MDN_ON_IMAP \<equiv> 120"
abbreviation DC_JOB_MARKSEEN_MSG_ON_IMAP :: int where "DC_JOB_MARKSEEN_MSG_ON_IMAP \<equiv> 130"
abbreviation DC_JOB_SEND_MSG_TO_IMAP :: int where "DC_JOB_SEND_MSG_TO_IMAP \<equiv> 700"
abbreviation DC_JOB_CONFIGURE_IMAP :: int where "DC_JOB_CONFIGURE_IMAP \<equiv> 900"
abbreviation DC_JOB_IMEX_IMAP :: int where "DC_JOB_IMEX_IMAP \<equiv> 910"
abbreviation DC_JOB_SEND_MDN :: int where "DC_JOB_SEND_MDN \<equiv> 5010"
abbreviation DC_JOB_SEND_MSG_TO_SMTP :: int where "DC_JOB_SEND_MSG_TO_SMTP \<equiv> 5900"
abbreviation DC_DONT_TRY_AGAIN :: int where "DC_DONT_TRY_AGAIN \<equiv> 0"
abbreviation DC_AT_ONCE :: int where "DC_AT_ONCE \<equiv> -1"
abbreviation DC_INCREATION_POLL :: int where "DC_INCREATION_POLL \<equiv> 2"
abbreviation DC_STANDARD_DELAY :: int where "DC_STANDARD_DELAY \<equiv> 3"
abbreviation JOB_RETRIES :: int where "JOB_RETRIES \<equiv> 5"
abbreviation DC_PARAM_TIMES :: char where "DC_PARAM_TIMES \<equiv> CHR ''t''"
abbreviation DC_JOBS_NEEDED_AT_ONCE :: nat where "DC_JOBS_NEEDED_AT_ONCE \<equiv> 1"
abbreviation DC_JOBS_NEEDED_AVOID_DOS :: nat where "DC_JOBS_NEEDED_AVOID_DOS \<equiv> 2"
abbreviation DC_STATE_OUT_DELIVERED :: int where "DC_STATE_OUT_DELIVERED \<equiv> 26"

section \<open>The queue\<close>

record job_row =
  j_id :: nat
  j_added :: int
  j_desired :: int
  j_action :: int
  j_foreign :: int
  j_param :: param
  j_thread :: int

text \<open>Effects on the world outside of the tables of this theory.\<close>

datatype effect =
    Smtp_Send bool
  | Smtp_Disconnect
  | Msg_Failed int cptr
  | Msg_State int int
  | Msg_Guarantee int
  | Msg_Delivered int

record jobs_ctx =
  jc_jobs :: "job_row list"
  jc_imap_needed :: nat
  jc_smtp_needed :: nat
  jc_condflag :: bool
  jc_suspend :: bool
  jc_in_idleing :: bool
  jc_last_online_state :: int
  jc_effects :: "effect list"

text \<open>\<open>dc_job_t\<close>: the job that is being performed.\<close>

record dc_job_t =
  job_id :: nat
  job_action :: int
  job_foreign_id :: int
  job_param :: param
  job_try_again :: int
  job_pending_error :: cptr

definition dc_interrupt_imap_idle :: "jobs_ctx \<Rightarrow> jobs_ctx" where
  "dc_interrupt_imap_idle c = c\<lparr>jc_imap_needed := 1\<rparr>"

definition dc_interrupt_smtp_idle :: "jobs_ctx \<Rightarrow> jobs_ctx" where
  "dc_interrupt_smtp_idle c = c\<lparr>jc_smtp_needed := DC_JOBS_NEEDED_AT_ONCE, jc_condflag := True\<rparr>"

definition job_thread :: "int \<Rightarrow> int option" where
  "job_thread action =
     (if DC_IMAP_THREAD \<le> action \<and> action < DC_IMAP_THREAD + 1000 then Some DC_IMAP_THREAD
      else if DC_SMTP_THREAD \<le> action \<and> action < DC_SMTP_THREAD + 1000 then Some DC_SMTP_THREAD
      else None)"

definition dc_job_add :: "int \<Rightarrow> jobs_ctx \<Rightarrow> int \<Rightarrow> int \<Rightarrow> cptr \<Rightarrow> int \<Rightarrow> jobs_ctx" where
  "dc_job_add timestamp c action foreign_id param delay_seconds =
     (case job_thread action of
        None \<Rightarrow> c
      | Some thread \<Rightarrow>
          let c = c\<lparr>jc_jobs := jc_jobs c @
                 [\<lparr>j_id = next_rowid (map j_id (jc_jobs c)), j_added = timestamp,
                   j_desired = (if delay_seconds > 0 then timestamp + delay_seconds else 0),
                   j_action = action, j_foreign = foreign_id,
                   j_param = (case param of Some p \<Rightarrow> p | None \<Rightarrow> []), j_thread = thread\<rparr>]\<rparr>
          in if thread = DC_IMAP_THREAD then dc_interrupt_imap_idle c else dc_interrupt_smtp_idle c)"

definition dc_job_update :: "jobs_ctx \<Rightarrow> dc_job_t \<Rightarrow> jobs_ctx" where
  "dc_job_update c job =
     c\<lparr>jc_jobs := map (\<lambda>r. if j_id r = job_id job then r\<lparr>j_desired := 0, j_param := job_param job\<rparr> else r) (jc_jobs c)\<rparr>"

definition dc_job_delete :: "jobs_ctx \<Rightarrow> dc_job_t \<Rightarrow> jobs_ctx" where
  "dc_job_delete c job = c\<lparr>jc_jobs := filter (\<lambda>r. j_id r \<noteq> job_id job) (jc_jobs c)\<rparr>"

definition dc_job_try_again_later :: "dc_job_t \<Rightarrow> int \<Rightarrow> cptr \<Rightarrow> dc_job_t" where
  "dc_job_try_again_later job try_again pending_error =
     job\<lparr>job_try_again := try_again, job_pending_error := dc_strdup_keep_null pending_error\<rparr>"

definition dc_job_kill_actions :: "jobs_ctx \<Rightarrow> int \<Rightarrow> int \<Rightarrow> jobs_ctx" where
  "dc_job_kill_actions c action1 action2 =
     c\<lparr>jc_jobs := filter (\<lambda>r. \<not> (j_action r = action1 \<or> j_action r = action2)) (jc_jobs c)\<rparr>"

definition emit :: "effect \<Rightarrow> jobs_ctx \<Rightarrow> jobs_ctx" where
  "emit e c = c\<lparr>jc_effects := jc_effects c @ [e]\<rparr>"

section \<open>Performing jobs\<close>

text \<open>
  A handler gets the number of the try and the job; it returns the job, changed only by
  \<open>dc_job_try_again_later\<close>, and the context.
\<close>

type_synonym handler = "nat \<Rightarrow> dc_job_t \<Rightarrow> jobs_ctx \<Rightarrow> dc_job_t \<times> jobs_ctx"

definition exclusive :: "int \<Rightarrow> bool" where
  "exclusive action \<longleftrightarrow> action = DC_JOB_CONFIGURE_IMAP \<or> action = DC_JOB_IMEX_IMAP"

definition one_try :: "handler \<Rightarrow> nat \<Rightarrow> dc_job_t \<Rightarrow> jobs_ctx \<Rightarrow> dc_job_t \<times> jobs_ctx" where
  "one_try h tries job c = h tries (job\<lparr>job_try_again := DC_DONT_TRY_AGAIN\<rparr>) c"

text \<open>\<open>for (int tries = 0; tries <= 1; tries++)\<close>.\<close>

definition two_tries :: "handler \<Rightarrow> dc_job_t \<Rightarrow> jobs_ctx \<Rightarrow> dc_job_t \<times> jobs_ctx" where
  "two_tries h job c =
     (let (job, c) = one_try h 0 job c in
      if job_try_again job \<noteq> DC_AT_ONCE then (job, c) else one_try h 1 job c)"

text \<open>\<open>dc_suspend_smtp_thread\<close>; with \<open>suspend\<close> it returns when the SMTP thread is idle.\<close>

definition dc_suspend_smtp_thread :: "jobs_ctx \<Rightarrow> bool \<Rightarrow> jobs_ctx" where
  "dc_suspend_smtp_thread c suspend =
     (let c = c\<lparr>jc_suspend := suspend\<rparr> in if suspend then c\<lparr>jc_smtp_needed := 0\<rparr> else c)"

text \<open>
  The number of tries: \<open>last_online_state == is_online;\<close> is a comparison whose value is dropped, so
  that the static variable keeps its value.
\<close>

definition count_tries :: "int \<Rightarrow> bool \<Rightarrow> int \<Rightarrow> int" where
  "count_tries last_online_state is_online tries_while_online =
     (if last_online_state \<noteq> 0 \<and> is_online then tries_while_online + 1
      else if tries_while_online > 0 then tries_while_online - 1 else tries_while_online)"

definition retry_job :: "int \<Rightarrow> bool \<Rightarrow> dc_job_t \<Rightarrow> jobs_ctx \<Rightarrow> dc_job_t \<times> jobs_ctx" where
  "retry_job thread is_online job c =
     (let tries_while_online =
            count_tries (jc_last_online_state c) is_online (dc_param_get_int (job_param job) DC_PARAM_TIMES 0)
      in if tries_while_online < JOB_RETRIES then
           let job = job\<lparr>job_param := dc_param_set_int (job_param job) DC_PARAM_TIMES tries_while_online\<rparr>;
               c = dc_job_update c job
           in (job, if thread = DC_SMTP_THREAD \<and> is_online \<and> tries_while_online < JOB_RETRIES - 1
                    then c\<lparr>jc_smtp_needed := DC_JOBS_NEEDED_AVOID_DOS\<rparr> else c)
         else
           let c = (if job_action job = DC_JOB_SEND_MSG_TO_SMTP
                    then emit (Msg_Failed (job_foreign_id job) (job_pending_error job)) c else c)
           in (job, dc_job_delete c job))"

definition finish_job :: "int \<Rightarrow> bool \<Rightarrow> dc_job_t \<Rightarrow> jobs_ctx \<Rightarrow> dc_job_t \<times> jobs_ctx" where
  "finish_job thread is_online job c =
     (if job_try_again job = DC_INCREATION_POLL then (job, c)
      else if job_try_again job = DC_AT_ONCE \<or> job_try_again job = DC_STANDARD_DELAY
      then retry_job thread is_online job c
      else (job, dc_job_delete c job))"

text \<open>The row is read into the job structure, which keeps its \<open>pending_error\<close> from the job before.\<close>

definition fetch_job :: "dc_job_t \<Rightarrow> job_row \<Rightarrow> dc_job_t" where
  "fetch_job job r =
     job\<lparr>job_id := j_id r, job_action := j_action r, job_foreign_id := j_foreign r,
         job_param := dc_param_set_packed (job_param job) (Some (j_param r))\<rparr>"

fun perform_rows :: "handler \<Rightarrow> (dc_job_t \<Rightarrow> bool) \<Rightarrow> int \<Rightarrow> job_row list \<Rightarrow> dc_job_t \<Rightarrow> jobs_ctx \<Rightarrow> jobs_ctx" where
  "perform_rows h online thread [] job c = c"
| "perform_rows h online thread (r # rows) job c =
     (let job = fetch_job job r in
      if exclusive (job_action job) then
        let c = dc_suspend_smtp_thread (dc_job_kill_actions c (job_action job) 0) True;
            (job, c) = two_tries h job c
        in dc_suspend_smtp_thread c False
      else
        let (job, c) = two_tries h job c;
            (job, c) = finish_job thread (online job) job c
        in perform_rows h online thread rows job c)"

definition job_rank :: "job_row \<Rightarrow> int \<times> int" where
  "job_rank r = (- j_action r, j_added r)"

definition due_jobs :: "int \<Rightarrow> int \<Rightarrow> job_row list \<Rightarrow> job_row list" where
  "due_jobs now thread rows = sort_key job_rank (filter (\<lambda>r. j_thread r = thread \<and> j_desired r \<le> now) rows)"

definition blank_job :: dc_job_t where
  "blank_job = \<lparr>job_id = 0, job_action = 0, job_foreign_id = 0, job_param = dc_param_new,
     job_try_again = 0, job_pending_error = None\<rparr>"

definition dc_job_perform :: "int \<Rightarrow> handler \<Rightarrow> (dc_job_t \<Rightarrow> bool) \<Rightarrow> int \<Rightarrow> jobs_ctx \<Rightarrow> jobs_ctx" where
  "dc_job_perform now h online thread c =
     perform_rows h online thread (due_jobs now thread (jc_jobs c)) blank_job c"

definition dc_perform_imap_jobs :: "int \<Rightarrow> handler \<Rightarrow> (dc_job_t \<Rightarrow> bool) \<Rightarrow> jobs_ctx \<Rightarrow> jobs_ctx" where
  "dc_perform_imap_jobs now h online c = dc_job_perform now h online DC_IMAP_THREAD (c\<lparr>jc_imap_needed := 0\<rparr>)"

definition dc_perform_smtp_jobs :: "int \<Rightarrow> handler \<Rightarrow> (dc_job_t \<Rightarrow> bool) \<Rightarrow> jobs_ctx \<Rightarrow> jobs_ctx" where
  "dc_perform_smtp_jobs now h online c = dc_job_perform now h online DC_SMTP_THREAD (c\<lparr>jc_smtp_needed := 0\<rparr>)"

section \<open>Sending a message\<close>

text \<open>The answers of the SMTP client, the mail factory and the configuration.\<close>

record smtp_env =
  se_connected :: bool
  se_connect_ok :: bool
  se_load_ok :: bool
  se_increation :: bool
  se_recipients :: nat
  se_render_ok :: bool
  se_render_error :: cptr
  se_guarantee_e2ee :: int
  se_out_encrypted :: bool
  se_send_ok :: bool
  se_storage_error :: bool
  se_smtp_error :: cptr
  se_no_imap_upload :: bool
  se_selftalk :: bool
  se_cmd :: int

definition sent_ok :: "int \<Rightarrow> smtp_env \<Rightarrow> bool \<Rightarrow> int \<Rightarrow> jobs_ctx \<Rightarrow> jobs_ctx" where
  "sent_ok now env out_encrypted msg_id c =
     (let c = emit (Msg_State msg_id DC_STATE_OUT_DELIVERED) c;
          c = (if out_encrypted \<and> se_guarantee_e2ee env = 0 then emit (Msg_Guarantee msg_id) c else c);
          c = (if \<not> se_no_imap_upload env \<and> \<not> se_selftalk env \<and> se_cmd env \<noteq> DC_CMD_SECUREJOIN_MESSAGE
               then dc_job_add now c DC_JOB_SEND_MSG_TO_IMAP msg_id None 0 else c)
      in emit (Msg_Delivered msg_id) c)"

text \<open>
  Without recipients nothing is rendered: \<open>out_encrypted\<close> keeps the 0 of \<open>dc_mimefactory_init\<close>.
\<close>

definition dc_job_do_SEND_MSG_TO_SMTP :: "int \<Rightarrow> smtp_env \<Rightarrow> dc_job_t \<Rightarrow> jobs_ctx \<Rightarrow> dc_job_t \<times> jobs_ctx" where
  "dc_job_do_SEND_MSG_TO_SMTP now env job c =
     (if \<not> se_connected env \<and> \<not> se_connect_ok env then (dc_job_try_again_later job DC_STANDARD_DELAY None, c)
      else if \<not> se_load_ok env then (job, c)
      else if se_increation env then (dc_job_try_again_later job DC_INCREATION_POLL None, c)
      else if se_recipients env > 0 then
        (if \<not> se_render_ok env then (job, emit (Msg_Failed (job_foreign_id job) (se_render_error env)) c)
         else if se_guarantee_e2ee env \<noteq> 0 \<and> \<not> se_out_encrypted env then
           (job, emit (Msg_Failed (job_foreign_id job) (Some ''End-to-end-encryption unavailable unexpectedly.'')) c)
         else
           let c = emit (Smtp_Send (se_out_encrypted env)) c in
           if \<not> se_send_ok env then
             (if se_storage_error env then (job, emit (Msg_Failed (job_foreign_id job) (se_smtp_error env)) c)
              else (dc_job_try_again_later job DC_AT_ONCE (se_smtp_error env), emit Smtp_Disconnect c))
           else (job, sent_ok now env (se_out_encrypted env) (job_foreign_id job) c))
      else (job, sent_ok now env False (job_foreign_id job) c))"

text \<open>\<open>se_load_ok\<close> is the value of \<open>dc_mimefactory_load_mdn\<close> here.\<close>

definition dc_job_do_SEND_MDN :: "smtp_env \<Rightarrow> dc_job_t \<Rightarrow> jobs_ctx \<Rightarrow> dc_job_t \<times> jobs_ctx" where
  "dc_job_do_SEND_MDN env job c =
     (if \<not> se_connected env \<and> \<not> se_connect_ok env then (dc_job_try_again_later job DC_STANDARD_DELAY None, c)
      else if \<not> se_load_ok env \<or> \<not> se_render_ok env then (job, c)
      else
        let c = emit (Smtp_Send (se_out_encrypted env)) c in
        if \<not> se_send_ok env then (dc_job_try_again_later job DC_AT_ONCE None, emit Smtp_Disconnect c)
        else (job, c))"

section \<open>One job\<close>

lemmas job_defs = two_tries_def one_try_def dc_job_try_again_later_def

definition fails :: "int \<Rightarrow> bool" where
  "fails w \<longleftrightarrow> w = DC_AT_ONCE \<or> w = DC_STANDARD_DELAY"

definition always_fails :: "handler \<Rightarrow> bool" where
  "always_fails h \<longleftrightarrow> (\<forall>n job c. \<exists>w e. fails w \<and> h n job c = (dc_job_try_again_later job w e, c))"

lemma two_tries_fail:
  assumes "always_fails h"
  obtains w e where "fails w" "two_tries h job c = (job\<lparr>job_try_again := w, job_pending_error := e\<rparr>, c)"
proof -
  let ?j = "job\<lparr>job_try_again := DC_DONT_TRY_AGAIN\<rparr>"
  obtain w e where 1: "fails w" "h 0 ?j c = (dc_job_try_again_later ?j w e, c)"
    using assms unfolding always_fails_def by blast
  show thesis
  proof (cases "w = DC_AT_ONCE")
    case False
    with 1 that show thesis by (simp add: job_defs)
  next
    case True
    let ?k = "(dc_job_try_again_later ?j w e)\<lparr>job_try_again := DC_DONT_TRY_AGAIN\<rparr>"
    obtain v d where 2: "fails v" "h 1 ?k c = (dc_job_try_again_later ?k v d, c)"
      using assms unfolding always_fails_def by blast
    from 1 2 True that show thesis by (simp add: job_defs Let_def)
  qed
qed

section \<open>Failing jobs are never given up\<close>

definition times_of :: "param \<Rightarrow> int" where
  "times_of p = dc_param_get_int p DC_PARAM_TIMES 0"

definition row_alive :: "job_row \<Rightarrow> bool" where
  "row_alive r \<longleftrightarrow> \<not> exclusive (j_action r) \<and> param_ok (j_param r) \<and> times_of (j_param r) < JOB_RETRIES"

definition queue_alive :: "nat list \<Rightarrow> effect list \<Rightarrow> jobs_ctx \<Rightarrow> bool" where
  "queue_alive ids es c \<longleftrightarrow> map j_id (jc_jobs c) = ids \<and> jc_effects c = es \<and> jc_last_online_state c = 0 \<and>
     (\<forall>r \<in> set (jc_jobs c). row_alive r)"

lemma times_key: "okk DC_PARAM_TIMES"
  by (simp add: okk_def c_isspace_def)

lemma times_of_range: "int32_range (times_of p)"
proof -
  have "int32_range 0" by (simp add: int32_range_def)
  then show ?thesis
    by (auto simp: times_of_def dc_param_get_int_def split: option.splits)
qed

lemma count_tries_offline:
  assumes "t < JOB_RETRIES" "int32_range t"
  shows "count_tries 0 on t < JOB_RETRIES" "int32_range (count_tries 0 on t)"
  using assms by (auto simp: count_tries_def int32_range_def)

lemma retry_alive:
  assumes c: "queue_alive ids es c" and p: "param_ok (job_param job)" "times_of (job_param job) < JOB_RETRIES"
  shows "queue_alive ids es (snd (retry_job thread on job c))"
proof -
  let ?t = "count_tries 0 on (times_of (job_param job))"
  let ?p = "dc_param_set_int (job_param job) DC_PARAM_TIMES ?t"
  have t: "?t < JOB_RETRIES" "int32_range ?t"
    using count_tries_offline [OF p(2) times_of_range] by auto
  have "param_ok ?p" "times_of ?p < JOB_RETRIES"
    using t p(1) times_key by (simp_all add: set_int_ok times_of_def get_set_int)
  then have "queue_alive ids es (dc_job_update c (job\<lparr>job_param := ?p\<rparr>))"
    using c by (auto simp: queue_alive_def dc_job_update_def row_alive_def comp_def intro!: map_cong)
  with c t(1) show ?thesis
    by (auto simp: retry_job_def queue_alive_def times_of_def [symmetric] Let_def)
qed

lemma perform_rows_alive:
  assumes h: "always_fails h"
  shows "queue_alive ids es c \<Longrightarrow> \<forall>r \<in> set rows. row_alive r \<Longrightarrow>
    queue_alive ids es (perform_rows h online thread rows job c)"
proof (induction rows arbitrary: job c)
  case (Cons r rows)
  let ?job = "fetch_job job r"
  obtain w e where w: "fails w"
    "two_tries h ?job c = (?job\<lparr>job_try_again := w, job_pending_error := e\<rparr>, c)"
    using h by (rule two_tries_fail)
  let ?j = "?job\<lparr>job_try_again := w, job_pending_error := e\<rparr>"
  have r: "\<not> exclusive (j_action r)" "param_ok (j_param r)" "times_of (j_param r) < JOB_RETRIES"
    using Cons.prems(2) by (auto simp: row_alive_def)
  then have jp: "job_param ?j = j_param r" "job_action ?job = j_action r"
    by (simp_all add: fetch_job_def dc_param_set_packed_def dc_strdup_def Let_def)
  obtain j2 c2 where f: "finish_job thread (online ?j) ?j c = (j2, c2)" by force
  then have "c2 = snd (retry_job thread (online ?j) ?j c)"
    using w(1) by (auto simp: finish_job_def fails_def)
  then have "queue_alive ids es c2" using retry_alive [of ids es c ?j] Cons.prems(1) r jp by simp
  then show ?case using Cons.IH Cons.prems(2) r jp w f by (simp add: Let_def)
qed simp

type_synonym pass = "int \<times> int \<times> (dc_job_t \<Rightarrow> bool)"

definition pass :: "handler \<Rightarrow> jobs_ctx \<Rightarrow> pass \<Rightarrow> jobs_ctx" where
  "pass h c p = (case p of (now, thread, online) \<Rightarrow> dc_job_perform now h online thread c)"

interpretation queue: machine "\<lambda>c. always_fails h \<and> queue_alive ids es c" "pass h" for h ids es
proof unfold_locales
  fix c :: jobs_ctx and p :: pass
  assume c: "always_fails h \<and> queue_alive ids es c"
  obtain now thread online where p: "p = (now, thread, online)" by (cases p)
  have "\<forall>r \<in> set (due_jobs now thread (jc_jobs c)). row_alive r"
    using c by (auto simp: due_jobs_def queue_alive_def)
  with c show "always_fails h \<and> queue_alive ids es (pass h c p)"
    by (simp add: pass_def p dc_job_perform_def perform_rows_alive)
qed

section \<open>What a pass does to the table\<close>

text \<open>
  A script for the handlers: \<open>w n i\<close> is the outcome of try \<open>n\<close> of the job with the id \<open>i\<close>, \<open>e n i\<close> its
  error text.
\<close>

definition scripted :: "(nat \<Rightarrow> nat \<Rightarrow> int) \<Rightarrow> (nat \<Rightarrow> nat \<Rightarrow> cptr) \<Rightarrow> handler" where
  "scripted w e n job c =
     (if w n (job_id job) = DC_DONT_TRY_AGAIN then (job, c)
      else (dc_job_try_again_later job (w n (job_id job)) (e n (job_id job)), c))"

definition last_word :: "(nat \<Rightarrow> nat \<Rightarrow> int) \<Rightarrow> nat \<Rightarrow> int" where
  "last_word w i = (if w 0 i = DC_AT_ONCE then w 1 i else w 0 i)"

text \<open>What the specification leaves of the row of a job that was due.\<close>

definition outcome :: "int \<Rightarrow> (nat \<Rightarrow> bool) \<Rightarrow> (nat \<Rightarrow> nat \<Rightarrow> int) \<Rightarrow> job_row \<Rightarrow> job_row list" where
  "outcome last_online online w r =
     (let t = count_tries last_online (online (j_id r)) (times_of (j_param r)) in
      if last_word w (j_id r) = DC_INCREATION_POLL then [r]
      else if fails (last_word w (j_id r)) then
        (if t < JOB_RETRIES
         then [r\<lparr>j_desired := 0, j_param := dc_param_set_int (j_param r) DC_PARAM_TIMES t\<rparr>] else [])
      else [])"

lemma two_tries_scripted:
  obtains d where "two_tries (scripted w e) job c =
     (job\<lparr>job_try_again := last_word w (job_id job), job_pending_error := d\<rparr>, c)"
proof -
  have *: "\<exists>d. two_tries (scripted w e) job c =
     (job\<lparr>job_try_again := last_word w (job_id job), job_pending_error := d\<rparr>, c)"
    by (cases job) (auto simp: job_defs scripted_def last_word_def Let_def)
  then show thesis using that by blast
qed

lemma filter_concat: "filter P xs = concat (map (\<lambda>x. if P x then [x] else []) xs)"
  by (induction xs) auto

lemma finish_table:
  assumes job: "job_id job = j_id r" "job_param job = j_param r" "job_try_again job = last_word w (j_id r)"
    and uniq: "\<And>x. x \<in> set (jc_jobs c) \<Longrightarrow> j_id x = j_id r \<Longrightarrow> x = r"
  shows "jc_jobs (snd (finish_job thread (online (j_id r)) job c)) =
    concat (map (\<lambda>x. if x = r then outcome (jc_last_online_state c) online w r else [x]) (jc_jobs c))"
proof -
  have id: "j_id x = j_id r \<longleftrightarrow> x = r" if "x \<in> set (jc_jobs c)" for x using uniq that by auto
  have del: "jc_jobs (dc_job_delete c' job) = concat (map (\<lambda>x. if x = r then [] else [x]) (jc_jobs c))"
    if "jc_jobs c' = jc_jobs c" for c'
    using id job that by (auto simp: dc_job_delete_def filter_concat intro!: arg_cong [where f = concat] map_cong)
  have upd: "jc_jobs (dc_job_update c (job\<lparr>job_param := p\<rparr>)) =
      concat (map (\<lambda>x. if x = r then [r\<lparr>j_desired := 0, j_param := p\<rparr>] else [x]) (jc_jobs c))" for p
  proof -
    have "concat (map (\<lambda>x. [g x]) xs) = map g xs" for g :: "job_row \<Rightarrow> job_row" and xs
      by (induction xs) auto
    moreover have "(if x = r then [r\<lparr>j_desired := 0, j_param := p\<rparr>] else [x]) =
        [if x = r then r\<lparr>j_desired := 0, j_param := p\<rparr> else x]" for x by simp
    ultimately show ?thesis using id job by (auto simp: dc_job_update_def intro!: map_cong)
  qed
  have keep: "concat (map (\<lambda>x. if x = r then [r] else [x]) xs) = xs" for xs :: "job_row list"
    by (induction xs) auto
  consider "last_word w (j_id r) = DC_INCREATION_POLL"
    | "fails (last_word w (j_id r))" "last_word w (j_id r) \<noteq> DC_INCREATION_POLL"
    | "\<not> fails (last_word w (j_id r))" "last_word w (j_id r) \<noteq> DC_INCREATION_POLL" by blast
  then show ?thesis
  proof cases
    case 1
    then have "outcome (jc_last_online_state c) online w r = [r]" by (simp add: outcome_def)
    with 1 show ?thesis using job by (simp add: finish_job_def keep cong: if_cong)
  next
    case 2
    let ?t = "count_tries (jc_last_online_state c) (online (j_id r)) (times_of (j_param r))"
    have "outcome (jc_last_online_state c) online w r =
        (if ?t < JOB_RETRIES
         then [r\<lparr>j_desired := 0, j_param := dc_param_set_int (j_param r) DC_PARAM_TIMES ?t\<rparr>] else [])"
      using 2 by (simp add: outcome_def)
    then show ?thesis
      using 2 job by (simp add: finish_job_def retry_job_def times_of_def [symmetric] upd del emit_def fails_def Let_def
          cong: if_cong)
  next
    case 3
    then have "outcome (jc_last_online_state c) online w r = []" by (simp add: outcome_def)
    with 3 show ?thesis using job by (simp add: finish_job_def del fails_def cong: if_cong)
  qed
qed

lemma finish_last_online [simp]:
  "jc_last_online_state (snd (finish_job thread on job c)) = jc_last_online_state c"
  by (simp add: finish_job_def retry_job_def dc_job_update_def dc_job_delete_def emit_def Let_def)

lemma outcome_shape: "outcome l on w r = [] \<or> (\<exists>q. outcome l on w r = [q] \<and> j_id q = j_id r)"
  by (simp add: outcome_def Let_def)

lemma outcome_id: "x \<in> set (outcome l on w r) \<Longrightarrow> j_id x = j_id r"
  using outcome_shape [of l on w r] by auto

lemma fetch_job_simps [simp]:
  "job_id (fetch_job job r) = j_id r" "job_action (fetch_job job r) = j_action r"
  "job_param (fetch_job job r) = j_param r"
  by (simp_all add: fetch_job_def dc_param_set_packed_def dc_strdup_def Let_def)

lemma disjoint_singleton: "A \<subseteq> {a} \<Longrightarrow> B \<subseteq> C \<Longrightarrow> a \<notin> C \<Longrightarrow> A \<inter> B = {}"
  by blast

lemma distinct_concat_map:
  assumes "\<And>x. distinct (map f (g x))" "\<And>x. f ` set (g x) \<subseteq> {f x}"
  shows "distinct (map f T) \<Longrightarrow>
    distinct (map f (concat (map g T))) \<and> f ` set (concat (map g T)) \<subseteq> f ` set T"
proof (induction T)
  case (Cons x T)
  then have IH: "distinct (map f (concat (map g T)))" "f ` set (concat (map g T)) \<subseteq> f ` set T"
    by simp_all
  have "f x \<notin> f ` set T" using Cons.prems by simp
  then have dis: "set (map f (g x)) \<inter> set (map f (concat (map g T))) = {}"
    unfolding set_map using assms(2) [of x] IH(2) disjoint_singleton by metis
  have "distinct (map f (g x @ concat (map g T)))"
    unfolding map_append distinct_append using assms(1) [of x] IH(1) dis by blast
  moreover have "f ` set (g x @ concat (map g T)) \<subseteq> f ` set (x # T)"
    using assms(2) [of x] IH(2) unfolding set_append image_Un list.set image_insert by blast
  ultimately show ?case by (simp only: list.map concat.simps)
qed simp

lemma distinct_outcomes:
  assumes "distinct (map j_id T)"
  shows "distinct (map j_id (concat (map (\<lambda>x. if P x then outcome l on w x else [x]) T)))"
proof -
  have "distinct (map j_id (if P x then outcome l on w x else [x])) \<and>
    j_id ` set (if P x then outcome l on w x else [x]) \<subseteq> {j_id x}" for x
    using outcome_shape [of l on w x] by (cases "P x") auto
  then show ?thesis
    using distinct_concat_map [where f = j_id and g = "\<lambda>x. if P x then outcome l on w x else [x]", OF _ _ assms]
    by blast
qed

lemma perform_rows_spec:
  assumes "distinct (map j_id (jc_jobs c))" "distinct (map j_id rows)" "set rows \<subseteq> set (jc_jobs c)"
    and "\<forall>r \<in> set rows. \<not> exclusive (j_action r)"
  shows "jc_jobs (perform_rows (scripted w e) (\<lambda>j. online (job_id j)) thread rows job c) =
    concat (map (\<lambda>x. if x \<in> set rows then outcome (jc_last_online_state c) online w x else [x]) (jc_jobs c))"
  using assms
proof (induction rows arbitrary: job c)
  case Nil
  have "concat (map (\<lambda>x. [x]) xs) = xs" for xs :: "job_row list" by (induction xs) auto
  then show ?case by simp
next
  case (Cons r rows)
  let ?job = "fetch_job job r"
  let ?out = "outcome (jc_last_online_state c) online w"
  obtain d where t: "two_tries (scripted w e) ?job c =
      (?job\<lparr>job_try_again := last_word w (j_id r), job_pending_error := d\<rparr>, c)"
    using two_tries_scripted [of w e ?job c] by auto
  let ?j = "?job\<lparr>job_try_again := last_word w (j_id r), job_pending_error := d\<rparr>"
  have j: "job_id ?j = j_id r" "job_param ?j = j_param r" "job_try_again ?j = last_word w (j_id r)"
    by simp_all
  obtain j2 c2 where f: "finish_job thread (online (j_id r)) ?j c = (j2, c2)" by force
  have uniq: "x = r" if "x \<in> set (jc_jobs c)" "j_id x = j_id r" for x
    using Cons.prems(1,3) that by (auto simp: distinct_map inj_on_def)
  have tab: "jc_jobs c2 = concat (map (\<lambda>x. if x = r then ?out r else [x]) (jc_jobs c))"
    using finish_table [where c = c and thread = thread and online = online, OF j(1-3) uniq] f by simp
  have nr: "j_id r \<notin> j_id ` set rows" using Cons.prems(2) by simp
  have rows: "r \<notin> set rows" "\<And>x. x \<in> set (?out r) \<Longrightarrow> x \<notin> set rows"
    using nr by (blast, metis outcome_id imageI)
  have IH: "jc_jobs (perform_rows (scripted w e) (\<lambda>j. online (job_id j)) thread rows j2 c2) =
      concat (map (\<lambda>x. if x \<in> set rows then ?out x else [x]) (jc_jobs c2))"
  proof -
    have "set rows \<subseteq> set (jc_jobs c2)" using Cons.prems(3) rows(1) by (auto simp: tab)
    moreover have "distinct (map j_id (jc_jobs c2))"
      unfolding tab using distinct_outcomes [OF Cons.prems(1), of "\<lambda>x. x = r"]
      by (simp cong: if_cong)
    moreover have "distinct (map j_id rows)" "\<forall>r \<in> set rows. \<not> exclusive (j_action r)"
      using Cons.prems(2,4) by auto
    moreover have "jc_last_online_state c2 = jc_last_online_state c"
      using finish_last_online [where thread = thread and on = "online (j_id r)" and job = ?j and c = c] f
      by simp
    ultimately show ?thesis using Cons.IH [of c2 j2] by (simp cong: if_cong)
  qed
  have "concat (map (\<lambda>x. if x \<in> set rows then ?out x else [x])
          (concat (map (\<lambda>x. if x = r then ?out r else [x]) T))) =
      concat (map (\<lambda>x. if x \<in> set (r # rows) then ?out x else [x]) T)" for T
  proof (induction T)
    case (Cons x T)
    have "concat (map (\<lambda>x. if x \<in> set rows then ?out x else [x]) ys) = ys"
      if "\<And>y. y \<in> set ys \<Longrightarrow> y \<notin> set rows" for ys
      using that by (induction ys) auto
    from this [of "?out r", OF rows(2)] show ?case using Cons rows(1) by auto
  qed simp
  moreover have "\<not> exclusive (j_action r)" using Cons.prems(4) by simp
  ultimately show ?case using t f IH tab by (simp add: Let_def)
qed


definition sample_job :: "nat \<Rightarrow> int \<Rightarrow> int \<Rightarrow> job_row" where
  "sample_job i action desired =
     \<lparr>j_id = i, j_added = 10, j_desired = desired, j_action = action, j_foreign = 77, j_param = [],
      j_thread = (if action < DC_SMTP_THREAD then DC_IMAP_THREAD else DC_SMTP_THREAD)\<rparr>"

definition sample_queue :: "job_row list \<Rightarrow> jobs_ctx" where
  "sample_queue rows =
     \<lparr>jc_jobs = rows, jc_imap_needed = 0, jc_smtp_needed = 0, jc_condflag = False, jc_suspend = False,
      jc_in_idleing = False, jc_last_online_state = 0, jc_effects = []\<rparr>"

lemma no_params [simp]: "times_of [] = 0" "param_ok []"
  by code_simp+


text \<open>
  C36: A job whose tries all fail stays in the queue forever, and the user is never told that a message
  could not be sent.  Whatever sequence of passes the two threads make, at whatever times and with
  the network up or down, the table has the same ids and the message is never marked as failed: in
  \<open>dc_job_perform\<close> the statement \<open>last_online_state == is_online;\<close> compares where it has to assign, so
  the tries are never counted and the limit \<open>JOB_RETRIES\<close> of five is never reached.
\<close>

theorem failing_jobs_never_given_up:
  assumes "always_fails h" and "jc_last_online_state c = 0" and "list_all row_alive (jc_jobs c)"
  shows "map j_id (jc_jobs (foldl (pass h) c passes)) = map j_id (jc_jobs c) \<and>
    jc_effects (foldl (pass h) c passes) = jc_effects c"
proof -
  have "always_fails h \<and> queue_alive (map j_id (jc_jobs c)) (jc_effects c) c"
    using assms by (simp add: queue_alive_def list_all_iff)
  from queue.run_inv [OF this] show ?thesis by (simp add: queue_alive_def)
qed

lemma failing_jobs_never_given_up_witness:
  "map j_id (jc_jobs (foldl (pass (\<lambda>n job c. (dc_job_try_again_later job DC_AT_ONCE None, c)))
     (sample_queue [sample_job 1 5900 0]) (replicate 1000 (50, 5000, \<lambda>j. True)))) = [1]"
proof -
  let ?h = "\<lambda>n job c. (dc_job_try_again_later job DC_AT_ONCE None, c)"
  have "always_fails ?h" unfolding always_fails_def by (auto simp: fails_def)
  moreover have "list_all row_alive (jc_jobs (sample_queue [sample_job 1 5900 0]))"
    by (simp add: sample_queue_def sample_job_def row_alive_def exclusive_def)
  ultimately show ?thesis
    using failing_jobs_never_given_up [where h = ?h and c = "sample_queue [sample_job 1 5900 0]"
        and passes = "replicate 1000 (50, 5000, \<lambda>j. True)"]
    by (simp add: sample_queue_def sample_job_def)
qed

section \<open>Waking the SMTP thread\<close>

text \<open>
  \<open>dc_perform_smtp_jobs\<close> and \<open>dc_perform_smtp_idle\<close> run in turn in the SMTP thread; the other threads call
  \<open>dc_interrupt_smtp_idle\<close> and \<open>dc_suspend_smtp_thread\<close>.  A step is one critical section of
  \<open>smtpidle_condmutex\<close>.  In \<open>Waiting\<close> the thread is in \<open>pthread_cond_timedwait\<close>, which has released the
  mutex.  In \<open>Spinning\<close> it runs through the outer loop of \<open>dc_perform_smtp_idle\<close> with the mutex locked:
  the inner loop does not wait when the flag is set, and the outer one does not end while the thread
  is suspended.  \<open>pending\<close> is a ghost: an interrupt that no pass over the jobs has begun after.
\<close>

datatype smtp_pc = In_Loop | In_Jobs | After_Jobs | Waiting | Spinning

record smtp_thread =
  st_pc :: smtp_pc
  st_needed :: nat
  st_condflag :: bool
  st_suspend :: bool
  st_pending :: bool

text \<open>What the thread does in the loops of \<open>dc_perform_smtp_idle\<close> before it releases the mutex.\<close>

definition idle_test :: "smtp_thread \<Rightarrow> smtp_thread" where
  "idle_test s =
     (if st_suspend s then (if st_condflag s then s\<lparr>st_pc := Spinning\<rparr> else s\<lparr>st_pc := Waiting\<rparr>)
      else s\<lparr>st_pc := In_Loop, st_condflag := False\<rparr>)"

definition idle_start :: "smtp_thread \<Rightarrow> smtp_thread" where
  "idle_start s =
     (if st_needed s = DC_JOBS_NEEDED_AT_ONCE then s\<lparr>st_pc := In_Loop\<rparr>
      else if st_condflag s then idle_test s else s\<lparr>st_pc := Waiting\<rparr>)"

definition mutex_free :: "smtp_thread \<Rightarrow> bool" where
  "mutex_free s \<longleftrightarrow> st_pc s \<noteq> Spinning"

inductive smtp_step :: "smtp_thread \<Rightarrow> smtp_thread \<Rightarrow> bool" where
  begin_jobs: "st_pc s = In_Loop \<Longrightarrow> smtp_step s (s\<lparr>st_pc := In_Jobs, st_needed := 0, st_pending := False\<rparr>)"
| job_failed: "st_pc s = In_Jobs \<Longrightarrow> smtp_step s (s\<lparr>st_needed := DC_JOBS_NEEDED_AVOID_DOS\<rparr>)"
| end_jobs: "st_pc s = In_Jobs \<Longrightarrow> smtp_step s (s\<lparr>st_pc := After_Jobs\<rparr>)"
| idle: "st_pc s = After_Jobs \<Longrightarrow> smtp_step s (idle_start s)"
| wake: "st_pc s = Waiting \<Longrightarrow> smtp_step s (idle_test s)"
| interrupt: "mutex_free s \<Longrightarrow>
    smtp_step s (s\<lparr>st_needed := DC_JOBS_NEEDED_AT_ONCE, st_condflag := True, st_pending := True\<rparr>)"
| suspend: "mutex_free s \<Longrightarrow> smtp_step s (s\<lparr>st_suspend := True\<rparr>)"
| suspended: "st_pc s = Waiting \<Longrightarrow> st_suspend s \<Longrightarrow> smtp_step s (s\<lparr>st_needed := 0\<rparr>)"
| resume: "mutex_free s \<Longrightarrow> smtp_step s (s\<lparr>st_suspend := False\<rparr>)"

code_pred smtp_step .

inductive_cases smtp_stepE: "smtp_step s t"

inductive smtp_reach :: "smtp_thread \<Rightarrow> bool" where
  init: "smtp_reach \<lparr>st_pc = In_Loop, st_needed = 0, st_condflag = False, st_suspend = False, st_pending = False\<rparr>"
| step: "smtp_reach s \<Longrightarrow> smtp_step s t \<Longrightarrow> smtp_reach t"

text \<open>The thread stays in the wait: no flag is set.\<close>

definition smtp_blocked :: "smtp_thread \<Rightarrow> bool" where
  "smtp_blocked s \<longleftrightarrow> st_pc s = Waiting \<and> \<not> st_condflag s"

lemmas idle_defs = idle_test_def idle_start_def mutex_free_def

lemma smtp_pending:
  "smtp_reach s \<Longrightarrow>
    (st_pending s \<longrightarrow> st_condflag s \<or> st_pc s = In_Loop) \<and> (st_pc s = Spinning \<longrightarrow> st_condflag s \<and> st_suspend s)"
  by (induction rule: smtp_reach.induct) (auto elim!: smtp_stepE simp: idle_defs split: if_splits)

text \<open>
  C35: No wake-up is lost.  In every interleaving of the SMTP thread with threads that add jobs and
  threads that suspend it, the thread does not sleep on a job that was added after its last pass began;
  this holds although a failing job of that pass overwrites \<open>perform_smtp_jobs_needed\<close>, which was to say
  that jobs are waiting: the condition flag set with it keeps the thread from waiting.
\<close>

theorem smtp_never_sleeps_on_pending:
  assumes "smtp_reach s" and "st_pending s"
  shows "\<not> smtp_blocked s"
  using smtp_pending [OF assms(1)] assms(2) by (auto simp: smtp_blocked_def)

definition smtp_state :: "smtp_pc \<Rightarrow> nat \<Rightarrow> bool \<Rightarrow> bool \<Rightarrow> bool \<Rightarrow> smtp_thread" where
  "smtp_state pc needed flag susp pending =
     \<lparr>st_pc = pc, st_needed = needed, st_condflag = flag, st_suspend = susp, st_pending = pending\<rparr>"

lemma reach_interrupted: "smtp_reach (smtp_state After_Jobs 2 True False True)"
proof -
  have "smtp_reach (smtp_state In_Jobs 0 False False False)"
    using smtp_reach.step [OF smtp_reach.init smtp_step.begin_jobs] by (simp add: smtp_state_def)
  from smtp_reach.step [OF this smtp_step.interrupt] have "smtp_reach (smtp_state In_Jobs 1 True False True)"
    by (simp add: smtp_state_def mutex_free_def)
  from smtp_reach.step [OF this smtp_step.job_failed] have "smtp_reach (smtp_state In_Jobs 2 True False True)"
    by (simp add: smtp_state_def)
  from smtp_reach.step [OF this smtp_step.end_jobs] show ?thesis by (simp add: smtp_state_def)
qed

lemma smtp_never_sleeps_on_pending_witness:
  "\<not> smtp_blocked (smtp_state After_Jobs 2 True False True)"
  by (rule smtp_never_sleeps_on_pending [OF reach_interrupted]) (simp add: smtp_state_def)

text \<open>
  An interrupt of the suspended SMTP thread is a deadlock.  A configure or an import job suspends the
  thread; a job that is added meanwhile sets the condition flag, and \<open>dc_perform_smtp_idle\<close> then loops
  with the mutex locked, so that \<open>dc_suspend_smtp_thread\<close> can never take the mutex to end the
  suspension.  Such a state is reached, and the states in which no thread can make a step are exactly
  those: without a suspension the threads always go on.
\<close>

theorem smtp_deadlocks_when_suspended:
  "(\<exists>s. smtp_reach s \<and> st_pc s = Spinning) \<and>
   (\<forall>s. (\<forall>t. \<not> smtp_step s t) \<longleftrightarrow> st_pc s = Spinning) \<and>
   (\<forall>s. \<not> (smtp_reach s \<and> st_pc s = Spinning \<and> \<not> (st_suspend s \<and> st_condflag s)))"
proof -
  have "smtp_reach (smtp_state After_Jobs 2 True True True)"
    using smtp_reach.step [OF reach_interrupted smtp_step.suspend]
    by (simp add: smtp_state_def mutex_free_def)
  from smtp_reach.step [OF this smtp_step.idle] have "smtp_reach (smtp_state Spinning 2 True True True)"
    by (simp add: smtp_state_def idle_defs)
  moreover have "st_pc (smtp_state Spinning 2 True True True) = Spinning" by (simp add: smtp_state_def)
  moreover have "(\<forall>t. \<not> smtp_step s t) \<longleftrightarrow> st_pc s = Spinning" for s
  proof
    show "st_pc s = Spinning" if "\<forall>t. \<not> smtp_step s t"
      using that smtp_step.interrupt [of s] by (auto simp: mutex_free_def)
    show "\<forall>t. \<not> smtp_step s t" if "st_pc s = Spinning"
      using that by (auto simp: mutex_free_def elim: smtp_stepE)
  qed
  ultimately show ?thesis using smtp_pending by blast
qed

section \<open>Guaranteed encryption\<close>

text \<open>What a handler adds to the list of effects.\<close>

definition new_effects :: "jobs_ctx \<Rightarrow> jobs_ctx \<Rightarrow> effect list" where
  "new_effects c c' = drop (length (jc_effects c)) (jc_effects c')"

lemma dc_job_add_effects [simp]: "jc_effects (dc_job_add t c a f p d) = jc_effects c"
  by (simp add: dc_job_add_def dc_interrupt_imap_idle_def dc_interrupt_smtp_idle_def Let_def split: option.split)

lemma emit_effects [simp]: "jc_effects (emit e c) = jc_effects c @ [e]"
  by (simp add: emit_def)

text \<open>
  C5: A message whose encryption is guaranteed leaves the device only encrypted, and a message is
  marked as delivered only when it was handed over.  The handler of the SMTP job never sends plain text
  for such a message, whatever the factory, the server and the configuration answer; the message
  is marked as delivered exactly when the server took it or it has no recipients but ourselves; it is
  never both failed and delivered; and a failed message is not tried again.
\<close>

theorem guaranteed_messages_only_encrypted:
  "let (job', c') = dc_job_do_SEND_MSG_TO_SMTP now env job c; es = new_effects c c'; id = job_foreign_id job in
     (Smtp_Send False \<in> set es \<longrightarrow> se_guarantee_e2ee env = 0) \<and>
     (Msg_Delivered id \<in> set es \<longleftrightarrow>
        (se_connected env \<or> se_connect_ok env) \<and> se_load_ok env \<and> \<not> se_increation env \<and>
        (se_recipients env = 0 \<or> (se_render_ok env \<and> (se_guarantee_e2ee env = 0 \<or> se_out_encrypted env) \<and>
           se_send_ok env))) \<and>
     (Msg_Delivered id \<in> set es \<longleftrightarrow> Msg_State id DC_STATE_OUT_DELIVERED \<in> set es) \<and>
     (\<forall>err. Msg_Failed id err \<in> set es \<longrightarrow>
        Msg_Delivered id \<notin> set es \<and> job_try_again job' = job_try_again job)"
  by (simp add: dc_job_do_SEND_MSG_TO_SMTP_def sent_ok_def new_effects_def dc_job_try_again_later_def Let_def)

lemma guaranteed_messages_only_encrypted_witness:
  "\<forall>now job c. Smtp_Send False \<notin> set (new_effects c (snd (dc_job_do_SEND_MSG_TO_SMTP now
     \<lparr>se_connected = True, se_connect_ok = True, se_load_ok = True, se_increation = False, se_recipients = 2,
      se_render_ok = True, se_render_error = None, se_guarantee_e2ee = 1, se_out_encrypted = False,
      se_send_ok = True, se_storage_error = False, se_smtp_error = None, se_no_imap_upload = False,
      se_selftalk = False, se_cmd = 0\<rparr> job c)))"
  using guaranteed_messages_only_encrypted
    [where env = "\<lparr>se_connected = True, se_connect_ok = True, se_load_ok = True, se_increation = False, se_recipients = 2,
      se_render_ok = True, se_render_error = None, se_guarantee_e2ee = 1, se_out_encrypted = False,
      se_send_ok = True, se_storage_error = False, se_smtp_error = None, se_no_imap_upload = False,
      se_selftalk = False, se_cmd = 0\<rparr>"]
  by (simp add: Let_def split_def)

end
