(* ===== verification/Qr.thy ===== *)
theory Qr
  imports Contacts Strencode Param
begin

text \<open>
  \<open>src/dc_qr.c\<close> and the object of \<open>src/dc_lot.c\<close>: what a scanned QR code asks for.  The result is the parsed
  lot, the database, and the contact and the text of the device message that is added to the chat with
  the contact, if any.
\<close>

section \<open>The result of a scan\<close>

abbreviation DC_QR_ASK_VERIFYCONTACT :: int where "DC_QR_ASK_VERIFYCONTACT \<equiv> 200"
abbreviation DC_QR_ASK_VERIFYGROUP :: int where "DC_QR_ASK_VERIFYGROUP \<equiv> 202"
abbreviation DC_QR_FPR_OK :: int where "DC_QR_FPR_OK \<equiv> 210"
abbreviation DC_QR_FPR_WITHOUT_ADDR :: int where "DC_QR_FPR_WITHOUT_ADDR \<equiv> 230"
abbreviation DC_QR_ADDR :: int where "DC_QR_ADDR \<equiv> 320"
abbreviation DC_QR_TEXT :: int where "DC_QR_TEXT \<equiv> 330"
abbreviation DC_QR_URL :: int where "DC_QR_URL \<equiv> 332"
abbreviation DC_QR_ERROR :: int where "DC_QR_ERROR \<equiv> 400"
abbreviation DC_ORIGIN_UNHANDLED_QR_SCAN :: int where "DC_ORIGIN_UNHANDLED_QR_SCAN \<equiv> 0x80"
abbreviation DC_OPENPGP4FPR_SCHEME :: string where "DC_OPENPGP4FPR_SCHEME \<equiv> ''OPENPGP4FPR:''"
abbreviation MAILTO_SCHEME :: string where "MAILTO_SCHEME \<equiv> ''mailto:''"
abbreviation MATMSG_SCHEME :: string where "MATMSG_SCHEME \<equiv> ''MATMSG:''"
abbreviation VCARD_BEGIN :: string where "VCARD_BEGIN \<equiv> ''BEGIN:VCARD''"
abbreviation SMTP_SCHEME :: string where "SMTP_SCHEME \<equiv> ''SMTP:''"

record dc_lot_t =
  lot_text1_meaning :: int
  lot_text1 :: cptr
  lot_text2 :: cptr
  lot_timestamp :: int
  lot_state :: int
  lot_id :: nat
  lot_fingerprint :: cptr
  lot_invitenumber :: cptr
  lot_auth :: cptr

definition dc_lot_new :: dc_lot_t where
  "dc_lot_new = \<lparr>lot_text1_meaning = 0, lot_text1 = None, lot_text2 = None, lot_timestamp = 0, lot_state = 0,
     lot_id = 0, lot_fingerprint = None, lot_invitenumber = None, lot_auth = None\<rparr>"

definition dc_lot_empty :: "dc_lot_t \<Rightarrow> dc_lot_t" where
  "dc_lot_empty lot = lot\<lparr>lot_text1 := None, lot_text1_meaning := 0, lot_text2 := None, lot_fingerprint := None,
     lot_invitenumber := None, lot_auth := None, lot_timestamp := 0, lot_state := 0, lot_id := 0\<rparr>"

section \<open>Splitting the text\<close>

text \<open>The local variables of \<open>dc_check_qr\<close>.\<close>

record qr_vars =
  qv_addr :: cptr
  qv_fingerprint :: cptr
  qv_name :: cptr
  qv_invitenumber :: cptr
  qv_auth :: cptr
  qv_grpid :: cptr
  qv_grpname :: cptr

definition no_vars :: qr_vars where
  "no_vars = \<lparr>qv_addr = None, qv_fingerprint = None, qv_name = None, qv_invitenumber = None, qv_auth = None,
     qv_grpid = None, qv_grpname = None\<rparr>"

text \<open>\<open>strncasecmp(s, p, strlen(p)) == 0\<close>, and a text cut at a character.\<close>

definition istarts_with :: "string \<Rightarrow> string \<Rightarrow> bool" where
  "istarts_with p s \<longleftrightarrow> strcaseeq (take (length p) s) p"

definition cut_at :: "char \<Rightarrow> string \<Rightarrow> string" where
  "cut_at c s = takeWhile (\<lambda>x. x \<noteq> c) s"

definition scan_params :: "qr_vars \<Rightarrow> param \<Rightarrow> qr_vars" where
  "scan_params v param =
     (case dc_param_get param (CHR ''a'') None of
        None \<Rightarrow> v
      | Some addr \<Rightarrow>
          let name = (case dc_param_get param (CHR ''n'') None of
                        None \<Rightarrow> None | Some urlencoded \<Rightarrow> Some (dc_normalize_name (dc_urldecode (Some urlencoded))));
              grpid = dc_param_get param (CHR ''x'') None;
              grpname = (if grpid = None then None
                         else (case dc_param_get param (CHR ''g'') None of
                                 None \<Rightarrow> None | Some urlencoded \<Rightarrow> Some (dc_urldecode (Some urlencoded))))
          in v\<lparr>qv_addr := Some addr, qv_name := name, qv_invitenumber := dc_param_get param (CHR ''i'') None,
               qv_auth := dc_param_get param (CHR ''s'') None, qv_grpid := grpid, qv_grpname := grpname\<rparr>)"

definition scan_openpgp4fpr :: "string \<Rightarrow> qr_vars" where
  "scan_openpgp4fpr payload =
     (let v = (case strchr payload (CHR ''#'') of
                 None \<Rightarrow> no_vars
               | Some fragment \<Rightarrow> scan_params no_vars (dc_param_set_urlencoded dc_param_new (Some (tl fragment))))
      in v\<lparr>qv_fingerprint := dc_normalize_fingerprint (Some (cut_at (CHR ''#'') payload))\<rparr>)"

text \<open>The text in front of the second semicolon.\<close>

definition two_names :: "string \<Rightarrow> string" where
  "two_names value =
     (case strchr value (CHR '';'') of
        None \<Rightarrow> value
      | Some semicolon \<Rightarrow>
          (case strchr (tl semicolon) (CHR '';'') of
             None \<Rightarrow> value
           | Some semicolon \<Rightarrow> take (length value - length semicolon) value))"

definition vcard_line :: "qr_vars \<Rightarrow> string \<Rightarrow> qr_vars" where
  "vcard_line v l =
     (let key = dc_trim l in
      case strchr key (CHR '':'') of
        None \<Rightarrow> v
      | Some value \<Rightarrow>
          let value = tl value; key = cut_at (CHR '';'') (cut_at (CHR '':'') key) in
          if strcaseeq key ''EMAIL'' then v\<lparr>qv_addr := Some (cut_at (CHR '';'') value)\<rparr>
          else if strcaseeq key ''N'' then
            v\<lparr>qv_name := Some (dc_normalize_name
                 (dc_strdup (fst (dc_str_replace (Some (two_names value)) (Some '';'') (Some '','')))))\<rparr>
          else v)"

text \<open>\<open>Inl\<close> is the text of the error.\<close>

definition split_qr :: "string \<Rightarrow> string + qr_vars" where
  "split_qr qr =
     (if istarts_with DC_OPENPGP4FPR_SCHEME qr then Inr (scan_openpgp4fpr (drop (length DC_OPENPGP4FPR_SCHEME) qr))
      else if istarts_with MAILTO_SCHEME qr then
        Inr (no_vars\<lparr>qv_addr := Some (cut_at (CHR ''?'') (drop (length MAILTO_SCHEME) qr))\<rparr>)
      else if istarts_with SMTP_SCHEME qr then
        Inr (no_vars\<lparr>qv_addr := Some (cut_at (CHR '':'') (drop (length SMTP_SCHEME) qr))\<rparr>)
      else if istarts_with MATMSG_SCHEME qr then
        (case strstr qr ''TO:'' of
           None \<Rightarrow> Inl ''Bad e-mail address.''
         | Some to \<Rightarrow> Inr (no_vars\<lparr>qv_addr := Some (cut_at (CHR '';'') (drop 3 to))\<rparr>))
      else if istarts_with VCARD_BEGIN qr then Inr (foldl vcard_line no_vars (dc_split_into_lines qr))
      else Inr no_vars)"

section \<open>Checking the parameters\<close>

definition check_vars :: "qr_vars \<Rightarrow> string + qr_vars" where
  "check_vars v =
     (let v = v\<lparr>qv_addr := (case qv_addr v of None \<Rightarrow> None
                           | Some a \<Rightarrow> Some (dc_addr_normalize (Some (dc_urldecode (Some a)))))\<rparr> in
      case qv_addr v of
        Some a \<Rightarrow>
          if \<not> rough_addr a then Inl ''Bad e-mail address.''
          else (case qv_fingerprint v of
                  Some f \<Rightarrow> if length f \<noteq> 40 then Inl ''Bad fingerprint length in QR code.'' else Inr v
                | None \<Rightarrow> Inr v)
      | None \<Rightarrow>
          (case qv_fingerprint v of
             Some f \<Rightarrow> if length f \<noteq> 40 then Inl ''Bad fingerprint length in QR code.'' else Inr v
           | None \<Rightarrow> Inr v))"

definition qr_error :: "string \<Rightarrow> dc_lot_t" where
  "qr_error e = dc_lot_new\<lparr>lot_state := DC_QR_ERROR, lot_text1 := Some e\<rparr>"

definition qr_contact :: "database \<Rightarrow> cptr \<Rightarrow> cptr \<Rightarrow> nat \<times> database" where
  "qr_contact db name addr =
     (let (contact_id, sth_modified, db) = dc_add_or_lookup_contact db name addr DC_ORIGIN_UNHANDLED_QR_SCAN
      in (contact_id, db))"

definition only_fingerprint ::
    "database \<Rightarrow> peer_row list \<Rightarrow> string \<Rightarrow> dc_lot_t \<times> database \<times> (nat \<times> string) option" where
  "only_fingerprint db acpeerstates fingerprint =
     (let (found, ps) = dc_apeerstate_load_by_fingerprint dc_apeerstate_new acpeerstates (Some fingerprint) in
      if found then
        let (contact_id, db) = qr_contact db None (ps_addr ps)
        in (dc_lot_new\<lparr>lot_state := DC_QR_FPR_OK, lot_id := contact_id\<rparr>, db,
            Some (contact_id, dc_strdup (ps_addr ps) @ '' verified.''))
      else (dc_lot_new\<lparr>lot_text1 := Some (dc_format_fingerprint fingerprint), lot_state := DC_QR_FPR_WITHOUT_ADDR\<rparr>,
            db, None))"

definition secure_join_lot ::
    "database \<Rightarrow> qr_vars \<Rightarrow> string \<Rightarrow> string \<Rightarrow> string \<Rightarrow> string \<Rightarrow> dc_lot_t \<times> database" where
  "secure_join_lot db v fingerprint addr invitenumber auth =
     (let lot = (case (qv_grpid v, qv_grpname v) of
                   (Some grpid, Some grpname) \<Rightarrow>
                     dc_lot_new\<lparr>lot_state := DC_QR_ASK_VERIFYGROUP, lot_text1 := Some grpname, lot_text2 := Some grpid\<rparr>
                 | _ \<Rightarrow> dc_lot_new\<lparr>lot_state := DC_QR_ASK_VERIFYCONTACT\<rparr>);
          (contact_id, db) = qr_contact db (qv_name v) (Some addr)
      in (lot\<lparr>lot_id := contact_id, lot_fingerprint := Some fingerprint, lot_invitenumber := Some invitenumber,
              lot_auth := Some auth\<rparr>, db))"

definition dc_check_qr ::
    "database \<Rightarrow> peer_row list \<Rightarrow> cptr \<Rightarrow> dc_lot_t \<times> database \<times> (nat \<times> string) option" where
  "dc_check_qr db acpeerstates qr =
     (case qr of None \<Rightarrow> (dc_lot_new, db, None)
      | Some q \<Rightarrow>
          (case split_qr q of Inl e \<Rightarrow> (qr_error e, db, None)
           | Inr v \<Rightarrow>
               (case check_vars v of Inl e \<Rightarrow> (qr_error e, db, None)
                | Inr v \<Rightarrow>
                    (case (qv_fingerprint v, qv_addr v, qv_invitenumber v, qv_auth v) of
                       (Some fingerprint, Some addr, Some invitenumber, Some auth) \<Rightarrow>
                         let (lot, db) = secure_join_lot db v fingerprint addr invitenumber auth in (lot, db, None)
                     | (Some fingerprint, _, _, _) \<Rightarrow> only_fingerprint db acpeerstates fingerprint
                     | (None, Some addr, _, _) \<Rightarrow>
                         let (contact_id, db) = qr_contact db (qv_name v) (Some addr)
                         in (dc_lot_new\<lparr>lot_state := DC_QR_ADDR, lot_id := contact_id\<rparr>, db, None)
                     | _ \<Rightarrow>
                         (if starts_with ''http://'' q \<or> starts_with ''https://'' q
                          then (dc_lot_new\<lparr>lot_state := DC_QR_URL, lot_text1 := Some q\<rparr>, db, None)
                          else (dc_lot_new\<lparr>lot_state := DC_QR_TEXT, lot_text1 := Some q\<rparr>, db, None))))))"

end
