(* ===== verification/Securejoin.thy ===== *)
theory Securejoin
  imports Chats Qr
begin

text \<open>
  \<open>src/dc_token.c\<close> and \<open>src/dc_securejoin.c\<close>: the tokens of invitations, the QR code that offers a secure join, and the
  handshake of the inviter (Alice) and the joiner (Bob), composed with the scanner (theory \<open>Qr\<close>), the peer
  states, the contacts and the chats.  \<open>pgp\<close> is the fingerprint function of netpgp, \<open>stock\<close> the stock strings.
  Messages to send go to \<open>db_outbox\<close>, device messages to \<open>sj_device_msgs\<close>; log lines are left out.
\<close>

section \<open>Tokens\<close>

abbreviation DC_TOKEN_INVITENUMBER :: int where "DC_TOKEN_INVITENUMBER \<equiv> 100"
abbreviation DC_TOKEN_AUTH :: int where "DC_TOKEN_AUTH \<equiv> 110"
abbreviation SQLITE_ROW :: int where "SQLITE_ROW \<equiv> 100"
abbreviation SQLITE_DONE :: int where "SQLITE_DONE \<equiv> 101"
abbreviation DC_VC_AUTH_REQUIRED :: int where "DC_VC_AUTH_REQUIRED \<equiv> 2"
abbreviation DC_VC_CONTACT_CONFIRM :: int where "DC_VC_CONTACT_CONFIRM \<equiv> 6"
abbreviation DC_BOB_ERROR :: int where "DC_BOB_ERROR \<equiv> 0"
abbreviation DC_BOB_SUCCESS :: int where "DC_BOB_SUCCESS \<equiv> 1"
abbreviation DC_HANDSHAKE_CONTINUE_NORMAL_PROCESSING :: u32 where "DC_HANDSHAKE_CONTINUE_NORMAL_PROCESSING \<equiv> 1"
abbreviation DC_HANDSHAKE_STOP_NORMAL_PROCESSING :: u32 where "DC_HANDSHAKE_STOP_NORMAL_PROCESSING \<equiv> 2"
abbreviation DC_HANDSHAKE_ADD_DELETE_JOB :: u32 where "DC_HANDSHAKE_ADD_DELETE_JOB \<equiv> 4"
abbreviation DC_EVENT_SECUREJOIN_INVITER_PROGRESS :: int where "DC_EVENT_SECUREJOIN_INVITER_PROGRESS \<equiv> 2060"
abbreviation DC_EVENT_SECUREJOIN_JOINER_PROGRESS :: int where "DC_EVENT_SECUREJOIN_JOINER_PROGRESS \<equiv> 2061"
abbreviation DC_PARAM_CMD_ARG3 :: char where "DC_PARAM_CMD_ARG3 \<equiv> CHR ''G''"
abbreviation DC_PARAM_CMD_ARG4 :: char where "DC_PARAM_CMD_ARG4 \<equiv> CHR ''H''"
abbreviation DC_FP_ADD_AUTOCRYPT_HEADER :: int where "DC_FP_ADD_AUTOCRYPT_HEADER \<equiv> 1"

record token_row =
  tk_namespc :: int
  tk_foreign_id :: nat
  tk_token :: string
  tk_timestamp :: int

definition dc_token_save :: "int \<Rightarrow> token_row list \<Rightarrow> int \<Rightarrow> nat \<Rightarrow> cptr \<Rightarrow> token_row list" where
  "dc_token_save now tokens namespc foreign_id token =
     (case token of None \<Rightarrow> tokens
      | Some t \<Rightarrow> tokens @ [\<lparr>tk_namespc = namespc, tk_foreign_id = foreign_id, tk_token = t, tk_timestamp = now\<rparr>])"

definition dc_token_lookup :: "token_row list \<Rightarrow> int \<Rightarrow> nat \<Rightarrow> cptr" where
  "dc_token_lookup tokens namespc foreign_id =
     (case find (\<lambda>r. tk_namespc r = namespc \<and> tk_foreign_id r = foreign_id) tokens of
        None \<Rightarrow> None | Some r \<Rightarrow> dc_strdup_keep_null (Some (tk_token r)))"

text \<open>What \<open>sqlite3_step\<close> returns for a query with these rows.\<close>

definition step_result :: "'a list \<Rightarrow> int" where
  "step_result rows = (if rows = [] then SQLITE_DONE else SQLITE_ROW)"

definition dc_token_exists :: "token_row list \<Rightarrow> int \<Rightarrow> cptr \<Rightarrow> bool" where
  "dc_token_exists tokens namespc token =
     (case token of None \<Rightarrow> False
      | Some t \<Rightarrow> step_result (filter (\<lambda>r. tk_namespc r = namespc \<and> tk_token r = t) tokens) \<noteq> 0)"

section \<open>The context\<close>

record sj_ctx =
  sj_db :: database
  sj_peers :: "peer_row list"
  sj_tokens :: "token_row list"
  sj_keypairs :: "keypair_row list"
  sj_bob_expects :: int
  sj_bobs_status :: int
  sj_bobs_qr_scan :: "dc_lot_t option"
  sj_ongoing_running :: bool
  sj_shall_stop_ongoing :: bool
  sj_device_msgs :: "(nat \<times> string) list"

text \<open>What the handshake reads of a mail: header fields, whether it was encrypted, the fingerprints of its signatures.\<close>

record sj_mail =
  mail_field :: "string \<Rightarrow> cptr"
  mail_encrypted :: bool
  mail_signatures :: "string list"

definition with_db :: "(database \<Rightarrow> database) \<Rightarrow> sj_ctx \<Rightarrow> sj_ctx" where
  "with_db f c = c\<lparr>sj_db := f (sj_db c)\<rparr>"

definition sj_event :: "int \<Rightarrow> nat \<Rightarrow> nat \<Rightarrow> sj_ctx \<Rightarrow> sj_ctx" where
  "sj_event event data1 data2 = with_db (\<lambda>db. cb db event data1 data2)"

definition dc_add_device_msg :: "nat \<Rightarrow> string \<Rightarrow> sj_ctx \<Rightarrow> sj_ctx" where
  "dc_add_device_msg chat msg_text c = c\<lparr>sj_device_msgs := sj_device_msgs c @ [(chat, msg_text)]\<rparr>"

definition dc_alloc_ongoing :: "sj_ctx \<Rightarrow> bool \<times> sj_ctx" where
  "dc_alloc_ongoing c =
     (if sj_ongoing_running c \<or> \<not> sj_shall_stop_ongoing c then (False, c)
      else (True, c\<lparr>sj_ongoing_running := True, sj_shall_stop_ongoing := False\<rparr>))"

definition dc_free_ongoing :: "sj_ctx \<Rightarrow> sj_ctx" where
  "dc_free_ongoing c = c\<lparr>sj_ongoing_running := False, sj_shall_stop_ongoing := True\<rparr>"

definition dc_stop_ongoing_process :: "sj_ctx \<Rightarrow> sj_ctx" where
  "dc_stop_ongoing_process c =
     (if sj_ongoing_running c \<and> \<not> sj_shall_stop_ongoing c then c\<lparr>sj_shall_stop_ongoing := True\<rparr> else c)"

section \<open>Tools\<close>

definition dc_handle_degrade_event :: "stock \<Rightarrow> sj_ctx \<Rightarrow> dc_apeerstate_t \<Rightarrow> sj_ctx" where
  "dc_handle_degrade_event stock c peerstate =
     (if ps_degrade_event peerstate AND DC_DE_FINGERPRINT_CHANGED \<noteq> 0 then
        let addr = dc_strdup (ps_addr peerstate); contact_id = contact_rowid (sj_db c) addr in
        if contact_id = 0 then c
        else
          let (chat, blocked, db) =
                dc_create_or_lookup_nchat_by_contact_id stock (sj_db c) contact_id DC_CHAT_DEADDROP_BLOCKED;
              c = dc_add_device_msg chat (''Changed setup for '' @ addr) (c\<lparr>sj_db := db\<rparr>)
          in sj_event DC_EVENT_CHAT_MODIFIED chat 0 c
      else c)"

definition encrypted_and_signed :: "sj_mail \<Rightarrow> cptr \<Rightarrow> bool" where
  "encrypted_and_signed mail expected_fingerprint =
     (if \<not> mail_encrypted mail then False
      else if mail_signatures mail = [] then False
      else (case expected_fingerprint of None \<Rightarrow> False
            | Some fp \<Rightarrow> list_ex (\<lambda>s. strcaseeq s fp) (mail_signatures mail)))"

definition get_self_fingerprint :: "(u8 list \<Rightarrow> u8 list option) \<Rightarrow> sj_ctx \<Rightarrow> cptr" where
  "get_self_fingerprint pgp c =
     (case dc_sqlite3_get_config (db_config (sj_db c)) (Some ''configured_addr'') None of
        None \<Rightarrow> None
      | Some self_addr \<Rightarrow>
          let (ok, self_key) = dc_key_load_self_public dc_key_new (Some self_addr) (sj_keypairs c)
          in if \<not> ok then None else Some (dc_key_get_fingerprint pgp (Some self_key)))"

definition chat_id_2_contact_id :: "database \<Rightarrow> nat \<Rightarrow> nat" where
  "chat_id_2_contact_id db chat = (case dc_get_chat_contacts db chat of [contact_id] \<Rightarrow> contact_id | _ \<Rightarrow> 0)"

definition fingerprint_equals_sender :: "stock \<Rightarrow> sj_ctx \<Rightarrow> string \<Rightarrow> nat \<Rightarrow> bool" where
  "fingerprint_equals_sender stock c fingerprint chat =
     (case dc_get_chat_contacts (sj_db c) chat of
        [contact_id] \<Rightarrow>
          let (ok, contact) = dc_contact_load_from_db (stock DC_STR_SELF []) dc_contact_new (sj_db c) contact_id;
              (found, ps) = dc_apeerstate_load_by_addr dc_apeerstate_new (sj_peers c) (c_addr contact)
          in if \<not> ok \<or> \<not> found then False
             else strcaseeq (dc_strdup (dc_normalize_fingerprint (Some fingerprint)))
                    (dc_strdup (ps_public_key_fingerprint ps))
      | _ \<Rightarrow> False)"

definition mark_peer_as_verified :: "sj_ctx \<Rightarrow> string \<Rightarrow> bool \<times> sj_ctx" where
  "mark_peer_as_verified c fingerprint =
     (let (found, ps) = dc_apeerstate_load_by_fingerprint dc_apeerstate_new (sj_peers c) (Some fingerprint) in
      if \<not> found then (False, c)
      else
        let (ok, ps) = dc_apeerstate_set_verified ps DC_PS_PUBLIC_KEY fingerprint DC_BIDIRECT_VERIFIED in
        if \<not> ok then (False, c)
        else
          let ps = ps\<lparr>ps_prefer_encrypt := DC_PE_MUTUAL, ps_to_save := ps_to_save ps OR DC_SAVE_ALL\<rparr>
          in (True, c\<lparr>sj_peers := snd (dc_apeerstate_save_to_db ps (sj_peers c) False)\<rparr>))"

definition handshake_param :: "string \<Rightarrow> cptr \<Rightarrow> cptr \<Rightarrow> cptr \<Rightarrow> param" where
  "handshake_param step param2 fingerprint grpid =
     (let p = dc_param_set (dc_param_set_int dc_param_new DC_PARAM_CMD DC_CMD_SECUREJOIN_MESSAGE) DC_PARAM_CMD_ARG (Some step);
          p = (if param2 \<noteq> None then dc_param_set p DC_PARAM_CMD_ARG2 param2 else p);
          p = (if fingerprint \<noteq> None then dc_param_set p DC_PARAM_CMD_ARG3 fingerprint else p);
          p = (if grpid \<noteq> None then dc_param_set p DC_PARAM_CMD_ARG4 grpid else p)
      in if step = ''vg-request'' \<or> step = ''vc-request''
         then dc_param_set_int p DC_PARAM_FORCE_PLAINTEXT DC_FP_ADD_AUTOCRYPT_HEADER
         else dc_param_set_int p DC_PARAM_GUARANTEE_E2EE 1)"

definition send_handshake_msg :: "nat \<Rightarrow> string \<Rightarrow> cptr \<Rightarrow> cptr \<Rightarrow> cptr \<Rightarrow> sj_ctx \<Rightarrow> sj_ctx" where
  "send_handshake_msg chat step param2 fingerprint grpid =
     with_db (\<lambda>db. db\<lparr>db_outbox := db_outbox db @
       [(chat, ''Secure-Join: '' @ step, handshake_param step param2 fingerprint grpid)]\<rparr>)"

definition contact_addr_or_mark :: "stock \<Rightarrow> sj_ctx \<Rightarrow> nat \<Rightarrow> string" where
  "contact_addr_or_mark stock c chat =
     (case dc_get_contact (stock DC_STR_SELF []) (sj_db c) (chat_id_2_contact_id (sj_db c) chat) of
        None \<Rightarrow> ''?'' | Some contact \<Rightarrow> dc_strdup (c_addr contact))"

definition could_not_establish_secure_connection :: "stock \<Rightarrow> nat \<Rightarrow> sj_ctx \<Rightarrow> sj_ctx" where
  "could_not_establish_secure_connection stock chat c =
     dc_add_device_msg chat (''Could not establish secure connection to '' @ contact_addr_or_mark stock c chat @ ''.'') c"

definition secure_connection_established :: "stock \<Rightarrow> nat \<Rightarrow> sj_ctx \<Rightarrow> sj_ctx" where
  "secure_connection_established stock chat c =
     sj_event DC_EVENT_CHAT_MODIFIED chat 0
       (dc_add_device_msg chat (''Secure connection to '' @ contact_addr_or_mark stock c chat @ '' established.'') c)"

definition end_bobs_joining :: "int \<Rightarrow> sj_ctx \<Rightarrow> sj_ctx" where
  "end_bobs_joining status c = dc_stop_ongoing_process (c\<lparr>sj_bobs_status := status\<rparr>)"

section \<open>Offering and joining\<close>

text \<open>\<open>new_id\<close> is the result of \<open>dc_create_id\<close> where the token is missing.\<close>

definition ensure_token :: "int \<Rightarrow> int \<Rightarrow> nat \<Rightarrow> string \<Rightarrow> sj_ctx \<Rightarrow> string \<times> sj_ctx" where
  "ensure_token now namespc foreign_id new_id c =
     (case dc_token_lookup (sj_tokens c) namespc foreign_id of
        Some t \<Rightarrow> (t, c)
      | None \<Rightarrow> (new_id, c\<lparr>sj_tokens := dc_token_save now (sj_tokens c) namespc foreign_id (Some new_id)\<rparr>))"

definition contact_qr :: "string \<Rightarrow> string \<Rightarrow> string \<Rightarrow> string \<Rightarrow> string \<Rightarrow> string" where
  "contact_qr fingerprint self_addr self_name invitenumber auth =
     DC_OPENPGP4FPR_SCHEME @ fingerprint @ ''#a='' @ dc_urlencode (Some self_addr) @ ''&n='' @ dc_urlencode (Some self_name) @
       ''&i='' @ invitenumber @ ''&s='' @ auth"

definition group_qr :: "string \<Rightarrow> string \<Rightarrow> string \<Rightarrow> string \<Rightarrow> string \<Rightarrow> string \<Rightarrow> string" where
  "group_qr fingerprint self_addr group_name grpid invitenumber auth =
     DC_OPENPGP4FPR_SCHEME @ fingerprint @ ''#a='' @ dc_urlencode (Some self_addr) @ ''&g='' @ dc_urlencode (Some group_name) @
       ''&x='' @ grpid @ ''&i='' @ invitenumber @ ''&s='' @ auth"

text \<open>
  \<open>new_ids\<close> are the two results of \<open>dc_create_id\<close>; the own key pair is in \<open>sj_keypairs\<close>, where
  \<open>dc_ensure_secret_key_exists\<close> has put it.
\<close>

definition dc_get_securejoin_qr ::
    "int \<Rightarrow> string \<times> string \<Rightarrow> (u8 list \<Rightarrow> u8 list option) \<Rightarrow> stock \<Rightarrow> sj_ctx \<Rightarrow> nat \<Rightarrow> string \<times> sj_ctx" where
  "dc_get_securejoin_qr now new_ids pgp stock c group_chat_id =
     (let (invitenumber, c) = ensure_token now DC_TOKEN_INVITENUMBER group_chat_id (fst new_ids) c;
          (auth, c) = ensure_token now DC_TOKEN_AUTH group_chat_id (snd new_ids) c;
          cfg = db_config (sj_db c)
      in case (dc_sqlite3_get_config cfg (Some ''configured_addr'') None, get_self_fingerprint pgp c) of
           (Some self_addr, Some fingerprint) \<Rightarrow>
             if group_chat_id \<noteq> 0 then
               (case dc_get_chat stock (sj_db c) group_chat_id of
                  None \<Rightarrow> (dc_strdup None, c)
                | Some chat \<Rightarrow>
                    if chat_type chat \<noteq> DC_CHAT_TYPE_VERIFIED_GROUP then (dc_strdup None, c)
                    else (group_qr fingerprint self_addr (dc_chat_get_name (Some chat)) (dc_strdup (chat_grpid chat))
                            invitenumber auth, c))
             else (contact_qr fingerprint self_addr
                     (dc_strdup (dc_sqlite3_get_config cfg (Some ''displayname'') (Some []))) invitenumber auth, c)
         | _ \<Rightarrow> (dc_strdup None, c))"

text \<open>
  \<open>dc_join_securejoin\<close> up to its waiting loop, and its cleanup.  \<open>early\<close> tells that the process was
  stopped, or that there is no network, before the first message.  The result is the value that is
  returned at once, or the scan and the chat with which the call goes on to wait.
\<close>

definition join_cleanup :: "bool \<Rightarrow> sj_ctx \<Rightarrow> sj_ctx" where
  "join_cleanup ongoing_allocated c =
     (let c = c\<lparr>sj_bob_expects := 0, sj_bobs_qr_scan := None\<rparr>
      in if ongoing_allocated then dc_free_ongoing c else c)"

text \<open>The value that is returned; \<open>join_vg\<close> and the chat are still 0 where the call ends before they are set.\<close>

definition join_result :: "bool \<Rightarrow> dc_lot_t \<Rightarrow> nat \<Rightarrow> sj_ctx \<Rightarrow> nat" where
  "join_result join_vg qr_scan contact_chat_id c =
     (if sj_bobs_status c = DC_BOB_SUCCESS
      then if join_vg then fst (dc_get_chat_id_by_grpid (sj_db c) (lot_text2 qr_scan)) else contact_chat_id
      else 0)"

text \<open>\<open>dc_check_qr\<close> with the message that it adds to the chat with the contact.\<close>

definition check_qr_msg :: "stock \<Rightarrow> sj_ctx \<Rightarrow> cptr \<Rightarrow> dc_lot_t \<times> sj_ctx" where
  "check_qr_msg stock c qr =
     (let (qr_parsed, db, device_msg) = dc_check_qr (sj_db c) (sj_peers c) qr; c = c\<lparr>sj_db := db\<rparr> in
      case device_msg of
        None \<Rightarrow> (qr_parsed, c)
      | Some (contact_id, msg_text) \<Rightarrow>
          let (chat, blocked, db) =
                dc_create_or_lookup_nchat_by_contact_id stock (sj_db c) contact_id DC_CHAT_DEADDROP_BLOCKED
          in (qr_parsed, dc_add_device_msg chat msg_text (c\<lparr>sj_db := db\<rparr>)))"

definition join_request ::
    "(u8 list \<Rightarrow> u8 list option) \<Rightarrow> stock \<Rightarrow> dc_lot_t \<Rightarrow> nat \<Rightarrow> sj_ctx \<Rightarrow> sj_ctx" where
  "join_request pgp stock qr_scan chat c =
     (let join_vg = (lot_state qr_scan = DC_QR_ASK_VERIFYGROUP);
          c = c\<lparr>sj_bobs_status := 0, sj_bobs_qr_scan := Some qr_scan\<rparr>
      in if fingerprint_equals_sender stock c (dc_strdup (lot_fingerprint qr_scan)) chat then
           let c = c\<lparr>sj_bob_expects := DC_VC_CONTACT_CONFIRM\<rparr>;
               c = sj_event DC_EVENT_SECUREJOIN_JOINER_PROGRESS (chat_id_2_contact_id (sj_db c) chat) 400 c
           in send_handshake_msg chat (if join_vg then ''vg-request-with-auth'' else ''vc-request-with-auth'')
                (lot_auth qr_scan) (get_self_fingerprint pgp c) (if join_vg then lot_text2 qr_scan else None) c
         else
           send_handshake_msg chat (if join_vg then ''vg-request'' else ''vc-request'') (lot_invitenumber qr_scan) None None
             (c\<lparr>sj_bob_expects := DC_VC_AUTH_REQUIRED\<rparr>))"

definition join_start ::
    "(u8 list \<Rightarrow> u8 list option) \<Rightarrow> stock \<Rightarrow> bool \<Rightarrow> sj_ctx \<Rightarrow> cptr \<Rightarrow> (nat + dc_lot_t \<times> nat) \<times> sj_ctx" where
  "join_start pgp stock early c qr =
     (let (ongoing_allocated, c) = dc_alloc_ongoing c in
      if \<not> ongoing_allocated then (Inl (join_result False dc_lot_new 0 c), join_cleanup False c)
      else
        let (qr_scan, c) = check_qr_msg stock c qr in
        if lot_state qr_scan \<noteq> DC_QR_ASK_VERIFYCONTACT \<and> lot_state qr_scan \<noteq> DC_QR_ASK_VERIFYGROUP
        then (Inl (join_result False qr_scan 0 c), join_cleanup True c)
        else
          let (chat, db) = dc_create_chat_by_contact_id stock (sj_db c) (lot_id qr_scan); c = c\<lparr>sj_db := db\<rparr> in
          if chat = 0 \<or> early then (Inl (join_result False qr_scan chat c), join_cleanup True c)
          else (Inr (qr_scan, chat), join_request pgp stock qr_scan chat c))"

text \<open>The end of the call, when \<open>shall_stop_ongoing\<close> is seen.\<close>

definition join_finish :: "dc_lot_t \<Rightarrow> nat \<Rightarrow> sj_ctx \<Rightarrow> nat \<times> sj_ctx" where
  "join_finish qr_scan chat c =
     (join_result (lot_state qr_scan = DC_QR_ASK_VERIFYGROUP) qr_scan chat c, join_cleanup True c)"

section \<open>The handshake\<close>

text \<open>
  The steps of \<open>dc_handle_securejoin_handshake\<close>.  The first component of a step's result is False where the
  code leaves through \<open>cleanup\<close> at once; the message is then not deleted on the server.
\<close>

definition handle_request :: "sj_mail \<Rightarrow> bool \<Rightarrow> nat \<Rightarrow> nat \<Rightarrow> sj_ctx \<Rightarrow> bool \<times> sj_ctx" where
  "handle_request mail join_vg contact_id chat c =
     (case mail_field mail ''Secure-Join-Invitenumber'' of
        None \<Rightarrow> (False, c)
      | Some invitenumber \<Rightarrow>
          if \<not> dc_token_exists (sj_tokens c) DC_TOKEN_INVITENUMBER (Some invitenumber) then (False, c)
          else
            (True, send_handshake_msg chat (if join_vg then ''vg-auth-required'' else ''vc-auth-required'') None None None
                     (sj_event DC_EVENT_SECUREJOIN_INVITER_PROGRESS contact_id 300 c)))"

text \<open>\<open>c\<close> with the device message of a failure, and with Bob's process ended.\<close>

definition give_up :: "stock \<Rightarrow> nat \<Rightarrow> sj_ctx \<Rightarrow> bool \<times> sj_ctx" where
  "give_up stock chat c =
     (False, end_bobs_joining DC_BOB_ERROR (could_not_establish_secure_connection stock chat c))"

definition handle_auth_required ::
    "(u8 list \<Rightarrow> u8 list option) \<Rightarrow> stock \<Rightarrow> sj_mail \<Rightarrow> bool \<Rightarrow> nat \<Rightarrow> nat \<Rightarrow> sj_ctx \<Rightarrow> bool \<times> sj_ctx" where
  "handle_auth_required pgp stock mail join_vg contact_id chat c =
     (case sj_bobs_qr_scan c of
        None \<Rightarrow> (False, c)
      | Some qr_scan \<Rightarrow>
          if sj_bob_expects c \<noteq> DC_VC_AUTH_REQUIRED \<or> (join_vg \<and> lot_state qr_scan \<noteq> DC_QR_ASK_VERIFYGROUP) then (False, c)
          else
            let scanned_fingerprint_of_alice = dc_strdup (lot_fingerprint qr_scan);
                auth = dc_strdup (lot_auth qr_scan);
                grpid = (if join_vg then Some (dc_strdup (lot_text2 qr_scan)) else None)
            in if \<not> encrypted_and_signed mail (Some scanned_fingerprint_of_alice) then give_up stock chat c
               else if \<not> fingerprint_equals_sender stock c scanned_fingerprint_of_alice chat then give_up stock chat c
               else
                 let own_fingerprint = get_self_fingerprint pgp c;
                     c = sj_event DC_EVENT_SECUREJOIN_JOINER_PROGRESS contact_id 400 c
                 in (True, send_handshake_msg chat (if join_vg then ''vg-request-with-auth'' else ''vc-request-with-auth'')
                             (Some auth) own_fingerprint grpid (c\<lparr>sj_bob_expects := DC_VC_CONTACT_CONFIRM\<rparr>)))"

text \<open>The inviter checks the fingerprint, the signature and the secret, in this order.\<close>

definition with_auth_ok :: "stock \<Rightarrow> sj_mail \<Rightarrow> nat \<Rightarrow> sj_ctx \<Rightarrow> bool" where
  "with_auth_ok stock mail chat c =
     (case mail_field mail ''Secure-Join-Fingerprint'' of
        None \<Rightarrow> False
      | Some fingerprint \<Rightarrow>
          if \<not> encrypted_and_signed mail (Some fingerprint) then False
          else if \<not> fingerprint_equals_sender stock c fingerprint chat then False
          else (case mail_field mail ''Secure-Join-Auth'' of
                  None \<Rightarrow> False | Some auth \<Rightarrow> dc_token_exists (sj_tokens c) DC_TOKEN_AUTH (Some auth)))"

definition add_joiner :: "nat \<Rightarrow> stock \<Rightarrow> sj_mail \<Rightarrow> nat \<Rightarrow> sj_ctx \<Rightarrow> bool \<times> sj_ctx" where
  "add_joiner sent stock mail contact_id c =
     (let grpid = dc_strdup (mail_field mail ''Secure-Join-Group'');
          (verified_chat_id, blocked, is_verified) = dc_get_chat_id_by_grpid (sj_db c) (Some grpid)
      in if verified_chat_id = 0 \<or> \<not> is_verified then (False, c)
         else (True, with_db (\<lambda>db. snd (dc_add_contact_to_chat_ex sent stock (sj_peers c) db verified_chat_id contact_id
                                          DC_FROM_HANDSHAKE)) c))"

definition handle_request_with_auth ::
    "nat \<Rightarrow> stock \<Rightarrow> sj_mail \<Rightarrow> bool \<Rightarrow> nat \<Rightarrow> nat \<Rightarrow> sj_ctx \<Rightarrow> bool \<times> sj_ctx" where
  "handle_request_with_auth sent stock mail join_vg contact_id chat c =
     (if \<not> with_auth_ok stock mail chat c then (False, could_not_establish_secure_connection stock chat c)
      else
        let (marked, c) = mark_peer_as_verified c (dc_strdup (mail_field mail ''Secure-Join-Fingerprint'')) in
        if \<not> marked then (False, could_not_establish_secure_connection stock chat c)
        else
          let c = with_db (\<lambda>db. dc_scaleup_contact_origin db contact_id DC_ORIGIN_SECUREJOIN_INVITED) c;
              c = secure_connection_established stock chat c;
              c = sj_event DC_EVENT_CONTACTS_CHANGED contact_id 0 c;
              c = sj_event DC_EVENT_SECUREJOIN_INVITER_PROGRESS contact_id 600 c
          in if join_vg then add_joiner sent stock mail contact_id c
             else (True, sj_event DC_EVENT_SECUREJOIN_INVITER_PROGRESS contact_id 1000
                           (send_handshake_msg chat ''vc-contact-confirm'' None None None c)))"

definition handle_contact_confirm ::
    "stock \<Rightarrow> sj_mail \<Rightarrow> bool \<Rightarrow> nat \<Rightarrow> nat \<Rightarrow> sj_ctx \<Rightarrow> bool \<times> sj_ctx" where
  "handle_contact_confirm stock mail join_vg contact_id chat c =
     (if sj_bob_expects c \<noteq> DC_VC_CONTACT_CONFIRM then (False, c)
      else case sj_bobs_qr_scan c of
        None \<Rightarrow> (False, c)
      | Some qr_scan \<Rightarrow>
          if join_vg \<and> lot_state qr_scan \<noteq> DC_QR_ASK_VERIFYGROUP then (False, c)
          else
            let scanned_fingerprint_of_alice = dc_strdup (lot_fingerprint qr_scan) in
            if \<not> encrypted_and_signed mail (Some scanned_fingerprint_of_alice) then give_up stock chat c
            else
              let (marked, c) = mark_peer_as_verified c scanned_fingerprint_of_alice in
              if \<not> marked then (False, could_not_establish_secure_connection stock chat c)
              else
                let c = with_db (\<lambda>db. dc_scaleup_contact_origin db contact_id DC_ORIGIN_SECUREJOIN_JOINED) c;
                    c = sj_event DC_EVENT_CONTACTS_CHANGED 0 0 c
                in if join_vg \<and> \<not> dc_addr_equals_self
                        (dc_sqlite3_get_config (db_config (sj_db c)) (Some ''configured_addr'') None)
                        (mail_field mail ''Chat-Group-Member-Added'')
                   then (False, c)
                   else
                     let c = secure_connection_established stock chat c;
                         c = c\<lparr>sj_bob_expects := 0\<rparr>;
                         c = (if join_vg then send_handshake_msg chat ''vg-member-added-received'' None None None c else c)
                     in (True, end_bobs_joining DC_BOB_SUCCESS c))"

definition handle_member_added_received :: "stock \<Rightarrow> nat \<Rightarrow> sj_ctx \<Rightarrow> bool \<times> sj_ctx" where
  "handle_member_added_received stock contact_id c =
     (case dc_get_contact (stock DC_STR_SELF []) (sj_db c) contact_id of
        None \<Rightarrow> (False, c)
      | Some contact \<Rightarrow>
          if dc_contact_is_verified (sj_peers c) (Some contact) = 0 then (False, c)
          else (True, sj_event DC_EVENT_SECUREJOIN_INVITER_PROGRESS contact_id 1000
                        (sj_event DC_EVENT_SECUREJOIN_INVITER_PROGRESS contact_id 800 c)))"

text \<open>The chat with the sender, unblocked.\<close>

definition handshake_chat :: "stock \<Rightarrow> nat \<Rightarrow> sj_ctx \<Rightarrow> nat \<times> sj_ctx" where
  "handshake_chat stock contact_id c =
     (let (chat, blocked, db) = dc_create_or_lookup_nchat_by_contact_id stock (sj_db c) contact_id DC_CHAT_NOT_BLOCKED
      in (chat, c\<lparr>sj_db := (if blocked \<noteq> 0 then dc_unblock_chat db chat else db)\<rparr>))"

definition handle_step ::
    "(u8 list \<Rightarrow> u8 list option) \<Rightarrow> nat \<Rightarrow> stock \<Rightarrow> sj_mail \<Rightarrow> string \<Rightarrow> nat \<Rightarrow> nat \<Rightarrow> sj_ctx \<Rightarrow> bool \<times> sj_ctx" where
  "handle_step pgp sent stock mail step contact_id chat c =
     (let join_vg = starts_with ''vg-'' step in
      if step = ''vg-request'' \<or> step = ''vc-request'' then handle_request mail join_vg contact_id chat c
      else if step = ''vg-auth-required'' \<or> step = ''vc-auth-required'' then
        handle_auth_required pgp stock mail join_vg contact_id chat c
      else if step = ''vg-request-with-auth'' \<or> step = ''vc-request-with-auth'' then
        handle_request_with_auth sent stock mail join_vg contact_id chat c
      else if step = ''vg-member-added'' \<or> step = ''vc-contact-confirm'' then
        handle_contact_confirm stock mail join_vg contact_id chat c
      else if step = ''vg-member-added-received'' then handle_member_added_received stock contact_id c
      else (True, c))"

definition dc_handle_securejoin_handshake ::
    "(u8 list \<Rightarrow> u8 list option) \<Rightarrow> nat \<Rightarrow> stock \<Rightarrow> sj_mail \<Rightarrow> nat \<Rightarrow> sj_ctx \<Rightarrow> u32 \<times> sj_ctx" where
  "dc_handle_securejoin_handshake pgp sent stock mail contact_id c =
     (if contact_id \<le> DC_CONTACT_ID_LAST_SPECIAL then (0, c)
      else case mail_field mail ''Secure-Join'' of
        None \<Rightarrow> (0, c)
      | Some step \<Rightarrow>
          let (chat, c) = handshake_chat stock contact_id c;
              ret = (if step = ''vg-member-added'' then DC_HANDSHAKE_CONTINUE_NORMAL_PROCESSING
                     else DC_HANDSHAKE_STOP_NORMAL_PROCESSING);
              (finished, c) = handle_step pgp sent stock mail step contact_id chat c
          in (if finished \<and> ret AND DC_HANDSHAKE_STOP_NORMAL_PROCESSING \<noteq> 0
              then ret OR DC_HANDSHAKE_ADD_DELETE_JOB else ret, c))"

section \<open>What a generated QR code says\<close>

definition qr_safe :: "string \<Rightarrow> bool" where
  "qr_safe v \<longleftrightarrow> list_all (\<lambda>c. url_plain c \<or> c = CHR ''%'' \<or> c = CHR ''+'') v"

lemma qr_safe_char:
  assumes "qr_safe v" "c \<in> set v"
  shows "c \<noteq> CHR ''&'' \<and> \<not> c_isspace c \<and> c \<noteq> CHR 0x00"
  using assms by (auto simp: qr_safe_def list_all_iff url_plain_def c_isalnum_def c_isdigit_def
      c_isupper_def c_islower_def c_isspace_def)

lemma qr_safe_okv: "qr_safe v \<Longrightarrow> okv v"
  using qr_safe_char [of v] NL_space by (metis okv_def last_in_set)

lemma qr_safe_urlencode [simp]: "qr_safe (dc_urlencode (Some s))"
  using urlencode_safe by (simp add: qr_safe_def dc_urlencode_def list_all_iff)

lemma qr_safe_plain: "list_all url_plain v \<Longrightarrow> qr_safe v"
  by (auto simp: qr_safe_def list_all_iff)

lemma qr_safe_no_amp: "qr_safe v \<Longrightarrow> map (\<lambda>c. if c = CHR ''&'' then NL else c) v = v"
  using qr_safe_char by (auto intro!: map_idI)

text \<open>The text behind the \<open>#\<close> that has these entries.\<close>

fun qr_fields :: "(char \<times> string) list \<Rightarrow> string" where
  "qr_fields [] = []"
| "qr_fields [e] = line e"
| "qr_fields (e # es) = line e @ CHR ''&'' # qr_fields es"

lemma qr_fields_pack:
  "list_all (\<lambda>(k, v). okk k \<and> k \<noteq> CHR ''&'' \<and> qr_safe v) es \<Longrightarrow>
     map (\<lambda>c. if c = CHR ''&'' then NL else c) (qr_fields es) = pack es"
  by (induction es rule: qr_fields.induct) (auto simp: pack_Cons line_def qr_safe_no_amp)

lemma qr_fields_get:
  assumes "list_all (\<lambda>(k, v). okk k \<and> k \<noteq> CHR ''&'' \<and> qr_safe v) es" "distinct (map fst es)" "okk k"
  shows "dc_param_get (dc_param_set_urlencoded p (Some (qr_fields es))) k None = map_of es k"
proof -
  have "es_ok es" using assms(1,2) by (auto simp: es_ok_def list_all_iff intro: qr_safe_okv)
  then show ?thesis using assms by (simp add: set_urlencoded_char qr_fields_pack get_pack)
qed

lemma normalize_uc_hex: "uc_hex_text f \<Longrightarrow> dc_normalize_fingerprint (Some f) = Some f"
proof -
  have "uc_hex_text f \<Longrightarrow> normalize_loop f = f" 
    by (induction f) (auto simp: uc_hex_text_def c_toupper_def)
  then show "uc_hex_text f \<Longrightarrow> dc_normalize_fingerprint (Some f) = Some f"
    by (simp add: dc_normalize_fingerprint_def)
qed

lemma uc_hex_no_hash: "uc_hex_text f \<Longrightarrow> CHR ''#'' \<notin> set f"
  by (auto simp: uc_hex_text_def c_isxdigit_def c_isdigit_def)


lemma takeWhile_to: "c \<notin> set f \<Longrightarrow> takeWhile (\<lambda>x. x \<noteq> c) (f @ c # r) = f"
  by (induction f) auto

lemma scan_safe_code:
  assumes "uc_hex_text f" "list_all (\<lambda>(k, v). okk k \<and> k \<noteq> CHR ''&'' \<and> qr_safe v) es" "distinct (map fst es)"
    "map_of es (CHR ''a'') = Some (dc_urlencode (Some a))"
  shows "split_qr (DC_OPENPGP4FPR_SCHEME @ f @ CHR ''#'' # qr_fields es) =
    Inr (let name = (case map_of es (CHR ''n'') of None \<Rightarrow> None
                     | Some n \<Rightarrow> Some (dc_normalize_name (dc_urldecode (Some n))));
             grpname = (if map_of es (CHR ''x'') = None then None
                        else (case map_of es (CHR ''g'') of None \<Rightarrow> None | Some g \<Rightarrow> Some (dc_urldecode (Some g))))
         in \<lparr>qv_addr = Some (dc_urlencode (Some a)), qv_fingerprint = Some f, qv_name = name,
           qv_invitenumber = map_of es (CHR ''i''), qv_auth = map_of es (CHR ''s''), qv_grpid = map_of es (CHR ''x''),
           qv_grpname = grpname\<rparr>)"
proof -
  have k: "okk (CHR ''a'')" "okk (CHR ''n'')" "okk (CHR ''i'')" "okk (CHR ''s'')" "okk (CHR ''x'')" "okk (CHR ''g'')"
    by code_simp+
  have hash: "cut_at (CHR ''#'') (f @ CHR ''#'' # r) = f" "strchr (f @ CHR ''#'' # r) (CHR ''#'') = Some (CHR ''#'' # r)" for r
    using uc_hex_no_hash [OF assms(1)] by (auto simp: cut_at_def strchr_conv takeWhile_to dropWhile_append)
  have get: "okk k \<Longrightarrow> dc_param_get (dc_param_set_urlencoded p (Some (qr_fields es))) k None = map_of es k" for k p
    using qr_fields_get assms(2,3) by blast
  have "istarts_with DC_OPENPGP4FPR_SCHEME (DC_OPENPGP4FPR_SCHEME @ t)" for t
    by (simp add: istarts_with_def)
  then have scheme: "split_qr (DC_OPENPGP4FPR_SCHEME @ t) = Inr (scan_openpgp4fpr t)" for t
    unfolding split_qr_def by (subst if_P) simp_all
  have "split_qr (DC_OPENPGP4FPR_SCHEME @ f @ CHR ''#'' # qr_fields es) = Inr (scan_openpgp4fpr (f @ CHR ''#'' # qr_fields es))"
    by (rule scheme)
  also have "scan_openpgp4fpr (f @ CHR ''#'' # qr_fields es) = (scan_params no_vars (dc_param_set_urlencoded dc_param_new (Some (qr_fields es))))
      \<lparr>qv_fingerprint := Some f\<rparr>"
    by (simp add: scan_openpgp4fpr_def hash normalize_uc_hex [OF assms(1)])
  finally show ?thesis
    by (simp add: scan_params_def get k assms(4) no_vars_def Let_def)
qed

text \<open>A fingerprint and an address that pass the checks.\<close>

definition qr_identity :: "string \<Rightarrow> string \<Rightarrow> bool" where
  "qr_identity f a \<longleftrightarrow> uc_hex_text f \<and> length f = 40 \<and> rough_addr a \<and> CHR 0x00 \<notin> set a \<and> dc_addr_normalize (Some a) = a"

lemma urldecode_urlencode_cptr: "CHR 0x00 \<notin> set s \<Longrightarrow> dc_urldecode (Some (dc_urlencode (Some s))) = s"
  by (simp add: url.dec_enc)

lemma contact_qr_scanned:
  assumes "qr_identity f a" "CHR 0x00 \<notin> set n" "list_all url_plain i" "list_all url_plain s"
  shows "\<exists>db' cid. dc_check_qr db peers (Some (contact_qr f a n i s)) =
      (\<lparr>lot_text1_meaning = 0, lot_text1 = None, lot_text2 = None, lot_timestamp = 0, lot_state = DC_QR_ASK_VERIFYCONTACT,
        lot_id = cid, lot_fingerprint = Some f, lot_invitenumber = Some i, lot_auth = Some s\<rparr>, db', None) \<and>
      qr_contact db (Some (dc_normalize_name n)) (Some a) = (cid, db')"
proof -
  define es where "es = [(CHR ''a'', dc_urlencode (Some a)), (CHR ''n'', dc_urlencode (Some n)), (CHR ''i'', i), (CHR ''s'', s)]"
  have es: "list_all (\<lambda>(k, v). okk k \<and> k \<noteq> CHR ''&'' \<and> qr_safe v) es" "distinct (map fst es)"
    "map_of es (CHR ''a'') = Some (dc_urlencode (Some a))"
    using assms(3,4) by (auto simp: es_def qr_safe_plain okk_def c_isspace_def)
  have "contact_qr f a n i s = DC_OPENPGP4FPR_SCHEME @ f @ CHR ''#'' # qr_fields es"
    by (simp add: contact_qr_def es_def line_def)
  moreover have "uc_hex_text f" using assms(1) by (simp add: qr_identity_def)
  ultimately have "split_qr (contact_qr f a n i s) =
      Inr (no_vars\<lparr>qv_addr := Some (dc_urlencode (Some a)), qv_fingerprint := Some f, qv_name := Some (dc_normalize_name n),
        qv_invitenumber := Some i, qv_auth := Some s\<rparr>)"
    using scan_safe_code [OF _ es, of f] assms(2)
    by (simp add: es_def urldecode_urlencode_cptr no_vars_def)
  then show ?thesis
    using assms(1)
    by (simp add: dc_check_qr_def check_vars_def qr_identity_def urldecode_urlencode_cptr no_vars_def
        secure_join_lot_def dc_lot_new_def split: prod.splits)
qed

lemma group_qr_scanned:
  assumes "qr_identity f a" "CHR 0x00 \<notin> set g" "list_all url_plain x" "list_all url_plain i" "list_all url_plain s"
  shows "\<exists>db' cid. dc_check_qr db peers (Some (group_qr f a g x i s)) =
      (\<lparr>lot_text1_meaning = 0, lot_text1 = Some g, lot_text2 = Some x, lot_timestamp = 0, lot_state = DC_QR_ASK_VERIFYGROUP,
        lot_id = cid, lot_fingerprint = Some f, lot_invitenumber = Some i, lot_auth = Some s\<rparr>, db', None) \<and>
      qr_contact db None (Some a) = (cid, db')"
proof -
  define es where "es = [(CHR ''a'', dc_urlencode (Some a)), (CHR ''g'', dc_urlencode (Some g)), (CHR ''x'', x), (CHR ''i'', i), (CHR ''s'', s)]"
  have es: "list_all (\<lambda>(k, v). okk k \<and> k \<noteq> CHR ''&'' \<and> qr_safe v) es" "distinct (map fst es)"
    "map_of es (CHR ''a'') = Some (dc_urlencode (Some a))"
    using assms(3-5) by (auto simp: es_def qr_safe_plain okk_def c_isspace_def)
  have "group_qr f a g x i s = DC_OPENPGP4FPR_SCHEME @ f @ CHR ''#'' # qr_fields es"
    by (simp add: group_qr_def es_def line_def)
  moreover have "uc_hex_text f" using assms(1) by (simp add: qr_identity_def)
  ultimately have "split_qr (group_qr f a g x i s) =
      Inr (no_vars\<lparr>qv_addr := Some (dc_urlencode (Some a)), qv_fingerprint := Some f,
        qv_invitenumber := Some i, qv_auth := Some s, qv_grpid := Some x, qv_grpname := Some g\<rparr>)"
    using scan_safe_code [OF _ es, of f] assms(2)
    by (simp add: es_def urldecode_urlencode_cptr no_vars_def)
  then show ?thesis
    using assms(1)
    by (simp add: dc_check_qr_def check_vars_def qr_identity_def urldecode_urlencode_cptr no_vars_def
        secure_join_lot_def dc_lot_new_def split: prod.splits)
qed

section \<open>Who can make a key a verified one\<close>

lemma peers_unchanged [simp]:
  "sj_peers (with_db f c) = sj_peers c" "sj_peers (sj_event e a b c) = sj_peers c"
  "sj_peers (dc_add_device_msg chat t c) = sj_peers c" "sj_peers (send_handshake_msg chat step p fp g c) = sj_peers c"
  "sj_peers (could_not_establish_secure_connection stock chat c) = sj_peers c"
  "sj_peers (secure_connection_established stock chat c) = sj_peers c"
  "sj_peers (end_bobs_joining status c) = sj_peers c"
  by (simp_all add: with_db_def sj_event_def dc_add_device_msg_def send_handshake_msg_def
      could_not_establish_secure_connection_def secure_connection_established_def end_bobs_joining_def
      dc_stop_ongoing_process_def)

lemma handshake_chat_peers: "handshake_chat stock contact_id c = (chat, c1) \<Longrightarrow>
    c1 = c\<lparr>sj_db := sj_db c1\<rparr>"
  by (auto simp: handshake_chat_def split: prod.splits)

text \<open>The rows of the second list that are not in the first have the fingerprint as that of their verified key.\<close>

definition verifies_only :: "string \<Rightarrow> peer_row list \<Rightarrow> peer_row list \<Rightarrow> bool" where
  "verifies_only fp rows rows' \<longleftrightarrow> (\<forall>r \<in> set rows'. r \<in> set rows \<or> fp_is fp (pr_verified_key_fingerprint r))"

lemma mark_verifies_only: "verifies_only fp (sj_peers c) (sj_peers (snd (mark_peer_as_verified c fp)))"
proof -
  obtain found ps where ps: "dc_apeerstate_load_by_fingerprint dc_apeerstate_new (sj_peers c) (Some fp) = (found, ps)"
    by fastforce
  obtain ok vs where vs: "dc_apeerstate_set_verified ps DC_PS_PUBLIC_KEY fp DC_BIDIRECT_VERIFIED = (ok, vs)"
    by fastforce
  have "ok \<Longrightarrow> fp_is fp (ps_verified_key_fingerprint vs)"
    using vs by (auto simp: dc_apeerstate_set_verified_def fp_matches_def nonempty_fp_def fp_is_def dc_strdup_def
        split: if_splits option.splits)
  then show ?thesis
    using ps vs by (auto simp: mark_peer_as_verified_def verifies_only_def dc_apeerstate_save_to_db_def update_all_def Let_def
        split: option.splits)
qed


lemma mark_peers:
  assumes "mark_peer_as_verified c fp = (ok, c')"
  shows "c' = c\<lparr>sj_peers := sj_peers c'\<rparr>" "verifies_only fp (sj_peers c) (sj_peers c')"
proof -
  show "c' = c\<lparr>sj_peers := sj_peers c'\<rparr>"
    using assms by (auto simp: mark_peer_as_verified_def Let_def split: prod.splits if_splits)
  show "verifies_only fp (sj_peers c) (sj_peers c')" using mark_verifies_only [of fp c] assms by simp
qed

text \<open>The proof of the fingerprint that each side demands before it marks a key as verified.\<close>

definition proved_to_inviter :: "stock \<Rightarrow> sj_mail \<Rightarrow> nat \<Rightarrow> sj_ctx \<Rightarrow> string \<Rightarrow> bool" where
  "proved_to_inviter stock mail chat c fp \<longleftrightarrow>
     mail_field mail ''Secure-Join-Fingerprint'' = Some fp \<and> encrypted_and_signed mail (Some fp) \<and>
     fingerprint_equals_sender stock c fp chat"

definition proved_to_joiner :: "sj_mail \<Rightarrow> sj_ctx \<Rightarrow> string \<Rightarrow> bool" where
  "proved_to_joiner mail c fp \<longleftrightarrow>
     sj_bob_expects c = DC_VC_CONTACT_CONFIRM \<and> encrypted_and_signed mail (Some fp) \<and>
     (case sj_bobs_qr_scan c of None \<Rightarrow> False | Some qr_scan \<Rightarrow> dc_strdup (lot_fingerprint qr_scan) = fp)"

lemma equals_sender_tokens [simp]:
  "fingerprint_equals_sender stock (c\<lparr>sj_tokens := ts\<rparr>) fp chat = fingerprint_equals_sender stock c fp chat"
  by (simp add: fingerprint_equals_sender_def cong: list.case_cong)

lemma with_auth_ok_proved:
  "with_auth_ok stock mail chat c \<longleftrightarrow>
     (\<exists>fp. proved_to_inviter stock mail chat c fp) \<and> mail_field mail ''Secure-Join-Auth'' \<noteq> None"
  by (auto simp: with_auth_ok_def proved_to_inviter_def dc_token_exists_def step_result_def split: option.splits)

lemma request_with_auth_peers:
  "sj_peers (snd (handle_request_with_auth sent stock mail join_vg contact_id chat c)) = sj_peers c \<or>
   (\<exists>fp. proved_to_inviter stock mail chat c fp \<and>
     verifies_only fp (sj_peers c) (sj_peers (snd (handle_request_with_auth sent stock mail join_vg contact_id chat c))))"
proof (cases "with_auth_ok stock mail chat c")
  case True
  then obtain fp where fp: "proved_to_inviter stock mail chat c fp" by (auto simp: with_auth_ok_proved)
  obtain ok c' where m: "mark_peer_as_verified c fp = (ok, c')" by fastforce
  have "sj_peers (snd (handle_request_with_auth sent stock mail join_vg contact_id chat c)) = sj_peers c'"
    using True fp m by (simp add: handle_request_with_auth_def proved_to_inviter_def dc_strdup_def add_joiner_def Let_def
        split: prod.splits)
  with fp mark_peers(2) [OF m] show ?thesis by auto
qed (simp add: handle_request_with_auth_def)

lemma contact_confirm_peers:
  "sj_peers (snd (handle_contact_confirm stock mail join_vg contact_id chat c)) = sj_peers c \<or>
   (\<exists>fp. proved_to_joiner mail c fp \<and>
     verifies_only fp (sj_peers c) (sj_peers (snd (handle_contact_confirm stock mail join_vg contact_id chat c))))"
proof (cases "sj_bobs_qr_scan c")
  case None
  then show ?thesis by (simp add: handle_contact_confirm_def)
next
  case (Some qr_scan)
  let ?fp = "dc_strdup (lot_fingerprint qr_scan)"
  obtain ok c' where m: "mark_peer_as_verified c ?fp = (ok, c')" by fastforce
  show ?thesis
  proof (cases "proved_to_joiner mail c ?fp \<and> (join_vg \<longrightarrow> lot_state qr_scan = DC_QR_ASK_VERIFYGROUP)")
    case True
    then have "sj_peers (snd (handle_contact_confirm stock mail join_vg contact_id chat c)) = sj_peers c'"
      using Some m by (simp add: handle_contact_confirm_def proved_to_joiner_def Let_def cong: if_cong)
    with True mark_peers(2) [OF m] show ?thesis by auto
  next
    case False
    with Some show ?thesis by (auto simp: handle_contact_confirm_def proved_to_joiner_def give_up_def)
  qed
qed

lemma handshake_effect:
  assumes "handshake_chat stock contact_id c = (chat, c1)" "P c"
    "\<And>step. P (snd (handle_step pgp sent stock mail step contact_id chat c1))"
  shows "P (snd (dc_handle_securejoin_handshake pgp sent stock mail contact_id c))"
proof (cases "mail_field mail ''Secure-Join''")
  case (Some step)
  obtain b c2 where "handle_step pgp sent stock mail step contact_id chat c1 = (b, c2)" by fastforce
  with Some assms assms(3) [of step] show ?thesis
    by (simp add: dc_handle_securejoin_handshake_def)
qed (simp add: dc_handle_securejoin_handshake_def assms)


text \<open>
  The secret of the QR code is not checked: \<open>dc_token_exists\<close> takes every answer of SQLite, also the one that
  says that there is no row, for a hit, so an inviter without any token accepts every secret, and what
  the mail proves about its fingerprint decides alone.
\<close>

theorem any_secret_is_accepted:
  "dc_token_exists tokens namespc (Some t) \<and>
   with_auth_ok stock (mail\<lparr>mail_field := (mail_field mail)(''Secure-Join-Auth'' \<mapsto> t)\<rparr>) chat (c\<lparr>sj_tokens := []\<rparr>) =
     (\<exists>fp. proved_to_inviter stock mail chat c fp)"
  by (auto simp: with_auth_ok_proved proved_to_inviter_def encrypted_and_signed_def
      dc_token_exists_def step_result_def)


section \<open>One join at a time\<close>

datatype sj_call =
    SJ_Join bool cptr
  | SJ_Mail sj_mail nat

fun sj_call_step ::
    "(u8 list \<Rightarrow> u8 list option) \<Rightarrow> nat \<Rightarrow> stock \<Rightarrow> sj_ctx \<Rightarrow> sj_call \<Rightarrow> sj_ctx" where
  "sj_call_step pgp sent stock c (SJ_Join early qr) = snd (join_start pgp stock early c qr)"
| "sj_call_step pgp sent stock c (SJ_Mail mail contact_id) =
     snd (dc_handle_securejoin_handshake pgp sent stock mail contact_id c)"

text \<open>A join waits, and the context has forgotten for what.\<close>

definition stranded :: "sj_ctx \<Rightarrow> bool" where
  "stranded c \<longleftrightarrow> sj_ongoing_running c \<and> \<not> sj_shall_stop_ongoing c \<and> sj_bob_expects c = 0 \<and> sj_bobs_qr_scan c = None"

lemma stranded_kept [simp]:
  "stranded (with_db f c) = stranded c" "stranded (sj_event e a b c) = stranded c"
  "stranded (dc_add_device_msg chat t c) = stranded c" "stranded (send_handshake_msg chat step p fp g c) = stranded c"
  "stranded (could_not_establish_secure_connection stock chat c) = stranded c"
  "stranded (secure_connection_established stock chat c) = stranded c"
  "stranded (c\<lparr>sj_db := db\<rparr>) = stranded c" "stranded (c\<lparr>sj_peers := ps\<rparr>) = stranded c"
  by (simp_all add: stranded_def with_db_def sj_event_def dc_add_device_msg_def send_handshake_msg_def
      could_not_establish_secure_connection_def secure_connection_established_def)

lemma stranded_mark: "mark_peer_as_verified c fp = (ok, c') \<Longrightarrow> stranded c' = stranded c"
  using mark_peers(1) stranded_kept(8) by metis

lemma stranded_chat: "handshake_chat stock contact_id c = (chat, c') \<Longrightarrow> stranded c' = stranded c"
  using handshake_chat_peers stranded_kept(7) by metis

lemma stranded_with_auth:
  "stranded (snd (handle_request_with_auth sent stock mail join_vg contact_id chat c)) = stranded c"
proof -
  obtain ok c' where m: "mark_peer_as_verified c (dc_strdup (mail_field mail ''Secure-Join-Fingerprint'')) = (ok, c')"
    by fastforce
  show ?thesis
    by (simp add: handle_request_with_auth_def m stranded_mark [OF m] add_joiner_def Let_def split: prod.splits)
qed

lemma stranded_mail:
  assumes "stranded c"
  shows "stranded (snd (dc_handle_securejoin_handshake pgp sent stock mail contact_id c))"
proof -
  obtain chat c1 where hc: "handshake_chat stock contact_id c = (chat, c1)" by fastforce
  then have c1: "stranded c1" using assms by (simp add: stranded_chat)
  then have gone: "sj_bobs_qr_scan c1 = None" "sj_bob_expects c1 = 0" by (simp_all add: stranded_def)
  have "stranded (snd (handle_step pgp sent stock mail step contact_id chat c1))" for step
    using c1 gone
    by (simp add: handle_step_def handle_request_def handle_auth_required_def stranded_with_auth
        handle_contact_confirm_def handle_member_added_received_def Let_def split: option.splits)
  then show ?thesis using handshake_effect [where P = stranded, OF hc assms] by blast
qed

lemma join_refused:
  assumes "sj_ongoing_running c"
  shows "join_start pgp stock early c qr = (Inl 0, c\<lparr>sj_bob_expects := 0, sj_bobs_qr_scan := None\<rparr>)"
  using assms by (simp add: join_start_def dc_alloc_ongoing_def join_result_def join_cleanup_def)

interpretation stranded: machine stranded "sj_call_step pgp sent stock" for pgp sent stock
proof (unfold_locales, goal_cases)
  case (1 c e)
  then show ?case by (cases e) (auto simp: stranded_mail join_refused, simp add: stranded_def join_refused)
qed

text \<open>
  A second \<open>dc_join_securejoin\<close> while one waits is refused, but its cleanup makes the context forget what the
  first one waits for: from then on no mail, and no further call, ever ends the first one, which goes on
  until the user stops it.
\<close>

theorem second_join_strands_first:
  assumes "sj_ongoing_running c" "\<not> sj_shall_stop_ongoing c"
  shows "fst (join_start pgp stock early c qr) = Inl 0 \<and>
    stranded (foldl (sj_call_step pgp sent stock) (snd (join_start pgp stock early c qr)) calls)"
proof -
  have "stranded (c\<lparr>sj_bob_expects := 0, sj_bobs_qr_scan := None\<rparr>)" using assms by (simp add: stranded_def)
  then show ?thesis using assms(1) by (simp add: join_refused stranded.run_inv)
qed

text \<open>A context that waits for the answer of Ada, whose key has the fingerprint \<open>sample_fp\<close>.\<close>

definition sample_fp :: string where
  "sample_fp = ''0123456789ABCDEF0123456789ABCDEF01234567''"

definition ada_peer :: peer_row where
  "ada_peer = (new_row ''ada@b.c'')\<lparr>pr_public_key := Some [1], pr_public_key_fingerprint := Some sample_fp\<rparr>"

definition bob_waits :: sj_ctx where
  "bob_waits = \<lparr>sj_db = ada_database, sj_peers = [ada_peer], sj_tokens = [], sj_keypairs = [],
     sj_bob_expects = DC_VC_CONTACT_CONFIRM, sj_bobs_status = 0,
     sj_bobs_qr_scan = Some (dc_lot_new\<lparr>lot_state := DC_QR_ASK_VERIFYCONTACT, lot_id := 10, lot_fingerprint := Some sample_fp\<rparr>),
     sj_ongoing_running = True, sj_shall_stop_ongoing = False, sj_device_msgs = []\<rparr>"

theorem second_join_strands_first_witness:
  "stranded (foldl (sj_call_step Some 1 (\<lambda>_ _. [])) (snd (join_start Some (\<lambda>_ _. []) False bob_waits None)) [SJ_Join True None])"
proof -
  have "sj_ongoing_running bob_waits" "\<not> sj_shall_stop_ongoing bob_waits" by (simp_all add: bob_waits_def)
  then show ?thesis using second_join_strands_first by blast
qed

section \<open>Generated codes are understood\<close>

lemma ensure_token_found:
  assumes "ensure_token now namespc gid new_id c = (t, c')"
  shows "dc_token_lookup (sj_tokens c') namespc gid = Some t" "sj_db c' = sj_db c" "sj_keypairs c' = sj_keypairs c"
    "namespc \<noteq> other \<Longrightarrow> dc_token_lookup (sj_tokens c') other gid = dc_token_lookup (sj_tokens c) other gid"
    "list_all (\<lambda>r. list_all url_plain (tk_token r)) (sj_tokens c) \<Longrightarrow> list_all url_plain new_id \<Longrightarrow>
      list_all url_plain t \<and> list_all (\<lambda>r. list_all url_plain (tk_token r)) (sj_tokens c')"
proof -
  have snoc: "find P (xs @ [x]) = (case find P xs of None \<Rightarrow> if P x then Some x else None | Some y \<Rightarrow> Some y)"
    for P and xs :: "token_row list" and x by (induction xs) auto
  have snoc_None: "find P (xs @ [x]) = None \<longleftrightarrow> find P xs = None \<and> \<not> P x" for P and xs :: "token_row list" and x
    by (induction xs) auto
  have found: "find P xs = Some r \<Longrightarrow> r \<in> set xs" for P and xs :: "token_row list" and r
    by (auto simp: find_Some_iff)
  show "dc_token_lookup (sj_tokens c') namespc gid = Some t" "sj_db c' = sj_db c" "sj_keypairs c' = sj_keypairs c"
    "namespc \<noteq> other \<Longrightarrow> dc_token_lookup (sj_tokens c') other gid = dc_token_lookup (sj_tokens c) other gid"
    "list_all (\<lambda>r. list_all url_plain (tk_token r)) (sj_tokens c) \<Longrightarrow> list_all url_plain new_id \<Longrightarrow>
      list_all url_plain t \<and> list_all (\<lambda>r. list_all url_plain (tk_token r)) (sj_tokens c')"
    using assms by (auto simp: ensure_token_def dc_token_lookup_def dc_token_save_def snoc snoc_None dc_strdup_keep_null_def dc_strdup_def list_all_iff
        split: option.splits dest: found)
qed

text \<open>Whether the inviter can make a code, and with what.\<close>

definition can_invite :: "(u8 list \<Rightarrow> u8 list option) \<Rightarrow> stock \<Rightarrow> string \<times> string \<Rightarrow> sj_ctx \<Rightarrow> nat \<Rightarrow> string \<Rightarrow> string \<Rightarrow> bool" where
  "can_invite pgp stock new_ids c gid f a \<longleftrightarrow>
     dc_sqlite3_get_config (db_config (sj_db c)) (Some ''configured_addr'') None = Some a \<and>
     get_self_fingerprint pgp c = Some f \<and> qr_identity f a \<and>
     list_all url_plain (fst new_ids) \<and> list_all url_plain (snd new_ids) \<and>
     list_all (\<lambda>r. list_all url_plain (tk_token r)) (sj_tokens c) \<and>
     CHR 0x00 \<notin> set (dc_strdup (dc_sqlite3_get_config (db_config (sj_db c)) (Some ''displayname'') (Some []))) \<and>
     (gid = 0 \<or> (case dc_get_chat stock (sj_db c) gid of None \<Rightarrow> False
        | Some chat \<Rightarrow> chat_type chat = DC_CHAT_TYPE_VERIFIED_GROUP \<and> CHR 0x00 \<notin> set (dc_chat_get_name (Some chat)) \<and>
                       list_all url_plain (dc_strdup (chat_grpid chat))))"

text \<open>
  C20: What the inviter offers the joiner understands: \<open>dc_check_qr\<close> reads the code that
  \<open>dc_get_securejoin_qr\<close> made, for a contact or a verified group, as the question to verify with the
  fingerprint, the tokens that the inviter now has for this chat, the group id and name, and a contact
  with the address of the inviter, whatever characters names and address have.
\<close>

theorem offered_code_is_understood:
  assumes "can_invite pgp stock new_ids alice gid f a"
  shows "\<exists>qr alice' lot db'. dc_get_securejoin_qr now new_ids pgp stock alice gid = (qr, alice') \<and>
    dc_check_qr db peers (Some qr) = (lot, db', None) \<and>
    lot_state lot = (if gid = 0 then DC_QR_ASK_VERIFYCONTACT else DC_QR_ASK_VERIFYGROUP) \<and>
    lot_fingerprint lot = Some f \<and>
    lot_invitenumber lot = dc_token_lookup (sj_tokens alice') DC_TOKEN_INVITENUMBER gid \<and>
    lot_auth lot = dc_token_lookup (sj_tokens alice') DC_TOKEN_AUTH gid \<and>
    lot_text1 lot = (if gid = 0 then None else map_option (\<lambda>ch. dc_chat_get_name (Some ch)) (dc_get_chat stock (sj_db alice) gid)) \<and>
    lot_text2 lot = (if gid = 0 then None else map_option (\<lambda>ch. dc_strdup (chat_grpid ch)) (dc_get_chat stock (sj_db alice) gid)) \<and>
    (\<exists>name. qr_contact db name (Some a) = (lot_id lot, db'))"
proof -
  obtain i c1 where i: "ensure_token now DC_TOKEN_INVITENUMBER gid (fst new_ids) alice = (i, c1)" by fastforce
  obtain s c2 where s: "ensure_token now DC_TOKEN_AUTH gid (snd new_ids) c1 = (s, c2)" by fastforce
  have tokens: "dc_token_lookup (sj_tokens c2) DC_TOKEN_INVITENUMBER gid = Some i" "dc_token_lookup (sj_tokens c2) DC_TOKEN_AUTH gid = Some s"
    using ensure_token_found(1) [OF i] ensure_token_found(1,4) [OF s] by auto
  have plain: "list_all url_plain i" "list_all url_plain s"
    using ensure_token_found(5) [OF i] ensure_token_found(5) [OF s] assms by (auto simp: can_invite_def)
  have same: "sj_db c2 = sj_db alice" "get_self_fingerprint pgp c2 = get_self_fingerprint pgp alice"
    using ensure_token_found(2,3) [OF i] ensure_token_found(2,3) [OF s] by (auto simp: get_self_fingerprint_def cong: option.case_cong)
  let ?n = "dc_strdup (dc_sqlite3_get_config (db_config (sj_db alice)) (Some ''displayname'') (Some []))"
  show ?thesis
  proof (cases "gid = 0")
    case True
    then have "dc_get_securejoin_qr now new_ids pgp stock alice gid = (contact_qr f a ?n i s, c2)"
      using assms i s same by (simp add: dc_get_securejoin_qr_def can_invite_def)
    moreover have "qr_identity f a" "CHR 0x00 \<notin> set ?n" using assms by (auto simp: can_invite_def)
    ultimately show ?thesis
      using contact_qr_scanned [of f a ?n i s db peers] plain tokens True by auto
  next
    case False
    then obtain ch where ch: "dc_get_chat stock (sj_db alice) gid = Some ch" "chat_type ch = DC_CHAT_TYPE_VERIFIED_GROUP"
      "CHR 0x00 \<notin> set (dc_chat_get_name (Some ch))" "list_all url_plain (dc_strdup (chat_grpid ch))"
      using assms by (auto simp: can_invite_def split: option.splits)
    let ?g = "dc_chat_get_name (Some ch)" and ?x = "dc_strdup (chat_grpid ch)"
    have "dc_get_securejoin_qr now new_ids pgp stock alice gid = (group_qr f a ?g ?x i s, c2)"
      using assms i s same ch False by (simp add: dc_get_securejoin_qr_def can_invite_def)
    moreover have "qr_identity f a" using assms by (auto simp: can_invite_def)
    ultimately show ?thesis
      using group_qr_scanned [of f a ?g ?x i s db peers] plain tokens False ch by auto
  qed
qed

text \<open>Ada offers a code for a verified group whose name needs encoding.\<close>

definition ada_invites :: sj_ctx where
  "ada_invites = bob_waits\<lparr>sj_db := ada_database\<lparr>db_config := [(''configured_addr'', ''ada@b.c''), (''displayname'', ''A & B'')],
       db_chats := [\<lparr>ch_id = 20, ch_type = DC_CHAT_TYPE_VERIFIED_GROUP, ch_name = ''1 + 1 = 2'', ch_draft_timestamp = 0,
         ch_draft_txt = [], ch_blocked = 0, ch_grpid = ''grp-1'', ch_param = [], ch_archived = 0\<rparr>]\<rparr>,
     sj_keypairs := [\<lparr>kp_addr = ''ada@b.c'', kp_default = 1, kp_public = Some [1], kp_private = Some [2], kp_created = 0\<rparr>]\<rparr>"

definition sample_pgp :: "u8 list \<Rightarrow> u8 list option" where
  "sample_pgp k = Some (replicate 20 0xAB)"

theorem offered_code_is_understood_witness:
  "\<exists>qr alice' lot db'. dc_get_securejoin_qr 5 (''inv-1'', ''auth-2'') sample_pgp (\<lambda>_ _. []) ada_invites 20 = (qr, alice') \<and>
    dc_check_qr ada_database [] (Some qr) = (lot, db', None) \<and> lot_state lot = DC_QR_ASK_VERIFYGROUP \<and>
    lot_text1 lot = Some ''1 + 1 = 2'' \<and> lot_text2 lot = Some ''grp-1''"
proof -
  have chat: "dc_get_chat (\<lambda>_ _. []) (sj_db ada_invites) 20 = Some (dc_chat_set_from_stmt (\<lambda>_ _. []) (sj_db ada_invites) dc_chat_new
      (hd (db_chats (sj_db ada_invites))))"
    by code_simp
  have name: "dc_chat_get_name (Some (dc_chat_set_from_stmt (\<lambda>_ _. []) (sj_db ada_invites) dc_chat_new
      (hd (db_chats (sj_db ada_invites))))) = ''1 + 1 = 2''"
    "dc_strdup (chat_grpid (dc_chat_set_from_stmt (\<lambda>_ _. []) (sj_db ada_invites) dc_chat_new
      (hd (db_chats (sj_db ada_invites))))) = ''grp-1''" by code_simp+
  have "can_invite sample_pgp (\<lambda>_ _. []) (''inv-1'', ''auth-2'') ada_invites 20
     (dc_key_get_fingerprint sample_pgp (Some \<lparr>key_binary = Some [1], key_type = 0\<rparr>)) ''ada@b.c''"
    by code_simp
  from offered_code_is_understood [OF this, where db = ada_database and peers = "[]" and now = 5]
  show ?thesis by (simp add: chat name) metis
qed

end
