(* ===== verification/Sax.thy ===== *)
theory Sax
  imports Tools
begin

text \<open>
  \<open>src/dc_saxparser.c\<close>: the parser for HTML and XML.  It works in place on a copy of the document and only ever
  changes what lies behind its pointer, so the model takes the rest of the document apart and returns the
  calls of the handlers, in their order, as events.  \<open>xml_decode\<close> decodes entities and character references.
\<close>

section \<open>Decoding text\<close>

text \<open>The table of the source, its texts as UTF-8 bytes.\<close>

definition s_ent :: "(string \<times> string) list" where
  "s_ent = [
    (''lt;'', [CHR 0x3C]), (''gt;'', [CHR 0x3E]), (''quot;'', [CHR 0x22]), (''apos;'', [CHR 0x27]),
    (''amp;'', [CHR 0x26]), (''nbsp;'', [CHR 0x20]), (''iexcl;'', [CHR 0xC2, CHR 0xA1]),
    (''cent;'', [CHR 0xC2, CHR 0xA2]), (''pound;'', [CHR 0xC2, CHR 0xA3]), (''curren;'', [CHR 0xC2, CHR 0xA4]),
    (''yen;'', [CHR 0xC2, CHR 0xA5]), (''brvbar;'', [CHR 0xC2, CHR 0xA6]), (''sect;'', [CHR 0xC2, CHR 0xA7]),
    (''uml;'', [CHR 0xC2, CHR 0xA8]), (''copy;'', [CHR 0xC2, CHR 0xA9]), (''ordf;'', [CHR 0xC2, CHR 0xAA]),
    (''laquo;'', [CHR 0xC2, CHR 0xAB]), (''not;'', [CHR 0xC2, CHR 0xAC]), (''shy;'', [CHR 0x2D]),
    (''reg;'', [CHR 0xC2, CHR 0xAE]), (''macr;'', [CHR 0xC2, CHR 0xAF]), (''deg;'', [CHR 0xC2, CHR 0xB0]),
    (''plusmn;'', [CHR 0xC2, CHR 0xB1]), (''sup2;'', [CHR 0xC2, CHR 0xB2]), (''sup3;'', [CHR 0xC2, CHR 0xB3]),
    (''acute;'', [CHR 0xC2, CHR 0xB4]), (''micro;'', [CHR 0xC2, CHR 0xB5]), (''para;'', [CHR 0xC2, CHR 0xB6]),
    (''middot;'', [CHR 0xC2, CHR 0xB7]), (''cedil;'', [CHR 0xC2, CHR 0xB8]), (''sup1;'', [CHR 0xC2, CHR 0xB9]),
    (''ordm;'', [CHR 0xC2, CHR 0xBA]), (''raquo;'', [CHR 0xC2, CHR 0xBB]), (''frac14;'', [CHR 0xC2, CHR 0xBC]),
    (''frac12;'', [CHR 0xC2, CHR 0xBD]), (''frac34;'', [CHR 0xC2, CHR 0xBE]),
    (''iquest;'', [CHR 0xC2, CHR 0xBF]), (''Agrave;'', [CHR 0xC3, CHR 0x80]),
    (''Aacute;'', [CHR 0xC3, CHR 0x81]), (''Acirc;'', [CHR 0xC3, CHR 0x82]),
    (''Atilde;'', [CHR 0xC3, CHR 0x83]), (''Auml;'', [CHR 0xC3, CHR 0x84]), (''Aring;'', [CHR 0xC3, CHR 0x85]),
    (''AElig;'', [CHR 0xC3, CHR 0x86]), (''Ccedil;'', [CHR 0xC3, CHR 0x87]),
    (''Egrave;'', [CHR 0xC3, CHR 0x88]), (''Eacute;'', [CHR 0xC3, CHR 0x89]),
    (''Ecirc;'', [CHR 0xC3, CHR 0x8A]), (''Euml;'', [CHR 0xC3, CHR 0x8B]), (''Igrave;'', [CHR 0xC3, CHR 0x8C]),
    (''Iacute;'', [CHR 0xC3, CHR 0x8D]), (''Icirc;'', [CHR 0xC3, CHR 0x8E]), (''Iuml;'', [CHR 0xC3, CHR 0x8F]),
    (''ETH;'', [CHR 0xC3, CHR 0x90]), (''Ntilde;'', [CHR 0xC3, CHR 0x91]), (''Ograve;'', [CHR 0xC3, CHR 0x92]),
    (''Oacute;'', [CHR 0xC3, CHR 0x93]), (''Ocirc;'', [CHR 0xC3, CHR 0x94]),
    (''Otilde;'', [CHR 0xC3, CHR 0x95]), (''Ouml;'', [CHR 0xC3, CHR 0x96]), (''times;'', [CHR 0xC3, CHR 0x97]),
    (''Oslash;'', [CHR 0xC3, CHR 0x98]), (''Ugrave;'', [CHR 0xC3, CHR 0x99]),
    (''Uacute;'', [CHR 0xC3, CHR 0x9A]), (''Ucirc;'', [CHR 0xC3, CHR 0x9B]), (''Uuml;'', [CHR 0xC3, CHR 0x9C]),
    (''Yacute;'', [CHR 0xC3, CHR 0x9D]), (''THORN;'', [CHR 0xC3, CHR 0x9E]), (''szlig;'', [CHR 0xC3, CHR 0x9F]),
    (''agrave;'', [CHR 0xC3, CHR 0xA0]), (''aacute;'', [CHR 0xC3, CHR 0xA1]),
    (''acirc;'', [CHR 0xC3, CHR 0xA2]), (''atilde;'', [CHR 0xC3, CHR 0xA3]), (''auml;'', [CHR 0xC3, CHR 0xA4]),
    (''aring;'', [CHR 0xC3, CHR 0xA5]), (''aelig;'', [CHR 0xC3, CHR 0xA6]), (''ccedil;'', [CHR 0xC3, CHR 0xA7]),
    (''egrave;'', [CHR 0xC3, CHR 0xA8]), (''eacute;'', [CHR 0xC3, CHR 0xA9]),
    (''ecirc;'', [CHR 0xC3, CHR 0xAA]), (''euml;'', [CHR 0xC3, CHR 0xAB]), (''igrave;'', [CHR 0xC3, CHR 0xAC]),
    (''iacute;'', [CHR 0xC3, CHR 0xAD]), (''icirc;'', [CHR 0xC3, CHR 0xAE]), (''iuml;'', [CHR 0xC3, CHR 0xAF]),
    (''eth;'', [CHR 0xC3, CHR 0xB0]), (''ntilde;'', [CHR 0xC3, CHR 0xB1]), (''ograve;'', [CHR 0xC3, CHR 0xB2]),
    (''oacute;'', [CHR 0xC3, CHR 0xB3]), (''ocirc;'', [CHR 0xC3, CHR 0xB4]),
    (''otilde;'', [CHR 0xC3, CHR 0xB5]), (''ouml;'', [CHR 0xC3, CHR 0xB6]), (''divide;'', [CHR 0xC3, CHR 0xB7]),
    (''oslash;'', [CHR 0xC3, CHR 0xB8]), (''ugrave;'', [CHR 0xC3, CHR 0xB9]),
    (''uacute;'', [CHR 0xC3, CHR 0xBA]), (''ucirc;'', [CHR 0xC3, CHR 0xBB]), (''uuml;'', [CHR 0xC3, CHR 0xBC]),
    (''yacute;'', [CHR 0xC3, CHR 0xBD]), (''thorn;'', [CHR 0xC3, CHR 0xBE]), (''yuml;'', [CHR 0xC3, CHR 0xBF]),
    (''OElig;'', [CHR 0xC5, CHR 0x92]), (''oelig;'', [CHR 0xC5, CHR 0x93]), (''Scaron;'', [CHR 0xC5, CHR 0xA0]),
    (''scaron;'', [CHR 0xC5, CHR 0xA1]), (''Yuml;'', [CHR 0xC5, CHR 0xB8]), (''fnof;'', [CHR 0xC6, CHR 0x92]),
    (''circ;'', [CHR 0xCB, CHR 0x86]), (''tilde;'', [CHR 0xCB, CHR 0x9C]), (''Alpha;'', [CHR 0xCE, CHR 0x91]),
    (''Beta;'', [CHR 0xCE, CHR 0x92]), (''Gamma;'', [CHR 0xCE, CHR 0x93]), (''Delta;'', [CHR 0xCE, CHR 0x94]),
    (''Epsilon;'', [CHR 0xCE, CHR 0x95]), (''Zeta;'', [CHR 0xCE, CHR 0x96]), (''Eta;'', [CHR 0xCE, CHR 0x97]),
    (''Theta;'', [CHR 0xCE, CHR 0x98]), (''Iota;'', [CHR 0xCE, CHR 0x99]), (''Kappa;'', [CHR 0xCE, CHR 0x9A]),
    (''Lambda;'', [CHR 0xCE, CHR 0x9B]), (''Mu;'', [CHR 0xCE, CHR 0x9C]), (''Nu;'', [CHR 0xCE, CHR 0x9D]),
    (''Xi;'', [CHR 0xCE, CHR 0x9E]), (''Omicron;'', [CHR 0xCE, CHR 0x9F]), (''Pi;'', [CHR 0xCE, CHR 0xA0]),
    (''Rho;'', [CHR 0xCE, CHR 0xA1]), (''Sigma;'', [CHR 0xCE, CHR 0xA3]), (''Tau;'', [CHR 0xCE, CHR 0xA4]),
    (''Upsilon;'', [CHR 0xCE, CHR 0xA5]), (''Phi;'', [CHR 0xCE, CHR 0xA6]), (''Chi;'', [CHR 0xCE, CHR 0xA7]),
    (''Psi;'', [CHR 0xCE, CHR 0xA8]), (''Omega;'', [CHR 0xCE, CHR 0xA9]), (''alpha;'', [CHR 0xCE, CHR 0xB1]),
    (''beta;'', [CHR 0xCE, CHR 0xB2]), (''gamma;'', [CHR 0xCE, CHR 0xB3]), (''delta;'', [CHR 0xCE, CHR 0xB4]),
    (''epsilon;'', [CHR 0xCE, CHR 0xB5]), (''zeta;'', [CHR 0xCE, CHR 0xB6]), (''eta;'', [CHR 0xCE, CHR 0xB7]),
    (''theta;'', [CHR 0xCE, CHR 0xB8]), (''iota;'', [CHR 0xCE, CHR 0xB9]), (''kappa;'', [CHR 0xCE, CHR 0xBA]),
    (''lambda;'', [CHR 0xCE, CHR 0xBB]), (''mu;'', [CHR 0xCE, CHR 0xBC]), (''nu;'', [CHR 0xCE, CHR 0xBD]),
    (''xi;'', [CHR 0xCE, CHR 0xBE]), (''omicron;'', [CHR 0xCE, CHR 0xBF]), (''pi;'', [CHR 0xCF, CHR 0x80]),
    (''rho;'', [CHR 0xCF, CHR 0x81]), (''sigmaf;'', [CHR 0xCF, CHR 0x82]), (''sigma;'', [CHR 0xCF, CHR 0x83]),
    (''tau;'', [CHR 0xCF, CHR 0x84]), (''upsilon;'', [CHR 0xCF, CHR 0x85]), (''phi;'', [CHR 0xCF, CHR 0x86]),
    (''chi;'', [CHR 0xCF, CHR 0x87]), (''psi;'', [CHR 0xCF, CHR 0x88]), (''omega;'', [CHR 0xCF, CHR 0x89]),
    (''thetasym;'', [CHR 0xCF, CHR 0x91]), (''upsih;'', [CHR 0xCF, CHR 0x92]), (''piv;'', [CHR 0xCF, CHR 0x96]),
    (''ensp;'', [CHR 0x20]), (''emsp;'', [CHR 0x20]), (''thinsp;'', [CHR 0x20]), (''zwnj;'', ''''),
    (''zwj;'', ''''), (''lrm;'', ''''), (''rlm;'', ''''), (''ndash;'', [CHR 0xE2, CHR 0x80, CHR 0x93]),
    (''mdash;'', [CHR 0xE2, CHR 0x80, CHR 0x94]), (''lsquo;'', [CHR 0xE2, CHR 0x80, CHR 0x98]),
    (''rsquo;'', [CHR 0xE2, CHR 0x80, CHR 0x99]), (''sbquo;'', [CHR 0xE2, CHR 0x80, CHR 0x9A]),
    (''ldquo;'', [CHR 0xE2, CHR 0x80, CHR 0x9C]), (''rdquo;'', [CHR 0xE2, CHR 0x80, CHR 0x9D]),
    (''bdquo;'', [CHR 0xE2, CHR 0x80, CHR 0x9E]), (''dagger;'', [CHR 0xE2, CHR 0x80, CHR 0xA0]),
    (''Dagger;'', [CHR 0xE2, CHR 0x80, CHR 0xA1]), (''bull;'', [CHR 0xE2, CHR 0x80, CHR 0xA2]),
    (''hellip;'', [CHR 0xE2, CHR 0x80, CHR 0xA6]), (''permil;'', [CHR 0xE2, CHR 0x80, CHR 0xB0]),
    (''prime;'', [CHR 0xE2, CHR 0x80, CHR 0xB2]), (''Prime;'', [CHR 0xE2, CHR 0x80, CHR 0xB3]),
    (''lsaquo;'', [CHR 0xE2, CHR 0x80, CHR 0xB9]), (''rsaquo;'', [CHR 0xE2, CHR 0x80, CHR 0xBA]),
    (''oline;'', [CHR 0xE2, CHR 0x80, CHR 0xBE]), (''frasl;'', [CHR 0xE2, CHR 0x81, CHR 0x84]),
    (''euro;'', [CHR 0xE2, CHR 0x82, CHR 0xAC]), (''image;'', [CHR 0xE2, CHR 0x84, CHR 0x91]),
    (''weierp;'', [CHR 0xE2, CHR 0x84, CHR 0x98]), (''real;'', [CHR 0xE2, CHR 0x84, CHR 0x9C]),
    (''trade;'', [CHR 0xE2, CHR 0x84, CHR 0xA2]), (''alefsym;'', [CHR 0xE2, CHR 0x84, CHR 0xB5]),
    (''larr;'', [CHR 0xE2, CHR 0x86, CHR 0x90]), (''uarr;'', [CHR 0xE2, CHR 0x86, CHR 0x91]),
    (''rarr;'', [CHR 0xE2, CHR 0x86, CHR 0x92]), (''darr;'', [CHR 0xE2, CHR 0x86, CHR 0x93]),
    (''harr;'', [CHR 0xE2, CHR 0x86, CHR 0x94]), (''crarr;'', [CHR 0xE2, CHR 0x86, CHR 0xB5]),
    (''lArr;'', [CHR 0xE2, CHR 0x87, CHR 0x90]), (''uArr;'', [CHR 0xE2, CHR 0x87, CHR 0x91]),
    (''rArr;'', [CHR 0xE2, CHR 0x87, CHR 0x92]), (''dArr;'', [CHR 0xE2, CHR 0x87, CHR 0x93]),
    (''hArr;'', [CHR 0xE2, CHR 0x87, CHR 0x94]), (''forall;'', [CHR 0xE2, CHR 0x88, CHR 0x80]),
    (''part;'', [CHR 0xE2, CHR 0x88, CHR 0x82]), (''exist;'', [CHR 0xE2, CHR 0x88, CHR 0x83]),
    (''empty;'', [CHR 0xE2, CHR 0x88, CHR 0x85]), (''nabla;'', [CHR 0xE2, CHR 0x88, CHR 0x87]),
    (''isin;'', [CHR 0xE2, CHR 0x88, CHR 0x88]), (''notin;'', [CHR 0xE2, CHR 0x88, CHR 0x89]),
    (''ni;'', [CHR 0xE2, CHR 0x88, CHR 0x8B]), (''prod;'', [CHR 0xE2, CHR 0x88, CHR 0x8F]),
    (''sum;'', [CHR 0xE2, CHR 0x88, CHR 0x91]), (''minus;'', [CHR 0xE2, CHR 0x88, CHR 0x92]),
    (''lowast;'', [CHR 0xE2, CHR 0x88, CHR 0x97]), (''radic;'', [CHR 0xE2, CHR 0x88, CHR 0x9A]),
    (''prop;'', [CHR 0xE2, CHR 0x88, CHR 0x9D]), (''infin;'', [CHR 0xE2, CHR 0x88, CHR 0x9E]),
    (''ang;'', [CHR 0xE2, CHR 0x88, CHR 0xA0]), (''and;'', [CHR 0xE2, CHR 0x88, CHR 0xA7]),
    (''or;'', [CHR 0xE2, CHR 0x88, CHR 0xA8]), (''cap;'', [CHR 0xE2, CHR 0x88, CHR 0xA9]),
    (''cup;'', [CHR 0xE2, CHR 0x88, CHR 0xAA]), (''int;'', [CHR 0xE2, CHR 0x88, CHR 0xAB]),
    (''there4;'', [CHR 0xE2, CHR 0x88, CHR 0xB4]), (''sim;'', [CHR 0xE2, CHR 0x88, CHR 0xBC]),
    (''cong;'', [CHR 0xE2, CHR 0x89, CHR 0x85]), (''asymp;'', [CHR 0xE2, CHR 0x89, CHR 0x88]),
    (''ne;'', [CHR 0xE2, CHR 0x89, CHR 0xA0]), (''equiv;'', [CHR 0xE2, CHR 0x89, CHR 0xA1]),
    (''le;'', [CHR 0xE2, CHR 0x89, CHR 0xA4]), (''ge;'', [CHR 0xE2, CHR 0x89, CHR 0xA5]),
    (''sub;'', [CHR 0xE2, CHR 0x8A, CHR 0x82]), (''sup;'', [CHR 0xE2, CHR 0x8A, CHR 0x83]),
    (''nsub;'', [CHR 0xE2, CHR 0x8A, CHR 0x84]), (''sube;'', [CHR 0xE2, CHR 0x8A, CHR 0x86]),
    (''supe;'', [CHR 0xE2, CHR 0x8A, CHR 0x87]), (''oplus;'', [CHR 0xE2, CHR 0x8A, CHR 0x95]),
    (''otimes;'', [CHR 0xE2, CHR 0x8A, CHR 0x97]), (''perp;'', [CHR 0xE2, CHR 0x8A, CHR 0xA5]),
    (''sdot;'', [CHR 0xE2, CHR 0x8B, CHR 0x85]), (''lceil;'', [CHR 0xE2, CHR 0x8C, CHR 0x88]),
    (''rceil;'', [CHR 0xE2, CHR 0x8C, CHR 0x89]), (''lfloor;'', [CHR 0xE2, CHR 0x8C, CHR 0x8A]),
    (''rfloor;'', [CHR 0xE2, CHR 0x8C, CHR 0x8B]), (''lang;'', [CHR 0x3C]), (''rang;'', [CHR 0x3E]),
    (''loz;'', [CHR 0xE2, CHR 0x97, CHR 0x8A]), (''spades;'', [CHR 0xE2, CHR 0x99, CHR 0xA0]),
    (''clubs;'', [CHR 0xE2, CHR 0x99, CHR 0xA3]), (''hearts;'', [CHR 0xE2, CHR 0x99, CHR 0xA5]),
    (''diams;'', [CHR 0xE2, CHR 0x99, CHR 0xA6])]"

definition find_entity :: "string \<Rightarrow> (string \<times> string) option" where
  "find_entity s = find (\<lambda>(name, rep). starts_with name s) s_ent"

text \<open>
  The first loop: line ends become line feeds.  It steps over the character behind a carriage return without a
  look at it: if that is the end of the text, it goes on behind the end.
\<close>

fun norm_eol :: "string \<Rightarrow> string" where
  "norm_eol [] = []"
| "norm_eol (c # cs) =
     (if c = CR then NL # norm_eol (if cs \<noteq> [] \<and> hd cs = NL then tl cs else cs) else c # norm_eol cs)"

text \<open>
  The same loop in place, on the bytes of the buffer from the pointer on, those behind the text included:
  \<open>eol_inner\<close> is the inner loop with the step of the outer one behind it.  \<open>None\<close> is a look behind the buffer.
\<close>

definition shift_left :: "string \<Rightarrow> string" where
  "shift_left b = (let k = length (c_string b) in take k (tl b) @ drop k b)"

lemma shift_left_length: "length (shift_left b) \<le> length b"
  using length_takeWhile_le [of "\<lambda>c. c \<noteq> CHR 0x00" b] by (simp add: shift_left_def Let_def c_string_def min_def) linarith

function eol_loop :: "string \<Rightarrow> string option" and eol_inner :: "string \<Rightarrow> string option" where
  "eol_loop b = (if b = [] then None else if hd b = CHR 0x00 then Some b else eol_inner b)"
| "eol_inner b =
     (if b = [] then None
      else if hd b = CR then
        map_option (Cons NL) (eol_inner (if tl b \<noteq> [] \<and> hd (tl b) = NL then shift_left (tl b) else tl b))
      else map_option (Cons (hd b)) (eol_loop (tl b)))"
  by pat_completeness auto
termination
proof (relation "measure (\<lambda>x. case x of Inl b \<Rightarrow> 2 * length b + 1 | Inr b \<Rightarrow> 2 * length b)", goal_cases)
  case (3 b)
  then show ?case using shift_left_length [of "tl b"] by (cases b) auto
next
  case (4 b)
  then show ?case by (cases b) auto
qed auto

declare eol_loop.simps [simp del] eol_inner.simps [simp del]

text \<open>Where the loop goes on behind the end of the text.\<close>

definition overruns :: "string \<Rightarrow> bool" where
  "overruns s \<longleftrightarrow> s \<noteq> [] \<and> last s = CR \<and> length (norm_eol s) = length s"

definition after_decode :: "string \<Rightarrow> string \<Rightarrow> string" where
  "after_decode text p = (if overruns text then norm_eol p else p)"

lemma norm_eol_length: "length (norm_eol s) \<le> length s"
proof (induction s rule: norm_eol.induct)
  case (2 c cs)
  then show ?case by (cases "c = CR") (auto split: if_splits)
qed simp

lemma after_decode_length: "length (after_decode text p) \<le> length p"
  by (simp add: after_decode_def norm_eol_length)

text \<open>\<open>strtol\<close> with the two bases used: the value and where it ends, \<open>s\<close> if there is no number.\<close>

definition digit_value :: "char \<Rightarrow> nat" where
  "digit_value c = (if c_isdigit c then byte_of c - 48 else byte_of (c_tolower c) - 87)"

definition is_digit :: "nat \<Rightarrow> char \<Rightarrow> bool" where
  "is_digit base c \<longleftrightarrow> c_isdigit c \<or> (base = 16 \<and> 97 \<le> byte_of (c_tolower c) \<and> byte_of (c_tolower c) \<le> 102)"

definition to_long :: "int \<Rightarrow> int" where
  "to_long i = max (- (2 ^ 63)) (min (2 ^ 63 - 1) i)"

text \<open>The text from the first digit on, spaces, sign and prefix skipped.\<close>

definition strtol_digits :: "string \<Rightarrow> nat \<Rightarrow> string" where
  "strtol_digits s base =
     (let t = dropWhile c_isspace s;
          t = (if t \<noteq> [] \<and> (hd t = CHR ''-'' \<or> hd t = CHR ''+'') then tl t else t)
      in if base = 16 \<and> length t > 2 \<and> hd t = CHR ''0'' \<and> c_tolower (t ! 1) = CHR ''x'' \<and> is_digit 16 (t ! 2)
         then drop 2 t else t)"

definition strtol :: "string \<Rightarrow> nat \<Rightarrow> int \<times> string" where
  "strtol s base =
     (let t = dropWhile c_isspace s;
          neg = (t \<noteq> [] \<and> hd t = CHR ''-'');
          ds = takeWhile (is_digit base) (strtol_digits s base);
          v = int (foldl (\<lambda>a d. base * a + digit_value d) 0 ds)
      in if ds = [] then (0, s) else (to_long (if neg then - v else v), dropWhile (is_digit base) (strtol_digits s base)))"

fun bit_count :: "nat \<Rightarrow> nat" where
  "bit_count d = (if d = 0 then 0 else Suc (bit_count (d div 2)))"

declare bit_count.simps [simp del]

text \<open>
  The bytes of a reference.  For more than 41 bits the shift counts are negative or too large, which C leaves
  undefined; here they are taken as the shift instructions of the common processors do.
\<close>

definition utf8_bytes :: "int \<Rightarrow> string" where
  "utf8_bytes c =
     (if c < 0x80 then [char_of (nat (c mod 256))]
      else
        let b = (bit_count (nat c) - 2) div 5;
            head = or (255 * 2 ^ nat ((7 - int b) mod 32)) (c div 2 ^ (6 * b mod 64))
        in char_of (nat (head mod 256)) #
           map (\<lambda>k. char_of (nat (0x80 + c div 2 ^ (6 * k mod 64) mod 64))) (rev [0..<b]))"

text \<open>The text behind \<open>&#\<close>: the bytes of the reference and the rest, \<open>None\<close> where it is no reference.\<close>

definition char_ref :: "string \<Rightarrow> (string \<times> string) option" where
  "char_ref s =
     (let (c, e) = (if s \<noteq> [] \<and> hd s = CHR ''x'' then strtol (tl s) 16 else strtol s 10)
      in if c = 0 \<or> e = [] \<or> hd e \<noteq> CHR '';'' then None else Some (utf8_bytes c, tl e))"

lemma s_ent_shrinks: "list_all (\<lambda>(name, rep). length rep \<le> length name) s_ent"
  by code_simp

lemma find_entity_shrinks: "find_entity s = Some (name, rep) \<Longrightarrow> length rep \<le> length name \<and> s = name @ drop (length name) s"
proof -
  assume "find_entity s = Some (name, rep)"
  then obtain i where i: "i < length s_ent" "starts_with name s" "(name, rep) = s_ent ! i"
    by (auto simp: find_entity_def find_Some_iff)
  then have "length rep \<le> length name" using s_ent_shrinks by (fastforce simp: list_all_iff dest: nth_mem)
  moreover have "s = name @ drop (length name) s"
    using i(2) append_take_drop_id [of "length name" s] by simp
  ultimately show ?thesis by blast
qed

lemma strtol_digits_length: "length (strtol_digits s base) \<le> length s"
proof -
  define t where "t = dropWhile c_isspace s"
  have "length (strtol_digits s base) \<le> length t" by (simp add: strtol_digits_def Let_def t_def [symmetric])
  also have "\<dots> \<le> length s" unfolding t_def by (rule length_dropWhile_le)
  finally show ?thesis .
qed

lemma strtol_rest: "length (snd (strtol s base)) \<le> length s"
  using le_trans [OF length_dropWhile_le strtol_digits_length] by (simp add: strtol_def Let_def)

lemma char_ref_rest: "char_ref s = Some (bytes, r) \<Longrightarrow> length r < length s"
proof -
  assume a: "char_ref s = Some (bytes, r)"
  obtain c e where ce: "(if s \<noteq> [] \<and> hd s = CHR ''x'' then strtol (tl s) 16 else strtol s 10) = (c, e)" by fastforce
  then have "length e \<le> length s"
    using strtol_rest [of "tl s" 16] strtol_rest [of s 10] by (auto split: if_splits)
  moreover have "e \<noteq> []" "r = tl e" using a ce by (auto simp: char_ref_def split: if_splits)
  ultimately show ?thesis by (cases e) auto
qed

text \<open>The second loop; \<open>s\<close> is the text from the pointer on.\<close>

function decode_loop :: "char \<Rightarrow> string \<Rightarrow> string" where
  "decode_loop ty [] = []"
| "decode_loop ty (c # s) =
     (if c \<noteq> CHR ''&'' \<and> \<not> c_isspace c then c # decode_loop ty s
      else if ty \<noteq> CHR ''c'' \<and> c = CHR ''&'' \<and> s \<noteq> [] \<and> hd s = CHR ''#'' then
        (case char_ref (tl s) of
           None \<Rightarrow> c # decode_loop ty s
         | Some (bytes, r) \<Rightarrow> bytes @ decode_loop ty r)
      else if c = CHR ''&'' \<and> (ty = CHR ''&'' \<or> ty = CHR '' '') then
        (case find_entity s of
           None \<Rightarrow> c # decode_loop ty s
         | Some (name, rep) \<Rightarrow> decode_loop ty (rep @ drop (length name) s))
      else if ty = CHR '' '' \<and> c_isspace c then CHR '' '' # decode_loop ty s
      else c # decode_loop ty s)"
  by pat_completeness auto
termination
proof (relation "measure (\<lambda>(ty, s). length s)", goal_cases)
  case (4 ty c s x2 bytes r)
  then show ?case using char_ref_rest [of "tl s" bytes r] by (cases s) auto
next
  case (6 ty c s x2 name rep)
  then have "length rep \<le> length name" "s = name @ drop (length name) s" using find_entity_shrinks by blast+
  then have "length (rep @ drop (length name) s) \<le> length s"
    by (metis add_le_mono1 length_append)
  then show ?case by simp
qed auto

declare decode_loop.simps(2) [simp del]

definition xml_decode :: "string \<Rightarrow> char \<Rightarrow> string" where
  "xml_decode s ty = c_string (decode_loop ty (norm_eol s))"

section \<open>Events\<close>

datatype sax_event =
    Start_Tag string "(string \<times> string) list"
  | End_Tag string
  | Text_Part string nat

definition call_text_cb :: "string \<Rightarrow> char \<Rightarrow> sax_event list" where
  "call_text_cb t ty = (if t = [] then [] else [Text_Part (xml_decode t ty) (length t)])"

definition dc_attr_find :: "(string \<times> string) list \<Rightarrow> string \<Rightarrow> cptr" where
  "dc_attr_find attr key = map_of attr key"

abbreviation XML_WS :: string where "XML_WS \<equiv> [CHR 0x09, CHR 0x0D, CHR 0x0A, CHR 0x20]"
abbreviation MAX_ATTR :: nat where "MAX_ATTR \<equiv> 100"

definition xspan :: "string \<Rightarrow> string \<Rightarrow> string" where
  "xspan chars p = dropWhile (\<lambda>c. c \<in> set chars) p"

definition xtoken :: "string \<Rightarrow> string \<Rightarrow> string" where
  "xtoken stops p = takeWhile (\<lambda>c. c \<notin> set stops) p"

section \<open>Attributes\<close>

text \<open>The value behind an equals sign, and the rest.\<close>

definition attr_after_eq :: "string \<Rightarrow> string \<times> string" where
  "attr_after_eq p =
     (let p = xspan (XML_WS @ ''='') p in
      if p \<noteq> [] \<and> (hd p = CHR 0x22 \<or> hd p = CHR 0x27) then
        let quote = hd p; v = takeWhile (\<lambda>c. c \<noteq> quote) (tl p) in
        (xml_decode v (CHR '' ''), after_decode v (tl (dropWhile (\<lambda>c. c \<noteq> quote) (tl p))))
      else
        let v = xtoken (XML_WS @ ''/>'') p
        in (xml_decode v (CHR '' ''), drop (length v) p))"

text \<open>An index counts names and values, so at most \<open>MAX_ATTR\<close> of both are kept.\<close>

definition add_attr :: "(string \<times> string) list \<Rightarrow> string \<Rightarrow> string \<Rightarrow> (string \<times> string) list" where
  "add_attr attr name v =
     (if 2 * length attr < MAX_ATTR then attr @ [(dc_strlower_in_place name, v)] else attr)"

definition value_of_attr :: "string \<Rightarrow> string \<times> string" where
  "value_of_attr p = (if p \<noteq> [] \<and> hd p = CHR ''='' then attr_after_eq p else ([], p))"

definition attr_round :: "(string \<times> string) list \<Rightarrow> string \<Rightarrow> (string \<times> string) list \<times> string" where
  "attr_round attr p =
     (let name = xtoken (XML_WS @ ''=/>'') p in
      if name = [] then (attr, dropWhile c_isspace p)
      else
        let (v, p) = value_of_attr (xspan XML_WS (drop (length name) p))
        in (add_attr attr name v, dropWhile c_isspace p))"

lemma xspan_length: "length (xspan w p) \<le> length p"
  by (simp add: xspan_def length_dropWhile_le)

lemma attr_after_eq_length: "length (snd (attr_after_eq p)) \<le> length p"
proof -
  let ?q = "xspan (XML_WS @ ''='') p"
  have dw: "length (tl (dropWhile P (tl t))) \<le> length t" for P and t :: string
  proof -
    have "length (tl (dropWhile P (tl t))) \<le> length (dropWhile P (tl t))" by simp
    also have "\<dots> \<le> length (tl t)" by (rule length_dropWhile_le)
    also have "\<dots> \<le> length t" by simp
    finally show ?thesis .
  qed
  have "length (snd (attr_after_eq p)) \<le> length ?q"
    unfolding attr_after_eq_def Let_def
    by (auto intro!: le_trans [OF after_decode_length dw])
  then show ?thesis using xspan_length [of "XML_WS @ ''=''" p] by (rule order_trans)
qed

lemma xtoken_Nil: "p \<noteq> [] \<Longrightarrow> xtoken w p = [] \<Longrightarrow> hd p \<in> set w"
  by (cases p) (auto simp: xtoken_def split: if_splits)

lemma attr_round_progress:
  assumes "p \<noteq> []" "hd p \<notin> set ''=/>''"
  shows "length (snd (attr_round attr p)) < length p"
proof (cases "xtoken (XML_WS @ ''=/>'') p = []")
  case True
  then have "c_isspace (hd p)" using xtoken_Nil [OF assms(1) True] assms(2) by (auto simp: c_isspace_def)
  then show ?thesis
    using assms(1) True length_dropWhile_le [of c_isspace "tl p"]
    by (cases p) (auto simp: attr_round_def Let_def le_imp_less_Suc)
next
  case False
  let ?n = "xtoken (XML_WS @ ''=/>'') p"
  let ?q = "xspan XML_WS (drop (length ?n) p)"
  have "length ?n > 0" using False by simp
  then have "length ?q < length p"
    using xspan_length [of XML_WS "drop (length ?n) p"] assms(1) by (simp add: le_less_trans)
  moreover have "length (snd (value_of_attr ?q)) \<le> length ?q"
    using attr_after_eq_length [of ?q] by (simp add: value_of_attr_def)
  moreover have "length (dropWhile c_isspace t) \<le> length t" for t by (rule length_dropWhile_le)
  ultimately have "length (dropWhile c_isspace (snd (value_of_attr ?q))) < length p"
    using le_trans le_less_trans by meson
  then show ?thesis using False by (simp add: attr_round_def Let_def split_def)
qed

function attr_loop :: "(string \<times> string) list \<Rightarrow> string \<Rightarrow> (string \<times> string) list \<times> string" where
  "attr_loop attr p =
     (if p = [] \<or> hd p = CHR ''/'' \<or> hd p = CHR ''>'' then (attr, p)
      else if hd p = CHR ''='' then attr_loop attr (tl p)
      else case attr_round attr p of (attr, p) \<Rightarrow> attr_loop attr p)"
  by pat_completeness auto
termination
proof (relation "measure (\<lambda>(attr, p). length p)", goal_cases)
  case (2 attr p)
  then show ?case by (cases p) auto
next
  case (3 attr p attr' p')
  then show ?case using attr_round_progress [of p attr] by (auto simp: split_def)
qed simp

declare attr_loop.simps [simp del]

section \<open>Markup\<close>

text \<open>The events of one piece of markup, from the character behind \<open><\<close> on, and the rest, \<open>None\<close> at \<open>cleanup\<close>.\<close>

definition tag_end :: "string \<Rightarrow> string option" where
  "tag_end p = map_option tl (strchr p (CHR ''>''))"

definition end_tag :: "string \<Rightarrow> sax_event list \<times> string option" where
  "end_tag p =
     (let p = xspan XML_WS p; name = xtoken (XML_WS @ ''/>'') p
      in (if name = [] then [] else [End_Tag (dc_strlower_in_place name)], tag_end (drop (length name) p)))"

definition start_tag :: "string \<Rightarrow> sax_event list \<times> string option" where
  "start_tag p =
     (let name = xtoken (XML_WS @ ''/>'') p; p = drop (length name) p in
      if name = [] then ([], tag_end p)
      else
        let (attr, p) = attr_loop [] (dropWhile c_isspace p);
            tag = dc_strlower_in_place name;
            p = xspan XML_WS p
        in if p \<noteq> [] \<and> hd p = CHR ''/'' then ([Start_Tag tag attr, End_Tag tag], tag_end (tl p))
           else ([Start_Tag tag attr], tag_end p))"

definition cdata :: "string \<Rightarrow> sax_event list \<times> string option" where
  "cdata p =
     (case strstr p '']]>'' of
        Some q \<Rightarrow>
          let t = drop 8 (before_str p '']]>'') in (call_text_cb t (CHR ''c''), Some (after_decode t (drop 3 q)))
      | None \<Rightarrow> (call_text_cb (drop 8 p) (CHR ''c''), None))"

definition doctype :: "string \<Rightarrow> string option" where
  "doctype p =
     (let q = dropWhile (\<lambda>c. c \<noteq> CHR ''['' \<and> c \<noteq> CHR ''>'') p in
      if q = [] then None
      else if hd q = CHR ''['' then map_option (drop 2) (strstr q '']>'')
      else Some (tl q))"

definition markup :: "string \<Rightarrow> sax_event list \<times> string option" where
  "markup p =
     (if starts_with ''!--'' p then ([], map_option (drop 3) (strstr p ''-->''))
      else if starts_with ''![CDATA['' p then cdata p
      else if starts_with ''!DOCTYPE'' p then ([], doctype p)
      else if p \<noteq> [] \<and> hd p = CHR ''?'' then ([], map_option (drop 2) (strstr p ''?>''))
      else
        let q = xspan XML_WS p in
        if q \<noteq> [] \<and> hd q = CHR ''/'' then end_tag (tl q) else start_tag q)"

lemma strchr_length: "strchr s c = Some r \<Longrightarrow> length r \<le> length s"
  by (induction s) (auto split: if_splits)

lemma tag_end_length: "tag_end p = Some r \<Longrightarrow> length r < length p"
  using strchr_length [of p "CHR ''>''"] strchr_Some [of p "CHR ''>''"] dropWhile_neq_Cons [of "CHR ''>''" p]
  by (fastforce simp: tag_end_def le_eq_less_or_eq)

lemma attr_loop_length: "length (snd (attr_loop attr p)) \<le> length p"
proof (induction attr p rule: attr_loop.induct)
  case (1 attr p)
  show ?case
  proof (cases "p = [] \<or> hd p = CHR ''/'' \<or> hd p = CHR ''>''")
    case True
    then show ?thesis by (subst attr_loop.simps) simp
  next
    case False
    show ?thesis
    proof (cases "hd p = CHR ''=''")
      case True
      then show ?thesis using False 1(1) [OF False True] by (subst attr_loop.simps) (auto intro: order_trans)
    next
      case neq: False
      obtain a q where aq: "attr_round attr p = (a, q)" by fastforce
      have "length q < length p" using attr_round_progress [of p attr] False neq aq by auto
      then show ?thesis using False neq aq 1(2) [OF False neq aq [symmetric]] by (subst attr_loop.simps) simp
    qed
  qed
qed

lemma strstr_drop_length: "map_option (drop n) (strstr s w) = Some r \<Longrightarrow> length r \<le> length s"
  using strstr_length [of s w] by (cases "strstr s w") auto

lemma cdata_length: "cdata p = (ev, Some r) \<Longrightarrow> length r \<le> length p"
  using strstr_length [of p "'']]>''"]
  by (auto simp: cdata_def Let_def split: option.splits intro: le_trans [OF after_decode_length])

lemma doctype_length: "doctype p = Some r \<Longrightarrow> length r \<le> length p"
proof -
  assume a: "doctype p = Some r"
  let ?q = "dropWhile (\<lambda>c. c \<noteq> CHR ''['' \<and> c \<noteq> CHR ''>'') p"
  have "length r \<le> length ?q"
    using a strstr_drop_length [where s = ?q] unfolding doctype_def Let_def by (fastforce split: if_split_asm)
  then show ?thesis using length_dropWhile_le le_trans by blast
qed

lemma end_tag_length: "end_tag p = (ev, Some r) \<Longrightarrow> length r \<le> length p"
proof -
  assume a: "end_tag p = (ev, Some r)"
  let ?q = "xspan XML_WS p"
  have "tag_end (drop (length (xtoken (XML_WS @ ''/>'') ?q)) ?q) = Some r" using a by (simp add: end_tag_def Let_def)
  from tag_end_length [OF this] show ?thesis using xspan_length [of XML_WS p] by simp
qed

lemma start_tag_length: "start_tag p = (ev, Some r) \<Longrightarrow> length r \<le> length p"
proof -
  assume m: "start_tag p = (ev, Some r)"
  define t where "t = drop (length (xtoken (XML_WS @ ''/>'') p)) p"
  obtain a s where as: "attr_loop [] (dropWhile c_isspace t) = (a, s)" by fastforce
  have "length s \<le> length t"
    using attr_loop_length [of "[]" "dropWhile c_isspace t"] as le_trans [OF _ length_dropWhile_le [of c_isspace t]] by simp
  then have "length (xspan XML_WS s) \<le> length p" "length (tl (xspan XML_WS s)) \<le> length p" "length t \<le> length p"
    using xspan_length [of XML_WS s] by (auto simp: t_def)
  moreover have "tag_end p = Some r \<or> tag_end (xspan XML_WS s) = Some r \<or> tag_end (tl (xspan XML_WS s)) = Some r"
    using m as by (simp add: start_tag_def Let_def t_def split: if_split_asm)
  ultimately obtain u where "tag_end u = Some r" "length u \<le> length p" by auto
  then show ?thesis using tag_end_length [of u r] by simp
qed

lemma markup_length: "markup p = (ev, Some r) \<Longrightarrow> length r \<le> length p"
proof -
  assume m: "markup p = (ev, Some r)"
  define q where "q = xspan XML_WS p"
  have q: "length q \<le> length p" "length (tl q) \<le> length p"
    using xspan_length [of XML_WS p] by (simp_all add: q_def)
  consider "map_option (drop 3) (strstr p ''-->'') = Some r" | "cdata p = (ev, Some r)" | "doctype p = Some r"
    | "map_option (drop 2) (strstr p ''?>'') = Some r" | "end_tag (tl q) = (ev, Some r)" | "start_tag q = (ev, Some r)"
    using m unfolding markup_def q_def [symmetric] Let_def by (auto split: if_split_asm)
  then show ?thesis
    using strstr_drop_length cdata_length doctype_length end_tag_length start_tag_length q le_trans
    by cases blast+
qed

text \<open>\<open>t\<close> is the text from \<open>last_text_start\<close> to the pointer.\<close>

function sax_loop :: "string \<Rightarrow> string \<Rightarrow> sax_event list" where
  "sax_loop t [] = call_text_cb t (CHR ''&'')"
| "sax_loop t (c # p) =
     (if c = CHR ''<'' then
        call_text_cb t (CHR ''&'') @
        (case markup (after_decode t p) of (events, None) \<Rightarrow> events | (events, Some r) \<Rightarrow> events @ sax_loop [] r)
      else sax_loop (t @ [c]) p)"
  by pat_completeness auto
termination
proof (relation "measure (\<lambda>(t, p). length p)", goal_cases)
  case (2 t c p events o' r)
  then have "length r \<le> length (after_decode t p)" using markup_length [of "after_decode t p" events r] by simp
  then show ?case using after_decode_length [of t p] by simp
qed auto

definition dc_saxparser_parse :: "cptr \<Rightarrow> sax_event list" where
  "dc_saxparser_parse buf_start = sax_loop [] (dc_strdup buf_start)"

section \<open>The line ends in place\<close>

lemma norm_eol_Nil_iff [simp]: "norm_eol s = [] \<longleftrightarrow> s = []"
  by (cases s) auto

lemma shift_left_text:
  "CHR 0x00 \<notin> set ds \<Longrightarrow> shift_left (NL # ds @ replicate (Suc k) (CHR 0x00) @ rest) = ds @ replicate (Suc (Suc k)) (CHR 0x00) @ rest"
proof -
  assume a: "CHR 0x00 \<notin> set ds"
  then have c: "takeWhile (\<lambda>c. c \<noteq> CHR 0x00) (ds @ CHR 0x00 # r) = ds" for r
    by (subst takeWhile_append2) auto
  show ?thesis by (simp add: shift_left_def c_string_def Let_def c)
qed

lemma eol_loop_Cons: "c \<noteq> CHR 0x00 \<Longrightarrow> eol_loop (c # b) = eol_inner (c # b)"
  by (simp add: eol_loop.simps)

lemma eol_inner_Cons: "c \<noteq> CR \<Longrightarrow> eol_inner (c # b) = map_option (Cons c) (eol_loop b)"
  by (simp add: eol_inner.simps [of "c # b"])

lemma eol_loop_null: "eol_loop (CHR 0x00 # b) = Some (CHR 0x00 # b)"
  by (simp add: eol_loop.simps)

lemma eol_inner_CR:
  "eol_inner (CR # b) = map_option (Cons NL) (eol_inner (if b \<noteq> [] \<and> hd b = NL then shift_left b else b))"
  by (simp add: eol_inner.simps [of "CR # b"])

text \<open>The buffer after the loop: \<open>k + 1\<close> null bytes behind the text and \<open>rest\<close> behind them.\<close>

definition eol_result :: "string \<Rightarrow> nat \<Rightarrow> string \<Rightarrow> string option" where
  "eol_result t k rest =
     (if k = 0 \<and> overruns t then map_option (\<lambda>r. norm_eol t @ CHR 0x00 # r) (eol_loop rest)
      else Some (norm_eol t @ replicate (Suc k + (length t - length (norm_eol t))) (CHR 0x00) @ rest))"

lemma eol_inner_null:
  "eol_inner (replicate (Suc k) (CHR 0x00) @ rest) =
    (if k = 0 then map_option (Cons (CHR 0x00)) (eol_loop rest) else Some (replicate (Suc k) (CHR 0x00) @ rest))"
  by (cases k) (simp_all add: eol_inner_Cons eol_loop_null)

lemma eol_inner_text:
  "CHR 0x00 \<notin> set t \<Longrightarrow>
    eol_loop (t @ replicate (Suc k) (CHR 0x00) @ rest) = eol_result t k rest \<and>
    (t \<noteq> [] \<longrightarrow> eol_inner (t @ replicate (Suc k) (CHR 0x00) @ rest) = eol_result t k rest)"
proof (induction t arbitrary: k rule: norm_eol.induct)
  case 1
  show ?case by (simp add: eol_result_def overruns_def eol_loop_null)
next
  case (2 c cs)
  note len = norm_eol_length [of cs] norm_eol_length [of "tl cs"]
  have c0: "c \<noteq> CHR 0x00" "CHR 0x00 \<notin> set cs" using 2(3) by auto
  have inner: "eol_inner (c # cs @ replicate (Suc k) (CHR 0x00) @ rest) = eol_result (c # cs) k rest"
  proof (cases "c = CR")
    case False
    then show ?thesis
      using 2(2) [of k] c0 len False eol_inner_Cons [OF False]
      by (auto simp: eol_result_def overruns_def option.map_comp comp_def Suc_diff_le)
  next
    case CR: True
    show ?thesis
    proof (cases "cs \<noteq> [] \<and> hd cs = NL")
      case True
      then obtain ds where ds: "cs = NL # ds" by (cases cs) auto
      have "eol_inner (c # cs @ replicate (Suc k) (CHR 0x00) @ rest) =
          map_option (Cons NL) (eol_inner (ds @ replicate (Suc (Suc k)) (CHR 0x00) @ rest))"
        using shift_left_text [of ds k rest] c0 CR ds by (simp add: eol_inner_CR)
      also have "eol_inner (ds @ replicate (Suc (Suc k)) (CHR 0x00) @ rest) = eol_result ds (Suc k) rest"
        using 2(1) [OF CR, of "Suc k"] c0 ds eol_inner_null [of "Suc k" rest]
        by (cases "ds = []") (auto simp: eol_result_def)
      finally show ?thesis using CR ds len by (auto simp: eol_result_def overruns_def Suc_diff_le)
    next
      case no: False
      have "eol_inner (c # cs @ replicate (Suc k) (CHR 0x00) @ rest) =
          map_option (Cons NL) (eol_inner (cs @ replicate (Suc k) (CHR 0x00) @ rest))"
        using no CR by (cases cs) (auto simp: eol_inner_CR)
      then show ?thesis
        using 2(1) [OF CR, of k] c0 no len CR eol_inner_null [of k rest]
        by (cases "cs = []") (auto simp: eol_result_def overruns_def option.map_comp comp_def Suc_diff_le)
    qed
  qed
  then show ?case using c0 by (simp add: eol_loop_Cons)
qed

text \<open>
  C30: The first loop of \<open>xml_decode\<close>, run in place on a buffer with the text, its null byte and more behind it, makes
  of every carriage return with or without line feed one line feed; what the text loses in length is null bytes.
  Where the text ends in a lone carriage return and nothing was removed before, the loop steps over the
  null byte and goes on with the bytes behind it; at the end of the buffer that is a read out of bounds.
\<close>

theorem line_ends_in_place:
  assumes "CHR 0x00 \<notin> set t"
  shows "eol_loop (t @ CHR 0x00 # rest) =
    (if overruns t then map_option (\<lambda>r. norm_eol t @ CHR 0x00 # r) (eol_loop rest)
     else Some (norm_eol t @ replicate (length t - length (norm_eol t)) (CHR 0x00) @ CHR 0x00 # rest))"
  using eol_inner_text [OF assms, of 0 rest]
  by (simp add: eol_result_def replicate_app_Cons_same)

lemma line_ends_in_place_witness: "eol_loop (''ab'' @ [CR] @ [CHR 0x00]) = None"
  using line_ends_in_place [of "''ab'' @ [CR]" "[]"] by (simp add: overruns_def eol_loop.simps)

section \<open>Bounds\<close>

lemma bit_count_bound: "d < 2 ^ n \<Longrightarrow> bit_count d \<le> n"
proof (induction n arbitrary: d)
  case 0
  then show ?case by (subst bit_count.simps) simp
next
  case (Suc n)
  then show ?case by (subst bit_count.simps) auto
qed

text \<open>A reference is at least as long as its bytes: a digit has at most four bits.\<close>

lemma digits_value_bound:
  assumes "list_all (is_digit base) ds" "base = 10 \<or> base = 16"
  shows "foldl (\<lambda>a d. base * a + digit_value d) a ds < (a + 1) * base ^ length ds"
  using assms(1)
proof (induction ds arbitrary: a)
  case (Cons d ds)
  have d: "digit_value d < base"
    using Cons.prems assms(2)
    by (auto simp: is_digit_def digit_value_def c_isdigit_def)
  have "foldl (\<lambda>a d. base * a + digit_value d) (base * a + digit_value d) ds < (base * a + digit_value d + 1) * base ^ length ds"
    using Cons by auto
  also have "\<dots> \<le> (base * a + base) * base ^ length ds" using d by (intro mult_right_mono) auto
  finally show ?case by (simp add: algebra_simps)
qed simp

lemma utf8_bytes_length:
  assumes "c < 16 ^ n" "0 < n"
  shows "length (utf8_bytes c) \<le> n + 1"
proof (cases "c < 0x80")
  case False
  have "nat c < 2 ^ (4 * n)" using assms(1) using False by (simp add: power_mult nat_less_iff)
  from bit_count_bound [OF this] have "(bit_count (nat c) - 2) div 5 \<le> n" by linarith
  then show ?thesis using False by (simp add: utf8_bytes_def Let_def)
qed (simp add: utf8_bytes_def)

lemma strtol_bound:
  assumes "strtol s base = (c, e)" "base = 10 \<or> base = 16" "e \<noteq> s"
  shows "\<exists>n > 0. c < 16 ^ n \<and> n + length e \<le> length s"
proof -
  define t where "t = strtol_digits s base"
  define ds where "ds = takeWhile (is_digit base) t"
  define v where "v = foldl (\<lambda>a d. base * a + digit_value d) 0 ds"
  have len: "length t \<le> length s" unfolding t_def by (rule strtol_digits_length)
  have r: "ds \<noteq> []" "e = dropWhile (is_digit base) t" "c = to_long (int v) \<or> c = to_long (- int v)"
    using assms(1,3) unfolding strtol_def Let_def t_def [symmetric] ds_def [symmetric] v_def [symmetric]
    by (auto split: if_splits)
  have "list_all (is_digit base) ds" by (auto simp: ds_def list_all_iff dest: set_takeWhileD)
  from digits_value_bound [OF this assms(2), of 0] have "v < base ^ length ds" by (simp add: v_def)
  also have "\<dots> \<le> 16 ^ length ds" using assms(2) by (auto intro: power_mono)
  finally have "int v < 16 ^ length ds" by (metis of_nat_less_iff of_nat_numeral of_nat_power)
  moreover have "- int v < 16 ^ length ds" "- (2 ^ 63) < (16::int) ^ length ds"
    by (rule order.strict_trans1 [of _ 0], simp, simp)+
  ultimately have "c < 16 ^ length ds" using r(3) by (auto simp: to_long_def min_less_iff_disj)
  moreover have "length t = length ds + length e"
    unfolding r(2) ds_def by (metis length_append takeWhile_dropWhile_id)
  ultimately show ?thesis using r(1) len by (intro exI [of _ "length ds"]) auto
qed

lemma char_ref_shrinks: "char_ref s = Some (bytes, r) \<Longrightarrow> length bytes + length r \<le> length s"
proof -
  assume a: "char_ref s = Some (bytes, r)"
  obtain c e where ce: "(if s \<noteq> [] \<and> hd s = CHR ''x'' then strtol (tl s) 16 else strtol s 10) = (c, e)" by fastforce
  then have e: "e \<noteq> []" "hd e = CHR '';''" "bytes = utf8_bytes c" "r = tl e" "c \<noteq> 0"
    using a by (auto simp: char_ref_def split: if_splits)
  have zero: "strtol u base = (c, u) \<Longrightarrow> c = 0" for u base
  proof (rule ccontr)
    assume st: "strtol u base = (c, u)" "c \<noteq> 0"
    let ?t = "strtol_digits u base"
    have "takeWhile (is_digit base) ?t \<noteq> []" "u = dropWhile (is_digit base) ?t"
      using st by (auto simp: strtol_def Let_def split: if_split_asm)
    then have "length u < length ?t"
      by (metis length_append length_greater_0_conv less_add_same_cancel2 takeWhile_dropWhile_id)
    then show False using strtol_digits_length [of u base] by simp
  qed
  obtain n where n: "n > 0" "c < 16 ^ n" "n + length e \<le> length s"
  proof (cases "s \<noteq> [] \<and> hd s = CHR ''x''")
    case True
    then have st: "strtol (tl s) 16 = (c, e)" using ce by simp
    then have "e \<noteq> tl s" using zero e(5) by blast
    from strtol_bound [OF st _ this] show thesis using that by force
  next
    case False
    then have st: "strtol s 10 = (c, e)" using ce by auto
    then have "e \<noteq> s" using zero e(5) by blast
    from strtol_bound [OF st _ this] show thesis using that by force
  qed
  from utf8_bytes_length [OF n(2,1)] n(3) e show ?thesis by (cases e) auto
qed

lemma decode_loop_length: "length (decode_loop ty s) \<le> length s"
proof (induction ty s rule: decode_loop.induct)
  case (2 ty c s)
  show ?case
  proof (cases "c \<noteq> CHR ''&'' \<and> \<not> c_isspace c")
    case True
    then show ?thesis using 2(1) by (simp add: decode_loop.simps(2))
  next
    case c: False
    show ?thesis
    proof (cases "ty \<noteq> CHR ''c'' \<and> c = CHR ''&'' \<and> s \<noteq> [] \<and> hd s = CHR ''#''")
      case True
      then show ?thesis
        using 2(2) [OF c True] 2(3) [OF c True, of "(bytes, r)" bytes r for bytes r] char_ref_shrinks [of "tl s"]
        by (fastforce simp: decode_loop.simps(2) split: option.split)
    next
      case r: False
      show ?thesis
      proof (cases "c = CHR ''&'' \<and> (ty = CHR ''&'' \<or> ty = CHR '' '')")
        case True
        show ?thesis
        proof (cases "find_entity s")
          case None
          then show ?thesis using 2(4) [OF c r True None] True r by (auto simp: decode_loop.simps(2))
        next
          case (Some nr)
          obtain name rep where nr: "nr = (name, rep)" by (cases nr)
          from find_entity_shrinks [of s name rep] Some nr have "length (rep @ drop (length name) s) \<le> length s"
            by (metis add_le_mono1 length_append)
          then show ?thesis
            using 2(5) [OF c r True Some nr [symmetric]] True r Some nr by (auto simp: decode_loop.simps(2))
        qed
      next
        case False
        then show ?thesis using 2(6,7) c r by (auto simp: decode_loop.simps(2))
      qed
    qed
  qed
qed simp

text \<open>The decoded text fits into the buffer, so the branch that would enlarge it is never taken.\<close>

lemma xml_decode_length: "length (xml_decode s ty) \<le> length s"
proof -
  have "length (xml_decode s ty) \<le> length (decode_loop ty (norm_eol s))"
    by (simp add: xml_decode_def c_string_def length_takeWhile_le)
  then show ?thesis using decode_loop_length [of ty "norm_eol s"] norm_eol_length [of s] by simp
qed

section \<open>Shape and number of the events\<close>

definition rest_length :: "string option \<Rightarrow> nat" where
  "rest_length r = (case r of None \<Rightarrow> 0 | Some q \<Rightarrow> length q)"

lemma rest_length_simps [simp]: "rest_length None = 0" "rest_length (Some q) = length q"
  by (simp_all add: rest_length_def)

lemma call_text_count: "length (call_text_cb t ty) \<le> length t"
  by (cases t) (auto simp: call_text_cb_def)

lemma tag_end_rest: "rest_length (tag_end p) \<le> length p - 1"
  using tag_end_length [of p] by (cases "tag_end p") auto

lemma strstr_rest: "rest_length (map_option (drop n) (strstr p w)) \<le> length p"
  using strstr_length [of p w] by (cases "strstr p w") auto

lemma cdata_count: "cdata p = (ev, r) \<Longrightarrow> length ev + rest_length r \<le> length p"
proof (cases "strstr p '']]>''")
  case None
  then show "cdata p = (ev, r) \<Longrightarrow> length ev + rest_length r \<le> length p"
    using call_text_count [of "drop 8 p" "CHR ''c''"] by (auto simp: cdata_def)
next
  case (Some q)
  let ?t = "drop 8 (before_str p '']]>'')"
  have "length p = length (before_str p '']]>'') + length q"
    using strstr_suffix [OF Some] length_append by metis
  then show "cdata p = (ev, r) \<Longrightarrow> length ev + rest_length r \<le> length p"
    using Some call_text_count [of ?t "CHR ''c''"] after_decode_length [of ?t "drop 3 q"]
    by (auto simp: cdata_def Let_def)
qed

lemma doctype_count: "rest_length (doctype p) \<le> length p"
  using doctype_length [of p] by (cases "doctype p") auto

lemma xtoken_length: "length (xtoken w p) \<le> length p"
  by (simp add: xtoken_def length_takeWhile_le)

lemma end_tag_count: "end_tag p = (ev, r) \<Longrightarrow> length ev + rest_length r \<le> length p"
proof -
  assume e: "end_tag p = (ev, r)"
  let ?q = "xspan XML_WS p"
  let ?n = "xtoken (XML_WS @ ''/>'') ?q"
  have "length ev \<le> length ?n" "r = tag_end (drop (length ?n) ?q)"
    using e by (auto simp: end_tag_def Let_def Suc_le_eq)
  then show ?thesis
    using tag_end_rest [of "drop (length ?n) ?q"] xtoken_length [of "XML_WS @ ''/>''" ?q] xspan_length [of XML_WS p] by simp
qed

lemma start_tag_count: "start_tag p = (ev, r) \<Longrightarrow> length ev + rest_length r \<le> length p"
proof -
  assume m: "start_tag p = (ev, r)"
  define n where "n = xtoken (XML_WS @ ''/>'') p"
  define t where "t = drop (length n) p"
  obtain a s where as: "attr_loop [] (dropWhile c_isspace t) = (a, s)" by fastforce
  define u where "u = xspan XML_WS s"
  have "length s \<le> length t"
    using attr_loop_length [of "[]" "dropWhile c_isspace t"] as le_trans [OF _ length_dropWhile_le [of c_isspace t]] by simp
  then have u: "length u \<le> length t" using xspan_length [of XML_WS s] by (simp add: u_def)
  have n: "length n + length t = length p" using xtoken_length [of "XML_WS @ ''/>''" p] by (simp add: n_def t_def)
  show ?thesis
  proof (cases "n = []")
    case True
    then have "ev = []" "r = tag_end t"
      using m unfolding start_tag_def Let_def n_def [symmetric] t_def [symmetric] by auto
    then show ?thesis using tag_end_rest [of t] n by simp
  next
    case False
    then have "length n \<ge> 1" by (cases n) auto
    moreover have "u \<noteq> [] \<and> length ev = 2 \<and> r = tag_end (tl u) \<or> length ev = 1 \<and> r = tag_end u"
      using m False unfolding start_tag_def Let_def n_def [symmetric] t_def [symmetric] as prod.case u_def [symmetric]
      by (auto split: if_split_asm)
    ultimately show ?thesis
      using tag_end_rest [of "tl u"] tag_end_rest [of u] u n by (cases u) auto
  qed
qed

lemma markup_cases:
  "markup p = ([], map_option (drop 3) (strstr p ''-->'')) \<or> markup p = cdata p \<or> markup p = ([], doctype p) \<or>
   markup p = ([], map_option (drop 2) (strstr p ''?>'')) \<or> markup p = end_tag (tl (xspan XML_WS p)) \<or>
   markup p = start_tag (xspan XML_WS p)"
  unfolding markup_def Let_def by (simp only: split: if_split) blast

lemma markup_count: "markup p = (ev, r) \<Longrightarrow> length ev + rest_length r \<le> length p"
proof -
  assume m: "markup p = (ev, r)"
  define q where "q = xspan XML_WS p"
  have q: "length q \<le> length p" "length (tl q) \<le> length p"
    using xspan_length [of XML_WS p] by (simp_all add: q_def)
  show ?thesis
    using markup_cases [of p, folded q_def] m cdata_count [of p ev r] doctype_count [of p]
      strstr_rest [of 3 p "''-->''"] strstr_rest [of 2 p "''?>''"]
      end_tag_count [of "tl q" ev r] start_tag_count [of q ev r] q
    by (elim disjE) simp_all
qed

lemma sax_loop_count: "length (sax_loop t p) \<le> length t + length p"
proof (induction t p rule: sax_loop.induct)
  case (1 t)
  show ?case using call_text_count by simp
next
  case (2 t c p)
  show ?case
  proof (cases "c = CHR ''<''")
    case False
    then show ?thesis using 2(2) by simp
  next
    case True
    obtain ev r where m: "markup (after_decode t p) = (ev, r)" by fastforce
    have "length ev + rest_length r \<le> length p"
      using markup_count [OF m] after_decode_length [of t p] by simp
    then show ?thesis
      using True m 2(1) [OF True m [symmetric]] call_text_count [of t "CHR ''&''"] by (cases r) auto
  qed
qed

text \<open>
  C32: The parser returns for every document, and calls the handlers at most once per byte of it: every piece of
  markup is left behind, and what a piece reports it has read.
\<close>

theorem events_bounded: "length (dc_saxparser_parse buf) \<le> length (dc_strdup buf)"
  using sax_loop_count [of "[]" "dc_strdup buf"] by (simp add: dc_saxparser_parse_def)

text \<open>What the handlers can rely on.\<close>

definition plain_name :: "string \<Rightarrow> bool" where
  "plain_name s \<longleftrightarrow> s \<noteq> [] \<and> list_all (\<lambda>c. c \<notin> set (XML_WS @ ''/>'') \<and> c_tolower c = c) s"

definition attrs_ok :: "(string \<times> string) list \<Rightarrow> bool" where
  "attrs_ok attr \<longleftrightarrow> 2 * length attr \<le> MAX_ATTR \<and> list_all (\<lambda>(name, v). plain_name name \<and> CHR ''='' \<notin> set name) attr"

fun sax_event_ok :: "sax_event \<Rightarrow> bool" where
  "sax_event_ok (Start_Tag tag attr) \<longleftrightarrow> plain_name tag \<and> attrs_ok attr"
| "sax_event_ok (End_Tag tag) \<longleftrightarrow> plain_name tag"
| "sax_event_ok (Text_Part t len) \<longleftrightarrow> 0 < len \<and> length t \<le> len"

lemma tolower_keeps: "c_tolower c \<in> set (XML_WS @ ''=/>'') \<Longrightarrow> c_tolower c = c"
proof (cases "c_isupper c")
  case True
  then have "byte_of (c_tolower c) \<ge> 97" by (simp add: c_tolower_byte c_isupper_def)
  then show "c_tolower c \<in> set (XML_WS @ ''=/>'') \<Longrightarrow> c_tolower c = c" by auto
qed (simp add: c_tolower_def)

lemma plain_name_tolower:
  assumes "s \<noteq> []" "\<forall>c \<in> set s. c \<notin> set (XML_WS @ ''/>'')"
  shows "plain_name (dc_strlower_in_place s)"
proof -
  have "c_tolower c \<notin> set (XML_WS @ ''/>'')" if "c \<in> set s" for c
    using assms(2) that tolower_keeps [of c] by force
  then show ?thesis using assms(1) by (simp add: plain_name_def list_all_iff)
qed

lemma xtoken_stops: "c \<in> set (xtoken w p) \<Longrightarrow> c \<notin> set w"
  by (auto simp: xtoken_def dest: set_takeWhileD)

lemma tag_name_plain: "xtoken (XML_WS @ ''/>'') p \<noteq> [] \<Longrightarrow> plain_name (dc_strlower_in_place (xtoken (XML_WS @ ''/>'') p))"
  by (rule plain_name_tolower) (auto dest: xtoken_stops)

lemma attr_round_ok: "attrs_ok attr \<Longrightarrow> attrs_ok (fst (attr_round attr p))"
proof -
  assume ok: "attrs_ok attr"
  let ?n = "xtoken (XML_WS @ ''=/>'') p"
  have "plain_name (dc_strlower_in_place ?n) \<and> CHR ''='' \<notin> set (dc_strlower_in_place ?n)" if "?n \<noteq> []"
  proof
    show "plain_name (dc_strlower_in_place ?n)"
      by (rule plain_name_tolower [OF that]) (auto dest: xtoken_stops)
    show "CHR ''='' \<notin> set (dc_strlower_in_place ?n)"
      using tolower_keeps by (fastforce dest: xtoken_stops)
  qed
  then show ?thesis
    using ok unfolding attr_round_def Let_def
    by (auto simp: attrs_ok_def add_attr_def split: prod.split)
qed

lemma attr_loop_ok: "attrs_ok attr \<Longrightarrow> attrs_ok (fst (attr_loop attr p))"
proof (induction attr p rule: attr_loop.induct)
  case (1 attr p)
  show ?case
  proof (cases "p = [] \<or> hd p = CHR ''/'' \<or> hd p = CHR ''>''")
    case True
    then show ?thesis using 1(3) by (subst attr_loop.simps) simp
  next
    case go: False
    show ?thesis
    proof (cases "hd p = CHR ''=''")
      case True
      then show ?thesis using go 1(1) [OF go True 1(3)] by (subst attr_loop.simps) simp
    next
      case False
      obtain a q where aq: "attr_round attr p = (a, q)" by fastforce
      have "attrs_ok a" using attr_round_ok [OF 1(3), of p] aq by simp
      from 1(2) [OF go False aq [symmetric] this] show ?thesis
        using go False aq by (subst attr_loop.simps) simp
    qed
  qed
qed

lemma call_text_ok: "list_all sax_event_ok (call_text_cb t ty)"
  using xml_decode_length [of t ty] by (simp add: call_text_cb_def)

lemma markup_ok: "list_all sax_event_ok (fst (markup p))"
proof -
  have cdata: "list_all sax_event_ok (fst (cdata p))"
    using call_text_ok by (auto simp: cdata_def Let_def split: option.split)
  have end_tag: "list_all sax_event_ok (fst (end_tag q))" for q
    using tag_name_plain [of "xspan XML_WS q"] unfolding end_tag_def Let_def
    by (auto simp del: strlower_conv)
  have start_tag: "list_all sax_event_ok (fst (start_tag q))" for q
  proof -
    define n where "n = xtoken (XML_WS @ ''/>'') q"
    define t where "t = dropWhile c_isspace (drop (length n) q)"
    obtain a s where as: "attr_loop [] t = (a, s)" by fastforce
    have "attrs_ok a" using attr_loop_ok [of "[]" t] as by (simp add: attrs_ok_def)
    moreover have "n \<noteq> [] \<Longrightarrow> plain_name (dc_strlower_in_place n)" unfolding n_def by (rule tag_name_plain)
    ultimately show ?thesis
      unfolding start_tag_def Let_def n_def [symmetric] t_def [symmetric] as prod.case
      by (auto simp: attrs_ok_def simp del: strlower_conv)
  qed
  show ?thesis
    using markup_cases [of p] cdata end_tag [of "tl (xspan XML_WS p)"] start_tag [of "xspan XML_WS p"]
    by (elim disjE) simp_all
qed

lemma sax_loop_ok: "list_all sax_event_ok (sax_loop t p)"
proof (induction t p rule: sax_loop.induct)
  case (1 t)
  show ?case using call_text_ok by simp
next
  case (2 t c p)
  show ?case
  proof (cases "c = CHR ''<''")
    case False
    then show ?thesis using 2(2) by simp
  next
    case True
    obtain ev r where m: "markup (after_decode t p) = (ev, r)" by fastforce
    have "list_all sax_event_ok ev" using markup_ok [of "after_decode t p"] m by simp
    then show ?thesis
      using True m 2(1) [OF True m [symmetric]] call_text_ok [of t "CHR ''&''"] by (cases r) auto
  qed
qed

text \<open>
  C31: What the handlers of the parser get, for every document: names of tags and attributes that are not
  empty, in lower case and free of white space and of the characters that end them, at most 50 attributes,
  and decoded text that is not longer than the length reported with it.
\<close>

theorem events_well_formed: "list_all sax_event_ok (dc_saxparser_parse buf)"
  by (simp add: dc_saxparser_parse_def sax_loop_ok)

section \<open>Character references\<close>

text \<open>The encoding as the standard has it.\<close>

definition utf8_encode :: "nat \<Rightarrow> string" where
  "utf8_encode c =
     (if c < 0x80 then [char_of c]
      else if c < 0x800 then [char_of (0xC0 + c div 64), char_of (0x80 + c mod 64)]
      else if c < 0x10000 then
        [char_of (0xE0 + c div 4096), char_of (0x80 + c div 64 mod 64), char_of (0x80 + c mod 64)]
      else
        [char_of (0xF0 + c div 262144), char_of (0x80 + c div 4096 mod 64), char_of (0x80 + c div 64 mod 64),
         char_of (0x80 + c mod 64)])"

lemma bit_count_lower: "2 ^ n \<le> d \<Longrightarrow> Suc n \<le> bit_count d"
proof (induction n arbitrary: d)
  case 0
  then show ?case by (subst bit_count.simps) auto
next
  case (Suc n)
  then have "2 ^ n \<le> d div 2" by simp
  moreover have "0 < (2::nat) ^ Suc n" by simp
  then have "d \<noteq> 0" using Suc.prems by linarith
  ultimately show ?case using Suc.IH [of "d div 2"] by (subst bit_count.simps) simp
qed

lemma or_low:
  assumes "0 \<le> x" "x < 2 ^ n"
  shows "or (k * 2 ^ n) x = k * 2 ^ n + (x :: int)"
proof -
  have x: "x = take_bit n x" using assms by (simp add: take_bit_int_eq_self)
  have "and (push_bit n k) (take_bit n x) = 0" by (rule bit_eqI) (auto simp: bit_simps)
  then have "and (k * 2 ^ n) x = 0" using x by (simp add: push_bit_eq_mult)
  then show ?thesis using disjunctive_add_eq_or by metis
qed

lemma payload_count:
  assumes "2 ^ n \<le> c" "c < 2 ^ (m + 1)" "5 * b + 1 \<le> n" "m = 5 * b + 5" "b > 0"
  shows "(bit_count c - 2) div 5 = b"
proof -
  have "Suc n \<le> bit_count c" "bit_count c \<le> m + 1"
    using bit_count_lower [OF assms(1)] bit_count_bound [OF assms(2)] by auto
  then have "5 * b \<le> bit_count c - 2" "bit_count c - 2 < 5 * Suc b" using assms by auto
  then show ?thesis by (simp add: div_nat_eqI mult.commute)
qed

lemma head_byte:
  assumes "x < 2 ^ (6 - b)" "b < 6"
  shows "nat (or (255 * 2 ^ (7 - b)) (int x) mod 256) = (255 * 2 ^ (7 - b) + x) mod 256"
proof -
  have "x < 2 ^ (7 - b)" using assms by (rule_tac order.strict_trans2 [OF assms(1)]) (simp add: power_increasing)
  then have "int x < 2 ^ (7 - b)" by (metis of_nat_less_iff of_nat_numeral of_nat_power)
  then have "or (255 * 2 ^ (7 - b)) (int x) = 255 * 2 ^ (7 - b) + int x" by (rule or_low [rotated]) simp
  also have "\<dots> = int (255 * 2 ^ (7 - b) + x)" by simp
  finally show ?thesis by (metis nat_int of_nat_mod of_nat_numeral)
qed

lemma head_values:
  "x < 32 \<Longrightarrow> (255 * 2 ^ 6 + x) mod 256 = 192 + x"
  "x < 16 \<Longrightarrow> (255 * 2 ^ 5 + x) mod 256 = 224 + x"
  "x < 8 \<Longrightarrow> (255 * 2 ^ 4 + x) mod 256 = 240 + (x :: nat)"
  using mod_mult_self1 [of "192 + x" 63 256] mod_mult_self1 [of "224 + x" 31 256] mod_mult_self1 [of "240 + x" 15 256]
  by (simp_all add: add.commute add.left_commute)

lemma upt_small: "[0..<1] = [0]" "[0..<2] = [0, 1]" "[0..<3] = [0, 1, 2 :: nat]"
  by code_simp+

lemma payload_byte: "nat (128 + int c mod 64) = 128 + c mod 64"
proof -
  have "128 + int c mod 64 = int (128 + c mod 64)" by (simp add: of_nat_mod)
  then show ?thesis by (metis nat_int)
qed

lemma shift_div: "b < 10 \<Longrightarrow> int c div 2 ^ (6 * b mod 64) = int (c div 64 ^ b)"
  by (simp add: zdiv_int power_mult)

lemma utf8_bytes_form:
  assumes "0x80 \<le> c" "(bit_count c - 2) div 5 = b" "b < 6" "c div 64 ^ b < 2 ^ (6 - b)"
  shows "utf8_bytes (int c) =
    char_of ((255 * 2 ^ (7 - b) + c div 64 ^ b) mod 256) # map (\<lambda>k. char_of (0x80 + c div 64 ^ k mod 64)) (rev [0..<b])"
proof -
  have "nat ((7 - int b) mod 32) = 7 - b" using assms(3) by (simp add: nat_diff_distrib flip: of_nat_diff)
  moreover have "map (\<lambda>k. char_of (nat (0x80 + int c div 2 ^ (6 * k mod 64) mod 64))) (rev [0..<b]) =
      (map (\<lambda>k. char_of (0x80 + c div 64 ^ k mod 64)) (rev [0..<b]) :: string)"
  proof (rule map_cong [OF refl])
    fix k
    assume "k \<in> set (rev [0..<b])"
    then have "k < 10" using assms(3) by simp
    then show "char_of (nat (0x80 + int c div 2 ^ (6 * k mod 64) mod 64)) = (char_of (0x80 + c div 64 ^ k mod 64) :: char)"
      by (simp only: shift_div payload_byte)
  qed
  ultimately show ?thesis
    using assms(1,2,3) head_byte [OF assms(4,3)] shift_div [of b c]
    unfolding utf8_bytes_def Let_def by simp
qed

text \<open>
  The arithmetic of \<open>xml_decode\<close> for a reference (number of bits, payload bytes, head byte from shifted ones) gives the
  UTF-8 encoding of every code point, of one to four bytes.
\<close>

theorem references_are_utf8:
  assumes "c < 0x200000"
  shows "utf8_bytes (int c) = utf8_encode c"
proof -
  consider "c < 0x80" | "0x80 \<le> c" "c < 0x800" | "0x800 \<le> c" "c < 0x10000" | "0x10000 \<le> c" by linarith
  then show ?thesis
  proof cases
    case 1
    then show ?thesis by (simp add: utf8_bytes_def utf8_encode_def)
  next
    case 2
    have "(bit_count c - 2) div 5 = 1" using 2 by (intro payload_count [of 7 _ 10]) auto
    then show ?thesis
      using 2 utf8_bytes_form [of c 1] head_values(1) [of "c div 64"] by (simp add: utf8_encode_def upt_small)
  next
    case 3
    have "(bit_count c - 2) div 5 = 2" using 3 by (intro payload_count [of 11 _ 15]) auto
    then show ?thesis
      using 3 utf8_bytes_form [of c 2] head_values(2) [of "c div 4096"] by (simp add: utf8_encode_def upt_small)
  next
    case 4
    have "(bit_count c - 2) div 5 = 3" using 4 assms by (intro payload_count [of 16 _ 20]) auto
    then show ?thesis
      using 4 assms utf8_bytes_form [of c 3] head_values(3) [of "c div 262144"] by (simp add: utf8_encode_def upt_small)
  qed
qed

lemma references_are_utf8_witness: "utf8_bytes 0x20AC = [char_of (0xE2 :: nat), char_of (0x82 :: nat), char_of (0xAC :: nat)]"
  using references_are_utf8 [of "0x20AC"] by (simp add: utf8_encode_def)

text \<open>The replacement of \<open>&amp;\<close> is read again: text that was escaped twice is decoded twice.\<close>

lemma ampersand_is_read_again: "xml_decode ''&amp;lt;'' (CHR ''&'') = ''<''"
  by code_simp

end
