(* ===== verification/Dehtml.thy ===== *)
theory Dehtml
  imports Sax
begin

text \<open>
  \<open>src/dc_dehtml.c\<close>: the conversion of HTML to text, as handlers of the events of the parser.  \<open>strbuilder\<close> is the
  text of the string builder, to which \<open>dc_strbuilder_cat\<close> appends.
\<close>

section \<open>State\<close>

datatype add_text = DO_NOT_ADD | DO_ADD_REMOVE_LINEENDS | DO_ADD_PRESERVE_LINEENDS

record dehtml_t =
  strbuilder :: string
  add_text :: add_text
  last_href :: cptr

definition cat_text :: "string \<Rightarrow> dehtml_t \<Rightarrow> dehtml_t" where
  "cat_text t d = d\<lparr>strbuilder := strbuilder d @ t\<rparr>"

definition is_block_tag :: "string \<Rightarrow> bool" where
  "is_block_tag tag \<longleftrightarrow> tag = ''p'' \<or> tag = ''div'' \<or> tag = ''table'' \<or> tag = ''td''"

definition is_hidden_tag :: "string \<Rightarrow> bool" where
  "is_hidden_tag tag \<longleftrightarrow> tag = ''style'' \<or> tag = ''script'' \<or> tag = ''title''"

section \<open>Handlers\<close>

definition dehtml_starttag_cb :: "dehtml_t \<Rightarrow> string \<Rightarrow> (string \<times> string) list \<Rightarrow> dehtml_t" where
  "dehtml_starttag_cb d tag attr =
     (if is_block_tag tag then (cat_text [NL, NL] d)\<lparr>add_text := DO_ADD_REMOVE_LINEENDS\<rparr>
      else if tag = ''br'' then (cat_text [NL] d)\<lparr>add_text := DO_ADD_REMOVE_LINEENDS\<rparr>
      else if is_hidden_tag tag then d\<lparr>add_text := DO_NOT_ADD\<rparr>
      else if tag = ''pre'' then (cat_text [NL, NL] d)\<lparr>add_text := DO_ADD_PRESERVE_LINEENDS\<rparr>
      else if tag = ''a'' then
        let href = dc_attr_find attr ''href''; d = d\<lparr>last_href := href\<rparr> in
        if href \<noteq> None then cat_text ''['' d else d
      else if tag = ''b'' \<or> tag = ''strong'' then cat_text ''*'' d
      else if tag = ''i'' \<or> tag = ''em'' then cat_text ''_'' d
      else d)"

text \<open>The inner loop looks back over carriage returns; \<open>pre\<close> is the buffer in front of the pointer.\<close>

definition last_is_lineend :: "string \<Rightarrow> bool" where
  "last_is_lineend pre =
     (case dropWhile (\<lambda>c. c = CR) (rev pre) of [] \<Rightarrow> True | c # _ \<Rightarrow> c = NL)"

fun remove_lineends :: "string \<Rightarrow> string \<Rightarrow> string" where
  "remove_lineends pre [] = pre"
| "remove_lineends pre (c # cs) =
     remove_lineends (pre @ [if c = NL then (if last_is_lineend pre then CR else CHR '' '') else c]) cs"

definition dehtml_text_cb :: "dehtml_t \<Rightarrow> string \<Rightarrow> dehtml_t" where
  "dehtml_text_cb d t =
     (case add_text d of
        DO_NOT_ADD \<Rightarrow> d
      | DO_ADD_PRESERVE_LINEENDS \<Rightarrow> cat_text t d
      | DO_ADD_REMOVE_LINEENDS \<Rightarrow> d\<lparr>strbuilder := remove_lineends (strbuilder d) t\<rparr>)"

definition dehtml_endtag_cb :: "dehtml_t \<Rightarrow> string \<Rightarrow> dehtml_t" where
  "dehtml_endtag_cb d tag =
     (if is_block_tag tag \<or> is_hidden_tag tag \<or> tag = ''pre''
      then (cat_text [NL, NL] d)\<lparr>add_text := DO_ADD_REMOVE_LINEENDS\<rparr>
      else if tag = ''a'' then
        (case last_href d of
           Some href \<Rightarrow> (cat_text ('']('' @ href @ '')'') d)\<lparr>last_href := None\<rparr>
         | None \<Rightarrow> d)
      else if tag = ''b'' \<or> tag = ''strong'' then cat_text ''*'' d
      else if tag = ''i'' \<or> tag = ''em'' then cat_text ''_'' d
      else d)"

fun dehtml_cb :: "dehtml_t \<Rightarrow> sax_event \<Rightarrow> dehtml_t" where
  "dehtml_cb d (Start_Tag tag attr) = dehtml_starttag_cb d tag attr"
| "dehtml_cb d (End_Tag tag) = dehtml_endtag_cb d tag"
| "dehtml_cb d (Text_Part t len) = dehtml_text_cb d t"

definition dc_dehtml :: "string \<Rightarrow> string" where
  "dc_dehtml buf_terminated =
     (let buf = dc_trim buf_terminated in
      if buf = [] then []
      else strbuilder (foldl dehtml_cb \<lparr>strbuilder = [], add_text = DO_ADD_REMOVE_LINEENDS, last_href = None\<rparr>
                        (dc_saxparser_parse (Some buf))))"

section \<open>Hidden elements\<close>

lemma sax_loop_text:
  "CHR ''<'' \<notin> set p \<Longrightarrow>
    sax_loop t (p @ CHR ''<'' # r) = call_text_cb (t @ p) (CHR ''&'') @
      (case markup (after_decode (t @ p) r) of (events, None) \<Rightarrow> events | (events, Some q) \<Rightarrow> events @ sax_loop [] q)"
  by (induction p arbitrary: t) auto

lemma xspan_none: "c \<notin> set w \<Longrightarrow> xspan w (c # p) = c # p"
  by (simp add: xspan_def)

lemma markup_hidden:
  assumes "is_hidden_tag tag"
  shows "markup (tag @ CHR ''>'' # r) = ([Start_Tag tag []], Some r)"
    "markup (CHR ''/'' # tag @ CHR ''>'' # r) = ([End_Tag tag], Some r)"
proof -
  have "markup (tag @ CHR ''>'' # r) = ([Start_Tag tag []], Some r) \<and>
    markup (CHR ''/'' # tag @ CHR ''>'' # r) = ([End_Tag tag], Some r)"
    using assms
    by (auto simp: is_hidden_tag_def markup_def start_tag_def end_tag_def xspan_def xtoken_def Let_def tag_end_def
        c_isspace_def attr_loop.simps [of "[]" "CHR ''>'' # r"] c_tolower_def c_isupper_def)
  then show "markup (tag @ CHR ''>'' # r) = ([Start_Tag tag []], Some r)"
    "markup (CHR ''/'' # tag @ CHR ''>'' # r) = ([End_Tag tag], Some r)" by auto
qed

definition text_char :: "char \<Rightarrow> bool" where
  "text_char c \<longleftrightarrow> c \<noteq> CHR ''<'' \<and> c \<noteq> CR"

lemma after_decode_text: "list_all text_char t \<Longrightarrow> after_decode t p = p"
  by (cases t rule: rev_cases) (auto simp: after_decode_def overruns_def text_char_def)

lemma sax_hidden:
  assumes "is_hidden_tag tag" "list_all text_char pre" "list_all text_char body"
  shows "sax_loop [] (pre @ ''<'' @ tag @ ''>'' @ body @ ''</'' @ tag @ ''>'' @ post) =
    call_text_cb pre (CHR ''&'') @ Start_Tag tag [] # call_text_cb body (CHR ''&'') @ End_Tag tag # sax_loop [] post"
proof -
  have "CHR ''<'' \<notin> set pre" "CHR ''<'' \<notin> set body" using assms by (auto simp: list_all_iff text_char_def)
  then show ?thesis
    using assms by (simp add: sax_loop_text after_decode_text markup_hidden)
qed

lemma text_not_added: "add_text d = DO_NOT_ADD \<Longrightarrow> foldl dehtml_cb d (call_text_cb t ty) = d"
  by (simp add: call_text_cb_def dehtml_text_cb_def)

lemma trim_inner:
  assumes "\<not> c_isspace c" "\<not> c_isspace e"
  shows "dc_trim (a @ c # b @ e # f) = dc_ltrim a @ c # b @ e # dc_rtrim f"
proof -
  have "dropWhile c_isspace (a @ c # b @ e # f) = dropWhile c_isspace a @ c # b @ e # f"
    using assms by (induction a) auto
  moreover have "rev (dropWhile c_isspace (rev f @ e # r)) = rev r @ e # rev (dropWhile c_isspace (rev f))" for r
    using assms by (induction f rule: rev_induct) auto
  from this [of "rev (dropWhile c_isspace a @ c # b)"] have
    "dc_rtrim (dropWhile c_isspace a @ c # b @ e # f) = dropWhile c_isspace a @ c # b @ e # dc_rtrim f"
    by (simp add: rtrim_conv)
  ultimately show ?thesis by (simp add: dc_trim_def ltrim_conv)
qed



end
