(* ===== verification/Simplify.thy ===== *)
theory Simplify
  imports Dehtml
begin

text \<open>
  \<open>src/dc_simplify.c\<close>: footers, quotes and needless line ends are removed from the text of a mail.  A list of lines
  stands for the lines up to \<open>l_last\<close>, so \<open>l_last + 1\<close> is its length.
\<close>

section \<open>State and tests of lines\<close>

record dc_simplify_t =
  is_forwarded :: bool
  is_cut_at_begin :: bool
  is_cut_at_end :: bool

definition dc_simplify_new :: dc_simplify_t where
  "dc_simplify_new = \<lparr>is_forwarded = False, is_cut_at_begin = False, is_cut_at_end = False\<rparr>"

fun is_empty_line :: "string \<Rightarrow> bool" where
  "is_empty_line [] = True"
| "is_empty_line (c # cs) = (if byte_of c > 32 then False else is_empty_line cs)"

definition is_plain_quote :: "string \<Rightarrow> bool" where
  "is_plain_quote buf \<longleftrightarrow> buf \<noteq> [] \<and> hd buf = CHR ''>''"

definition is_quoted_headline :: "string \<Rightarrow> bool" where
  "is_quoted_headline buf \<longleftrightarrow> length buf \<le> 80 \<and> length buf > 0 \<and> last buf = CHR '':''"

section \<open>Plain text\<close>

definition is_footer_mark :: "string \<Rightarrow> bool" where
  "is_footer_mark s \<longleftrightarrow> s = ''-- '' \<or> s = ''--  ''"

definition is_other_footer :: "string \<Rightarrow> bool" where
  "is_other_footer s \<longleftrightarrow> s = ''--'' \<or> s = ''---'' \<or> s = ''----''"

text \<open>The lines that are left, and whether \<open>is_cut_at_end\<close> is set.\<close>

fun footer_loop :: "string list \<Rightarrow> string list \<times> bool" where
  "footer_loop [] = ([], False)"
| "footer_loop (s # ss) =
     (if is_footer_mark s then ([], False)
      else if is_other_footer s then ([], True)
      else let (r, cut) = footer_loop ss in (s # r, cut))"

definition is_forward_header :: "string list \<Rightarrow> bool" where
  "is_forward_header ss \<longleftrightarrow>
     length ss \<ge> 3 \<and> ss ! 0 = ''---------- Forwarded message ----------'' \<and>
     starts_with ''From: '' (ss ! 1) \<and> ss ! 2 = []"

definition introduces_quote :: "string \<Rightarrow> bool" where
  "introduces_quote s \<longleftrightarrow>
     starts_with ''-----'' s \<or> starts_with ''_____'' s \<or> starts_with ''====='' s \<or>
     starts_with ''*****'' s \<or> starts_with ''~~~~~'' s"

fun intro_loop :: "string list \<Rightarrow> string list \<times> bool" where
  "intro_loop [] = ([], False)"
| "intro_loop (s # ss) =
     (if introduces_quote s then ([], True) else let (r, cut) = intro_loop ss in (s # r, cut))"

text \<open>
  The loop over the last lines, from the end: \<open>l\<close> is the number of the first line of the list and \<open>q\<close> the variable
  \<open>l_lastQuotedLine\<close>, \<open>None\<close> for \<open>-1\<close>.
\<close>

fun quoted_end_loop :: "string list \<Rightarrow> nat \<Rightarrow> nat option \<Rightarrow> nat option" where
  "quoted_end_loop [] l q = q"
| "quoted_end_loop (s # ss) l q =
     (if is_plain_quote s then quoted_end_loop ss (l - 1) (Some l)
      else if \<not> is_empty_line s then q
      else quoted_end_loop ss (l - 1) q)"

definition drop_last_if :: "(string \<Rightarrow> bool) \<Rightarrow> string list \<Rightarrow> string list" where
  "drop_last_if P ss = (if length ss > 1 \<and> P (last ss) then butlast ss else ss)"

definition cut_quote_at_end :: "nat \<Rightarrow> string list \<Rightarrow> string list \<times> bool" where
  "cut_quote_at_end l_first ss =
     (case quoted_end_loop (rev (drop l_first ss)) (length ss - 1) None of
        None \<Rightarrow> (ss, False)
      | Some q \<Rightarrow> (drop_last_if is_quoted_headline (drop_last_if is_empty_line (take q ss)), True))"

fun quoted_begin_loop :: "string list \<Rightarrow> nat \<Rightarrow> nat option \<Rightarrow> bool \<Rightarrow> nat option" where
  "quoted_begin_loop [] l q headline = q"
| "quoted_begin_loop (s # ss) l q headline =
     (if is_plain_quote s then quoted_begin_loop ss (Suc l) (Some l) headline
      else if \<not> is_empty_line s then
        (if is_quoted_headline s \<and> \<not> headline \<and> q = None then quoted_begin_loop ss (Suc l) q True else q)
      else quoted_begin_loop ss (Suc l) q headline)"

text \<open>The text and whether \<open>content_lines_added\<close> is not 0.\<close>

fun emit_loop :: "string \<Rightarrow> string list \<Rightarrow> nat \<Rightarrow> bool \<Rightarrow> string \<times> bool" where
  "emit_loop ret [] pending content = (ret, content)"
| "emit_loop ret (s # ss) pending content =
     (if is_empty_line s then emit_loop ret ss (Suc pending) content
      else emit_loop (ret @ (if content then replicate (min pending 2) NL else []) @ s) ss 1 True)"

definition dc_simplify_simplify_plain_text :: "dc_simplify_t \<Rightarrow> string \<Rightarrow> dc_simplify_t \<times> string" where
  "dc_simplify_simplify_plain_text simplify buf =
     (let (ss, cut1) = footer_loop (dc_split_into_lines buf);
          forwarded = is_forward_header ss;
          l_first = (if forwarded then 3 else 0);
          (kept, cut2) = intro_loop (drop l_first ss);
          (ss, cut3) = cut_quote_at_end l_first (take l_first ss @ kept);
          quoted = quoted_begin_loop (drop l_first ss) l_first None False;
          l_first = (case quoted of None \<Rightarrow> l_first | Some q \<Rightarrow> q + 1);
          simplify = simplify\<lparr>is_forwarded := is_forwarded simplify \<or> forwarded,
                              is_cut_at_begin := is_cut_at_begin simplify \<or> quoted \<noteq> None,
                              is_cut_at_end := is_cut_at_end simplify \<or> cut1 \<or> cut2 \<or> cut3\<rparr>;
          (ret, content) = emit_loop (if is_cut_at_begin simplify then DC_EDITORIAL_ELLIPSE @ '' '' else [])
                             (drop l_first ss) 0 False
      in (simplify,
          if is_cut_at_end simplify \<and> (\<not> is_cut_at_begin simplify \<or> content)
          then ret @ '' '' @ DC_EDITORIAL_ELLIPSE else ret))"

section \<open>Entry point\<close>

definition dc_simplify_simplify :: "dc_simplify_t \<Rightarrow> cptr \<Rightarrow> int \<Rightarrow> bool \<Rightarrow> dc_simplify_t \<times> string" where
  "dc_simplify_simplify simplify in_unterminated in_bytes is_html =
     (case in_unterminated of
        None \<Rightarrow> (simplify, [])
      | Some s \<Rightarrow>
          if in_bytes \<le> 0 then (simplify, [])
          else
            let out = c_string (take (nat in_bytes) s);
                out = (if is_html then dc_dehtml out else out);
                (simplify, out) = dc_simplify_simplify_plain_text dc_simplify_new (dc_remove_cr_chars out)
            in (simplify, dc_remove_cr_chars out))"

section \<open>Footers\<close>

lemma split_loop_append_nl: "split_loop u (a @ NL # b) = split_loop u a @ split_loop [] b"
  by (induction a arbitrary: u) auto

lemma split_one_line: "NL \<notin> set s \<Longrightarrow> split_loop u s = [u @ s]"
  by (induction s arbitrary: u) auto

lemma split_lines_around:
  "NL \<notin> set s \<Longrightarrow> dc_split_into_lines (a @ NL # s @ NL # b) = dc_split_into_lines a @ s # dc_split_into_lines b"
  using split_loop_append_nl [of "[]" s b] split_one_line [of s "[]"]
  by (simp add: dc_split_into_lines_def split_loop_append_nl)

lemma footer_loop_ignores: "is_footer_mark s \<or> is_other_footer s \<Longrightarrow> footer_loop (a @ s # b) = footer_loop (a @ [s])"
  by (induction a) auto

lemma c_string_append:
  "c_string (a @ b) = (if CHR 0x00 \<in> set a then c_string a else a @ c_string b)"
  by (auto simp: c_string_def takeWhile_append)

lemma remove_cr_append: "dc_remove_cr_chars (a @ b) = dc_remove_cr_chars a @ dc_remove_cr_chars b"
  by (simp add: remove_cr_conv)

text \<open>The whole text, as it is passed with its length.\<close>

definition simplify_text :: "dc_simplify_t \<Rightarrow> string \<Rightarrow> bool \<Rightarrow> dc_simplify_t \<times> string" where
  "simplify_text simplify t is_html = dc_simplify_simplify simplify (Some t) (int (length t)) is_html"

lemma simplify_text_plain:
  "t \<noteq> [] \<Longrightarrow> simplify_text simplify t False =
    apsnd dc_remove_cr_chars (dc_simplify_simplify_plain_text dc_simplify_new (dc_remove_cr_chars (c_string t)))"
  by (simp add: simplify_text_def dc_simplify_simplify_def apsnd_def map_prod_def)

lemma plain_text_footer:
  assumes "is_footer_mark s" "NL \<notin> set s" "CR \<notin> set s"
  shows "dc_simplify_simplify_plain_text simplify (dc_remove_cr_chars (a @ NL # s @ NL # b)) =
    dc_simplify_simplify_plain_text simplify (dc_remove_cr_chars (a @ NL # s @ NL # b'))"
proof -
  have s: "dc_remove_cr_chars s = s" using assms(3) by (simp add: remove_cr_conv filter_id_conv) blast
  have "dc_remove_cr_chars (a @ NL # s @ NL # r) = dc_remove_cr_chars a @ NL # s @ NL # dc_remove_cr_chars r" for r
    using s by (simp add: remove_cr_conv)
  then have "footer_loop (dc_split_into_lines (dc_remove_cr_chars (a @ NL # s @ NL # r))) =
      footer_loop (dc_split_into_lines (dc_remove_cr_chars a) @ [s])" for r
    using split_lines_around [OF assms(2)] footer_loop_ignores [of s] assms(1) by simp
  then show ?thesis unfolding dc_simplify_simplify_plain_text_def by simp
qed

text \<open>
  The signature behind the line \<open>-- \<close> does not get into a message: whatever stands behind that line, the text and
  the marks for cut text are the same.
\<close>

theorem signature_is_dropped:
  "simplify_text simplify (a @ NL # ''-- '' @ NL # b) False = simplify_text simplify (a @ NL # ''-- '' @ NL # b') False"
proof (cases "CHR 0x00 \<in> set a")
  case True
  then show ?thesis by (simp add: simplify_text_plain c_string_append)
next
  case False
  have "c_string (a @ NL # ''-- '' @ NL # r) = a @ NL # ''-- '' @ NL # c_string r" for r
    using False by (simp add: c_string_append) (simp add: c_string_def)
  then show ?thesis
    using plain_text_footer [of "''-- ''" dc_simplify_new a "c_string b" "c_string b'"]
    by (simp add: simplify_text_plain is_footer_mark_def)
qed

section \<open>Ordinary text\<close>

definition ordinary_line :: "string \<Rightarrow> bool" where
  "ordinary_line s \<longleftrightarrow> NL \<notin> set s \<and> CR \<notin> set s \<and> CHR 0x00 \<notin> set s \<and> \<not> is_footer_mark s \<and> \<not> is_other_footer s \<and>
     \<not> introduces_quote s \<and> \<not> is_plain_quote s \<and> (is_empty_line s \<longrightarrow> s = [])"

fun well_spaced :: "string list \<Rightarrow> bool" where
  "well_spaced [] = False"
| "well_spaced [s] = (s \<noteq> [])"
| "well_spaced (s # t # ss) = ((s \<noteq> [] \<or> t \<noteq> []) \<and> well_spaced (t # ss))"

lemma footer_loop_ordinary: "list_all ordinary_line ss \<Longrightarrow> footer_loop ss = (ss, False)"
  by (induction ss) (auto simp: ordinary_line_def)

lemma intro_loop_ordinary: "list_all ordinary_line ss \<Longrightarrow> intro_loop ss = (ss, False)"
  by (induction ss) (auto simp: ordinary_line_def)

lemma quoted_end_ordinary: "list_all ordinary_line ss \<Longrightarrow> quoted_end_loop ss l q = q"
  by (induction ss arbitrary: l) (auto simp: ordinary_line_def)

lemma quoted_begin_ordinary: "list_all ordinary_line ss \<Longrightarrow> quoted_begin_loop ss l None h = None"
  by (induction ss arbitrary: l h) (auto simp: ordinary_line_def)

lemma not_forward_ordinary: "list_all ordinary_line ss \<Longrightarrow> \<not> is_forward_header ss"
  by (cases ss) (auto simp: is_forward_header_def ordinary_line_def introduces_quote_def)

lemma emit_ordinary:
  "list_all ordinary_line ss \<Longrightarrow> well_spaced ss \<Longrightarrow> ss \<noteq> [] \<Longrightarrow>
    emit_loop ret ss 1 True = (ret @ NL # join_lines ss, True) \<and>
    (hd ss \<noteq> [] \<longrightarrow> emit_loop ret ss 2 True = (ret @ NL # NL # join_lines ss, True))"
proof (induction ss arbitrary: ret rule: well_spaced.induct)
  case (2 s)
  then show ?case by (auto simp: ordinary_line_def numeral_2_eq_2)
next
  case (3 s t ss)
  then have "\<not> is_empty_line s \<or> s = []" "well_spaced (t # ss)" by (auto simp: ordinary_line_def)
  with 3 show ?case by (auto simp: numeral_2_eq_2)
qed simp

lemma split_join_lines:
  "\<forall>s \<in> set ss. NL \<notin> set s \<Longrightarrow> ss \<noteq> [] \<Longrightarrow> split_loop u (join_lines ss) = (u @ hd ss) # tl ss"
proof (induction ss arbitrary: u rule: join_lines.induct)
  case (3 s t ss)
  then show ?case using split_loop_append_nl [of u s "join_lines (t # ss)"] by (simp add: split_one_line)
qed (auto simp: split_one_line)

lemma set_join_lines: "set (join_lines ss) \<subseteq> insert NL (\<Union> (set ` set ss))"
  by (induction ss rule: join_lines.induct) auto

lemma set_join_member: "s \<in> set ss \<Longrightarrow> set s \<subseteq> set (join_lines ss)"
  by (induction ss rule: join_lines.induct) auto

lemma plain_text_ordinary:
  assumes "list_all ordinary_line ss" "well_spaced ss" "hd ss \<noteq> []"
  shows "dc_simplify_simplify_plain_text dc_simplify_new (join_lines ss) = (dc_simplify_new, join_lines ss)"
proof -
  obtain s rest where ss: "ss = s # rest" using assms(2) by (cases ss) auto
  have lines: "dc_split_into_lines (join_lines ss) = ss"
    using split_join_lines [of ss "[]"] assms(1) ss by (auto simp: dc_split_into_lines_def list_all_iff ordinary_line_def)
  have "\<not> is_empty_line s" using assms(1,3) ss by (auto simp: ordinary_line_def)
  then have "emit_loop [] ss 0 False = emit_loop s rest 1 True" by (simp add: ss)
  also have "\<dots> = (join_lines ss, True)"
    using emit_ordinary [of rest s] assms(1,2) ss by (cases rest) auto
  finally have emit: "emit_loop [] ss 0 False = (join_lines ss, True)" .
  have "quoted_end_loop (rev ss) l None = None" for l using assms(1) by (simp add: quoted_end_ordinary)
  then show ?thesis
    using emit footer_loop_ordinary [OF assms(1)] intro_loop_ordinary [OF assms(1)] not_forward_ordinary [OF assms(1)]
      quoted_begin_ordinary [OF assms(1)]
    by (simp add: dc_simplify_simplify_plain_text_def lines cut_quote_at_end_def dc_simplify_new_def)
qed



section \<open>Blank lines\<close>

text \<open>At most two line feeds in a row, \<open>k\<close> of them in front.\<close>

fun two_linefeeds :: "nat \<Rightarrow> string \<Rightarrow> bool" where
  "two_linefeeds k [] = True"
| "two_linefeeds k (c # cs) = (if c = NL then k < 2 \<and> two_linefeeds (Suc k) cs else two_linefeeds 0 cs)"

fun trailing_linefeeds :: "nat \<Rightarrow> string \<Rightarrow> nat" where
  "trailing_linefeeds k [] = k"
| "trailing_linefeeds k (c # cs) = trailing_linefeeds (if c = NL then Suc k else 0) cs"

lemma two_linefeeds_append: "two_linefeeds k (a @ b) \<longleftrightarrow> two_linefeeds k a \<and> two_linefeeds (trailing_linefeeds k a) b"
  by (induction a arbitrary: k) auto

lemma trailing_linefeeds_append: "trailing_linefeeds k (a @ b) = trailing_linefeeds (trailing_linefeeds k a) b"
  by (induction a arbitrary: k) auto

lemma linefeeds_none: "NL \<notin> set s \<Longrightarrow> two_linefeeds k s \<and> (s \<noteq> [] \<longrightarrow> trailing_linefeeds k s = 0)"
  by (induction s arbitrary: k) (auto, (metis trailing_linefeeds.simps(1))+)

lemma linefeeds_replicate: "m \<le> 2 \<Longrightarrow> two_linefeeds 0 (replicate m NL)"
  by (cases m; cases "m - 1"; cases "m - 2") (auto simp: numeral_2_eq_2)

lemma emit_loop_linefeeds:
  assumes "\<forall>s \<in> set ss. NL \<notin> set s" "two_linefeeds 0 ret" "trailing_linefeeds 0 ret = 0"
  shows "two_linefeeds 0 (fst (emit_loop ret ss pending content)) \<and> trailing_linefeeds 0 (fst (emit_loop ret ss pending content)) = 0"
  using assms
proof (induction ret ss pending content rule: emit_loop.induct)
  case (2 ret s ss pending content)
  show ?case
  proof (cases "is_empty_line s")
    case True
    then show ?thesis using 2 by simp
  next
    case False
    let ?r = "ret @ (if content then replicate (min pending 2) NL else []) @ s"
    have "s \<noteq> []" using False by auto
    then have "two_linefeeds 0 ?r \<and> trailing_linefeeds 0 ?r = 0"
      using 2(3,4,5) linefeeds_none [of s] linefeeds_replicate [of "min pending 2"]
      by (auto simp: two_linefeeds_append trailing_linefeeds_append)
    then show ?thesis using 2(2) [OF False] 2(3) False by simp
  qed
qed simp

lemma footer_loop_set: "set (fst (footer_loop ss)) \<subseteq> set ss"
  by (induction ss) (auto split: prod.splits)

lemma intro_loop_set: "set (fst (intro_loop ss)) \<subseteq> set ss"
  by (induction ss) (auto split: prod.splits)

lemma cut_quote_set: "set (fst (cut_quote_at_end l ss)) \<subseteq> set ss"
  by (auto simp: cut_quote_at_end_def drop_last_if_def split: option.splits if_splits dest!: in_set_butlastD in_set_takeD)

lemma plain_text_form:
  obtains ts b e where
    "snd (dc_simplify_simplify_plain_text simplify buf) =
      fst (emit_loop (if b then DC_EDITORIAL_ELLIPSE @ '' '' else []) ts 0 False) @
      (if e then '' '' @ DC_EDITORIAL_ELLIPSE else [])"
    "set ts \<subseteq> set (dc_split_into_lines buf)"
proof -
  obtain ss cut1 where f: "footer_loop (dc_split_into_lines buf) = (ss, cut1)" by fastforce
  define l where "l = (if is_forward_header ss then 3 else 0 :: nat)"
  obtain kept cut2 where i: "intro_loop (drop l ss) = (kept, cut2)" by fastforce
  obtain ts cut3 where c: "cut_quote_at_end l (take l ss @ kept) = (ts, cut3)" by fastforce
  have "set ts \<subseteq> set (take l ss) \<union> set kept" using cut_quote_set [of l "take l ss @ kept"] by (simp add: c)
  also have "\<dots> \<subseteq> set ss"
    using intro_loop_set [of "drop l ss"] set_take_subset [of l ss] set_drop_subset [of l ss] by (simp add: i)
  also have "\<dots> \<subseteq> set (dc_split_into_lines buf)" using footer_loop_set [of "dc_split_into_lines buf"] by (simp add: f)
  finally have sub: "set (drop n ts) \<subseteq> set (dc_split_into_lines buf)" for n using set_drop_subset [of n ts] by blast
  show thesis
    by (rule that [OF _ sub], unfold dc_simplify_simplify_plain_text_def Let_def f prod.case l_def [symmetric] i c)
      (simp only: split_def fst_conv snd_conv if_distrib [of "(@) _"] append_Nil2)
qed

lemma plain_text_linefeeds: "two_linefeeds 0 (snd (dc_simplify_simplify_plain_text simplify buf))"
proof -
  obtain ts b e where out: "snd (dc_simplify_simplify_plain_text simplify buf) =
      fst (emit_loop (if b then DC_EDITORIAL_ELLIPSE @ '' '' else []) ts 0 False) @
      (if e then '' '' @ DC_EDITORIAL_ELLIPSE else [])"
    and ts: "set ts \<subseteq> set (dc_split_into_lines buf)" by (rule plain_text_form)
  have "\<forall>s \<in> set ts. NL \<notin> set s" using ts split_lines_no_nl by blast
  then have "two_linefeeds 0 (fst (emit_loop (if b then DC_EDITORIAL_ELLIPSE @ '' '' else []) ts 0 False)) \<and>
      trailing_linefeeds 0 (fst (emit_loop (if b then DC_EDITORIAL_ELLIPSE @ '' '' else []) ts 0 False)) = 0"
    by (rule emit_loop_linefeeds) (simp_all add: DC_EDITORIAL_ELLIPSE_def)
  then show ?thesis unfolding out by (auto simp: two_linefeeds_append DC_EDITORIAL_ELLIPSE_def)
qed

lemma emit_loop_set: "set (fst (emit_loop ret ss pending content)) \<subseteq> set ret \<union> insert NL (\<Union> (set ` set ss))"
  by (induction ret ss pending content rule: emit_loop.induct) (fastforce split: if_splits)+

lemma plain_text_no_cr:
  assumes "CR \<notin> set buf"
  shows "CR \<notin> set (snd (dc_simplify_simplify_plain_text simplify buf))"
proof -
  obtain ts b e where out: "snd (dc_simplify_simplify_plain_text simplify buf) =
      fst (emit_loop (if b then DC_EDITORIAL_ELLIPSE @ '' '' else []) ts 0 False) @
      (if e then '' '' @ DC_EDITORIAL_ELLIPSE else [])"
    and ts: "set ts \<subseteq> set (dc_split_into_lines buf)" by (rule plain_text_form)
  have "\<forall>s \<in> set (dc_split_into_lines buf). set s \<subseteq> set buf"
    by (metis split_lines_join set_join_member)
  then have "\<forall>s \<in> set ts. CR \<notin> set s" using ts assms by blast
  then show ?thesis
    unfolding out using emit_loop_set [of "if b then DC_EDITORIAL_ELLIPSE @ '' '' else []" ts 0 False]
    by (auto simp: DC_EDITORIAL_ELLIPSE_def)
qed

text \<open>
  The text of a message, plain or from HTML, cut or not, never has more than one empty line in a row.
\<close>

theorem one_blank_line: "two_linefeeds 0 (snd (dc_simplify_simplify dc_simplify_new t n is_html))"
proof -
  have "two_linefeeds 0 (snd (let (simplify, out) = dc_simplify_simplify_plain_text dc_simplify_new (dc_remove_cr_chars u)
      in (simplify, dc_remove_cr_chars out)))" for u
  proof -
    let ?out = "snd (dc_simplify_simplify_plain_text dc_simplify_new (dc_remove_cr_chars u))"
    have "CR \<notin> set (dc_remove_cr_chars u)" by (simp add: remove_cr_conv)
    then have "CR \<notin> set ?out" by (rule plain_text_no_cr)
    then have "dc_remove_cr_chars ?out = ?out" unfolding remove_cr_conv by (intro filter_True) auto
    then show ?thesis using plain_text_linefeeds by (simp add: split_def)
  qed
  then show ?thesis by (auto simp: dc_simplify_simplify_def Let_def split: option.split)
qed

end
