(* ===== verification/Hash.thy ===== *)
theory Hash
  imports Interfaces
begin

text \<open>
  \<open>src/dc_hash.c\<close>: the hash table of header fields, recipients and signatures.  All elements stand on one doubly
  linked list, in which the elements of a bucket stand side by side; a bucket knows the first of them and how many
  they are.  \<open>h_heap\<close> holds the elements by their addresses; memory never runs out here.
\<close>

section \<open>Keys\<close>

datatype key_class = DC_HASH_INT | DC_HASH_POINTER | DC_HASH_STRING | DC_HASH_BINARY

text \<open>\<open>pKey\<close> as an address and as the bytes from there on, and \<open>nKey\<close>.\<close>

record hash_key =
  k_addr :: u64
  k_bytes :: string
  k_n :: int

definition sjhashUpperToLower :: "nat list" where
  "sjhashUpperToLower = [0..<65] @ [97..<123] @ [91..<256]"

definition lower_byte :: "char \<Rightarrow> nat" where
  "lower_byte c = sjhashUpperToLower ! byte_of c"

text \<open>The byte at the pointer, the terminating one at the end of the list.\<close>

definition first_byte :: "string \<Rightarrow> char" where
  "first_byte z = (case z of [] \<Rightarrow> CHR 0x00 | c # _ \<Rightarrow> c)"

fun sjhashStrNICmp :: "string \<Rightarrow> string \<Rightarrow> nat \<Rightarrow> int" where
  "sjhashStrNICmp zLeft zRight 0 = 0"
| "sjhashStrNICmp zLeft zRight (Suc n) =
     (let a = first_byte zLeft; b = first_byte zRight in
      if a \<noteq> CHR 0x00 \<and> lower_byte a = lower_byte b then sjhashStrNICmp (tl zLeft) (tl zRight) n
      else int (lower_byte a) - int (lower_byte b))"

fun no_case_loop :: "u32 \<Rightarrow> string \<Rightarrow> nat \<Rightarrow> u32" where
  "no_case_loop h z 0 = h"
| "no_case_loop h z (Suc n) =
     no_case_loop (push_bit 3 h XOR h XOR of_nat (lower_byte (first_byte z))) (tl z) n"

definition sjhashNoCase :: "string \<Rightarrow> int \<Rightarrow> u32" where
  "sjhashNoCase z n = no_case_loop 0 z (if n \<le> 0 then length (c_string z) else nat n) AND 0x7fffffff"

definition intHash :: "hash_key \<Rightarrow> u32" where
  "intHash k = (let n = word_of_int (k_n k) in n XOR push_bit 8 n XOR signed_drop_bit 8 n)"

definition intCompare :: "hash_key \<Rightarrow> hash_key \<Rightarrow> int" where
  "intCompare k1 k2 = k_n k2 - k_n k1"

definition ptrHash :: "hash_key \<Rightarrow> u32" where
  "ptrHash k = (let x = k_addr k in ucast (x XOR push_bit 8 x XOR drop_bit 8 x))"

definition ptrCompare :: "hash_key \<Rightarrow> hash_key \<Rightarrow> int" where
  "ptrCompare k1 k2 = (if k_addr k1 = k_addr k2 then 0 else if k_addr k1 < k_addr k2 then -1 else 1)"

definition strHash :: "hash_key \<Rightarrow> u32" where
  "strHash k = sjhashNoCase (k_bytes k) (k_n k)"

definition strCompare :: "hash_key \<Rightarrow> hash_key \<Rightarrow> int" where
  "strCompare k1 k2 = (if k_n k1 \<noteq> k_n k2 then 1 else sjhashStrNICmp (k_bytes k1) (k_bytes k2) (nat (k_n k1)))"

fun bin_loop :: "u32 \<Rightarrow> string \<Rightarrow> nat \<Rightarrow> u32" where
  "bin_loop h z 0 = h"
| "bin_loop h z (Suc n) = bin_loop (push_bit 3 h XOR h XOR scast (of_nat (byte_of (first_byte z)) :: u8)) (tl z) n"

definition binHash :: "hash_key \<Rightarrow> u32" where
  "binHash k = bin_loop 0 (k_bytes k) (nat (k_n k)) AND 0x7fffffff"

fun memcmp :: "string \<Rightarrow> string \<Rightarrow> nat \<Rightarrow> int" where
  "memcmp a b 0 = 0"
| "memcmp a b (Suc n) =
     (if first_byte a = first_byte b then memcmp (tl a) (tl b) n
      else int (byte_of (first_byte a)) - int (byte_of (first_byte b)))"

definition binCompare :: "hash_key \<Rightarrow> hash_key \<Rightarrow> int" where
  "binCompare k1 k2 = (if k_n k1 \<noteq> k_n k2 then 1 else memcmp (k_bytes k1) (k_bytes k2) (nat (k_n k1)))"

fun hashFunction :: "key_class \<Rightarrow> hash_key \<Rightarrow> u32" where
  "hashFunction DC_HASH_INT = intHash"
| "hashFunction DC_HASH_POINTER = ptrHash"
| "hashFunction DC_HASH_STRING = strHash"
| "hashFunction DC_HASH_BINARY = binHash"

fun compareFunction :: "key_class \<Rightarrow> hash_key \<Rightarrow> hash_key \<Rightarrow> int" where
  "compareFunction DC_HASH_INT = intCompare"
| "compareFunction DC_HASH_POINTER = ptrCompare"
| "compareFunction DC_HASH_STRING = strCompare"
| "compareFunction DC_HASH_BINARY = binCompare"

section \<open>State\<close>

record dc_hashelem_t =
  he_next :: "nat option"
  he_prev :: "nat option"
  he_data :: "nat option"
  he_key :: hash_key

text \<open>A bucket is its \<open>count\<close> and its \<open>chain\<close>; the empty list of buckets stands for \<open>NULL\<close>.\<close>

record dc_hash_t =
  h_keyClass :: key_class
  h_copyKey :: bool
  h_count :: int
  h_first :: "nat option"
  h_htsize :: nat
  h_ht :: "(int \<times> nat option) list"
  h_heap :: "nat \<Rightarrow> dc_hashelem_t"
  h_fresh :: nat

definition blank_elem :: "dc_hashelem_t" where
  "blank_elem = \<lparr>he_next = None, he_prev = None, he_data = None, he_key = \<lparr>k_addr = 0, k_bytes = [], k_n = 0\<rparr>\<rparr>"

definition dc_hash_init :: "key_class \<Rightarrow> bool \<Rightarrow> dc_hash_t" where
  "dc_hash_init keyClass copyKey =
     \<lparr>h_keyClass = keyClass,
      h_copyKey = (if keyClass = DC_HASH_POINTER \<or> keyClass = DC_HASH_INT then False else copyKey),
      h_count = 0, h_first = None, h_htsize = 0, h_ht = [], h_heap = (\<lambda>_. blank_elem), h_fresh = 0\<rparr>"

definition dc_hash_clear :: "dc_hash_t \<Rightarrow> dc_hash_t" where
  "dc_hash_clear H = H\<lparr>h_first := None, h_ht := [], h_htsize := 0, h_count := 0\<rparr>"

section \<open>Operations\<close>

definition poke :: "nat \<Rightarrow> (dc_hashelem_t \<Rightarrow> dc_hashelem_t) \<Rightarrow> dc_hash_t \<Rightarrow> dc_hash_t" where
  "poke p f H = H\<lparr>h_heap := (h_heap H)(p := f (h_heap H p))\<rparr>"

definition insertElement :: "nat \<Rightarrow> nat \<Rightarrow> dc_hash_t \<Rightarrow> dc_hash_t" where
  "insertElement b new H =
     (let H = (case snd (h_ht H ! b) of
          Some head \<Rightarrow>
            let prev = he_prev (h_heap H head);
                H = poke new (\<lambda>e. e\<lparr>he_next := Some head, he_prev := prev\<rparr>) H;
                H = (case prev of
                       Some q \<Rightarrow> poke q (\<lambda>e. e\<lparr>he_next := Some new\<rparr>) H
                     | None \<Rightarrow> H\<lparr>h_first := Some new\<rparr>)
            in poke head (\<lambda>e. e\<lparr>he_prev := Some new\<rparr>) H
        | None \<Rightarrow>
            let H = poke new (\<lambda>e. e\<lparr>he_next := h_first H\<rparr>) H;
                H = (case h_first H of Some f \<Rightarrow> poke f (\<lambda>e. e\<lparr>he_prev := Some new\<rparr>) H | None \<Rightarrow> H)
            in (poke new (\<lambda>e. e\<lparr>he_prev := None\<rparr>) H)\<lparr>h_first := Some new\<rparr>)
      in H\<lparr>h_ht := (h_ht H)[b := (fst (h_ht H ! b) + 1, Some new)]\<rparr>)"

text \<open>The number of the bucket: the hash value masked with \<open>htsize - 1\<close>.\<close>

definition bucket :: "nat \<Rightarrow> u32 \<Rightarrow> nat" where
  "bucket htsize h = unat (h AND (of_nat htsize - 1))"

partial_function (option) rehash_loop :: "nat option \<Rightarrow> dc_hash_t \<Rightarrow> dc_hash_t option" where
  "rehash_loop elem H =
     (case elem of
        None \<Rightarrow> Some H
      | Some p \<Rightarrow>
          rehash_loop (he_next (h_heap H p))
            (insertElement (bucket (h_htsize H) (hashFunction (h_keyClass H) (he_key (h_heap H p)))) p H))"

declare rehash_loop.simps [code]

definition rehash :: "nat \<Rightarrow> dc_hash_t \<Rightarrow> dc_hash_t option" where
  "rehash new_size H =
     rehash_loop (h_first H) (H\<lparr>h_ht := replicate new_size (0, None), h_htsize := new_size, h_first := None\<rparr>)"

text \<open>\<open>count\<close> counts down; the loop also ends at \<open>NULL\<close>.\<close>

fun find_elem_loop :: "dc_hash_t \<Rightarrow> hash_key \<Rightarrow> nat option \<Rightarrow> nat \<Rightarrow> nat option" where
  "find_elem_loop H key elem 0 = None"
| "find_elem_loop H key elem (Suc cnt) =
     (case elem of
        None \<Rightarrow> None
      | Some p \<Rightarrow>
          if compareFunction (h_keyClass H) (he_key (h_heap H p)) key = 0 then Some p
          else find_elem_loop H key (he_next (h_heap H p)) cnt)"

definition findElementGivenHash :: "dc_hash_t \<Rightarrow> hash_key \<Rightarrow> nat \<Rightarrow> nat option" where
  "findElementGivenHash H key h =
     (if h_ht H = [] then None else find_elem_loop H key (snd (h_ht H ! h)) (nat (fst (h_ht H ! h))))"

definition removeElementGivenHash :: "dc_hash_t \<Rightarrow> nat \<Rightarrow> nat \<Rightarrow> dc_hash_t" where
  "removeElementGivenHash H elem h =
     (let e = h_heap H elem;
          H = (case he_prev e of
                 Some q \<Rightarrow> poke q (\<lambda>x. x\<lparr>he_next := he_next e\<rparr>) H
               | None \<Rightarrow> H\<lparr>h_first := he_next e\<rparr>);
          H = (case he_next e of Some q \<Rightarrow> poke q (\<lambda>x. x\<lparr>he_prev := he_prev e\<rparr>) H | None \<Rightarrow> H);
          (cnt, chain) = h_ht H ! h;
          chain = (if chain = Some elem then he_next e else chain);
          cnt = cnt - 1;
          chain = (if cnt \<le> 0 then None else chain)
      in H\<lparr>h_ht := (h_ht H)[h := (cnt, chain)], h_count := h_count H - 1\<rparr>)"

definition dc_hash_find :: "dc_hash_t \<Rightarrow> hash_key \<Rightarrow> nat option" where
  "dc_hash_find H key =
     (if h_ht H = [] then None
      else case findElementGivenHash H key (bucket (h_htsize H) (hashFunction (h_keyClass H) key)) of
             None \<Rightarrow> None | Some p \<Rightarrow> he_data (h_heap H p))"

text \<open>A copy of the key has \<open>nKey\<close> bytes; \<open>junk\<close> is what the memory behind them holds.\<close>

definition stored_key :: "string \<Rightarrow> dc_hash_t \<Rightarrow> hash_key \<Rightarrow> hash_key" where
  "stored_key junk H key =
     (if h_copyKey H \<and> k_addr key \<noteq> 0 then key\<lparr>k_bytes := take (nat (k_n key)) (k_bytes key) @ junk\<rparr> else key)"

definition add_elem :: "string \<Rightarrow> dc_hash_t \<Rightarrow> hash_key \<Rightarrow> nat option \<Rightarrow> dc_hash_t option" where
  "add_elem junk H key data =
     (let new = h_fresh H;
          H = H\<lparr>h_heap := (h_heap H)(new := blank_elem\<lparr>he_key := stored_key junk H key\<rparr>),
                h_fresh := Suc new, h_count := h_count H + 1\<rparr>
      in Option.bind (if h_htsize H = 0 then rehash 8 H else Some H)
           (\<lambda>H. Option.bind (if h_count H > int (h_htsize H) then rehash (h_htsize H * 2) H else Some H)
             (\<lambda>H. Some (poke new (\<lambda>e. e\<lparr>he_data := data\<rparr>)
                (insertElement (bucket (h_htsize H) (hashFunction (h_keyClass H) key)) new H)))))"

definition dc_hash_insert :: "string \<Rightarrow> dc_hash_t \<Rightarrow> hash_key \<Rightarrow> nat option \<Rightarrow> (dc_hash_t \<times> nat option) option" where
  "dc_hash_insert junk H key data =
     (let h = bucket (h_htsize H) (hashFunction (h_keyClass H) key) in
      case findElementGivenHash H key h of
        Some p \<Rightarrow>
          let old_data = he_data (h_heap H p) in
          Some (if data = None then removeElementGivenHash H p h else poke p (\<lambda>e. e\<lparr>he_data := data\<rparr>) H, old_data)
      | None \<Rightarrow>
          if data = None then Some (H, None)
          else map_option (\<lambda>H. (H, None)) (add_elem junk H key data))"

section \<open>Doubly linked lists\<close>

definition hd_or :: "'a list \<Rightarrow> 'a option \<Rightarrow> 'a option" where
  "hd_or xs d = (case xs of [] \<Rightarrow> d | x # _ \<Rightarrow> Some x)"

definition last_or :: "'a list \<Rightarrow> 'a option \<Rightarrow> 'a option" where
  "last_or xs d = (if xs = [] then d else Some (last xs))"

lemma hd_or_simps [simp]: "hd_or [] d = d" "hd_or (x # xs) d = Some x" "hd_or (xs @ ys) d = hd_or xs (hd_or ys d)"
  by (simp_all add: hd_or_def split: list.split)

lemma last_or_simps [simp]: "last_or [] d = d" "last_or (x # xs) d = last_or xs (Some x)"
  by (simp_all add: last_or_def)

text \<open>The elements \<open>ps\<close> are linked in this order; in front of them is \<open>pr\<close>, behind them \<open>nx\<close>.\<close>

fun dll :: "(nat \<Rightarrow> dc_hashelem_t) \<Rightarrow> nat option \<Rightarrow> nat list \<Rightarrow> nat option \<Rightarrow> bool" where
  "dll h pr [] nx = True"
| "dll h pr (p # ps) nx \<longleftrightarrow> he_prev (h p) = pr \<and> he_next (h p) = hd_or ps nx \<and> dll h (Some p) ps nx"

lemma dll_append: "dll h pr (xs @ ys) nx \<longleftrightarrow> dll h pr xs (hd_or ys nx) \<and> dll h (last_or xs pr) ys nx"
  by (induction xs arbitrary: pr) auto

lemma dll_cong:
  "\<forall>p \<in> set ps. he_next (h p) = he_next (g p) \<and> he_prev (h p) = he_prev (g p) \<Longrightarrow> dll h pr ps nx = dll g pr ps nx"
  by (induction ps arbitrary: pr) auto

lemma dll_set_prev:
  "dll h pr (p # ps) nx \<Longrightarrow> p \<notin> set ps \<Longrightarrow> dll (h(p := (h p)\<lparr>he_prev := q\<rparr>)) q (p # ps) nx"
  using dll_cong [of ps h "h(p := (h p)\<lparr>he_prev := q\<rparr>)"] by auto

lemma dll_set_next:
  assumes "dll h pr (ps @ [p]) nx" "p \<notin> set ps"
  shows "dll (h(p := (h p)\<lparr>he_next := q\<rparr>)) pr (ps @ [p]) q"
  using assms dll_cong [of ps h "h(p := (h p)\<lparr>he_next := q\<rparr>)"] by (auto simp: dll_append)

definition set_next :: "nat option \<Rightarrow> nat option \<Rightarrow> (nat \<Rightarrow> dc_hashelem_t) \<Rightarrow> nat \<Rightarrow> dc_hashelem_t" where
  "set_next r q h = (case r of None \<Rightarrow> h | Some p \<Rightarrow> h(p := (h p)\<lparr>he_next := q\<rparr>))"

definition set_prev :: "nat option \<Rightarrow> nat option \<Rightarrow> (nat \<Rightarrow> dc_hashelem_t) \<Rightarrow> nat \<Rightarrow> dc_hashelem_t" where
  "set_prev r q h = (case r of None \<Rightarrow> h | Some p \<Rightarrow> h(p := (h p)\<lparr>he_prev := q\<rparr>))"

lemma set_next_other: "r \<noteq> Some p \<Longrightarrow> set_next r q h p = h p"
  by (auto simp: set_next_def split: option.split)

lemma set_prev_other: "r \<noteq> Some p \<Longrightarrow> set_prev r q h p = h p"
  by (auto simp: set_prev_def split: option.split)

lemma set_links_rest [simp]:
  "he_key (set_next r q h p) = he_key (h p)" "he_data (set_next r q h p) = he_data (h p)"
  "he_key (set_prev r q h p) = he_key (h p)" "he_data (set_prev r q h p) = he_data (h p)"
  "he_prev (set_next r q h p) = he_prev (h p)" "he_next (set_prev r q h p) = he_next (h p)"
  by (auto simp: set_next_def set_prev_def split: option.split)

lemma dll_front:
  "dll h pr A nx \<Longrightarrow> distinct A \<Longrightarrow> dll (set_next (last_or A None) q h) pr A q"
proof (cases A rule: rev_cases)
  case (snoc ps p)
  then show "dll h pr A nx \<Longrightarrow> distinct A \<Longrightarrow> ?thesis"
    using dll_set_next [of h pr ps p nx q] by (simp add: set_next_def last_or_def)
qed simp

lemma dll_back:
  "dll h pr B nx \<Longrightarrow> distinct B \<Longrightarrow> dll (set_prev (hd_or B None) q h) q B nx"
  using dll_set_prev by (cases B) (auto simp: set_prev_def)

lemma last_or_in: "last_or A None = Some p \<Longrightarrow> p \<in> set A"
  by (auto simp: last_or_def split: if_splits)

lemma hd_or_in: "hd_or B None = Some p \<Longrightarrow> p \<in> set B"
  by (cases B) auto

text \<open>The list \<open>A @ B\<close> with the ends where the two parts meet set to new values.\<close>

lemma dll_meet:
  assumes "dll h None A x" "dll h y B None" "distinct (A @ B)"
  shows "dll (set_prev (hd_or B None) r (set_next (last_or A None) q h)) None A q \<and>
    dll (set_prev (hd_or B None) r (set_next (last_or A None) q h)) r B None"
proof
  let ?g = "set_next (last_or A None) q h"
  let ?f = "set_prev (hd_or B None) r ?g"
  have "dll ?g None A q" using dll_front [OF assms(1)] assms(3) by simp
  moreover have "\<forall>p \<in> set A. ?f p = ?g p"
    using assms(3) by (auto intro!: set_prev_other dest: hd_or_in)
  ultimately show "dll ?f None A q" using dll_cong [of A ?f ?g] by simp
  have "\<forall>p \<in> set B. ?g p = h p" using assms(3) by (auto intro!: set_next_other dest: last_or_in)
  then have "dll ?g y B None" using assms(2) dll_cong [of B ?g h] by simp
  then show "dll ?f r B None" using dll_back assms(3) by simp
qed

lemma link_ok:
  assumes "dll h None (A @ B) None" "distinct (A @ B)" "p \<notin> set (A @ B)"
    "he_next (h p) = hd_or B None" "he_prev (h p) = last_or A None"
  shows "dll (set_prev (hd_or B None) (Some p) (set_next (last_or A None) (Some p) h)) None (A @ p # B) None"
proof -
  let ?f = "set_prev (hd_or B None) (Some p) (set_next (last_or A None) (Some p) h)"
  have "hd_or B None \<noteq> Some p" "last_or A None \<noteq> Some p" using assms(3) by (auto dest: hd_or_in last_or_in)
  then have "?f p = h p" by (simp add: set_prev_other set_next_other)
  then show ?thesis
    using dll_meet [of h A _ _ B "Some p" "Some p"] assms by (auto simp: dll_append)
qed

lemma unlink_ok:
  assumes "dll h None (A @ p # B) None" "distinct (A @ p # B)"
  shows "dll (set_prev (hd_or B None) (last_or A None) (set_next (last_or A None) (hd_or B None) h)) None (A @ B) None"
  using dll_meet [of h A "Some p" "Some p" B "last_or A None" "hd_or B None"] assms by (simp add: dll_append)

section \<open>Buckets on the list\<close>

definition home :: "dc_hash_t \<Rightarrow> nat \<Rightarrow> nat" where
  "home H p = bucket (h_htsize H) (hashFunction (h_keyClass H) (he_key (h_heap H p)))"

text \<open>\<open>bs\<close> are the buckets that are not empty, in the order of the list; \<open>S b\<close> are the elements of the bucket \<open>b\<close>.\<close>

definition chained :: "dc_hash_t \<Rightarrow> nat list \<Rightarrow> (nat \<Rightarrow> nat list) \<Rightarrow> bool" where
  "chained H bs S \<longleftrightarrow>
     distinct bs \<and> (\<forall>b. S b \<noteq> [] \<longleftrightarrow> b \<in> set bs) \<and> (\<forall>b \<in> set bs. b < h_htsize H) \<and>
     distinct (concat (map S bs)) \<and> (\<forall>b. \<forall>p \<in> set (S b). home H p = b) \<and>
     h_first H = hd_or (concat (map S bs)) None \<and> dll (h_heap H) None (concat (map S bs)) None \<and>
     length (h_ht H) = h_htsize H \<and> (\<forall>b < h_htsize H. h_ht H ! b = (int (length (S b)), hd_or (S b) None))"

lemma chained_split:
  assumes "chained H bs S" "b \<in> set bs"
  obtains xs ys where "bs = xs @ b # ys" "b \<notin> set xs" "b \<notin> set ys"
    "concat (map S bs) = concat (map S xs) @ S b @ concat (map S ys)"
    "\<And>T. concat (map (S(b := T)) bs) = concat (map S xs) @ T @ concat (map S ys)"
proof -
  obtain xs ys where bs: "bs = xs @ b # ys" using assms(2) by (auto simp: in_set_conv_decomp)
  then have n: "b \<notin> set xs" "b \<notin> set ys" using assms(1) by (auto simp: chained_def)
  then have "map (S(b := T)) xs = map S xs" "map (S(b := T)) ys = map S ys" for T by auto
  with bs n that show thesis by simp
qed

lemma insertElement_heap:
  assumes "snd (h_ht H ! b) = Some head"
  shows "h_heap (insertElement b p H) =
      set_prev (Some head) (Some p) (set_next (he_prev (h_heap H head)) (Some p)
        ((h_heap H)(p := (h_heap H p)\<lparr>he_next := Some head, he_prev := he_prev (h_heap H head)\<rparr>)))"
    "h_first (insertElement b p H) = (if he_prev (h_heap H head) = None then Some p else h_first H)"
  using assms by (auto simp: insertElement_def Let_def poke_def set_prev_def set_next_def split: option.split)

lemma insertElement_heap_front:
  assumes "snd (h_ht H ! b) = None" "h_first H \<noteq> Some p"
  shows "h_heap (insertElement b p H) =
      set_prev (h_first H) (Some p) ((h_heap H)(p := (h_heap H p)\<lparr>he_next := h_first H, he_prev := None\<rparr>))"
    "h_first (insertElement b p H) = Some p"
  using assms by (auto simp: insertElement_def Let_def poke_def set_prev_def split: option.split)

lemma insertElement_frame [simp]:
  "h_htsize (insertElement b p H) = h_htsize H" "h_keyClass (insertElement b p H) = h_keyClass H"
  "h_count (insertElement b p H) = h_count H" "h_copyKey (insertElement b p H) = h_copyKey H"
  "h_fresh (insertElement b p H) = h_fresh H"
  "h_ht (insertElement b p H) = (h_ht H)[b := (fst (h_ht H ! b) + 1, Some p)]"
  "he_key (h_heap (insertElement b p H) q) = he_key (h_heap H q)"
  "he_data (h_heap (insertElement b p H) q) = he_data (h_heap H q)"
  by (auto simp: insertElement_def Let_def poke_def split: option.split)

lemma insertElement_home [simp]: "home (insertElement b p H) q = home H q"
  by (simp add: home_def)

lemma insertElement_other:
  assumes "q \<noteq> p" "q \<notin> set A" "q \<notin> set B"
  shows "set_prev (hd_or B None) r (set_next (last_or A None) s (h(p := e))) q = h q"
proof -
  have "hd_or B None \<noteq> Some q" "last_or A None \<noteq> Some q" using assms by (auto dest: hd_or_in last_or_in)
  then show ?thesis using assms(1) by (simp add: set_prev_other set_next_other)
qed

lemma insertElement_chained:
  assumes c: "chained H bs S" and p: "p \<notin> set (concat (map S bs))" and b: "home H p = b" "b < h_htsize H"
  shows "chained (insertElement b p H) (if S b = [] then b # bs else bs) (S(b := p # S b)) \<and>
    (\<forall>q. q \<notin> insert p (set (concat (map S bs))) \<longrightarrow> h_heap (insertElement b p H) q = h_heap H q)"
proof -
  let ?es = "concat (map S bs)" and ?h = "h_heap H"
  have ht: "h_ht H ! b = (int (length (S b)), hd_or (S b) None)" "length (h_ht H) = h_htsize H"
    and first: "h_first H = hd_or ?es None" and dll: "dll ?h None ?es None" and dist: "distinct ?es"
    using c b by (auto simp: chained_def)
  obtain A B where AB: "?es = A @ B"
      "concat (map (S(b := p # S b)) (if S b = [] then b # bs else bs)) = A @ p # B"
    and heap: "h_heap (insertElement b p H) =
      set_prev (hd_or B None) (Some p) (set_next (last_or A None) (Some p)
        (?h(p := (?h p)\<lparr>he_next := hd_or B None, he_prev := last_or A None\<rparr>)))"
    and front: "h_first (insertElement b p H) = (if A = [] then Some p else h_first H)"
  proof (cases "S b = []")
    case True
    then have nb: "b \<notin> set bs" using c by (auto simp: chained_def)
    then have "map (S(b := [p])) bs = map S bs" by auto
    then have m: "concat (map (S(b := [p])) bs) = ?es" by (rule arg_cong)
    have n: "h_first H \<noteq> Some p" using p first by (auto dest: hd_or_in)
    show thesis
      by (rule that [of "[]" ?es])
        (use True m n insertElement_heap_front [of H b p] ht first in \<open>auto simp: set_next_def\<close>)
  next
    case False
    then have "b \<in> set bs" using c by (auto simp: chained_def)
    then obtain xs ys where bs: "?es = concat (map S xs) @ S b @ concat (map S ys)"
      "concat (map (S(b := p # S b)) bs) = concat (map S xs) @ (p # S b) @ concat (map S ys)"
      using chained_split [OF c] by metis
    let ?A = "concat (map S xs)" and ?B = "S b @ concat (map S ys)"
    obtain q where q: "hd_or (S b) None = Some q" "hd_or ?B None = Some q" using False by (cases "S b") auto
    have prev: "he_prev (?h q) = last_or ?A None"
      using dll bs(1) q False by (cases "S b") (auto simp: dll_append)
    show thesis
      by (rule that [of ?A ?B])
        (use False bs q prev insertElement_heap [of H b q p] ht in \<open>auto simp: last_or_def\<close>)
  qed
  let ?g = "?h(p := (?h p)\<lparr>he_next := hd_or B None, he_prev := last_or A None\<rparr>)"
  have pAB: "p \<notin> set (A @ B)" using p AB(1) by simp
  have "dll ?g None (A @ B) None" using dll AB(1) pAB dll_cong [of "A @ B" ?h ?g] by auto
  then have "dll (h_heap (insertElement b p H)) None (A @ p # B) None"
    unfolding heap by (rule link_ok) (use dist AB(1) pAB in auto)
  moreover have "h_first (insertElement b p H) = hd_or (A @ p # B) None"
    using front first AB(1) by (cases A) auto
  moreover have "\<forall>q. q \<notin> insert p (set ?es) \<longrightarrow> h_heap (insertElement b p H) q = ?h q"
    unfolding heap using insertElement_other [of _ p A B] AB(1) by auto
  moreover have "distinct (A @ p # B)" using dist AB(1) pAB by auto
  moreover have "\<forall>d < h_htsize H. h_ht (insertElement b p H) ! d =
      (int (length ((S(b := p # S b)) d)), hd_or ((S(b := p # S b)) d) None)"
    using c b(2) ht by (auto simp: chained_def nth_list_update)
  ultimately show ?thesis
    using c b AB(2) ht(2) unfolding chained_def by (auto split: if_splits)
qed

lemma removeElement_frame [simp]:
  "h_htsize (removeElementGivenHash H p b) = h_htsize H" "h_keyClass (removeElementGivenHash H p b) = h_keyClass H"
  "h_count (removeElementGivenHash H p b) = h_count H - 1" "h_copyKey (removeElementGivenHash H p b) = h_copyKey H"
  "h_fresh (removeElementGivenHash H p b) = h_fresh H"
  "he_key (h_heap (removeElementGivenHash H p b) q) = he_key (h_heap H q)"
  "he_data (h_heap (removeElementGivenHash H p b) q) = he_data (h_heap H q)"
  by (auto simp: removeElementGivenHash_def Let_def poke_def split: option.split prod.split)

lemma removeElement_home [simp]: "home (removeElementGivenHash H p b) q = home H q"
  by (simp add: home_def)

lemma removeElement_heap:
  "h_heap (removeElementGivenHash H p b) =
    set_prev (he_next (h_heap H p)) (he_prev (h_heap H p)) (set_next (he_prev (h_heap H p)) (he_next (h_heap H p)) (h_heap H))"
  "h_first (removeElementGivenHash H p b) = (if he_prev (h_heap H p) = None then he_next (h_heap H p) else h_first H)"
  by (auto simp: removeElementGivenHash_def Let_def poke_def set_prev_def set_next_def split: option.split prod.split)

lemma removeElement_ht:
  "h_ht H ! b = (n, ch) \<Longrightarrow> h_ht (removeElementGivenHash H p b) =
    (h_ht H)[b := (n - 1, if n - 1 \<le> 0 then None else if ch = Some p then he_next (h_heap H p) else ch)]"
  by (auto simp: removeElementGivenHash_def Let_def poke_def split: option.split)

lemma concat_without_empty: "concat (map S (filter (\<lambda>b. S b \<noteq> []) bs)) = concat (map S bs)"
  by (induction bs) auto

lemma removeElement_chained:
  assumes c: "chained H bs S" and p: "p \<in> set (S b)"
  shows "\<exists>bs'. chained (removeElementGivenHash H p b) bs' (S(b := remove1 p (S b))) \<and>
    set (concat (map (S(b := remove1 p (S b))) bs')) = set (concat (map S bs)) - {p} \<and>
    length (concat (map S bs)) = Suc (length (concat (map (S(b := remove1 p (S b))) bs')))"
proof -
  let ?es = "concat (map S bs)" and ?h = "h_heap H"
  have b: "b \<in> set bs" "b < h_htsize H" using c p by (auto simp: chained_def)
  obtain xs ys where bs: "?es = concat (map S xs) @ S b @ concat (map S ys)"
    "\<And>T. concat (map (S(b := T)) bs) = concat (map S xs) @ T @ concat (map S ys)"
    using chained_split [OF c b(1)] by metis
  obtain l r where lr: "S b = l @ p # r" using p by (auto simp: in_set_conv_decomp)
  have dist: "distinct ?es" and first: "h_first H = hd_or ?es None" and dll: "dll ?h None ?es None"
    and ht: "h_ht H ! b = (int (length (S b)), hd_or (S b) None)" "length (h_ht H) = h_htsize H"
    using c b by (auto simp: chained_def)
  define A where "A = concat (map S xs) @ l"
  define B where "B = r @ concat (map S ys)"
  have es: "?es = A @ p # B" by (simp add: bs(1) lr A_def B_def)
  have pl: "p \<notin> set l" using dist bs(1) lr by auto
  then have rem: "remove1 p (S b) = l @ r" by (simp add: lr remove1_append)
  let ?T = "S(b := l @ r)"
  define bs' where "bs' = filter (\<lambda>d. ?T d \<noteq> []) bs"
  have es': "concat (map ?T bs') = A @ B"
    unfolding bs'_def concat_without_empty using bs(2) [of "l @ r"] by (simp add: A_def B_def)
  have links: "he_next (?h p) = hd_or B None" "he_prev (?h p) = last_or A None"
    using dll es by (simp_all add: dll_append)
  have "dll (h_heap (removeElementGivenHash H p b)) None (A @ B) None"
    unfolding removeElement_heap(1) links by (rule unlink_ok) (use dll dist es in auto)
  moreover have "h_first (removeElementGivenHash H p b) = hd_or (A @ B) None"
    unfolding removeElement_heap(2) links using first es by (cases A) (auto simp: last_or_def)
  moreover have "distinct (A @ B)" using dist es by auto
  moreover have "\<forall>d < h_htsize H. h_ht (removeElementGivenHash H p b) ! d = (int (length (?T d)), hd_or (?T d) None)"
  proof -
    have "(if int (length (S b)) - 1 \<le> 0 then None else if hd_or (S b) None = Some p then hd_or B None else hd_or (S b) None)
        = hd_or (l @ r) None"
      using pl by (cases l; cases r) (auto simp: lr B_def)
    then show ?thesis
      using c b(2) ht by (auto simp: chained_def nth_list_update removeElement_ht [OF ht(1)] links lr)
  qed
  moreover have "length (h_ht (removeElementGivenHash H p b)) = h_htsize H"
    by (simp add: removeElement_ht [OF ht(1)] ht(2))
  ultimately have "chained (removeElementGivenHash H p b) bs' ?T"
    using c es' lr unfolding chained_def bs'_def by (auto split: if_splits)
  moreover have "set (A @ B) = set ?es - {p}" "length ?es = Suc (length (A @ B))" using es dist by auto
  ultimately show ?thesis using es' rem by metis
qed

section \<open>Rehashing\<close>

lemma bucket_less: "0 < m \<Longrightarrow> m < 2 ^ 32 \<Longrightarrow> bucket m h < m"
proof -
  assume m: "0 < m" "m < 2 ^ 32"
  have "unat (h AND (of_nat m - 1)) \<le> unat (of_nat m - 1 :: u32)"
    by (simp add: word_and_le1 flip: word_le_nat_alt)
  also have "(of_nat m - 1 :: u32) = of_nat (m - 1)" using m(1) by (simp add: of_nat_diff)
  also have "unat (of_nat (m - 1) :: u32) \<le> m - 1" by (simp add: unat_of_nat)
  finally show ?thesis using m(1) by (simp add: bucket_def)
qed

fun nexts :: "(nat \<Rightarrow> dc_hashelem_t) \<Rightarrow> nat option \<Rightarrow> nat list \<Rightarrow> bool" where
  "nexts h e [] \<longleftrightarrow> e = None"
| "nexts h e (p # ps) \<longleftrightarrow> e = Some p \<and> nexts h (he_next (h p)) ps"

lemma dll_nexts: "dll h pr ps None \<Longrightarrow> nexts h (hd_or ps None) ps"
  by (induction ps arbitrary: pr) auto

lemma nexts_cong: "\<forall>p \<in> set ps. h p = g p \<Longrightarrow> nexts h e ps = nexts g e ps"
  by (induction ps arbitrary: e) auto

definition same_contents :: "dc_hash_t \<Rightarrow> dc_hash_t \<Rightarrow> bool" where
  "same_contents H G \<longleftrightarrow> h_keyClass G = h_keyClass H \<and> h_copyKey G = h_copyKey H \<and> h_count G = h_count H \<and>
     h_fresh G = h_fresh H \<and>
     (\<forall>p. he_key (h_heap G p) = he_key (h_heap H p) \<and> he_data (h_heap G p) = he_data (h_heap H p))"

lemma same_contents_trans: "same_contents H G \<Longrightarrow> same_contents G F \<Longrightarrow> same_contents H F"
  by (simp add: same_contents_def)

lemma same_contents_insert: "same_contents H (insertElement b p H)"
  by (simp add: same_contents_def)

lemma rehash_loop_ok:
  assumes "nexts (h_heap H) e ps" "distinct ps" "chained H bs S" "set ps \<inter> set (concat (map S bs)) = {}"
    "0 < h_htsize H" "h_htsize H < 2 ^ 32"
  shows "\<exists>G cs T. rehash_loop e H = Some G \<and> chained G cs T \<and> h_htsize G = h_htsize H \<and> same_contents H G \<and>
    set (concat (map T cs)) = set ps \<union> set (concat (map S bs))"
  using assms
proof (induction ps arbitrary: e H bs S)
  case Nil
  then show ?case by (subst rehash_loop.simps) (auto simp: same_contents_def)
next
  case (Cons p ps)
  let ?b = "bucket (h_htsize H) (hashFunction (h_keyClass H) (he_key (h_heap H p)))"
  let ?G = "insertElement ?b p H"
  have e: "e = Some p" "nexts (h_heap H) (he_next (h_heap H p)) ps" using Cons.prems(1) by auto
  have b: "home H p = ?b" "?b < h_htsize H" using bucket_less Cons.prems(5,6) by (auto simp: home_def)
  have p: "p \<notin> set (concat (map S bs))" using Cons.prems(4) by auto
  let ?cs = "if S ?b = [] then ?b # bs else bs" and ?T = "S(?b := p # S ?b)"
  have G: "chained ?G ?cs ?T"
    and same: "\<forall>q. q \<notin> insert p (set (concat (map S bs))) \<longrightarrow> h_heap ?G q = h_heap H q"
    using insertElement_chained [OF Cons.prems(3) p b] by auto
  have set: "set (concat (map ?T ?cs)) = insert p (set (concat (map S bs)))"
    using Cons.prems(3) by (auto simp: chained_def split: if_splits)
  have "\<forall>q \<in> set ps. q \<notin> insert p (set (concat (map S bs)))" using Cons.prems(2,4) by auto
  then have "\<forall>q \<in> set ps. h_heap ?G q = h_heap H q" using same by blast
  then have "nexts (h_heap ?G) (he_next (h_heap H p)) ps" using e(2) nexts_cong [of ps "h_heap ?G" "h_heap H"] by simp
  moreover have "set ps \<inter> set (concat (map ?T ?cs)) = {}" unfolding set using Cons.prems(2,4) by auto
  ultimately obtain F cs T where F: "rehash_loop (he_next (h_heap H p)) ?G = Some F" "chained F cs T"
    "h_htsize F = h_htsize ?G" "same_contents ?G F" "set (concat (map T cs)) = set ps \<union> set (concat (map ?T ?cs))"
    using Cons.IH [OF _ _ G] Cons.prems(2,5,6) by fastforce
  have "rehash_loop e H = Some F" using F(1) by (subst rehash_loop.simps) (simp add: e(1))
  then show ?case
    using F set same_contents_trans [OF same_contents_insert F(4)] by (auto intro!: exI [of _ F] exI [of _ cs] exI [of _ T])
qed

text \<open>Rehashing terminates and keeps the elements, whatever the new number of buckets.\<close>

lemma rehash_ok:
  assumes "chained H bs S" "0 < m" "m < 2 ^ 32"
  shows "\<exists>G cs T. rehash m H = Some G \<and> chained G cs T \<and> h_htsize G = m \<and> same_contents H G \<and>
    set (concat (map T cs)) = set (concat (map S bs))"
proof -
  let ?H = "H\<lparr>h_ht := replicate m (0, None), h_htsize := m, h_first := None\<rparr>"
  have "chained ?H [] (\<lambda>_. [])" using assms(2) by (simp add: chained_def)
  moreover have "nexts (h_heap ?H) (h_first H) (concat (map S bs))" "distinct (concat (map S bs))"
    using assms(1) dll_nexts by (auto simp: chained_def)
  ultimately obtain G cs T where "rehash_loop (h_first H) ?H = Some G" "chained G cs T" "h_htsize G = h_htsize ?H"
    "same_contents ?H G" "set (concat (map T cs)) = set (concat (map S bs)) \<union> set (concat (map (\<lambda>_. []) ([] :: nat list)))"
    using rehash_loop_ok [of ?H "h_first H" "concat (map S bs)" "[]" "\<lambda>_. []"] assms(2,3) by fastforce
  then show ?thesis by (auto simp: rehash_def same_contents_def)
qed

section \<open>Keys that are the same\<close>

text \<open>What a key counts for in a table of its class.\<close>

fun norm_key :: "key_class \<Rightarrow> hash_key \<Rightarrow> int \<times> u64 \<times> nat list" where
  "norm_key DC_HASH_INT k = (k_n k, 0, [])"
| "norm_key DC_HASH_POINTER k = (0, k_addr k, [])"
| "norm_key DC_HASH_STRING k = (k_n k, 0, map lower_byte (take (nat (k_n k)) (k_bytes k)))"
| "norm_key DC_HASH_BINARY k = (k_n k, 0, map byte_of (take (nat (k_n k)) (k_bytes k)))"

fun key_ok :: "key_class \<Rightarrow> hash_key \<Rightarrow> bool" where
  "key_ok DC_HASH_INT k = True"
| "key_ok DC_HASH_POINTER k = True"
| "key_ok DC_HASH_STRING k \<longleftrightarrow> 0 < k_n k \<and> nat (k_n k) \<le> length (k_bytes k) \<and> CHR 0x00 \<notin> set (take (nat (k_n k)) (k_bytes k))"
| "key_ok DC_HASH_BINARY k \<longleftrightarrow> 0 \<le> k_n k \<and> nat (k_n k) \<le> length (k_bytes k)"

lemma first_byte_simps [simp]: "first_byte [] = CHR 0x00" "first_byte (c # cs) = c"
  by (simp_all add: first_byte_def)

lemma strnicmp_eq:
  "n \<le> length a \<Longrightarrow> n \<le> length b \<Longrightarrow> CHR 0x00 \<notin> set (take n a) \<Longrightarrow>
    sjhashStrNICmp a b n = 0 \<longleftrightarrow> map lower_byte (take n a) = map lower_byte (take n b)"
proof (induction a b n rule: sjhashStrNICmp.induct)
  case (2 a b n)
  obtain x xs y ys where "a = x # xs" "b = y # ys" using 2(2,3) by (cases a; cases b) auto
  then show ?case using 2 by (auto simp: Let_def)
qed simp

lemma memcmp_eq:
  "n \<le> length a \<Longrightarrow> n \<le> length b \<Longrightarrow> memcmp a b n = 0 \<longleftrightarrow> map byte_of (take n a) = map byte_of (take n b)"
proof (induction a b n rule: memcmp.induct)
  case (2 a b n)
  obtain x xs y ys where "a = x # xs" "b = y # ys" using 2(2,3) by (cases a; cases b) auto
  then show ?case using 2 by (auto dest: byte_eqI)
qed simp

lemma compare_norm:
  "key_ok c k \<Longrightarrow> key_ok c j \<Longrightarrow> compareFunction c k j = 0 \<longleftrightarrow> norm_key c k = norm_key c j"
  by (cases c) (auto simp: intCompare_def ptrCompare_def strCompare_def binCompare_def strnicmp_eq memcmp_eq)

lemma no_case_loop_norm:
  "n \<le> length a \<Longrightarrow> n \<le> length b \<Longrightarrow> map lower_byte (take n a) = map lower_byte (take n b) \<Longrightarrow>
    no_case_loop h a n = no_case_loop h b n"
proof (induction n arbitrary: h a b)
  case (Suc n)
  obtain x xs y ys where ab: "a = x # xs" "b = y # ys" using Suc.prems(1,2) by (cases a; cases b) auto
  then have "n \<le> length xs" "n \<le> length ys" "map lower_byte (take n xs) = map lower_byte (take n ys)" "lower_byte x = lower_byte y"
    using Suc.prems by simp_all
  then show ?case using Suc.IH [of xs ys] ab by (simp only: no_case_loop.simps first_byte_simps list.sel)
qed simp

lemma bin_loop_norm:
  "n \<le> length a \<Longrightarrow> n \<le> length b \<Longrightarrow> map byte_of (take n a) = map byte_of (take n b) \<Longrightarrow>
    bin_loop h a n = bin_loop h b n"
proof (induction n arbitrary: h a b)
  case (Suc n)
  obtain x xs y ys where ab: "a = x # xs" "b = y # ys" using Suc.prems(1,2) by (cases a; cases b) auto
  then have "n \<le> length xs" "n \<le> length ys" "map byte_of (take n xs) = map byte_of (take n ys)" "byte_of x = byte_of y"
    using Suc.prems by simp_all
  then show ?case using Suc.IH [of xs ys] ab by (simp only: bin_loop.simps first_byte_simps list.sel)
qed simp

text \<open>Keys that are the same have the same hash value.\<close>

lemma hash_norm:
  "key_ok c k \<Longrightarrow> key_ok c j \<Longrightarrow> norm_key c k = norm_key c j \<Longrightarrow> hashFunction c k = hashFunction c j"
proof (cases c)
  case DC_HASH_STRING
  then show "key_ok c k \<Longrightarrow> key_ok c j \<Longrightarrow> norm_key c k = norm_key c j \<Longrightarrow> ?thesis"
    using no_case_loop_norm [of "nat (k_n k)" "k_bytes k" "k_bytes j" 0] by (auto simp: strHash_def sjhashNoCase_def)
next
  case DC_HASH_BINARY
  then show "key_ok c k \<Longrightarrow> key_ok c j \<Longrightarrow> norm_key c k = norm_key c j \<Longrightarrow> ?thesis"
    using bin_loop_norm [of "nat (k_n k)" "k_bytes k" "k_bytes j" 0] by (auto simp: binHash_def)
qed (auto simp: intHash_def ptrHash_def)

lemma stored_key_ok:
  "key_ok c k \<Longrightarrow> key_ok c (stored_key junk H k) \<and> norm_key c (stored_key junk H k) = norm_key c k"
  by (cases c) (auto simp: stored_key_def)

section \<open>The map in the table\<close>

fun walk :: "dc_hash_t \<Rightarrow> nat option \<Rightarrow> nat \<Rightarrow> nat list" where
  "walk H e 0 = []"
| "walk H e (Suc n) = (case e of None \<Rightarrow> [] | Some p \<Rightarrow> p # walk H (he_next (h_heap H p)) n)"

lemma walk_nexts: "nexts (h_heap H) e ps \<Longrightarrow> walk H e (length ps) = ps"
  by (induction ps arbitrary: e) auto

definition norm_of :: "dc_hash_t \<Rightarrow> nat \<Rightarrow> int \<times> u64 \<times> nat list" where
  "norm_of H p = norm_key (h_keyClass H) (he_key (h_heap H p))"

definition hash_map :: "dc_hash_t \<Rightarrow> int \<times> u64 \<times> nat list \<Rightarrow> nat option" where
  "hash_map H x =
     Option.bind (find (\<lambda>p. norm_of H p = x) (walk H (h_first H) (nat (h_count H)))) (\<lambda>p. he_data (h_heap H p))"

definition table :: "dc_hash_t \<Rightarrow> nat set \<Rightarrow> bool" where
  "table H ps \<longleftrightarrow> (\<exists>bs S. chained H bs S \<and> set (concat (map S bs)) = ps) \<and> h_htsize H < 2 ^ 32"

definition elems_ok :: "dc_hash_t \<Rightarrow> nat set \<Rightarrow> bool" where
  "elems_ok H ps \<longleftrightarrow> (\<forall>p \<in> ps. p < h_fresh H \<and> key_ok (h_keyClass H) (he_key (h_heap H p)) \<and> he_data (h_heap H p) \<noteq> None) \<and>
     inj_on (norm_of H) ps"

definition hash_ok :: "dc_hash_t \<Rightarrow> bool" where
  "hash_ok H \<longleftrightarrow> (\<exists>ps. table H ps \<and> elems_ok H ps \<and> h_count H = int (card ps))"

lemma find_inj: "inj_on f (set xs) \<Longrightarrow> p \<in> set xs \<Longrightarrow> find (\<lambda>q. f q = f p) xs = Some p"
  by (induction xs) (auto simp: inj_on_def)

lemma find_none: "x \<notin> f ` set xs \<Longrightarrow> find (\<lambda>q. f q = x) xs = None"
  by (auto simp: find_None_iff)

text \<open>The map, read off the set of elements.\<close>

lemma hash_map_table:
  assumes "table H ps" "elems_ok H ps" "h_count H = int (card ps)"
  shows "p \<in> ps \<Longrightarrow> hash_map H (norm_of H p) = he_data (h_heap H p)"
    "x \<notin> norm_of H ` ps \<Longrightarrow> hash_map H x = None"
proof -
  obtain bs S where c: "chained H bs S" and ps: "set (concat (map S bs)) = ps" using assms(1) by (auto simp: table_def)
  let ?es = "concat (map S bs)"
  have "distinct ?es" using c by (simp add: chained_def)
  then have len: "length ?es = card ps" using ps distinct_card by metis
  have "nexts (h_heap H) (h_first H) ?es" using c dll_nexts by (auto simp: chained_def)
  then have w: "walk H (h_first H) (nat (h_count H)) = ?es" using walk_nexts len assms(3) by fastforce
  have inj: "inj_on (norm_of H) (set ?es)" using assms(2) ps by (simp add: elems_ok_def)
  show "p \<in> ps \<Longrightarrow> hash_map H (norm_of H p) = he_data (h_heap H p)"
    using find_inj [OF inj, of p] by (simp only: hash_map_def w ps bind.simps)
  show "x \<notin> norm_of H ` ps \<Longrightarrow> hash_map H x = None"
    using find_none [of x "norm_of H" ?es] ps by (simp add: hash_map_def w)
qed

section \<open>Finding\<close>

lemma find_elem_loop_list:
  "dll (h_heap H) pr (ps @ qs) nx \<Longrightarrow>
    find_elem_loop H k (hd_or (ps @ qs) nx) (length ps) =
      find (\<lambda>p. compareFunction (h_keyClass H) (he_key (h_heap H p)) k = 0) ps"
  by (induction ps arbitrary: pr) (auto simp flip: hd_or_simps(3))

lemma find_cong_set: "\<forall>x \<in> set xs. P x = Q x \<Longrightarrow> find P xs = find Q xs"
  by (induction xs) auto

lemma findElement_table:
  assumes t: "table H ps" and e: "elems_ok H ps" and k: "key_ok (h_keyClass H) k"
  defines "r \<equiv> findElementGivenHash H k (bucket (h_htsize H) (hashFunction (h_keyClass H) k))"
  shows "(\<exists>p \<in> ps. r = Some p \<and> norm_of H p = norm_key (h_keyClass H) k) \<or>
    (r = None \<and> norm_key (h_keyClass H) k \<notin> norm_of H ` ps)"
proof -
  obtain bs S where c: "chained H bs S" and ps: "set (concat (map S bs)) = ps" using t by (auto simp: table_def)
  show ?thesis
  proof (cases "h_ht H = []")
    case True
    then have "bs = []" using c by (cases bs) (auto simp: chained_def)
    then show ?thesis using True ps by (simp add: r_def findElementGivenHash_def)
  next
    case False
    let ?b = "bucket (h_htsize H) (hashFunction (h_keyClass H) k)"
    have "length (h_ht H) = h_htsize H" using c by (simp add: chained_def)
    then have b: "?b < h_htsize H" using bucket_less [of "h_htsize H"] False t by (cases "h_ht H") (auto simp: table_def)
    have ht: "h_ht H ! ?b = (int (length (S ?b)), hd_or (S ?b) None)" using c b by (simp add: chained_def)
    let ?P = "\<lambda>p. norm_of H p = norm_key (h_keyClass H) k"
    have mem: "p \<in> ps" if "p \<in> set (S ?b)" for p
      using that c ps by (cases "?b \<in> set bs") (auto simp: chained_def)
    have "\<exists>rest pr nx. dll (h_heap H) pr (S ?b @ rest) nx \<and> hd_or (S ?b @ rest) nx = hd_or (S ?b) None"
    proof (cases "S ?b = []")
      case True
      then show ?thesis by (intro exI [of _ "[]"] exI [of _ None]) simp
    next
      case ne: False
      then have "?b \<in> set bs" using c by (simp add: chained_def)
      then obtain xs ys where "concat (map S bs) = concat (map S xs) @ S ?b @ concat (map S ys)"
        using chained_split [OF c] by metis
      then have "dll (h_heap H) (last_or (concat (map S xs)) None) (S ?b @ concat (map S ys)) None"
        using c by (simp add: chained_def dll_append)
      moreover have "hd_or (S ?b @ concat (map S ys)) None = hd_or (S ?b) None" using ne by (cases "S ?b") auto
      ultimately show ?thesis by blast
    qed
    then have "find_elem_loop H k (hd_or (S ?b) None) (length (S ?b)) =
        find (\<lambda>p. compareFunction (h_keyClass H) (he_key (h_heap H p)) k = 0) (S ?b)"
      using find_elem_loop_list by metis
    also have "\<dots> = find ?P (S ?b)"
      using e k mem by (intro find_cong_set) (auto simp: elems_ok_def norm_of_def compare_norm)
    finally have r: "r = find ?P (S ?b)" using False by (simp add: r_def findElementGivenHash_def ht)
    show ?thesis
    proof (cases r)
      case None
      have "norm_of H p \<noteq> norm_key (h_keyClass H) k" if p: "p \<in> ps" for p
      proof
        assume n: "norm_of H p = norm_key (h_keyClass H) k"
        then have "hashFunction (h_keyClass H) (he_key (h_heap H p)) = hashFunction (h_keyClass H) k"
          using e p by (intro hash_norm k) (auto simp: elems_ok_def norm_of_def)
        then have "home H p = ?b" by (simp add: home_def)
        moreover obtain d where "d \<in> set bs" "p \<in> set (S d)" using p ps by auto
        ultimately have "p \<in> set (S ?b)" using c by (auto simp: chained_def)
        then show False using None r n by (auto simp: find_None_iff)
      qed
      then have "norm_key (h_keyClass H) k \<notin> norm_of H ` ps" by (metis imageE)
      then show ?thesis using None by simp
    next
      case (Some p)
      then have "p \<in> set (S ?b)" "?P p" using r by (auto simp: find_Some_iff)
      then show ?thesis using Some mem by blast
    qed
  qed
qed

section \<open>The table refines a map\<close>

lemma table_frame:
  "table H ps \<Longrightarrow> h_htsize G = h_htsize H \<Longrightarrow> h_keyClass G = h_keyClass H \<Longrightarrow> h_first G = h_first H \<Longrightarrow> h_ht G = h_ht H \<Longrightarrow>
    (\<And>p. p \<in> ps \<Longrightarrow> he_next (h_heap G p) = he_next (h_heap H p) \<and> he_prev (h_heap G p) = he_prev (h_heap H p) \<and>
      he_key (h_heap G p) = he_key (h_heap H p)) \<Longrightarrow> table G ps"
proof -
  assume t: "table H ps" and g: "h_htsize G = h_htsize H" "h_keyClass G = h_keyClass H" "h_first G = h_first H" "h_ht G = h_ht H"
    and e: "\<And>p. p \<in> ps \<Longrightarrow> he_next (h_heap G p) = he_next (h_heap H p) \<and> he_prev (h_heap G p) = he_prev (h_heap H p) \<and>
      he_key (h_heap G p) = he_key (h_heap H p)"
  obtain bs S where c: "chained H bs S" and ps: "set (concat (map S bs)) = ps" using t by (auto simp: table_def)
  have "dll (h_heap G) None (concat (map S bs)) None"
    using c e ps dll_cong [of "concat (map S bs)" "h_heap G" "h_heap H"] by (auto simp: chained_def)
  moreover have "home G p = b" if p: "p \<in> set (S b)" for p b
  proof -
    have "b \<in> set bs" using c p by (auto simp: chained_def)
    then have "p \<in> ps" using p ps by auto
    then have "home G p = home H p" using e g by (simp add: home_def)
    then show ?thesis using c p by (simp add: chained_def)
  qed
  ultimately have "chained G bs S" using c g by (simp add: chained_def)
  then show "table G ps" using ps t g by (auto simp: table_def)
qed

lemma norm_frame:
  "h_keyClass G = h_keyClass H \<Longrightarrow> he_key (h_heap G p) = he_key (h_heap H p) \<Longrightarrow> norm_of G p = norm_of H p"
  by (simp add: norm_of_def)

lemma table_finite: "table H ps \<Longrightarrow> finite ps"
  by (auto simp: table_def)

lemma rehash_table:
  assumes "table H ps" "elems_ok H ps" "0 < m" "m < 2 ^ 32"
  shows "\<exists>G. rehash m H = Some G \<and> table G ps \<and> elems_ok G ps \<and> h_htsize G = m \<and> same_contents H G"
proof -
  obtain bs S where c: "chained H bs S" and ps: "set (concat (map S bs)) = ps" using assms(1) by (auto simp: table_def)
  obtain G cs T where G: "rehash m H = Some G" "chained G cs T" "h_htsize G = m" "same_contents H G"
    "set (concat (map T cs)) = set (concat (map S bs))" using rehash_ok [OF c assms(3,4)] by blast
  have "norm_of G = norm_of H" using G(4) by (auto simp: norm_of_def same_contents_def)
  then have "elems_ok G ps" using assms(2) G(4) by (simp add: elems_ok_def same_contents_def)
  moreover have "table G ps" using G(2,3,5) ps assms(4) by (auto simp: table_def)
  ultimately show ?thesis using G by blast
qed

lemma insertElement_table:
  assumes "table H ps" "p \<notin> ps" "0 < h_htsize H"
  shows "table (insertElement (home H p) p H) (insert p ps)"
proof -
  obtain bs S where c: "chained H bs S" and ps: "set (concat (map S bs)) = ps" using assms(1) by (auto simp: table_def)
  have b: "home H p < h_htsize H" using bucket_less [OF assms(3)] assms(1) by (simp add: home_def table_def)
  have "p \<notin> set (concat (map S bs))" using assms(2) ps by simp
  from insertElement_chained [OF c this refl b]
  have "chained (insertElement (home H p) p H) (if S (home H p) = [] then home H p # bs else bs) (S(home H p := p # S (home H p)))"
    by blast
  moreover have "set (concat (map (S(home H p := p # S (home H p))) (if S (home H p) = [] then home H p # bs else bs))) = insert p ps"
    using c ps by (auto simp: chained_def split: if_splits)
  ultimately show ?thesis using assms(1) unfolding table_def by (metis insertElement_frame(1))
qed

lemma insert_new:
  assumes t: "table H ps" and e: "elems_ok H ps" and n: "h_count H = int (card ps)" and room: "h_htsize H \<le> 2 ^ 29"
    and k: "key_ok (h_keyClass H) k" and new: "norm_key (h_keyClass H) k \<notin> norm_of H ` ps"
  shows "\<exists>G. add_elem junk H k (Some d) = Some G \<and> hash_ok G \<and>
    hash_map G = (hash_map H)(norm_key (h_keyClass H) k := Some d)"
proof -
  define p where "p = h_fresh H"
  define H0 where "H0 = H\<lparr>h_heap := (h_heap H)(p := blank_elem\<lparr>he_key := stored_key junk H k\<rparr>), h_fresh := Suc p, h_count := h_count H + 1\<rparr>"
  have p: "p \<notin> ps" using e by (auto simp: elems_ok_def p_def)
  have t0: "table H0 ps" using t by (rule table_frame) (use p in \<open>auto simp: H0_def\<close>)
  have n0: "norm_of H0 q = norm_of H q" if "q \<in> ps" for q using that p by (auto simp: norm_of_def H0_def)
  have e0: "elems_ok H0 ps"
    using e p n0 by (auto simp: elems_ok_def H0_def p_def less_Suc_eq intro: inj_on_cong [THEN iffD1, rotated])
  obtain H1 where H1: "(if h_htsize H0 = 0 then rehash 8 H0 else Some H0) = Some H1" "table H1 ps" "elems_ok H1 ps"
      "0 < h_htsize H1" "h_htsize H1 \<le> 2 ^ 29" "same_contents H0 H1"
  proof (cases "h_htsize H0 = 0")
    case True
    then show thesis using rehash_table [OF t0 e0, of 8] that by force
  next
    case False
    then show thesis using that [of H0] t0 e0 room by (simp add: same_contents_def H0_def)
  qed
  obtain H2 where H2: "(if h_count H1 > int (h_htsize H1) then rehash (h_htsize H1 * 2) H1 else Some H1) = Some H2"
      "table H2 ps" "elems_ok H2 ps" "0 < h_htsize H2" "same_contents H1 H2"
  proof (cases "h_count H1 > int (h_htsize H1)")
    case True
    have "h_htsize H1 * 2 < 2 ^ 32" using H1(5) by simp
    then show thesis using rehash_table [OF H1(2,3), of "h_htsize H1 * 2"] H1(4) True that by force
  next
    case False
    then show thesis using that [of H1] H1 by (simp add: same_contents_def)
  qed
  have same: "same_contents H0 H2" using same_contents_trans H1(6) H2(5) by blast
  have sk: "key_ok (h_keyClass H) (stored_key junk H k)" "norm_key (h_keyClass H) (stored_key junk H k) = norm_key (h_keyClass H) k"
    using stored_key_ok [OF k] by auto
  have key: "he_key (h_heap H2 p) = stored_key junk H k" "h_keyClass H2 = h_keyClass H" "h_fresh H2 = Suc p" "h_count H2 = h_count H + 1"
    using same by (auto simp: same_contents_def H0_def)
  have home: "bucket (h_htsize H2) (hashFunction (h_keyClass H2) k) = home H2 p"
    using hash_norm [OF k sk(1)] sk(2) key by (simp add: home_def)
  define G where "G = poke p (\<lambda>e. e\<lparr>he_data := Some d\<rparr>) (insertElement (home H2 p) p H2)"
  have add: "add_elem junk H k (Some d) = Some G"
    using H1(1) H2(1) home unfolding add_elem_def Let_def H0_def [symmetric] p_def [symmetric] G_def by simp
  have tG: "table G (insert p ps)"
    by (rule table_frame [OF insertElement_table [OF H2(2) p H2(4)]]) (auto simp: G_def poke_def)
  have keyG: "he_key (h_heap G q) = he_key (h_heap H2 q)" for q by (simp add: G_def poke_def)
  have dataG: "he_data (h_heap G q) = (if q = p then Some d else he_data (h_heap H2 q))" for q by (simp add: G_def poke_def)
  have fieldsG: "h_keyClass G = h_keyClass H" "h_fresh G = Suc p" "h_count G = h_count H + 1"
    using key by (auto simp: G_def poke_def)
  have normG: "norm_of G q = norm_of H q" if "q \<in> ps" for q
    using n0 [OF that] same keyG fieldsG(1) by (simp add: norm_of_def same_contents_def H0_def)
  have normp: "norm_of G p = norm_key (h_keyClass H) k" using keyG key sk(2) fieldsG(1) by (simp add: norm_of_def)
  have dataps: "he_data (h_heap G q) = he_data (h_heap H q)" if "q \<in> ps" for q
    using that p dataG same by (auto simp: same_contents_def H0_def)
  have inj: "inj_on (norm_of G) (insert p ps)"
  proof -
    have "inj_on (norm_of G) ps" using e normG by (simp add: elems_ok_def inj_on_def)
    moreover have "norm_of G p \<notin> norm_of G ` ps" using new normG normp by (metis image_cong)
    ultimately show ?thesis using p by simp
  qed
  have eG: "elems_ok G (insert p ps)"
    using H2(3) inj keyG dataG fieldsG key sk(1) p by (auto simp: elems_ok_def less_Suc_eq)
  have nG: "h_count G = int (card (insert p ps))" using n p fieldsG(3) table_finite [OF t] by simp
  have "hash_map G x = ((hash_map H)(norm_key (h_keyClass H) k := Some d)) x" for x
  proof (cases "x \<in> norm_of G ` insert p ps")
    case True
    then consider "x = norm_key (h_keyClass H) k" | q where "q \<in> ps" "x = norm_of H q" using normG normp by auto
    then show ?thesis
    proof cases
      case 1
      then show ?thesis using hash_map_table(1) [OF tG eG nG, of p] normp dataG by simp
    next
      case 2
      then have "x \<noteq> norm_key (h_keyClass H) k" using new by (metis imageI)
      then show ?thesis
        using 2 hash_map_table(1) [OF tG eG nG, of q] hash_map_table(1) [OF t e n 2(1)] normG dataps by simp
    qed
  next
    case False
    then have "x \<notin> norm_of H ` ps" "x \<noteq> norm_key (h_keyClass H) k" using normG normp by auto
    then show ?thesis using False hash_map_table(2) [OF tG eG nG] hash_map_table(2) [OF t e n] by simp
  qed
  then show ?thesis using add tG eG nG by (auto simp: hash_ok_def)
qed

lemma update_old:
  assumes t: "table H ps" and e: "elems_ok H ps" and n: "h_count H = int (card ps)" and p: "p \<in> ps"
  shows "hash_ok (poke p (\<lambda>e. e\<lparr>he_data := Some d\<rparr>) H) \<and>
    hash_map (poke p (\<lambda>e. e\<lparr>he_data := Some d\<rparr>) H) = (hash_map H)(norm_of H p := Some d)"
proof -
  let ?G = "poke p (\<lambda>e. e\<lparr>he_data := Some d\<rparr>) H"
  have tG: "table ?G ps" by (rule table_frame [OF t]) (auto simp: poke_def)
  have norm: "norm_of ?G = norm_of H" by (auto simp: norm_of_def poke_def)
  have eG: "elems_ok ?G ps" using e norm by (auto simp: elems_ok_def) (auto simp: poke_def)
  have nG: "h_count ?G = int (card ps)" using n by (simp add: poke_def)
  have "hash_map ?G x = ((hash_map H)(norm_of H p := Some d)) x" for x
  proof (cases "x \<in> norm_of H ` ps")
    case True
    then obtain q where q: "q \<in> ps" "x = norm_of H q" by auto
    have "norm_of H q = norm_of H p \<longleftrightarrow> q = p" using e p q(1) by (auto simp: elems_ok_def inj_on_def)
    then show ?thesis
      using q hash_map_table(1) [OF tG eG nG q(1)] hash_map_table(1) [OF t e n q(1)] norm by (auto simp: poke_def)
  next
    case False
    then have "x \<noteq> norm_of H p" using p by auto
    then show ?thesis using False hash_map_table(2) [OF tG eG nG] hash_map_table(2) [OF t e n] norm by simp
  qed
  then show ?thesis using tG eG nG by (auto simp: hash_ok_def)
qed

lemma remove_old:
  assumes t: "table H ps" and e: "elems_ok H ps" and n: "h_count H = int (card ps)" and p: "p \<in> ps"
  shows "hash_ok (removeElementGivenHash H p (home H p)) \<and>
    hash_map (removeElementGivenHash H p (home H p)) = (hash_map H)(norm_of H p := None)"
proof -
  let ?G = "removeElementGivenHash H p (home H p)"
  obtain bs S where c: "chained H bs S" and ps: "set (concat (map S bs)) = ps" using t by (auto simp: table_def)
  obtain b where b: "b \<in> set bs" "p \<in> set (S b)" using p ps by auto
  then have "p \<in> set (S (home H p))" using c by (auto simp: chained_def)
  from removeElement_chained [OF c this] obtain bs' where "chained ?G bs' (S(home H p := remove1 p (S (home H p))))"
    "set (concat (map (S(home H p := remove1 p (S (home H p)))) bs')) = ps - {p}" unfolding ps by blast
  moreover have "h_htsize ?G < 2 ^ 32" using t by (simp add: table_def)
  ultimately have tG: "table ?G (ps - {p})" unfolding table_def by blast
  have norm: "norm_of ?G = norm_of H" by (auto simp: norm_of_def)
  have eG: "elems_ok ?G (ps - {p})" using e norm by (auto simp: elems_ok_def intro: inj_on_subset)
  have nG: "h_count ?G = int (card (ps - {p}))"
    using n p table_finite [OF t] card_Suc_Diff1 [of ps p] by simp
  have "hash_map ?G x = ((hash_map H)(norm_of H p := None)) x" for x
  proof (cases "x \<in> norm_of H ` (ps - {p})")
    case True
    then obtain q where q: "q \<in> ps - {p}" "x = norm_of H q" by auto
    have "norm_of H q \<noteq> norm_of H p" using e p q(1) by (auto simp: elems_ok_def inj_on_def)
    then show ?thesis
      using q hash_map_table(1) [OF tG eG nG q(1)] hash_map_table(1) [OF t e n, of q] norm by auto
  next
    case False
    then have "x = norm_of H p \<or> x \<notin> norm_of H ` ps" by auto
    then show ?thesis using False hash_map_table(2) [OF tG eG nG, of x] hash_map_table(2) [OF t e n, of x] norm by auto
  qed
  then show ?thesis using tG eG nG by (auto simp: hash_ok_def)
qed

lemma find_is_lookup:
  assumes "hash_ok H" "key_ok (h_keyClass H) k"
  shows "dc_hash_find H k = hash_map H (norm_key (h_keyClass H) k)"
proof -
  obtain ps where t: "table H ps" and e: "elems_ok H ps" and n: "h_count H = int (card ps)"
    using assms(1) by (auto simp: hash_ok_def)
  let ?r = "findElementGivenHash H k (bucket (h_htsize H) (hashFunction (h_keyClass H) k))"
  have find: "dc_hash_find H k = Option.bind ?r (\<lambda>p. he_data (h_heap H p))"
    by (simp add: dc_hash_find_def findElementGivenHash_def split: option.split)
  from findElement_table [OF t e assms(2)] show ?thesis
  proof
    assume "\<exists>p \<in> ps. ?r = Some p \<and> norm_of H p = norm_key (h_keyClass H) k"
    then obtain p where "p \<in> ps" "?r = Some p" "norm_of H p = norm_key (h_keyClass H) k" by blast
    then show ?thesis using hash_map_table(1) [OF t e n, of p] find by simp
  next
    assume "?r = None \<and> norm_key (h_keyClass H) k \<notin> norm_of H ` ps"
    then show ?thesis using hash_map_table(2) [OF t e n, of "norm_key (h_keyClass H) k"] find by simp
  qed
qed

lemma insert_is_update:
  assumes "hash_ok H" "key_ok (h_keyClass H) k" "h_htsize H \<le> 2 ^ 29"
  shows "\<exists>G. dc_hash_insert junk H k d = Some (G, hash_map H (norm_key (h_keyClass H) k)) \<and> hash_ok G \<and>
    hash_map G = (hash_map H)(norm_key (h_keyClass H) k := d)"
proof -
  obtain ps where t: "table H ps" and e: "elems_ok H ps" and n: "h_count H = int (card ps)"
    using assms(1) by (auto simp: hash_ok_def)
  let ?x = "norm_key (h_keyClass H) k"
  let ?r = "findElementGivenHash H k (bucket (h_htsize H) (hashFunction (h_keyClass H) k))"
  from findElement_table [OF t e assms(2)] show ?thesis
  proof
    assume "\<exists>p \<in> ps. ?r = Some p \<and> norm_of H p = ?x"
    then obtain p where p: "p \<in> ps" "?r = Some p" "norm_of H p = ?x" by blast
    have "hashFunction (h_keyClass H) (he_key (h_heap H p)) = hashFunction (h_keyClass H) k"
      using e p by (intro hash_norm assms(2)) (auto simp: elems_ok_def norm_of_def)
    then have home: "bucket (h_htsize H) (hashFunction (h_keyClass H) k) = home H p" by (simp add: home_def)
    have old: "hash_map H ?x = he_data (h_heap H p)" using hash_map_table(1) [OF t e n p(1)] p(3) by simp
    show ?thesis
    proof (cases d)
      case None
      then show ?thesis using remove_old [OF t e n p(1)] p home old by (simp add: dc_hash_insert_def)
    next
      case (Some v)
      then show ?thesis using update_old [OF t e n p(1), of v] p old by (simp add: dc_hash_insert_def)
    qed
  next
    assume r: "?r = None \<and> ?x \<notin> norm_of H ` ps"
    then have none: "hash_map H ?x = None" using hash_map_table(2) [OF t e n] by blast
    show ?thesis
    proof (cases d)
      case None
      then show ?thesis using r none assms(1) by (auto simp: dc_hash_insert_def)
    next
      case (Some v)
      then show ?thesis using insert_new [OF t e n assms(3,2), of junk v] r none by (auto simp: dc_hash_insert_def)
    qed
  qed
qed

lemma empty_ok:
  assumes "h_first H = None" "h_ht H = []" "h_htsize H = 0" "h_count H = 0"
  shows "hash_ok H \<and> hash_map H = (\<lambda>_. None)"
proof
  have "chained H [] (\<lambda>_. [])" using assms by (simp add: chained_def)
  then have "table H {}" using assms unfolding table_def by fastforce
  moreover have "elems_ok H {}" by (simp add: elems_ok_def)
  ultimately show "hash_ok H" using assms(4) unfolding hash_ok_def by (intro exI [of _ "{}"]) simp
  show "hash_map H = (\<lambda>_. None)" using assms(4) by (simp add: hash_map_def fun_eq_iff)
qed

lemma init_ok: "hash_ok (dc_hash_init c b)" "hash_map (dc_hash_init c b) = (\<lambda>_. None)"
  using empty_ok [of "dc_hash_init c b"] by (simp_all add: dc_hash_init_def)

lemma clear_ok: "hash_ok (dc_hash_clear H)" "hash_map (dc_hash_clear H) = (\<lambda>_. None)"
  using empty_ok [of "dc_hash_clear H"] by (simp_all add: dc_hash_clear_def)

text \<open>
  C3: The hash table, its linked list and its buckets implement a map from keys (in the sense of their class) to data:
  \<open>dc_hash_find\<close> is the lookup, \<open>dc_hash_insert\<close> returns the old entry and updates or deletes it, also when the table
  grows, and rehashing always comes to an end.
\<close>

theorem hash_refines_map:
  assumes "hash_ok H" "key_ok (h_keyClass H) k" "h_htsize H \<le> 2 ^ 29"
  shows "dc_hash_find H k = hash_map H (norm_key (h_keyClass H) k) \<and>
    (\<exists>G. dc_hash_insert junk H k d = Some (G, hash_map H (norm_key (h_keyClass H) k)) \<and> hash_ok G \<and>
      hash_map G = (hash_map H)(norm_key (h_keyClass H) k := d))"
  using find_is_lookup [OF assms(1,2)] insert_is_update [OF assms] by blast

lemma hash_refines_map_witness:
  "\<exists>G. dc_hash_insert [] (dc_hash_init DC_HASH_STRING True) \<lparr>k_addr = 1, k_bytes = ''From'', k_n = 4\<rparr> (Some 7) = Some (G, None) \<and>
    hash_map G (4, 0, map lower_byte ''From'') = Some 7"
  using hash_refines_map [OF init_ok(1), of DC_HASH_STRING True "\<lparr>k_addr = 1, k_bytes = ''From'', k_n = 4\<rparr>" "[]" "Some 7"]
  by (auto simp: init_ok(2)) (auto simp: dc_hash_init_def)

end
