(* ===== verification/Msgs.thy ===== *)
theory Msgs
  imports Jobs Qr Keys Strbuilder
begin

text \<open>
  \<open>src/dc_msg.c\<close> and the getters of \<open>src/dc_lot.c\<close>: the message object, the states of messages in the table
  \<open>msgs\<close>, marking as seen, deleting, and the receipts that come in.  Functions that add jobs take the queue beside
  the database.  \<open>now\<close> is \<open>time(NULL)\<close>; the file system is a parameter where it is asked.
\<close>

section \<open>The message object\<close>

abbreviation DC_CONTACT_ID_DEVICE :: nat where "DC_CONTACT_ID_DEVICE \<equiv> 2"
abbreviation DC_CHAT_ID_TRASH :: nat where "DC_CHAT_ID_TRASH \<equiv> 3"
abbreviation DC_MSG_ID_LAST_SPECIAL :: nat where "DC_MSG_ID_LAST_SPECIAL \<equiv> 9"
abbreviation DC_MSG_UNDEFINED :: int where "DC_MSG_UNDEFINED \<equiv> 0"
abbreviation DC_MSG_TEXT :: int where "DC_MSG_TEXT \<equiv> 10"
abbreviation DC_MSG_IMAGE :: int where "DC_MSG_IMAGE \<equiv> 20"
abbreviation DC_MSG_GIF :: int where "DC_MSG_GIF \<equiv> 21"
abbreviation DC_MSG_AUDIO :: int where "DC_MSG_AUDIO \<equiv> 40"
abbreviation DC_MSG_VOICE :: int where "DC_MSG_VOICE \<equiv> 41"
abbreviation DC_MSG_VIDEO :: int where "DC_MSG_VIDEO \<equiv> 50"
abbreviation DC_MSG_FILE :: int where "DC_MSG_FILE \<equiv> 60"
abbreviation DC_STATE_UNDEFINED :: int where "DC_STATE_UNDEFINED \<equiv> 0"
abbreviation DC_STATE_IN_SEEN :: int where "DC_STATE_IN_SEEN \<equiv> 16"
abbreviation DC_STATE_OUT_PENDING :: int where "DC_STATE_OUT_PENDING \<equiv> 20"
abbreviation DC_STATE_OUT_ERROR :: int where "DC_STATE_OUT_ERROR \<equiv> 24"
abbreviation DC_STATE_OUT_MDN_RCVD :: int where "DC_STATE_OUT_MDN_RCVD \<equiv> 28"
abbreviation DC_PARAM_FILE :: char where "DC_PARAM_FILE \<equiv> CHR ''f''"
abbreviation DC_PARAM_WIDTH :: char where "DC_PARAM_WIDTH \<equiv> CHR ''w''"
abbreviation DC_PARAM_HEIGHT :: char where "DC_PARAM_HEIGHT \<equiv> CHR ''h''"
abbreviation DC_PARAM_DURATION :: char where "DC_PARAM_DURATION \<equiv> CHR ''d''"
abbreviation DC_PARAM_MIMETYPE :: char where "DC_PARAM_MIMETYPE \<equiv> CHR ''m''"
abbreviation DC_PARAM_AUTHORNAME :: char where "DC_PARAM_AUTHORNAME \<equiv> CHR ''N''"
abbreviation DC_PARAM_TRACKNAME :: char where "DC_PARAM_TRACKNAME \<equiv> CHR ''n''"
abbreviation DC_PARAM_ERRONEOUS_E2EE :: char where "DC_PARAM_ERRONEOUS_E2EE \<equiv> CHR ''e''"
abbreviation DC_PARAM_FORWARDED :: char where "DC_PARAM_FORWARDED \<equiv> CHR ''a''"
abbreviation DC_CMD_AUTOCRYPT_SETUP_MESSAGE :: int where "DC_CMD_AUTOCRYPT_SETUP_MESSAGE \<equiv> 6"
abbreviation DC_E2EE_NO_VALID_SIGNATURE :: u32 where "DC_E2EE_NO_VALID_SIGNATURE \<equiv> 2"
abbreviation DC_STR_VOICEMESSAGE :: nat where "DC_STR_VOICEMESSAGE \<equiv> 7"
abbreviation DC_STR_IMAGE :: nat where "DC_STR_IMAGE \<equiv> 9"
abbreviation DC_STR_VIDEO :: nat where "DC_STR_VIDEO \<equiv> 10"
abbreviation DC_STR_AUDIO :: nat where "DC_STR_AUDIO \<equiv> 11"
abbreviation DC_STR_FILE :: nat where "DC_STR_FILE \<equiv> 12"
abbreviation DC_STR_GIF :: nat where "DC_STR_GIF \<equiv> 23"
abbreviation DC_STR_AC_SETUP_MSG_SUBJECT :: nat where "DC_STR_AC_SETUP_MSG_SUBJECT \<equiv> 42"
abbreviation DC_MAX_GET_TEXT_LEN :: int where "DC_MAX_GET_TEXT_LEN \<equiv> 30000"
abbreviation DC_MAX_GET_INFO_LEN :: int where "DC_MAX_GET_INFO_LEN \<equiv> 100000"
abbreviation DC_SUMMARY_CHARACTERS :: int where "DC_SUMMARY_CHARACTERS \<equiv> 160"
abbreviation DC_TEXT1_USERNAME :: int where "DC_TEXT1_USERNAME \<equiv> 2"
abbreviation DC_TEXT1_SELF :: int where "DC_TEXT1_SELF \<equiv> 3"

text \<open>\<open>msg_has_context\<close> tells whether \<open>context\<close> is not \<open>NULL\<close>.\<close>

record dc_msg_t =
  msg_id :: nat
  msg_from_id :: nat
  msg_to_id :: nat
  msg_chat_id :: nat
  msg_type :: int
  msg_state :: int
  msg_hidden :: int
  msg_timestamp :: int
  msg_timestamp_sent :: int
  msg_timestamp_rcvd :: int
  msg_text :: cptr
  msg_has_context :: bool
  msg_rfc724_mid :: cptr
  msg_server_folder :: cptr
  msg_server_uid :: nat
  msg_is_msgrmsg :: int
  msg_starred :: int
  msg_chat_blocked :: int
  msg_param :: param

definition dc_msg_new :: dc_msg_t where
  "dc_msg_new = \<lparr>msg_id = 0, msg_from_id = 0, msg_to_id = 0, msg_chat_id = 0, msg_type = DC_MSG_UNDEFINED,
     msg_state = DC_STATE_UNDEFINED, msg_hidden = 0, msg_timestamp = 0, msg_timestamp_sent = 0,
     msg_timestamp_rcvd = 0, msg_text = None, msg_has_context = False, msg_rfc724_mid = None,
     msg_server_folder = None, msg_server_uid = 0, msg_is_msgrmsg = 0, msg_starred = 0, msg_chat_blocked = 0,
     msg_param = dc_param_new\<rparr>"

definition dc_msg_empty :: "dc_msg_t \<Rightarrow> dc_msg_t" where
  "dc_msg_empty msg = msg\<lparr>msg_text := None, msg_rfc724_mid := None, msg_server_folder := None,
     msg_param := dc_param_set_packed (msg_param msg) None, msg_has_context := False, msg_hidden := 0\<rparr>"

definition dc_msg_get_id :: "dc_msg_t option \<Rightarrow> nat" where
  "dc_msg_get_id msg = (case msg of None \<Rightarrow> 0 | Some m \<Rightarrow> msg_id m)"

definition dc_msg_get_from_id :: "dc_msg_t option \<Rightarrow> nat" where
  "dc_msg_get_from_id msg = (case msg of None \<Rightarrow> 0 | Some m \<Rightarrow> msg_from_id m)"

definition dc_msg_get_chat_id :: "dc_msg_t option \<Rightarrow> nat" where
  "dc_msg_get_chat_id msg =
     (case msg of None \<Rightarrow> 0 | Some m \<Rightarrow> if msg_chat_blocked m \<noteq> 0 then DC_CHAT_ID_DEADDROP else msg_chat_id m)"

definition dc_msg_get_type :: "dc_msg_t option \<Rightarrow> int" where
  "dc_msg_get_type msg = (case msg of None \<Rightarrow> DC_MSG_UNDEFINED | Some m \<Rightarrow> msg_type m)"

definition dc_msg_get_state :: "dc_msg_t option \<Rightarrow> int" where
  "dc_msg_get_state msg = (case msg of None \<Rightarrow> DC_STATE_UNDEFINED | Some m \<Rightarrow> msg_state m)"

definition dc_msg_get_timestamp :: "dc_msg_t option \<Rightarrow> int" where
  "dc_msg_get_timestamp msg =
     (case msg of None \<Rightarrow> 0 | Some m \<Rightarrow> if msg_timestamp_sent m \<noteq> 0 then msg_timestamp_sent m else msg_timestamp m)"

text \<open>\<open>None\<close> is the read in front of the buffer that \<open>dc_truncate_str\<close> may do.\<close>

definition dc_msg_get_text :: "dc_msg_t option \<Rightarrow> string option" where
  "dc_msg_get_text msg =
     (case msg of None \<Rightarrow> Some (dc_strdup None)
      | Some m \<Rightarrow> dc_truncate_str (dc_strdup (msg_text m)) DC_MAX_GET_TEXT_LEN)"

definition dc_msg_get_file :: "dc_msg_t option \<Rightarrow> string" where
  "dc_msg_get_file msg =
     (case msg of None \<Rightarrow> dc_strdup None | Some m \<Rightarrow> dc_strdup (dc_param_get (msg_param m) DC_PARAM_FILE None))"

definition dc_msg_get_filename :: "dc_msg_t option \<Rightarrow> string" where
  "dc_msg_get_filename msg =
     (case msg of None \<Rightarrow> dc_strdup None
      | Some m \<Rightarrow> (case dc_param_get (msg_param m) DC_PARAM_FILE None of
                     None \<Rightarrow> dc_strdup None | Some pathNfilename \<Rightarrow> dc_get_filename pathNfilename))"

text \<open>The type and the MIME type; without a path neither is written.\<close>

definition dc_msg_guess_msgtype_from_suffix :: "string \<Rightarrow> int \<times> cptr" where
  "dc_msg_guess_msgtype_from_suffix pathNfilename =
     (case dc_get_filesuffix_lc (Some pathNfilename) of
        None \<Rightarrow> (DC_MSG_UNDEFINED, None)
      | Some sfx \<Rightarrow>
          if sfx = ''mp3'' then (DC_MSG_AUDIO, Some ''audio/mpeg'')
          else if sfx = ''mp4'' then (DC_MSG_VIDEO, Some ''video/mp4'')
          else if sfx = ''jpg'' \<or> sfx = ''jpeg'' then (DC_MSG_IMAGE, Some ''image/jpeg'')
          else if sfx = ''png'' then (DC_MSG_IMAGE, Some ''image/png'')
          else if sfx = ''gif'' then (DC_MSG_GIF, Some ''image/gif'')
          else (DC_MSG_UNDEFINED, None))"

definition dc_msg_get_filemime :: "dc_msg_t option \<Rightarrow> string" where
  "dc_msg_get_filemime msg =
     (case msg of None \<Rightarrow> dc_strdup None
      | Some m \<Rightarrow>
          (case dc_param_get (msg_param m) DC_PARAM_MIMETYPE None of
             Some mime \<Rightarrow> mime
           | None \<Rightarrow>
               (case dc_param_get (msg_param m) DC_PARAM_FILE None of
                  None \<Rightarrow> dc_strdup None
                | Some file \<Rightarrow>
                    (case snd (dc_msg_guess_msgtype_from_suffix file) of
                       Some mime \<Rightarrow> mime | None \<Rightarrow> ''application/octet-stream''))))"

definition dc_msg_get_filebytes :: "(string \<Rightarrow> nat) \<Rightarrow> dc_msg_t option \<Rightarrow> nat" where
  "dc_msg_get_filebytes filebytes msg =
     (case msg of None \<Rightarrow> 0
      | Some m \<Rightarrow> (case dc_param_get (msg_param m) DC_PARAM_FILE None of None \<Rightarrow> 0 | Some file \<Rightarrow> filebytes file))"

definition dc_msg_get_width :: "dc_msg_t option \<Rightarrow> int" where
  "dc_msg_get_width msg = (case msg of None \<Rightarrow> 0 | Some m \<Rightarrow> dc_param_get_int (msg_param m) DC_PARAM_WIDTH 0)"

definition dc_msg_get_height :: "dc_msg_t option \<Rightarrow> int" where
  "dc_msg_get_height msg = (case msg of None \<Rightarrow> 0 | Some m \<Rightarrow> dc_param_get_int (msg_param m) DC_PARAM_HEIGHT 0)"

definition dc_msg_get_duration :: "dc_msg_t option \<Rightarrow> int" where
  "dc_msg_get_duration msg = (case msg of None \<Rightarrow> 0 | Some m \<Rightarrow> dc_param_get_int (msg_param m) DC_PARAM_DURATION 0)"

definition dc_msg_is_sent :: "dc_msg_t option \<Rightarrow> bool" where
  "dc_msg_is_sent msg = (case msg of None \<Rightarrow> False | Some m \<Rightarrow> msg_state m \<ge> DC_STATE_OUT_DELIVERED)"

definition dc_msg_is_starred :: "dc_msg_t option \<Rightarrow> bool" where
  "dc_msg_is_starred msg = (case msg of None \<Rightarrow> False | Some m \<Rightarrow> msg_starred m \<noteq> 0)"

definition dc_msg_is_forwarded :: "dc_msg_t option \<Rightarrow> bool" where
  "dc_msg_is_forwarded msg =
     (case msg of None \<Rightarrow> False | Some m \<Rightarrow> dc_param_get_int (msg_param m) DC_PARAM_FORWARDED 0 \<noteq> 0)"

definition dc_msg_is_info :: "dc_msg_t option \<Rightarrow> bool" where
  "dc_msg_is_info msg =
     (case msg of None \<Rightarrow> False
      | Some m \<Rightarrow>
          let cmd = dc_param_get_int (msg_param m) DC_PARAM_CMD 0 in
          msg_from_id m = DC_CONTACT_ID_DEVICE \<or> msg_to_id m = DC_CONTACT_ID_DEVICE \<or>
          (cmd \<noteq> 0 \<and> cmd \<noteq> DC_CMD_AUTOCRYPT_SETUP_MESSAGE))"

definition dc_msg_is_setupmessage :: "dc_msg_t option \<Rightarrow> bool" where
  "dc_msg_is_setupmessage msg =
     (case msg of None \<Rightarrow> False
      | Some m \<Rightarrow> msg_type m = DC_MSG_FILE \<and> dc_param_get_int (msg_param m) DC_PARAM_CMD 0 = DC_CMD_AUTOCRYPT_SETUP_MESSAGE)"

text \<open>\<open>read_file\<close> gives the bytes of a file, if it can be read.\<close>

definition dc_msg_get_setupcodebegin :: "(string \<Rightarrow> string option) \<Rightarrow> dc_msg_t option \<Rightarrow> string" where
  "dc_msg_get_setupcodebegin read_file msg =
     (if \<not> dc_msg_is_setupmessage msg then dc_strdup None
      else
        let filename = dc_msg_get_file msg in
        if filename = [] then dc_strdup None
        else
          (case read_file filename of None \<Rightarrow> dc_strdup None
           | Some buf \<Rightarrow>
               if buf = [] then dc_strdup None
               else
                 (case dc_split_armored_data (Some (c_string buf)) of
                    (False, _) \<Rightarrow> dc_strdup None
                  | (True, am) \<Rightarrow>
                      if am_headerline am \<noteq> Some ''-----BEGIN PGP MESSAGE-----'' then dc_strdup None
                      else dc_strdup (am_setupcode am))))"

definition DC_MSG_NEEDS_ATTACHMENT :: "int \<Rightarrow> bool" where
  "DC_MSG_NEEDS_ATTACHMENT a \<longleftrightarrow> a = DC_MSG_IMAGE \<or> a = DC_MSG_GIF \<or> a = DC_MSG_AUDIO \<or> a = DC_MSG_VOICE \<or>
     a = DC_MSG_VIDEO \<or> a = DC_MSG_FILE"

definition dc_msg_is_increation :: "(string \<Rightarrow> bool) \<Rightarrow> dc_msg_t option \<Rightarrow> bool" where
  "dc_msg_is_increation file_exist msg =
     (case msg of None \<Rightarrow> False
      | Some m \<Rightarrow>
          msg_has_context m \<and> DC_MSG_NEEDS_ATTACHMENT (msg_type m) \<and>
          (case dc_param_get (msg_param m) DC_PARAM_FILE None of
             None \<Rightarrow> False | Some pathNfilename \<Rightarrow> file_exist (pathNfilename @ ''.increation'')))"

section \<open>Summaries\<close>

text \<open>The author, if any, and the title.\<close>

definition dc_msg_get_authorNtitle_from_filename :: "string \<Rightarrow> cptr \<times> string" where
  "dc_msg_get_authorNtitle_from_filename pathNfilename =
     (let title = fst (dc_split_filename pathNfilename) in
      case strstr title '' - '' of
        None \<Rightarrow> (None, title)
      | Some p \<Rightarrow> (Some (take (length title - length p) title), drop 3 p))"

definition dc_msg_get_summarytext_by_raw :: "stock \<Rightarrow> int \<Rightarrow> cptr \<Rightarrow> param \<Rightarrow> int \<Rightarrow> string" where
  "dc_msg_get_summarytext_by_raw stock type txt param approx_characters =
     (if type = DC_MSG_IMAGE then stock DC_STR_IMAGE []
      else if type = DC_MSG_GIF then stock DC_STR_GIF []
      else if type = DC_MSG_VIDEO then stock DC_STR_VIDEO []
      else if type = DC_MSG_VOICE then stock DC_STR_VOICEMESSAGE []
      else if type = DC_MSG_AUDIO then
        let v = (case dc_param_get param DC_PARAM_TRACKNAME None of
                   Some v \<Rightarrow> v
                 | None \<Rightarrow> snd (dc_msg_get_authorNtitle_from_filename
                             (dc_strdup (dc_param_get param DC_PARAM_FILE (Some ''ErrFilename'')))))
        in stock DC_STR_AUDIO [] @ '': '' @ v
      else if type = DC_MSG_FILE then
        if dc_param_get_int param DC_PARAM_CMD 0 = DC_CMD_AUTOCRYPT_SETUP_MESSAGE
        then stock DC_STR_AC_SETUP_MSG_SUBJECT []
        else stock DC_STR_FILE [] @ '': '' @
             dc_get_filename (dc_strdup (dc_param_get param DC_PARAM_FILE (Some ''ErrFilename'')))
      else
        (case txt of None \<Rightarrow> dc_strdup None | Some t \<Rightarrow> dc_truncate_n_unwrap_str t approx_characters True))"

definition dc_msg_get_summarytext :: "stock \<Rightarrow> dc_msg_t option \<Rightarrow> int \<Rightarrow> string" where
  "dc_msg_get_summarytext stock msg approx_characters =
     (case msg of None \<Rightarrow> dc_strdup None
      | Some m \<Rightarrow> dc_msg_get_summarytext_by_raw stock (msg_type m) (msg_text m) (msg_param m) approx_characters)"

definition DC_CHAT_TYPE_IS_MULTI :: "int \<Rightarrow> bool" where
  "DC_CHAT_TYPE_IS_MULTI a \<longleftrightarrow> a = DC_CHAT_TYPE_GROUP \<or> a = DC_CHAT_TYPE_VERIFIED_GROUP"

definition dc_lot_get_text1 :: "dc_lot_t option \<Rightarrow> cptr" where
  "dc_lot_get_text1 lot = (case lot of None \<Rightarrow> None | Some l \<Rightarrow> dc_strdup_keep_null (lot_text1 l))"

definition dc_lot_get_text2 :: "dc_lot_t option \<Rightarrow> cptr" where
  "dc_lot_get_text2 lot = (case lot of None \<Rightarrow> None | Some l \<Rightarrow> dc_strdup_keep_null (lot_text2 l))"

definition dc_lot_get_text1_meaning :: "dc_lot_t option \<Rightarrow> int" where
  "dc_lot_get_text1_meaning lot = (case lot of None \<Rightarrow> 0 | Some l \<Rightarrow> lot_text1_meaning l)"

definition dc_lot_get_state :: "dc_lot_t option \<Rightarrow> int" where
  "dc_lot_get_state lot = (case lot of None \<Rightarrow> 0 | Some l \<Rightarrow> lot_state l)"

definition dc_lot_get_id :: "dc_lot_t option \<Rightarrow> nat" where
  "dc_lot_get_id lot = (case lot of None \<Rightarrow> 0 | Some l \<Rightarrow> lot_id l)"

definition dc_lot_get_timestamp :: "dc_lot_t option \<Rightarrow> int" where
  "dc_lot_get_timestamp lot = (case lot of None \<Rightarrow> 0 | Some l \<Rightarrow> lot_timestamp l)"

definition dc_lot_fill :: "stock \<Rightarrow> dc_lot_t \<Rightarrow> dc_msg_t option \<Rightarrow> dc_chat_t option \<Rightarrow> dc_contact_t option \<Rightarrow> dc_lot_t" where
  "dc_lot_fill stock lot msg chat contact =
     (case msg of None \<Rightarrow> lot
      | Some m \<Rightarrow>
          let lot =
                (if msg_from_id m = DC_CONTACT_ID_SELF then
                   (if dc_msg_is_info msg then lot\<lparr>lot_text1 := None, lot_text1_meaning := 0\<rparr>
                    else lot\<lparr>lot_text1 := Some (stock DC_STR_SELF []), lot_text1_meaning := DC_TEXT1_SELF\<rparr>)
                 else
                   (case chat of
                      None \<Rightarrow> lot\<lparr>lot_text1 := None, lot_text1_meaning := 0\<rparr>
                    | Some ch \<Rightarrow>
                        if DC_CHAT_TYPE_IS_MULTI (chat_type ch) then
                          if dc_msg_is_info msg \<or> contact = None
                          then lot\<lparr>lot_text1 := None, lot_text1_meaning := 0\<rparr>
                          else lot\<lparr>lot_text1 := Some (dc_contact_get_first_name contact),
                                   lot_text1_meaning := DC_TEXT1_USERNAME\<rparr>
                        else lot))
          in lot\<lparr>lot_text2 := Some (dc_msg_get_summarytext_by_raw stock (msg_type m) (msg_text m) (msg_param m) DC_SUMMARY_CHARACTERS),
                 lot_timestamp := dc_msg_get_timestamp msg, lot_state := msg_state m\<rparr>)"

definition dc_msg_get_summary :: "stock \<Rightarrow> database \<Rightarrow> dc_msg_t option \<Rightarrow> dc_chat_t option \<Rightarrow> dc_lot_t" where
  "dc_msg_get_summary stock db msg chat =
     (case msg of None \<Rightarrow> dc_lot_new
      | Some m \<Rightarrow>
          (case (case chat of
                   Some ch \<Rightarrow> Some ch
                 | None \<Rightarrow> if msg_has_context m then dc_get_chat stock db (msg_chat_id m) else None) of
             None \<Rightarrow> dc_lot_new
           | Some ch \<Rightarrow>
               dc_lot_fill stock dc_lot_new msg (Some ch)
                 (if msg_from_id m \<noteq> DC_CONTACT_ID_SELF \<and> DC_CHAT_TYPE_IS_MULTI (chat_type ch)
                  then dc_get_contact (stock DC_STR_SELF []) db (msg_from_id m) else None)))"

definition set_text :: "cptr \<Rightarrow> bool" where
  "set_text t \<longleftrightarrow> (case t of None \<Rightarrow> False | Some s \<Rightarrow> s \<noteq> [])"

definition dc_msg_get_mediainfo :: "stock \<Rightarrow> database \<Rightarrow> dc_msg_t option \<Rightarrow> dc_lot_t" where
  "dc_msg_get_mediainfo stock db msg =
     (case msg of None \<Rightarrow> dc_lot_new
      | Some m \<Rightarrow>
          if \<not> msg_has_context m then dc_lot_new
          else if msg_type m = DC_MSG_VOICE then
            (case dc_get_contact (stock DC_STR_SELF []) db (msg_from_id m) of
               None \<Rightarrow> dc_lot_new
             | Some contact \<Rightarrow>
                 dc_lot_new\<lparr>lot_text1 := Some (dc_strdup (if name_set contact then c_name contact else c_addr contact)),
                            lot_text2 := Some (stock DC_STR_VOICEMESSAGE [])\<rparr>)
          else
            let text1 = dc_param_get (msg_param m) DC_PARAM_AUTHORNAME None;
                text2 = dc_param_get (msg_param m) DC_PARAM_TRACKNAME None
            in if set_text text1 \<and> set_text text2 then dc_lot_new\<lparr>lot_text1 := text1, lot_text2 := text2\<rparr>
               else
                 (case dc_param_get (msg_param m) DC_PARAM_FILE None of
                    None \<Rightarrow> dc_lot_new
                  | Some pathNfilename \<Rightarrow>
                      let (author, title) = dc_msg_get_authorNtitle_from_filename pathNfilename in
                      dc_lot_new\<lparr>lot_text1 := (case author of None \<Rightarrow> Some (stock DC_STR_AUDIO []) | Some a \<Rightarrow> Some a),
                                 lot_text2 := Some title\<rparr>))"

definition dc_msg_get_showpadlock :: "stock \<Rightarrow> bool \<Rightarrow> database \<Rightarrow> dc_msg_t option \<Rightarrow> bool" where
  "dc_msg_get_showpadlock stock e2ee_enabled db msg =
     (case msg of None \<Rightarrow> False
      | Some m \<Rightarrow>
          msg_has_context m \<and>
          (e2ee_enabled \<or> dc_chat_is_verified (dc_get_chat stock db (msg_chat_id m))) \<and>
          dc_param_get_int (msg_param m) DC_PARAM_GUARANTEE_E2EE 0 \<noteq> 0)"

section \<open>Messages in the database\<close>

text \<open>\<open>LEFT JOIN chats c ON c.id=m.chat_id\<close>; a column of a missing row reads as 0.\<close>

definition chat_row_of :: "database \<Rightarrow> msg_row \<Rightarrow> chat_row option" where
  "chat_row_of db m = find (\<lambda>c. ch_id c = ms_chat_id m) (db_chats db)"

definition joined_blocked :: "database \<Rightarrow> msg_row \<Rightarrow> int" where
  "joined_blocked db m = (case chat_row_of db m of None \<Rightarrow> 0 | Some c \<Rightarrow> ch_blocked c)"

definition find_msg :: "database \<Rightarrow> nat \<Rightarrow> msg_row option" where
  "find_msg db i = find (\<lambda>m. ms_id m = i) (db_msgs db)"

text \<open>The row of a message that was loaded joined with its chat; texts of contact requests are cut.\<close>

definition dc_msg_set_from_stmt :: "database \<Rightarrow> dc_msg_t \<Rightarrow> msg_row \<Rightarrow> dc_msg_t" where
  "dc_msg_set_from_stmt db msg r =
     (let msg = dc_msg_empty msg;
          blocked = joined_blocked db r
      in msg\<lparr>msg_id := ms_id r, msg_rfc724_mid := Some (ms_rfc724_mid r), msg_server_folder := Some (ms_server_folder r),
             msg_server_uid := ms_server_uid r, msg_chat_id := ms_chat_id r, msg_from_id := ms_from_id r,
             msg_to_id := ms_to_id r, msg_timestamp := ms_timestamp r, msg_timestamp_sent := ms_timestamp_sent r,
             msg_timestamp_rcvd := ms_timestamp_rcvd r, msg_type := ms_type r, msg_state := ms_state r,
             msg_is_msgrmsg := ms_msgrmsg r,
             msg_text := Some (if blocked = 2 then dc_truncate_n_unwrap_str (ms_txt r) 256 False else ms_txt r),
             msg_param := dc_param_set_packed (msg_param msg) (Some (ms_param r)), msg_starred := ms_starred r,
             msg_hidden := ms_hidden r, msg_chat_blocked := blocked\<rparr>)"

definition dc_msg_load_from_db :: "dc_msg_t \<Rightarrow> database \<Rightarrow> nat \<Rightarrow> bool \<times> dc_msg_t" where
  "dc_msg_load_from_db msg db i =
     (case find_msg db i of
        None \<Rightarrow> (False, msg)
      | Some r \<Rightarrow> (True, (dc_msg_set_from_stmt db msg r)\<lparr>msg_has_context := True\<rparr>))"

definition dc_get_msg :: "database \<Rightarrow> nat \<Rightarrow> dc_msg_t option" where
  "dc_get_msg db i = (let (ok, obj) = dc_msg_load_from_db dc_msg_new db i in if ok then Some obj else None)"

text \<open>\<open>UPDATE msgs SET ... WHERE id=?\<close>.\<close>

definition update_msg :: "nat \<Rightarrow> (msg_row \<Rightarrow> msg_row) \<Rightarrow> database \<Rightarrow> database" where
  "update_msg i f db = db\<lparr>db_msgs := map (\<lambda>m. if ms_id m = i then f m else m) (db_msgs db)\<rparr>"

definition dc_msg_save_param_to_disk :: "database \<Rightarrow> dc_msg_t \<Rightarrow> database" where
  "dc_msg_save_param_to_disk db msg =
     (if msg_has_context msg then update_msg (msg_id msg) (\<lambda>m. m\<lparr>ms_param := msg_param msg\<rparr>) db else db)"

definition dc_msg_latefiling_mediasize :: "database \<Rightarrow> dc_msg_t \<Rightarrow> int \<Rightarrow> int \<Rightarrow> int \<Rightarrow> dc_msg_t \<times> database" where
  "dc_msg_latefiling_mediasize db msg width height duration =
     (let msg = (if width > 0 then msg\<lparr>msg_param := dc_param_set_int (msg_param msg) DC_PARAM_WIDTH width\<rparr> else msg);
          msg = (if height > 0 then msg\<lparr>msg_param := dc_param_set_int (msg_param msg) DC_PARAM_HEIGHT height\<rparr> else msg);
          msg = (if duration > 0 then msg\<lparr>msg_param := dc_param_set_int (msg_param msg) DC_PARAM_DURATION duration\<rparr> else msg)
      in (msg, dc_msg_save_param_to_disk db msg))"

definition dc_update_msg_chat_id :: "database \<Rightarrow> nat \<Rightarrow> nat \<Rightarrow> database" where
  "dc_update_msg_chat_id db i cid = update_msg i (\<lambda>m. m\<lparr>ms_chat_id := cid\<rparr>) db"

definition dc_update_msg_state :: "database \<Rightarrow> nat \<Rightarrow> int \<Rightarrow> database" where
  "dc_update_msg_state db i state = update_msg i (\<lambda>m. m\<lparr>ms_state := state\<rparr>) db"

definition dc_get_real_msg_cnt :: "database \<Rightarrow> nat" where
  "dc_get_real_msg_cnt db =
     length (filter (\<lambda>m. ms_id m > DC_MSG_ID_LAST_SPECIAL \<and> ms_chat_id m > DC_CHAT_ID_LAST_SPECIAL \<and>
       (case chat_row_of db m of None \<Rightarrow> False | Some c \<Rightarrow> ch_blocked c = 0)) (db_msgs db))"

definition dc_get_deaddrop_msg_cnt :: "database \<Rightarrow> nat" where
  "dc_get_deaddrop_msg_cnt db =
     length (filter (\<lambda>m. case chat_row_of db m of None \<Rightarrow> False | Some c \<Rightarrow> ch_blocked c = 2) (db_msgs db))"

definition dc_rfc724_mid_cnt :: "database \<Rightarrow> string \<Rightarrow> nat" where
  "dc_rfc724_mid_cnt db rfc724_mid = length (filter (\<lambda>m. ms_rfc724_mid m = rfc724_mid) (db_msgs db))"

text \<open>The id, the folder and the UID on the server.\<close>

definition dc_rfc724_mid_exists :: "database \<Rightarrow> string \<Rightarrow> nat \<times> cptr \<times> nat" where
  "dc_rfc724_mid_exists db rfc724_mid =
     (case find (\<lambda>m. ms_rfc724_mid m = rfc724_mid) (db_msgs db) of
        None \<Rightarrow> (0, None, 0)
      | Some m \<Rightarrow> (ms_id m, Some (ms_server_folder m), ms_server_uid m))"

definition dc_update_server_uid :: "database \<Rightarrow> string \<Rightarrow> string \<Rightarrow> nat \<Rightarrow> database" where
  "dc_update_server_uid db rfc724_mid server_folder server_uid =
     db\<lparr>db_msgs := map (\<lambda>m. if ms_rfc724_mid m = rfc724_mid
          then m\<lparr>ms_server_folder := server_folder, ms_server_uid := server_uid\<rparr> else m) (db_msgs db)\<rparr>"

definition dc_star_msgs :: "database \<Rightarrow> nat list \<Rightarrow> int \<Rightarrow> database" where
  "dc_star_msgs db msg_ids star =
     (if star \<noteq> 0 \<and> star \<noteq> 1 then db
      else foldl (\<lambda>db i. update_msg i (\<lambda>m. m\<lparr>ms_starred := star\<rparr>) db) db msg_ids)"

section \<open>Deleting and marking as seen\<close>

definition delete_one :: "int \<Rightarrow> database \<times> jobs_ctx \<Rightarrow> nat \<Rightarrow> database \<times> jobs_ctx" where
  "delete_one now st i =
     (let (db, c) = st
      in (dc_update_msg_chat_id db i DC_CHAT_ID_TRASH, dc_job_add now c DC_JOB_DELETE_MSG_ON_IMAP (int i) None 0))"

definition dc_delete_msgs :: "int \<Rightarrow> database \<times> jobs_ctx \<Rightarrow> nat list \<Rightarrow> database \<times> jobs_ctx" where
  "dc_delete_msgs now st msg_ids = foldl (delete_one now) st msg_ids"

text \<open>One round of the loop; the third component is \<open>send_event\<close>.\<close>

definition markseen_one :: "int \<Rightarrow> database \<times> jobs_ctx \<times> bool \<Rightarrow> nat \<Rightarrow> database \<times> jobs_ctx \<times> bool" where
  "markseen_one now st i =
     (let (db, c, send_event) = st in
      case find (\<lambda>m. ms_id m = i \<and> ms_chat_id m > DC_CHAT_ID_LAST_SPECIAL) (db_msgs db) of
        None \<Rightarrow> st
      | Some m \<Rightarrow>
          if joined_blocked db m = 0 then
            if ms_state m = DC_STATE_IN_FRESH \<or> ms_state m = DC_STATE_IN_NOTICED
            then (dc_update_msg_state db i DC_STATE_IN_SEEN, dc_job_add now c DC_JOB_MARKSEEN_MSG_ON_IMAP (int i) None 0, True)
            else st
          else if ms_state m = DC_STATE_IN_FRESH then (dc_update_msg_state db i DC_STATE_IN_NOTICED, c, True)
          else st)"

definition dc_markseen_msgs :: "int \<Rightarrow> database \<times> jobs_ctx \<Rightarrow> nat list \<Rightarrow> database \<times> jobs_ctx" where
  "dc_markseen_msgs now st msg_ids =
     (let (db, c, send_event) = foldl (markseen_one now) (fst st, snd st, False) msg_ids
      in (if send_event then cb db DC_EVENT_MSGS_CHANGED 0 0 else db, c))"

section \<open>Receipts\<close>

text \<open>The result, the chat and the message that the receipt is for, and the database.\<close>

definition dc_mdn_from_ext :: "database \<Rightarrow> nat \<Rightarrow> cptr \<Rightarrow> int \<Rightarrow> bool \<times> nat \<times> nat \<times> database" where
  "dc_mdn_from_ext db from_id rfc724_mid timestamp_sent =
     (case rfc724_mid of None \<Rightarrow> (False, 0, 0, db)
      | Some mid \<Rightarrow>
          if from_id \<le> DC_CONTACT_ID_LAST_SPECIAL then (False, 0, 0, db)
          else
            (case find (\<lambda>m. ms_rfc724_mid m = mid \<and> ms_from_id m = 1) (db_msgs db) of
               None \<Rightarrow> (False, 0, 0, db)
             | Some m \<Rightarrow>
                 let i = ms_id m;
                     cid = (case chat_row_of db m of None \<Rightarrow> 0 | Some c \<Rightarrow> ch_id c);
                     chat_type = (case chat_row_of db m of None \<Rightarrow> 0 | Some c \<Rightarrow> ch_type c)
                 in if ms_state m \<noteq> DC_STATE_OUT_PENDING \<and> ms_state m \<noteq> DC_STATE_OUT_DELIVERED
                    then (False, cid, i, db)
                    else
                      let mdn_already_in_table = list_ex (\<lambda>(mm, cc, _). mm = i \<and> cc = from_id) (db_mdns db);
                          db = (if mdn_already_in_table then db
                                else db\<lparr>db_mdns := db_mdns db @ [(i, from_id, timestamp_sent)]\<rparr>)
                      in if chat_type = DC_CHAT_TYPE_SINGLE
                         then (True, cid, i, dc_update_msg_state db i DC_STATE_OUT_MDN_RCVD)
                         else
                           let ist_cnt = length (filter (\<lambda>(mm, _). mm = i) (db_mdns db));
                               soll_cnt = (dc_get_chat_contact_cnt db cid + 1) div 2
                           in if ist_cnt < soll_cnt then (False, cid, i, db)
                              else (True, cid, i, dc_update_msg_state db i DC_STATE_OUT_MDN_RCVD)))"

section \<open>The details of a message\<close>

definition state_text :: "int \<Rightarrow> string" where
  "state_text state =
     (if state = DC_STATE_IN_FRESH then ''Fresh'' else if state = DC_STATE_IN_NOTICED then ''Noticed''
      else if state = DC_STATE_IN_SEEN then ''Seen'' else if state = DC_STATE_OUT_DELIVERED then ''Delivered''
      else if state = DC_STATE_OUT_ERROR then ''Error'' else if state = DC_STATE_OUT_MDN_RCVD then ''Read''
      else if state = DC_STATE_OUT_PENDING then ''Pending'' else show_int state)"

definition type_text :: "int \<Rightarrow> string" where
  "type_text type =
     (if type = DC_MSG_AUDIO then ''Audio'' else if type = DC_MSG_FILE then ''File''
      else if type = DC_MSG_GIF then ''GIF'' else if type = DC_MSG_IMAGE then ''Image''
      else if type = DC_MSG_VIDEO then ''Video'' else if type = DC_MSG_VOICE then ''Voice'' else show_int type)"

definition encryption_text :: "param \<Rightarrow> string" where
  "encryption_text param =
     (let e2ee_errors = dc_param_get_int param DC_PARAM_ERRONEOUS_E2EE 0 in
      if e2ee_errors \<noteq> 0 then
        (if word_of_int e2ee_errors AND DC_E2EE_NO_VALID_SIGNATURE \<noteq> 0 then '', Encrypted, no valid signature'' else [])
      else if dc_param_get_int param DC_PARAM_GUARANTEE_E2EE 0 \<noteq> 0 then '', Encrypted'' else [])"

text \<open>\<open>tts\<close> is \<open>dc_timestamp_to_str\<close>, which asks for the local time zone.\<close>

definition reader_line :: "(int \<Rightarrow> string) \<Rightarrow> stock \<Rightarrow> database \<Rightarrow> nat \<times> int \<Rightarrow> string" where
  "reader_line tts stock db r =
     ''Read: '' @ tts (snd r) @ '' by '' @
     dc_contact_get_display_name (Some (snd (dc_contact_load_from_db (stock DC_STR_SELF []) dc_contact_new db (fst r)))) @ [NL]"

definition time_lines :: "(int \<Rightarrow> string) \<Rightarrow> dc_msg_t \<Rightarrow> string" where
  "time_lines tts msg =
     ''Sent: '' @ tts (dc_msg_get_timestamp (Some msg)) @ [NL] @
     (if msg_from_id msg \<noteq> DC_CONTACT_ID_SELF
      then ''Received: '' @ tts (if msg_timestamp_rcvd msg \<noteq> 0 then msg_timestamp_rcvd msg else msg_timestamp msg) @ [NL]
      else [])"

definition file_lines :: "(string \<Rightarrow> nat) \<Rightarrow> dc_msg_t \<Rightarrow> string" where
  "file_lines filebytes msg =
     (case dc_param_get (msg_param msg) DC_PARAM_FILE None of
        None \<Rightarrow> []
      | Some file \<Rightarrow> [NL] @ ''File: '' @ file @ '', '' @ show_int (to_int32 (int (filebytes file))) @ '' bytes'' @ [NL]) @
     (if msg_type msg \<noteq> DC_MSG_TEXT then ''Type: '' @ type_text (msg_type msg) @ [NL] else []) @
     (let w = dc_param_get_int (msg_param msg) DC_PARAM_WIDTH 0; h = dc_param_get_int (msg_param msg) DC_PARAM_HEIGHT 0 in
      if w \<noteq> 0 \<or> h \<noteq> 0 then ''Dimension: '' @ show_int w @ '' x '' @ show_int h @ [NL] else []) @
     (let duration = dc_param_get_int (msg_param msg) DC_PARAM_DURATION 0 in
      if duration \<noteq> 0 then ''Duration: '' @ show_int duration @ '' ms'' @ [NL] else [])"

definition server_lines :: "dc_msg_t \<Rightarrow> string" where
  "server_lines msg =
     (if set_text (msg_rfc724_mid msg) then [NL] @ ''Message-ID: '' @ dc_strdup (msg_rfc724_mid msg) else []) @
     (if set_text (msg_server_folder msg)
      then [NL] @ ''Last seen as: '' @ dc_strdup (msg_server_folder msg) @ ''/'' @ show_int (to_int32 (int (msg_server_uid msg)))
      else [])"

text \<open>\<open>None\<close> is the read in front of the buffer that \<open>dc_truncate_str\<close> may do.\<close>

definition dc_get_msg_info :: "(int \<Rightarrow> string) \<Rightarrow> (string \<Rightarrow> nat) \<Rightarrow> stock \<Rightarrow> database \<Rightarrow> nat \<Rightarrow> string option" where
  "dc_get_msg_info tts filebytes stock db i =
     (let msg = snd (dc_msg_load_from_db dc_msg_new db i);
          contact_from = snd (dc_contact_load_from_db (stock DC_STR_SELF []) dc_contact_new db (msg_from_id msg))
      in case find_msg db i of
           None \<Rightarrow> Some (''Cannot load message #'' @ show_int (to_int32 (int i)) @ ''.'')
         | Some r \<Rightarrow>
             map_option (\<lambda>rawtxt.
               time_lines tts msg @
               (if msg_from_id msg = DC_CONTACT_ID_DEVICE \<or> msg_to_id msg = DC_CONTACT_ID_DEVICE then []
                else
                  concat (map (reader_line tts stock db) (map snd (filter (\<lambda>(mm, _). mm = i) (db_mdns db)))) @
                  ''State: '' @ state_text (msg_state msg) @ encryption_text (msg_param msg) @ [NL] @
                  (if dc_msg_is_info (Some msg)
                   then ''Sender: '' @ dc_contact_get_name_n_addr (Some contact_from) @ [NL] else []) @
                  file_lines filebytes msg @
                  (if rawtxt \<noteq> [] then [NL] @ rawtxt @ [NL] else []) @
                  server_lines msg))
               (dc_truncate_str (dc_trim (ms_txt_raw r)) DC_MAX_GET_INFO_LEN))"

section \<open>Facts on the tables\<close>

lemma update_msg_simps [simp]:
  "db_chats (update_msg i f db) = db_chats db" "db_chats_contacts (update_msg i f db) = db_chats_contacts db"
  "db_mdns (update_msg i f db) = db_mdns db" "db_events (update_msg i f db) = db_events db"
  by (simp_all add: update_msg_def)

lemma chat_row_of_cong: "db_chats db' = db_chats db \<Longrightarrow> ms_chat_id m' = ms_chat_id m \<Longrightarrow> chat_row_of db' m' = chat_row_of db m"
  by (simp add: chat_row_of_def)

lemma chat_row_of_Some: "chat_row_of db m = Some c \<Longrightarrow> ch_id c = ms_chat_id m"
  by (auto simp: chat_row_of_def find_Some_iff)

lemma find_map: "(\<And>x. P (f x) = P x) \<Longrightarrow> find P (map f xs) = map_option f (find P xs)"
  by (induction xs) auto

text \<open>The message that a receipt for \<open>mid\<close> is about, and who has confirmed a message.\<close>

definition sent_msg :: "database \<Rightarrow> string \<Rightarrow> msg_row option" where
  "sent_msg db mid = find (\<lambda>m. ms_rfc724_mid m = mid \<and> ms_from_id m = 1) (db_msgs db)"

definition readers :: "database \<Rightarrow> nat \<Rightarrow> nat set" where
  "readers db i = {c. \<exists>t. (i, c, t) \<in> set (db_mdns db)}"

definition mdns_ok :: "database \<Rightarrow> bool" where
  "mdns_ok db \<longleftrightarrow> distinct (map (\<lambda>(m, c, t). (m, c)) (db_mdns db))"

lemma finite_readers [simp]: "finite (readers db i)"
proof -
  have "readers db i \<subseteq> (fst \<circ> snd) ` set (db_mdns db)" by (force simp: readers_def)
  then show ?thesis using finite_subset by blast
qed

lemma count_readers: "mdns_ok db \<Longrightarrow> length (filter (\<lambda>(mm, _). mm = i) (db_mdns db)) = card (readers db i)"
proof -
  assume d: "mdns_ok db"
  let ?xs = "filter (\<lambda>(mm, _). mm = i) (db_mdns db)"
  have "distinct (map (\<lambda>(m, c, t). (m, c)) ?xs)" using d unfolding mdns_ok_def by (rule distinct_map_filter)
  then have "distinct (map (fst \<circ> snd) ?xs)"
    by (auto simp: distinct_map inj_on_def)
  moreover have "set (map (fst \<circ> snd) ?xs) = readers db i" by (force simp: readers_def)
  ultimately show ?thesis using distinct_card by fastforce
qed

lemma sent_msg_update:
  "sent_msg (dc_update_msg_state db i st) mid =
     map_option (\<lambda>m. if ms_id m = i then m\<lparr>ms_state := st\<rparr> else m) (sent_msg db mid)"
  by (simp add: sent_msg_def dc_update_msg_state_def update_msg_def find_map)

definition add_reader :: "nat \<Rightarrow> nat \<Rightarrow> int \<Rightarrow> database \<Rightarrow> database" where
  "add_reader i from_id t db =
     (if list_ex (\<lambda>(mm, cc, _). mm = i \<and> cc = from_id) (db_mdns db) then db
      else db\<lparr>db_mdns := db_mdns db @ [(i, from_id, t)]\<rparr>)"

lemma add_reader_simps [simp]:
  "db_msgs (add_reader i f t db) = db_msgs db" "db_chats (add_reader i f t db) = db_chats db"
  "db_chats_contacts (add_reader i f t db) = db_chats_contacts db"
  "sent_msg (add_reader i f t db) mid = sent_msg db mid"
  by (simp_all add: add_reader_def sent_msg_def)

lemma add_reader_readers: "readers (add_reader i f t db) i = insert f (readers db i)"
  by (auto simp: readers_def add_reader_def list_ex_iff)

lemma add_reader_ok: "mdns_ok db \<Longrightarrow> mdns_ok (add_reader i f t db)"
  by (auto simp: mdns_ok_def add_reader_def list_ex_iff)

text \<open>A receipt of a group message.\<close>

lemma mdn_group:
  assumes "sent_msg db mid = Some m" "chat_row_of db m = Some ch" "ch_type ch \<noteq> DC_CHAT_TYPE_SINGLE" "mdns_ok db"
    "from_id > DC_CONTACT_ID_LAST_SPECIAL"
  shows "dc_mdn_from_ext db from_id (Some mid) t =
    (if ms_state m \<noteq> DC_STATE_OUT_PENDING \<and> ms_state m \<noteq> DC_STATE_OUT_DELIVERED then (False, ch_id ch, ms_id m, db)
     else
       let db' = add_reader (ms_id m) from_id t db in
       if card (insert from_id (readers db (ms_id m))) < (dc_get_chat_contact_cnt db (ch_id ch) + 1) div 2
       then (False, ch_id ch, ms_id m, db')
       else (True, ch_id ch, ms_id m, dc_update_msg_state db' (ms_id m) DC_STATE_OUT_MDN_RCVD))"
proof -
  have c: "length (filter (\<lambda>(mm, _). mm = ms_id m) (db_mdns (add_reader (ms_id m) from_id t db))) =
      card (insert from_id (readers db (ms_id m)))"
    using count_readers [OF add_reader_ok [OF assms(4)]] by (simp add: add_reader_readers)
  have n: "dc_get_chat_contact_cnt (add_reader (ms_id m) from_id t db) (ch_id ch) = dc_get_chat_contact_cnt db (ch_id ch)"
    by (simp add: dc_get_chat_contact_cnt_def)
  show ?thesis
    using assms(1-3,5) c n
    unfolding dc_mdn_from_ext_def Let_def sent_msg_def [symmetric] add_reader_def [symmetric]
    by simp
qed

section \<open>Receipts of a group message\<close>

definition receipt :: "string \<Rightarrow> database \<Rightarrow> nat \<times> int \<Rightarrow> database" where
  "receipt mid db r = snd (snd (snd (dc_mdn_from_ext db (fst r) (Some mid) (snd r))))"

definition awaiting :: "msg_row \<Rightarrow> bool" where
  "awaiting m \<longleftrightarrow> ms_state m = DC_STATE_OUT_PENDING \<or> ms_state m = DC_STATE_OUT_DELIVERED"

text \<open>The contacts \<open>F\<close> have confirmed the message; \<open>n\<close> contacts are in the group.\<close>

definition counted :: "string \<Rightarrow> nat \<Rightarrow> chat_row \<Rightarrow> nat \<Rightarrow> nat set \<Rightarrow> database \<Rightarrow> bool" where
  "counted mid i ch n F db \<longleftrightarrow>
     mdns_ok db \<and> dc_get_chat_contact_cnt db (ch_id ch) = n \<and>
     (\<exists>m. sent_msg db mid = Some m \<and> ms_id m = i \<and> chat_row_of db m = Some ch \<and>
        (if (n + 1) div 2 \<le> card F then ms_state m = DC_STATE_OUT_MDN_RCVD else awaiting m \<and> readers db i = F))"

lemma receipt_counted:
  assumes "counted mid i ch n F db" "ch_type ch \<noteq> DC_CHAT_TYPE_SINGLE" "fst r > DC_CONTACT_ID_LAST_SPECIAL" "finite F"
  shows "counted mid i ch n (insert (fst r) F) (receipt mid db r)"
proof -
  obtain m where m: "sent_msg db mid = Some m" "ms_id m = i" "chat_row_of db m = Some ch" "mdns_ok db"
    "dc_get_chat_contact_cnt db (ch_id ch) = n"
    "if (n + 1) div 2 \<le> card F then ms_state m = DC_STATE_OUT_MDN_RCVD else awaiting m \<and> readers db i = F"
    using assms(1) by (auto simp: counted_def)
  note g = mdn_group [OF m(1,3) assms(2) m(4) assms(3), of "snd r"]
  show ?thesis
  proof (cases "(n + 1) div 2 \<le> card F")
    case True
    then have "ms_state m = DC_STATE_OUT_MDN_RCVD" using m by simp
    then have "receipt mid db r = db" using g by (simp add: receipt_def)
    moreover have "(n + 1) div 2 \<le> card (insert (fst r) F)"
      using True card_insert_le [of F "fst r"] by (rule order_trans)
    ultimately show ?thesis using assms(1) True by (auto simp: counted_def)
  next
    case False
    then have a: "awaiting m" and F: "readers db i = F" using m by auto
    let ?db = "add_reader i (fst r) (snd r) db"
    have cr: "chat_row_of ?db m = Some ch" using m(3) by (simp add: chat_row_of_def)
    have cnt: "dc_get_chat_contact_cnt ?db (ch_id ch) = n" using m(5) by (simp add: dc_get_chat_contact_cnt_def)
    have rd: "readers ?db i = insert (fst r) F" by (simp add: add_reader_readers F)
    show ?thesis
    proof (cases "(n + 1) div 2 \<le> card (insert (fst r) F)")
      case True
      then have r: "receipt mid db r = dc_update_msg_state ?db i DC_STATE_OUT_MDN_RCVD"
        using g a m(2,5) F by (auto simp: receipt_def awaiting_def Let_def)
      have "sent_msg (receipt mid db r) mid = Some (m\<lparr>ms_state := DC_STATE_OUT_MDN_RCVD\<rparr>)"
        by (simp add: r sent_msg_update m)
      moreover have "chat_row_of (receipt mid db r) (m\<lparr>ms_state := DC_STATE_OUT_MDN_RCVD\<rparr>) = Some ch"
        using cr by (simp add: r chat_row_of_def dc_update_msg_state_def)
      moreover have "mdns_ok (receipt mid db r)"
        using add_reader_ok [OF m(4)] by (simp add: r mdns_ok_def dc_update_msg_state_def)
      moreover have "dc_get_chat_contact_cnt (receipt mid db r) (ch_id ch) = n"
        using cnt by (simp add: r dc_get_chat_contact_cnt_def dc_update_msg_state_def)
      ultimately show ?thesis using True m(2) by (auto simp: counted_def)
    next
      case 2: False
      then have r: "receipt mid db r = ?db" using g a m(2,5) F by (auto simp: receipt_def awaiting_def Let_def)
      show ?thesis using 2 a rd m(1,2) cr cnt add_reader_ok [OF m(4)] by (auto simp: r counted_def)
    qed
  qed
qed

lemma receipts_counted:
  assumes "counted mid i ch n F db" "ch_type ch \<noteq> DC_CHAT_TYPE_SINGLE" "finite F"
    "\<forall>r \<in> set rs. fst r > DC_CONTACT_ID_LAST_SPECIAL"
  shows "counted mid i ch n (F \<union> fst ` set rs) (foldl (receipt mid) db rs)"
  using assms
proof (induction rs arbitrary: F db)
  case (Cons r rs)
  have "counted mid i ch n (insert (fst r) F) (receipt mid db r)" using receipt_counted Cons.prems by auto
  from Cons.IH [OF this Cons.prems(2)] Cons.prems(3,4) show ?case by simp
qed simp

text \<open>
  C26: A message to a group counts as read exactly when at least half of its members, the sender included, have
  confirmed it: whatever receipts arrive, only the number of different contacts that sent one matters, not how often
  they did.
\<close>

theorem receipts_decide_read:
  assumes "sent_msg db mid = Some m" "awaiting m" "chat_row_of db m = Some ch" "ch_type ch \<noteq> DC_CHAT_TYPE_SINGLE"
    "mdns_ok db" "readers db (ms_id m) = {}" "dc_get_chat_contact_cnt db (ch_id ch) > 0"
    "\<forall>r \<in> set rs. fst r > DC_CONTACT_ID_LAST_SPECIAL"
  shows "\<exists>m'. sent_msg (foldl (receipt mid) db rs) mid = Some m' \<and>
    (ms_state m' = DC_STATE_OUT_MDN_RCVD \<longleftrightarrow>
       (dc_get_chat_contact_cnt db (ch_id ch) + 1) div 2 \<le> card (fst ` set rs))"
proof -
  have "counted mid (ms_id m) ch (dc_get_chat_contact_cnt db (ch_id ch)) {} db"
    using assms by (auto simp: counted_def)
  from receipts_counted [OF this assms(4) _ assms(8)] show ?thesis
    by (auto simp: counted_def awaiting_def split: if_splits)
qed

definition sample_msg :: "nat \<Rightarrow> nat \<Rightarrow> nat \<Rightarrow> int \<Rightarrow> msg_row" where
  "sample_msg i cid from_id state =
     \<lparr>ms_id = i, ms_rfc724_mid = ''Mr.'' @ show_nat i @ ''@x'', ms_server_folder = [], ms_server_uid = 0, ms_chat_id = cid,
      ms_from_id = from_id, ms_to_id = 0, ms_timestamp = 1, ms_type = DC_MSG_TEXT, ms_state = state, ms_msgrmsg = 1,
      ms_txt = ''hi'', ms_param = [], ms_starred = 0, ms_hidden = 0, ms_timestamp_sent = 1, ms_timestamp_rcvd = 0,
      ms_txt_raw = []\<rparr>"

definition sample_chat :: "nat \<Rightarrow> int \<Rightarrow> int \<Rightarrow> chat_row" where
  "sample_chat i type blocked =
     \<lparr>ch_id = i, ch_type = type, ch_name = ''chat'', ch_draft_timestamp = 0, ch_draft_txt = [], ch_blocked = blocked,
      ch_grpid = ''abcdefghijk'', ch_param = [], ch_archived = 0\<rparr>"

text \<open>A group of four with a message of the user, and a contact request.\<close>

definition four_of_us :: database where
  "four_of_us = fresh_database\<lparr>
     db_chats := [sample_chat 10 DC_CHAT_TYPE_GROUP 0, sample_chat 11 DC_CHAT_TYPE_SINGLE DC_CHAT_DEADDROP_BLOCKED],
     db_chats_contacts := [(10, 1), (10, 20), (10, 21), (10, 22), (11, 23)],
     db_msgs := [sample_msg 12 10 1 DC_STATE_OUT_DELIVERED, sample_msg 13 10 20 DC_STATE_IN_FRESH,
                 sample_msg 14 11 23 DC_STATE_IN_FRESH]\<rparr>"

lemmas sample_defs = four_of_us_def sample_msg_def sample_chat_def fresh_database_def

lemma receipts_decide_read_witness:
  "\<exists>m'. sent_msg (foldl (receipt ''Mr.12@x'') four_of_us [(20, 5), (20, 6), (21, 7)]) ''Mr.12@x'' = Some m' \<and>
     ms_state m' = DC_STATE_OUT_MDN_RCVD"
proof -
  have s: "sent_msg four_of_us ''Mr.12@x'' = Some (sample_msg 12 10 1 DC_STATE_OUT_DELIVERED)"
    by code_simp
  have c: "chat_row_of four_of_us (sample_msg 12 10 1 DC_STATE_OUT_DELIVERED) = Some (sample_chat 10 DC_CHAT_TYPE_GROUP 0)"
    by (simp add: sample_defs chat_row_of_def)
  show ?thesis
    using receipts_decide_read [OF s _ c, of "[(20, 5), (20, 6), (21, 7)]"]
    by (auto simp: sample_defs awaiting_def mdns_ok_def readers_def dc_get_chat_contact_cnt_def)
qed

section \<open>What marking as seen does\<close>

definition to_seen :: "database \<Rightarrow> msg_row \<Rightarrow> bool" where
  "to_seen db m \<longleftrightarrow> ms_chat_id m > DC_CHAT_ID_LAST_SPECIAL \<and> joined_blocked db m = 0 \<and>
     (ms_state m = DC_STATE_IN_FRESH \<or> ms_state m = DC_STATE_IN_NOTICED)"

definition to_noticed :: "database \<Rightarrow> msg_row \<Rightarrow> bool" where
  "to_noticed db m \<longleftrightarrow> ms_chat_id m > DC_CHAT_ID_LAST_SPECIAL \<and> joined_blocked db m \<noteq> 0 \<and> ms_state m = DC_STATE_IN_FRESH"

definition seen_row :: "database \<Rightarrow> nat set \<Rightarrow> msg_row \<Rightarrow> msg_row" where
  "seen_row db I m =
     (if ms_id m \<in> I \<and> to_seen db m then m\<lparr>ms_state := DC_STATE_IN_SEEN\<rparr>
      else if ms_id m \<in> I \<and> to_noticed db m then m\<lparr>ms_state := DC_STATE_IN_NOTICED\<rparr> else m)"

definition newly_seen :: "database \<Rightarrow> nat \<Rightarrow> bool" where
  "newly_seen db i \<longleftrightarrow> (case find_msg db i of None \<Rightarrow> False | Some m \<Rightarrow> to_seen db m)"

text \<open>The ids without repetitions, each where it stands first.\<close>

definition firsts :: "'a list \<Rightarrow> 'a list" where
  "firsts xs = rev (remdups (rev xs))"

lemma firsts_snoc: "firsts (xs @ [x]) = (if x \<in> set xs then firsts xs else firsts xs @ [x])"
  by (simp add: firsts_def)

lemma seen_row_simps [simp]: "ms_id (seen_row db I m) = ms_id m" "ms_chat_id (seen_row db I m) = ms_chat_id m"
  by (simp_all add: seen_row_def)

lemma find_distinct_id: "distinct (map f xs) \<Longrightarrow> x \<in> set xs \<Longrightarrow> find (\<lambda>y. f y = f x) xs = Some x"
  by (induction xs) auto

lemma find_weaken: "distinct (map f xs) \<Longrightarrow>
  find (\<lambda>y. f y = i \<and> P y) xs = (case find (\<lambda>y. f y = i) xs of None \<Rightarrow> None | Some y \<Rightarrow> if P y then Some y else None)"
proof (induction xs)
  case (Cons x xs)
  have "find (\<lambda>y. f y = f x \<and> P y) xs = None" using Cons.prems by (auto simp: find_None_iff) (metis image_eqI)
  then show ?case using Cons by auto
qed simp

lemma find_seen_rows:
  "find (\<lambda>m. ms_id m = i) (map (seen_row db I) ms) = map_option (seen_row db I) (find (\<lambda>m. ms_id m = i) ms)"
  by (simp add: find_map)

lemma seen_row_insert:
  "seen_row db (insert i I) m =
     (if ms_id m = i \<and> i \<notin> I \<and> to_seen db m then m\<lparr>ms_state := DC_STATE_IN_SEEN\<rparr>
      else if ms_id m = i \<and> i \<notin> I \<and> to_noticed db m then m\<lparr>ms_state := DC_STATE_IN_NOTICED\<rparr>
      else seen_row db I m)"
  by (cases "ms_id m = i"; cases "i \<in> I"; simp add: seen_row_def)

lemma dc_job_add_markseen:
  "dc_job_add now c DC_JOB_MARKSEEN_MSG_ON_IMAP i None 0 =
     c\<lparr>jc_jobs := jc_jobs c @
          [\<lparr>j_id = next_rowid (map j_id (jc_jobs c)), j_added = now, j_desired = 0,
            j_action = DC_JOB_MARKSEEN_MSG_ON_IMAP, j_foreign = i, j_param = [], j_thread = DC_IMAP_THREAD\<rparr>],
       jc_imap_needed := 1\<rparr>"
  by (simp add: dc_job_add_def job_thread_def dc_interrupt_imap_idle_def Let_def)

text \<open>The state of the loop after the messages \<open>is\<close>.\<close>

definition seen_so_far :: "database \<Rightarrow> jobs_ctx \<Rightarrow> nat list \<Rightarrow> database \<times> jobs_ctx \<times> bool \<Rightarrow> bool" where
  "seen_so_far db c is st \<longleftrightarrow>
     (\<exists>js ev n. st = (db\<lparr>db_msgs := map (seen_row db (set is)) (db_msgs db)\<rparr>, c\<lparr>jc_jobs := jc_jobs c @ js, jc_imap_needed := n\<rparr>, ev) \<and>
        map (\<lambda>j. (j_action j, j_foreign j)) js =
          map (\<lambda>i. (DC_JOB_MARKSEEN_MSG_ON_IMAP, int i)) (filter (newly_seen db) (firsts is)))"

lemma seen_so_far_step:
  assumes d: "distinct (map ms_id (db_msgs db))" and s: "seen_so_far db c is st"
  shows "seen_so_far db c (is @ [i]) (markseen_one now st i)"
proof -
  obtain js ev n where st: "st = (db\<lparr>db_msgs := map (seen_row db (set is)) (db_msgs db)\<rparr>, c\<lparr>jc_jobs := jc_jobs c @ js, jc_imap_needed := n\<rparr>, ev)"
    and js: "map (\<lambda>j. (j_action j, j_foreign j)) js =
      map (\<lambda>i. (DC_JOB_MARKSEEN_MSG_ON_IMAP, int i)) (filter (newly_seen db) (firsts is))"
    using s by (auto simp: seen_so_far_def)
  let ?db = "db\<lparr>db_msgs := map (seen_row db (set is)) (db_msgs db)\<rparr>"
  have "distinct (map ms_id (db_msgs ?db))" using d by (simp add: comp_def)
  from find_weaken [OF this]
  have f: "find (\<lambda>m. ms_id m = i \<and> ms_chat_id m > DC_CHAT_ID_LAST_SPECIAL) (db_msgs ?db) =
    (case find_msg db i of None \<Rightarrow> None | Some m \<Rightarrow> if ms_chat_id m > DC_CHAT_ID_LAST_SPECIAL then Some (seen_row db (set is) m) else None)"
    by (auto simp: find_seen_rows find_msg_def split: option.splits)
  have jb: "joined_blocked ?db (seen_row db (set is) m) = joined_blocked db m" for m
    by (simp add: joined_blocked_def chat_row_of_def)
  have same: "map (seen_row db (set (is @ [i]))) (db_msgs db) = map (seen_row db (set is)) (db_msgs db)"
    if "\<And>m. find_msg db i = Some m \<Longrightarrow> i \<in> set is \<or> \<not> to_seen db m \<and> \<not> to_noticed db m"
  proof (rule map_cong [OF refl])
    fix m assume m: "m \<in> set (db_msgs db)"
    show "seen_row db (set (is @ [i])) m = seen_row db (set is) m"
    proof (cases "ms_id m = i")
      case True
      then have "find_msg db i = Some m" using find_distinct_id [OF d m] by (simp add: find_msg_def)
      then show ?thesis using that [of m] by (auto simp: seen_row_insert)
    next
      case False
      then show ?thesis by (simp add: seen_row_insert)
    qed
  qed
  have upd: "map (\<lambda>m. if ms_id m = i then m\<lparr>ms_state := x\<rparr> else m) (map (seen_row db (set is)) (db_msgs db)) =
      map (seen_row db (set (is @ [i]))) (db_msgs db)"
    if "find_msg db i = Some m" "i \<notin> set is" "to_seen db m \<and> x = DC_STATE_IN_SEEN \<or> to_noticed db m \<and> x = DC_STATE_IN_NOTICED" for m x
    unfolding map_map
  proof (rule map_cong [OF refl])
    fix m' assume m': "m' \<in> set (db_msgs db)"
    show "((\<lambda>m. if ms_id m = i then m\<lparr>ms_state := x\<rparr> else m) \<circ> seen_row db (set is)) m' = seen_row db (set (is @ [i])) m'"
    proof (cases "ms_id m' = i")
      case True
      then have "find_msg db i = Some m'" using find_distinct_id [OF d m'] by (simp add: find_msg_def)
      then have "m' = m" using that by simp
      moreover have "seen_row db (set is) m = m" using True \<open>m' = m\<close> that by (simp add: seen_row_def)
      ultimately show ?thesis using that True by (auto simp: seen_row_insert to_seen_def to_noticed_def)
    next
      case False
      then show ?thesis by (simp add: seen_row_insert)
    qed
  qed
  show ?thesis
  proof (cases "find_msg db i")
    case None
    then have "markseen_one now st i = st" using f by (simp add: markseen_one_def st)
    moreover have "\<not> newly_seen db i" using None by (simp add: newly_seen_def)
    ultimately show ?thesis using s same None st js by (auto simp: seen_so_far_def firsts_snoc)
  next
    case (Some m)
    then have mi: "ms_id m = i" by (auto simp: find_msg_def find_Some_iff)
    consider (seen) "to_seen db m" "i \<notin> set is" | (noticed) "to_noticed db m" "i \<notin> set is"
      | (other) "i \<in> set is \<or> \<not> to_seen db m \<and> \<not> to_noticed db m" by blast
    then show ?thesis
    proof cases
      case seen
      then have "newly_seen db i" by (simp add: newly_seen_def Some)
      moreover have "seen_row db (set is) m = m" using seen mi by (simp add: seen_row_def)
      ultimately show ?thesis
        using seen f jb [of m] upd [OF Some seen(2), of DC_STATE_IN_SEEN] js
        by (auto simp: markseen_one_def st Some to_seen_def seen_so_far_def firsts_snoc dc_job_add_markseen
          dc_update_msg_state_def update_msg_def)
    next
      case noticed
      then have "\<not> newly_seen db i" by (simp add: newly_seen_def Some to_seen_def to_noticed_def)
      moreover have "seen_row db (set is) m = m" using noticed mi by (simp add: seen_row_def)
      ultimately show ?thesis
        using noticed f jb [of m] upd [OF Some noticed(2), of DC_STATE_IN_NOTICED] js
        by (auto simp: markseen_one_def st Some to_noticed_def seen_so_far_def firsts_snoc
          dc_update_msg_state_def update_msg_def)
    next
      case other
      have "markseen_one now st i = st"
        using f jb [of m] other mi
        by (auto simp: markseen_one_def st Some to_noticed_def to_seen_def seen_row_def)
      moreover have "filter (newly_seen db) (firsts (is @ [i])) = filter (newly_seen db) (firsts is)"
        using other by (auto simp: firsts_snoc newly_seen_def Some)
      ultimately show ?thesis using s same other Some st js by (auto simp: seen_so_far_def)
    qed
  qed
qed


lemma markseen_loop:
  "distinct (map ms_id (db_msgs db)) \<Longrightarrow> seen_so_far db c is (foldl (markseen_one now) (db, c, False) is)"
proof (induction "is" rule: rev_induct)
  case Nil
  have "seen_row db {} = id" by (rule ext) (simp add: seen_row_def)
  then show ?case by (auto simp: seen_so_far_def firsts_def intro: exI [of _ "[]"] exI [of _ "jc_imap_needed c"])
next
  case (snoc i "is")
  then show ?case using seen_so_far_step by simp
qed

text \<open>
  C27: \<open>dc_markseen_msgs\<close> marks exactly the unseen messages of the list that stand in accepted chats as seen, those of
  contact requests only as noticed, and orders one job per message marked as seen: the sender of a contact request is
  never told, and nobody twice.
\<close>

theorem markseen_exact:
  assumes "distinct (map ms_id (db_msgs db))"
  shows "\<exists>db' c' js. dc_markseen_msgs now (db, c) is = (db', c') \<and>
    db_msgs db' = map (seen_row db (set is)) (db_msgs db) \<and> jc_jobs c' = jc_jobs c @ js \<and>
    map (\<lambda>j. (j_action j, j_foreign j)) js =
      map (\<lambda>i. (DC_JOB_MARKSEEN_MSG_ON_IMAP, int i)) (filter (newly_seen db) (firsts is))"
  using markseen_loop [OF assms, of c "is" now] by (auto simp: seen_so_far_def dc_markseen_msgs_def cb_def)

lemma markseen_exact_witness:
  "\<exists>db' c' js. dc_markseen_msgs 5 (four_of_us, sample_queue []) [13, 14, 13] = (db', c') \<and>
    map ms_state (db_msgs db') = [DC_STATE_OUT_DELIVERED, DC_STATE_IN_SEEN, DC_STATE_IN_NOTICED] \<and>
    jc_jobs c' = js \<and> map j_foreign js = [13]"
proof -
  have d: "distinct (map ms_id (db_msgs four_of_us))" by (simp add: sample_defs)
  have f: "filter (newly_seen four_of_us) (firsts [13, 14, 13]) = [13]"
    by (simp add: firsts_def newly_seen_def find_msg_def to_seen_def joined_blocked_def chat_row_of_def sample_defs)
  have s: "map (seen_row four_of_us (set [13, 14, 13])) (db_msgs four_of_us) =
    [sample_msg 12 10 1 DC_STATE_OUT_DELIVERED, sample_msg 13 10 20 DC_STATE_IN_SEEN, sample_msg 14 11 23 DC_STATE_IN_NOTICED]"
    by (simp add: seen_row_def to_seen_def to_noticed_def joined_blocked_def chat_row_of_def sample_defs)
  obtain db' c' js where r: "dc_markseen_msgs 5 (four_of_us, sample_queue []) [13, 14, 13] = (db', c')"
    "db_msgs db' = map (seen_row four_of_us (set [13, 14, 13])) (db_msgs four_of_us)" "jc_jobs c' = jc_jobs (sample_queue []) @ js"
    "map (\<lambda>j. (j_action j, j_foreign j)) js = map (\<lambda>i. (DC_JOB_MARKSEEN_MSG_ON_IMAP, int i)) (filter (newly_seen four_of_us) (firsts [13, 14, 13]))"
    using markseen_exact [OF d, of 5 "sample_queue []" "[13, 14, 13]"] by blast
  then show ?thesis using f s by (auto simp: sample_msg_def sample_queue_def)
qed

section \<open>The life of a message\<close>

text \<open>What the user, the mails that come in and the IMAP thread do to messages.\<close>

datatype msg_op =
    Mark_Seen "nat list"
  | Delete_Msgs "nat list"
  | Star_Msgs "nat list" int
  | Receipt_From nat cptr int
  | Notice_All nat
  | Notice_Sender nat
  | Move_On_Server string string nat

fun msg_step :: "int \<Rightarrow> database \<times> jobs_ctx \<Rightarrow> msg_op \<Rightarrow> database \<times> jobs_ctx" where
  "msg_step now st (Mark_Seen is) = dc_markseen_msgs now st is"
| "msg_step now st (Delete_Msgs is) = dc_delete_msgs now st is"
| "msg_step now (db, c) (Star_Msgs is star) = (dc_star_msgs db is star, c)"
| "msg_step now (db, c) (Receipt_From from_id mid t) = (snd (snd (snd (dc_mdn_from_ext db from_id mid t))), c)"
| "msg_step now (db, c) (Notice_All cid) = (dc_marknoticed_chat db cid, c)"
| "msg_step now (db, c) (Notice_Sender i) = (dc_marknoticed_contact db i, c)"
| "msg_step now (db, c) (Move_On_Server mid folder uid) = (dc_update_server_uid db mid folder uid, c)"

definition later_state :: "int \<Rightarrow> int \<Rightarrow> bool" where
  "later_state s t \<longleftrightarrow> s \<le> t \<and> (s \<le> DC_STATE_IN_SEEN \<longleftrightarrow> t \<le> DC_STATE_IN_SEEN)"

text \<open>Rows keep their id, and their states go forward.\<close>

definition forward :: "msg_row list \<Rightarrow> msg_row list \<Rightarrow> bool" where
  "forward ms ns \<longleftrightarrow> list_all2 (\<lambda>m n. ms_id n = ms_id m \<and> later_state (ms_state m) (ms_state n)) ms ns"

lemma later_refl [simp]: "later_state s s"
  by (simp add: later_state_def)

lemma later_trans: "later_state s t \<Longrightarrow> later_state t u \<Longrightarrow> later_state s u"
  by (auto simp: later_state_def)

lemma forward_refl [simp]: "forward ms ms"
  by (simp add: forward_def list_all2_refl)

lemma forward_map: "(\<And>m. m \<in> set ms \<Longrightarrow> ms_id (f m) = ms_id m \<and> later_state (ms_state m) (ms_state (f m))) \<Longrightarrow> forward ms (map f ms)"
  by (simp add: forward_def list_all2_conv_all_nth)

lemma forward_trans: "forward ms ns \<Longrightarrow> forward ns qs \<Longrightarrow> forward ms qs"
  unfolding forward_def by (rule list_all2_trans) (auto intro: later_trans)

lemma forward_ids: "forward ms ns \<Longrightarrow> map ms_id ns = map ms_id ms"
  by (auto simp: forward_def list_all2_conv_all_nth intro: nth_equalityI)

lemma forward_find:
  "forward ms ns \<Longrightarrow> find (\<lambda>m. ms_id m = i) ms = Some m \<Longrightarrow>
    \<exists>n. find (\<lambda>m. ms_id m = i) ns = Some n \<and> later_state (ms_state m) (ms_state n)"
  unfolding forward_def by (induction ms ns rule: list_all2_induct) (auto split: if_splits)

lemma forward_update: "(\<And>m. ms_state (f m) = ms_state m \<and> ms_id (f m) = ms_id m) \<Longrightarrow> forward (db_msgs db) (db_msgs (update_msg i f db))"
  by (simp add: update_msg_def forward_map)

lemma forward_foldl: "(\<And>s x. forward (g s) (g (f s x))) \<Longrightarrow> forward (g s) (g (foldl f s xs))"
  by (induction xs arbitrary: s) (auto intro: forward_trans)

lemma forward_delete: "forward (db_msgs (fst st)) (db_msgs (fst (dc_delete_msgs now st is)))"
  unfolding dc_delete_msgs_def
  by (rule forward_foldl [where g = "\<lambda>st. db_msgs (fst st)"])
    (auto simp: delete_one_def dc_update_msg_chat_id_def intro: forward_update split: prod.splits)

lemma forward_star: "forward (db_msgs db) (db_msgs (dc_star_msgs db is star))"
proof -
  have "forward (db_msgs db) (db_msgs (foldl (\<lambda>db i. update_msg i (\<lambda>m. m\<lparr>ms_starred := star\<rparr>) db) db is))"
    by (rule forward_foldl [where g = db_msgs]) (simp add: forward_update)
  then show ?thesis by (simp add: dc_star_msgs_def)
qed

lemma forward_markseen:
  assumes "distinct (map ms_id (db_msgs db))"
  shows "forward (db_msgs db) (db_msgs (fst (dc_markseen_msgs now (db, c) is)))"
proof -
  have "db_msgs (fst (dc_markseen_msgs now (db, c) is)) = map (seen_row db (set is)) (db_msgs db)"
    using markseen_loop [OF assms, of c "is" now] by (auto simp: seen_so_far_def dc_markseen_msgs_def cb_def)
  then show ?thesis
    by (auto intro!: forward_map simp: seen_row_def to_seen_def to_noticed_def later_state_def)
qed

lemma update_state_forward:
  assumes "distinct (map ms_id (db_msgs db))" "m \<in> set (db_msgs db)" "later_state (ms_state m) s"
  shows "forward (db_msgs db) (db_msgs (dc_update_msg_state db (ms_id m) s))"
  unfolding dc_update_msg_state_def update_msg_def
  using assms by (auto intro!: forward_map simp: distinct_map dest: inj_onD)

lemma forward_receipt:
  assumes "distinct (map ms_id (db_msgs db))"
  shows "forward (db_msgs db) (db_msgs (snd (snd (snd (dc_mdn_from_ext db from_id mid t)))))"
proof (cases "\<exists>x m. mid = Some x \<and> sent_msg db x = Some m \<and> awaiting m")
  case True
  then obtain x m where x: "mid = Some x" "sent_msg db x = Some m" "awaiting m" by blast
  have m: "m \<in> set (db_msgs db)" using x(2) by (auto simp: sent_msg_def find_Some_iff)
  have "later_state (ms_state m) DC_STATE_OUT_MDN_RCVD" using x(3) by (auto simp: awaiting_def later_state_def)
  then have "forward (db_msgs db') (db_msgs (dc_update_msg_state db' (ms_id m) DC_STATE_OUT_MDN_RCVD))"
    if "db_msgs db' = db_msgs db" for db'
    using update_state_forward [of db' m] assms m that by simp
  then show ?thesis
    using x unfolding dc_mdn_from_ext_def Let_def sent_msg_def [symmetric] by auto
next
  case False
  then show ?thesis
    unfolding dc_mdn_from_ext_def Let_def sent_msg_def [symmetric] by (auto simp: awaiting_def split: option.splits)
qed


lemma forward_noticed:
  "forward (db_msgs db) (db_msgs (dc_marknoticed_chat db cid))" "forward (db_msgs db) (db_msgs (dc_marknoticed_contact db i))"
  by (auto intro!: forward_map simp: dc_marknoticed_chat_def dc_marknoticed_contact_def later_state_def)

lemma msg_step_forward:
  assumes "distinct (map ms_id (db_msgs (fst st)))"
  shows "forward (db_msgs (fst st)) (db_msgs (fst (msg_step now st e)))"
proof (cases st)
  case (Pair db c)
  then show ?thesis
    using assms forward_markseen forward_delete [of "(db, c)" now] forward_star forward_receipt forward_noticed
    by (cases e) (auto simp: dc_update_server_uid_def intro!: forward_map)
qed

text \<open>What the machine keeps: the ids are unique, and the message \<open>i\<close> has not gone back behind \<open>s\<close>.\<close>

definition not_before :: "nat \<Rightarrow> int \<Rightarrow> database \<times> jobs_ctx \<Rightarrow> bool" where
  "not_before i s st \<longleftrightarrow> distinct (map ms_id (db_msgs (fst st))) \<and>
     (\<exists>m. find_msg (fst st) i = Some m \<and> later_state s (ms_state m))"

interpretation message_life: machine "not_before i s" "msg_step now" for i s now
proof
  fix st e assume a: "not_before i s st"
  then have f: "forward (db_msgs (fst st)) (db_msgs (fst (msg_step now st e)))"
    by (simp add: not_before_def msg_step_forward)
  then show "not_before i s (msg_step now st e)"
    using a forward_find [OF f, of i] forward_ids [OF f] by (auto simp: not_before_def find_msg_def intro: later_trans)
qed



section \<open>Texts are read within their buffers\<close>

lemma msg_texts_safe: "dc_msg_get_text msg \<noteq> None" "dc_get_msg_info tts filebytes stock db i \<noteq> None"
  using truncate_str_safe by (auto simp: dc_msg_get_text_def dc_get_msg_info_def Let_def split: option.splits)

end
