(* ===== verification/Sending.thy ===== *)
theory Sending
  imports Msgs "HOL-Library.Signed_Division"
begin

text \<open>
  The rest of \<open>src/dc_chat.c\<close>: the lists of messages of a chat, and sending, with the decision whether a message
  must not leave unencrypted, and forwarding.  The state has the database, the queue of jobs and the last smeared
  timestamp.  Random bits, the time, the files and the peer states of the contacts are arguments.
\<close>

section \<open>Views on a chat\<close>

abbreviation DC_MSG_ID_MARKER1 :: nat where "DC_MSG_ID_MARKER1 \<equiv> 1"
abbreviation DC_MSG_ID_DAYMARKER :: nat where "DC_MSG_ID_DAYMARKER \<equiv> 9"
abbreviation DC_GCM_ADDDAYMARKER :: u32 where "DC_GCM_ADDDAYMARKER \<equiv> 1"
abbreviation DC_STR_MEMBER :: nat where "DC_STR_MEMBER \<equiv> 4"
abbreviation DC_STR_SELFTALK_SUBTITLE :: nat where "DC_STR_SELFTALK_SUBTITLE \<equiv> 50"
abbreviation SECONDS_PER_DAY :: int where "SECONDS_PER_DAY \<equiv> 86400"

definition dc_chat_get_subtitle :: "stock \<Rightarrow> database \<Rightarrow> dc_chat_t option \<Rightarrow> string" where
  "dc_chat_get_subtitle stock db chat =
     (case chat of None \<Rightarrow> ''Err''
      | Some ch \<Rightarrow>
          if chat_type ch = DC_CHAT_TYPE_SINGLE \<and> dc_param_exists (chat_param ch) DC_PARAM_SELFTALK
          then stock DC_STR_SELFTALK_SUBTITLE []
          else if chat_type ch = DC_CHAT_TYPE_SINGLE then
            (case find (\<lambda>(cid, ct). cid = chat_id ch) (db_chats_contacts db) of
               None \<Rightarrow> ''Err''
             | Some (_, ct) \<Rightarrow>
                 dc_strdup (map_option ct_addr (find (\<lambda>r. ct_id r = ct) (db_contacts db))))
          else if DC_CHAT_TYPE_IS_MULTI (chat_type ch) then
            if chat_id ch = DC_CHAT_ID_DEADDROP then stock DC_STR_DEADDROP []
            else stock DC_STR_MEMBER [show_nat (dc_get_chat_contact_cnt db (chat_id ch))]
          else ''Err'')"

definition dc_chat_get_profile_image :: "dc_chat_t option \<Rightarrow> cptr" where
  "dc_chat_get_profile_image chat =
     (case chat of None \<Rightarrow> None | Some ch \<Rightarrow> dc_param_get (chat_param ch) DC_PARAM_PROFILE_IMAGE None)"

text \<open>\<open>ORDER BY timestamp,id\<close>.\<close>

definition msg_rank :: "msg_row \<Rightarrow> int \<times> nat" where
  "msg_rank m = (ms_timestamp m, ms_id m)"

definition dc_get_chat_media :: "database \<Rightarrow> nat \<Rightarrow> int \<Rightarrow> int \<Rightarrow> nat list" where
  "dc_get_chat_media db cid type or_type =
     map ms_id (sort_key msg_rank (filter (\<lambda>m. ms_chat_id m = cid \<and>
       (ms_type m = type \<or> ms_type m = (if or_type > 0 then or_type else type))) (db_msgs db)))"

text \<open>The loop over the list: the neighbours of the first place where the id stands.\<close>

fun next_media :: "nat \<Rightarrow> nat \<Rightarrow> int \<Rightarrow> nat list \<Rightarrow> nat" where
  "next_media prev here dir [] = 0"
| "next_media prev here dir (i # is) =
     (if i = here then (if dir > 0 then (case is of [] \<Rightarrow> 0 | j # _ \<Rightarrow> j) else if dir < 0 then prev else 0)
      else next_media i here dir is)"

definition dc_get_next_media :: "database \<Rightarrow> nat \<Rightarrow> int \<Rightarrow> nat" where
  "dc_get_next_media db curr_msg_id dir =
     (let (ok, msg) = dc_msg_load_from_db dc_msg_new db curr_msg_id in
      if \<not> ok then 0
      else next_media 0 curr_msg_id dir (dc_get_chat_media db (msg_chat_id msg) (msg_type msg) 0))"

definition sender_blocked :: "database \<Rightarrow> msg_row \<Rightarrow> int option" where
  "sender_blocked db m = map_option ct_blocked (find (\<lambda>r. ct_id r = ms_from_id m) (db_contacts db))"

definition in_chat_view :: "database \<Rightarrow> nat \<Rightarrow> msg_row \<Rightarrow> bool" where
  "in_chat_view db cid m \<longleftrightarrow> ms_hidden m = 0 \<and>
     (if cid = DC_CHAT_ID_DEADDROP then
        ms_from_id m \<noteq> DC_CONTACT_ID_SELF \<and>
        map_option ch_blocked (chat_row_of db m) = Some DC_CHAT_DEADDROP_BLOCKED \<and> sender_blocked db m = Some 0
      else if cid = DC_CHAT_ID_STARRED then ms_starred m = 1 \<and> sender_blocked db m = Some 0
      else ms_chat_id m = cid)"

text \<open>The loop over the rows, \<open>off\<close> the offset of the local time.\<close>

fun add_markers :: "int \<Rightarrow> u32 \<Rightarrow> nat \<Rightarrow> int \<Rightarrow> msg_row list \<Rightarrow> nat list" where
  "add_markers off flags marker1before last_day [] = []"
| "add_markers off flags marker1before last_day (m # ms) =
     (let curr_day = to_int32 ((ms_timestamp m + off) sdiv SECONDS_PER_DAY);
          new_day = (flags AND DC_GCM_ADDDAYMARKER \<noteq> 0 \<and> curr_day \<noteq> last_day)
      in (if ms_id m = marker1before then [DC_MSG_ID_MARKER1] else []) @
         (if new_day then [DC_MSG_ID_DAYMARKER] else []) @
         ms_id m # add_markers off flags marker1before (if new_day then curr_day else last_day) ms)"

definition dc_get_chat_msgs :: "int \<Rightarrow> database \<Rightarrow> nat \<Rightarrow> u32 \<Rightarrow> nat \<Rightarrow> nat list" where
  "dc_get_chat_msgs off db cid flags marker1before =
     add_markers off flags marker1before 0 (sort_key msg_rank (filter (in_chat_view db cid) (db_msgs db)))"

text \<open>The chat, and the database.\<close>

definition dc_create_chat_by_msg_id :: "stock \<Rightarrow> database \<Rightarrow> nat \<Rightarrow> nat \<times> database" where
  "dc_create_chat_by_msg_id stock db i =
     (let (ok, msg) = dc_msg_load_from_db dc_msg_new db i in
      if \<not> ok then (0, db)
      else
        let (ok, chat) = dc_chat_load_from_db stock dc_chat_new db (msg_chat_id msg) in
        if \<not> ok \<or> chat_id chat \<le> DC_CHAT_ID_LAST_SPECIAL then (0, db)
        else
          let send_event = (chat_blocked chat \<noteq> 0);
              db = (if send_event then dc_unblock_chat db (chat_id chat) else db);
              db = dc_scaleup_contact_origin db (msg_from_id msg) DC_ORIGIN_CREATE_CHAT
          in (chat_id chat, if send_event then cb db DC_EVENT_MSGS_CHANGED 0 0 else db))"

section \<open>Handing a message to the queue\<close>

record send_st =
  sd_db :: database
  sd_jobs :: jobs_ctx
  sd_smeared :: int

record send_env =
  sv_now :: int
  sv_peers :: "peer_row list"
  sv_e2ee :: bool
  sv_file :: "string \<Rightarrow> u8 list option"
  sv_stock :: stock

type_synonym rnd = "(u32 \<times> u32 \<times> u32) \<times> (u32 \<times> u32 \<times> u32)"

definition last_msg_in_chat_encrypted :: "database \<Rightarrow> nat \<Rightarrow> bool" where
  "last_msg_in_chat_encrypted db cid =
     (case filter (\<lambda>m. ms_chat_id m = cid) (db_msgs db) of
        [] \<Rightarrow> False
      | ms \<Rightarrow>
          (case rev (filter (\<lambda>m. ms_timestamp m = Max (ms_timestamp ` set ms)) (db_msgs db)) of
             [] \<Rightarrow> False | m # _ \<Rightarrow> dc_param_exists (ms_param m) DC_PARAM_GUARANTEE_E2EE))"

text \<open>The column \<open>prefer_encrypted\<close> for the members of the chat, null for those without a peer state.\<close>

definition member_prefers :: "peer_row list \<Rightarrow> database \<Rightarrow> nat \<Rightarrow> int option list" where
  "member_prefers peers db cid =
     concat (map (\<lambda>(_, ct).
         case find (\<lambda>r. ct_id r = ct) (db_contacts db) of
           None \<Rightarrow> [None]
         | Some r \<Rightarrow> map (map_option (\<lambda>p. to_int32 (pr_prefer_encrypted p)) \<circ> snd) (join_peers peers r))
       (filter (\<lambda>(ch, ct). ch = cid \<and> ct > DC_CONTACT_ID_LAST_SPECIAL) (db_chats_contacts db)))"

text \<open>The loop over these rows: \<open>can_encrypt\<close> and \<open>all_mutual\<close>.\<close>

fun prefer_loop :: "bool \<times> bool \<Rightarrow> int option list \<Rightarrow> bool \<times> bool" where
  "prefer_loop r [] = r"
| "prefer_loop r (None # ps) = prefer_loop (False, False) ps"
| "prefer_loop (can_encrypt, all_mutual) (Some p # ps) =
     prefer_loop (can_encrypt, if p \<noteq> DC_PE_MUTUAL then False else all_mutual) ps"

definition do_guarantee_e2ee :: "send_env \<Rightarrow> database \<Rightarrow> nat \<Rightarrow> param \<Rightarrow> bool" where
  "do_guarantee_e2ee env db cid param =
     (if sv_e2ee env \<and> dc_param_get_int param DC_PARAM_FORCE_PLAINTEXT 0 = 0 then
        let (can_encrypt, all_mutual) = prefer_loop (True, True) (member_prefers (sv_peers env) db cid) in
        if can_encrypt then (if all_mutual then True else last_msg_in_chat_encrypted db cid) else False
      else False)"

definition DC_CHAT_TYPE_CAN_SEND :: "int \<Rightarrow> bool" where
  "DC_CHAT_TYPE_CAN_SEND a \<longleftrightarrow> a = DC_CHAT_TYPE_SINGLE \<or> a = DC_CHAT_TYPE_GROUP \<or> a = DC_CHAT_TYPE_VERIFIED_GROUP"

definition insert_sent :: "string \<Rightarrow> nat \<Rightarrow> nat \<Rightarrow> int \<Rightarrow> dc_msg_t \<Rightarrow> database \<Rightarrow> database" where
  "insert_sent mid cid to_id timestamp msg db =
     db\<lparr>db_msgs := db_msgs db @
          [\<lparr>ms_id = next_rowid (map ms_id (db_msgs db)), ms_rfc724_mid = mid, ms_server_folder = [], ms_server_uid = 0,
            ms_chat_id = cid, ms_from_id = DC_CONTACT_ID_SELF, ms_to_id = to_id, ms_timestamp = timestamp,
            ms_type = msg_type msg, ms_state = DC_STATE_OUT_PENDING, ms_msgrmsg = 1,
            ms_txt = (case msg_text msg of Some t \<Rightarrow> t | None \<Rightarrow> []), ms_param = msg_param msg, ms_starred = 0,
            ms_hidden = msg_hidden msg, ms_timestamp_sent = 0, ms_timestamp_rcvd = 0, ms_txt_raw = []\<rparr>]\<rparr>"

text \<open>\<open>dc_sqlite3_get_rowid\<close> on the column \<open>rfc724_mid\<close>.\<close>

definition msg_rowid :: "database \<Rightarrow> string \<Rightarrow> nat" where
  "msg_rowid db mid = (case find (\<lambda>m. ms_rfc724_mid m = mid) (db_msgs db) of None \<Rightarrow> 0 | Some m \<Rightarrow> ms_id m)"

text \<open>With its first message a group is no longer unpromoted.\<close>

definition promote :: "dc_chat_t \<Rightarrow> bool" where
  "promote chat \<longleftrightarrow> DC_CHAT_TYPE_IS_MULTI (chat_type chat) \<and> dc_param_get_int (chat_param chat) DC_PARAM_UNPROMOTED 0 = 1"

definition promoted :: "dc_chat_t \<Rightarrow> dc_chat_t" where
  "promoted chat = (if promote chat then chat\<lparr>chat_param := dc_param_set (chat_param chat) DC_PARAM_UNPROMOTED None\<rparr> else chat)"

definition promoted_db :: "dc_chat_t \<Rightarrow> database \<Rightarrow> database" where
  "promoted_db chat db = (if promote chat then dc_chat_update_param db (promoted chat) else db)"

definition sent_param :: "send_env \<Rightarrow> dc_chat_t \<Rightarrow> database \<Rightarrow> param \<Rightarrow> param" where
  "sent_param env chat db p =
     dc_param_set (if do_guarantee_e2ee env db (chat_id chat) p then dc_param_set_int p DC_PARAM_GUARANTEE_E2EE 1 else p)
       DC_PARAM_ERRONEOUS_E2EE None"

text \<open>The id of the message (0 on errors), the chat and the message with their parameters as changed, and the state.\<close>

definition dc_send_msg_raw ::
    "send_env \<Rightarrow> rnd \<Rightarrow> dc_chat_t \<Rightarrow> dc_msg_t \<Rightarrow> int \<Rightarrow> send_st \<Rightarrow> nat \<times> dc_chat_t \<times> dc_msg_t \<times> send_st" where
  "dc_send_msg_raw env rnd chat msg timestamp st =
     (let db = sd_db st; cid = chat_id chat; multi = DC_CHAT_TYPE_IS_MULTI (chat_type chat) in
      if \<not> DC_CHAT_TYPE_CAN_SEND (chat_type chat) then (0, chat, msg, st)
      else if multi \<and> \<not> dc_is_contact_in_chat db cid DC_CONTACT_ID_SELF then (0, chat, msg, st)
      else
        (case dc_sqlite3_get_config (db_config db) (Some ''configured_addr'') None of
           None \<Rightarrow> (0, chat, msg, st)
         | Some frm \<Rightarrow>
             let mid = dc_create_outgoing_rfc724_mid (if multi then chat_grpid chat else None) frm (fst rnd) (snd rnd) in
             case (if chat_type chat = DC_CHAT_TYPE_SINGLE
                   then map_option snd (find (\<lambda>(ch, ct). ch = cid) (db_chats_contacts db)) else Some 0) of
               None \<Rightarrow> (0, chat, msg, st)
             | Some to_id \<Rightarrow>
                 let db = promoted_db chat db;
                     chat = promoted chat;
                     msg = msg\<lparr>msg_param := sent_param env chat db (msg_param msg)\<rparr>;
                     db = insert_sent mid cid to_id timestamp msg db;
                     i = msg_rowid db mid
                 in (i, chat, msg,
                     st\<lparr>sd_db := db, sd_jobs := dc_job_add (sv_now env) (sd_jobs st) DC_JOB_SEND_MSG_TO_SMTP (int i) None 0\<rparr>)))"

section \<open>Attachments\<close>

definition DC_MSG_MAKE_FILENAME_SEARCHABLE :: "int \<Rightarrow> bool" where
  "DC_MSG_MAKE_FILENAME_SEARCHABLE a \<longleftrightarrow> a = DC_MSG_AUDIO \<or> a = DC_MSG_FILE \<or> a = DC_MSG_VIDEO"

definition DC_MSG_MAKE_SUFFIX_SEARCHABLE :: "int \<Rightarrow> bool" where
  "DC_MSG_MAKE_SUFFIX_SEARCHABLE a \<longleftrightarrow> a = DC_MSG_IMAGE \<or> a = DC_MSG_GIF \<or> a = DC_MSG_VOICE"

definition better_type :: "string \<Rightarrow> dc_msg_t \<Rightarrow> dc_msg_t" where
  "better_type path msg =
     (if msg_type msg = DC_MSG_FILE \<or> msg_type msg = DC_MSG_IMAGE then
        let (better_type, better_mime) = dc_msg_guess_msgtype_from_suffix path in
        if better_type \<noteq> 0
        then msg\<lparr>msg_type := better_type, msg_param := dc_param_set (msg_param msg) DC_PARAM_MIMETYPE better_mime\<rparr>
        else msg
      else msg)"

definition image_size :: "(string \<Rightarrow> u8 list option) \<Rightarrow> string \<Rightarrow> dc_msg_t \<Rightarrow> dc_msg_t" where
  "image_size read_file path msg =
     (if (msg_type msg = DC_MSG_IMAGE \<or> msg_type msg = DC_MSG_GIF) \<and>
         (dc_param_get_int (msg_param msg) DC_PARAM_WIDTH 0 \<le> 0 \<or> dc_param_get_int (msg_param msg) DC_PARAM_HEIGHT 0 \<le> 0)
      then
        (case read_file path of None \<Rightarrow> msg
         | Some buf \<Rightarrow>
             (case dc_get_filemeta buf of
                Some (Some (w, h)) \<Rightarrow>
                  msg\<lparr>msg_param := dc_param_set_int (dc_param_set_int (msg_param msg) DC_PARAM_WIDTH (sint w)) DC_PARAM_HEIGHT (sint h)\<rparr>
              | _ \<Rightarrow> msg))
      else msg)"

text \<open>The text under which the message is found in a search.\<close>

definition searchable_text :: "string \<Rightarrow> dc_msg_t \<Rightarrow> dc_msg_t" where
  "searchable_text path msg =
     (if msg_type msg = DC_MSG_AUDIO then
        msg\<lparr>msg_text := Some (dc_get_filename path @ '' '' @
               dc_strdup (dc_param_get (msg_param msg) DC_PARAM_AUTHORNAME (Some [])) @ '' '' @
               dc_strdup (dc_param_get (msg_param msg) DC_PARAM_TRACKNAME (Some [])))\<rparr>
      else if DC_MSG_MAKE_FILENAME_SEARCHABLE (msg_type msg) then msg\<lparr>msg_text := Some (dc_get_filename path)\<rparr>
      else if DC_MSG_MAKE_SUFFIX_SEARCHABLE (msg_type msg) then msg\<lparr>msg_text := dc_get_filesuffix_lc (Some path)\<rparr>
      else msg)"

definition prepare_msg :: "(string \<Rightarrow> u8 list option) \<Rightarrow> dc_msg_t \<Rightarrow> dc_msg_t option" where
  "prepare_msg read_file msg =
     (if msg_type msg = DC_MSG_TEXT then Some msg
      else if DC_MSG_NEEDS_ATTACHMENT (msg_type msg) then
        map_option (\<lambda>path. searchable_text path (image_size read_file path (better_type path msg)))
          (dc_param_get (msg_param msg) DC_PARAM_FILE None)
      else None)"

section \<open>Sending\<close>

definition sd_cb :: "int \<Rightarrow> nat \<Rightarrow> nat \<Rightarrow> send_st \<Rightarrow> send_st" where
  "sd_cb event data1 data2 st = st\<lparr>sd_db := cb (sd_db st) event data1 data2\<rparr>"

definition dc_send_msg_object :: "send_env \<Rightarrow> rnd \<Rightarrow> nat \<Rightarrow> dc_msg_t \<Rightarrow> send_st \<Rightarrow> nat \<times> send_st" where
  "dc_send_msg_object env rnd cid msg st =
     (if cid \<le> DC_CHAT_ID_LAST_SPECIAL then (0, st)
      else
        (case prepare_msg (sv_file env) (msg\<lparr>msg_id := 0, msg_has_context := True\<rparr>) of
           None \<Rightarrow> (0, st)
         | Some msg \<Rightarrow>
             let st = st\<lparr>sd_db := dc_unarchive_chat (sd_db st) cid\<rparr>;
                 (ok, chat) = dc_chat_load_from_db (sv_stock env) dc_chat_new (sd_db st) cid
             in if \<not> ok then (0, sd_cb DC_EVENT_MSGS_CHANGED cid 0 st)
                else
                  let (timestamp, smeared) = dc_create_smeared_timestamp (sd_smeared st) (sv_now env);
                      (i, _, _, st) = dc_send_msg_raw env rnd chat msg timestamp (st\<lparr>sd_smeared := smeared\<rparr>)
                  in if i = 0 then (0, st) else (i, sd_cb DC_EVENT_MSGS_CHANGED cid i st)))"

definition dc_send_text_msg :: "send_env \<Rightarrow> rnd \<Rightarrow> nat \<Rightarrow> cptr \<Rightarrow> send_st \<Rightarrow> nat \<times> send_st" where
  "dc_send_text_msg env rnd cid text_to_send st =
     (if cid \<le> DC_CHAT_ID_LAST_SPECIAL \<or> text_to_send = None then (0, st)
      else dc_send_msg_object env rnd cid (dc_msg_new\<lparr>msg_type := DC_MSG_TEXT, msg_text := text_to_send\<rparr>) st)"

definition dc_send_image_msg :: "send_env \<Rightarrow> rnd \<Rightarrow> nat \<Rightarrow> cptr \<Rightarrow> cptr \<Rightarrow> int \<Rightarrow> int \<Rightarrow> send_st \<Rightarrow> nat \<times> send_st" where
  "dc_send_image_msg env rnd cid file filemime width height st =
     (if cid \<le> DC_CHAT_ID_LAST_SPECIAL \<or> file = None then (0, st)
      else
        let p = dc_param_set dc_param_new DC_PARAM_FILE file;
            p = dc_param_set_int p DC_PARAM_WIDTH width;
            p = dc_param_set_int p DC_PARAM_HEIGHT height
        in dc_send_msg_object env rnd cid (dc_msg_new\<lparr>msg_type := DC_MSG_IMAGE, msg_param := p\<rparr>) st)"

definition dc_send_video_msg ::
    "send_env \<Rightarrow> rnd \<Rightarrow> nat \<Rightarrow> cptr \<Rightarrow> cptr \<Rightarrow> int \<Rightarrow> int \<Rightarrow> int \<Rightarrow> send_st \<Rightarrow> nat \<times> send_st" where
  "dc_send_video_msg env rnd cid file filemime width height duration st =
     (if cid \<le> DC_CHAT_ID_LAST_SPECIAL \<or> file = None then (0, st)
      else
        let p = dc_param_set dc_param_new DC_PARAM_FILE file;
            p = dc_param_set p DC_PARAM_MIMETYPE filemime;
            p = dc_param_set_int p DC_PARAM_WIDTH width;
            p = dc_param_set_int p DC_PARAM_HEIGHT height;
            p = dc_param_set_int p DC_PARAM_DURATION duration
        in dc_send_msg_object env rnd cid (dc_msg_new\<lparr>msg_type := DC_MSG_VIDEO, msg_param := p\<rparr>) st)"

definition dc_send_voice_msg :: "send_env \<Rightarrow> rnd \<Rightarrow> nat \<Rightarrow> cptr \<Rightarrow> cptr \<Rightarrow> int \<Rightarrow> send_st \<Rightarrow> nat \<times> send_st" where
  "dc_send_voice_msg env rnd cid file filemime duration st =
     (if cid \<le> DC_CHAT_ID_LAST_SPECIAL \<or> file = None then (0, st)
      else
        let p = dc_param_set dc_param_new DC_PARAM_FILE file;
            p = dc_param_set p DC_PARAM_MIMETYPE filemime;
            p = dc_param_set_int p DC_PARAM_DURATION duration
        in dc_send_msg_object env rnd cid (dc_msg_new\<lparr>msg_type := DC_MSG_VOICE, msg_param := p\<rparr>) st)"

definition dc_send_audio_msg ::
    "send_env \<Rightarrow> rnd \<Rightarrow> nat \<Rightarrow> cptr \<Rightarrow> cptr \<Rightarrow> int \<Rightarrow> cptr \<Rightarrow> cptr \<Rightarrow> send_st \<Rightarrow> nat \<times> send_st" where
  "dc_send_audio_msg env rnd cid file filemime duration author trackname st =
     (if cid \<le> DC_CHAT_ID_LAST_SPECIAL \<or> file = None then (0, st)
      else
        let p = dc_param_set dc_param_new DC_PARAM_FILE file;
            p = dc_param_set p DC_PARAM_MIMETYPE filemime;
            p = dc_param_set_int p DC_PARAM_DURATION duration;
            p = dc_param_set p DC_PARAM_AUTHORNAME author;
            p = dc_param_set p DC_PARAM_TRACKNAME trackname
        in dc_send_msg_object env rnd cid (dc_msg_new\<lparr>msg_type := DC_MSG_AUDIO, msg_param := p\<rparr>) st)"

definition dc_send_file_msg :: "send_env \<Rightarrow> rnd \<Rightarrow> nat \<Rightarrow> cptr \<Rightarrow> cptr \<Rightarrow> send_st \<Rightarrow> nat \<times> send_st" where
  "dc_send_file_msg env rnd cid file filemime st =
     (if cid \<le> DC_CHAT_ID_LAST_SPECIAL \<or> file = None then (0, st)
      else
        let p = dc_param_set dc_param_new DC_PARAM_FILE file;
            p = dc_param_set p DC_PARAM_MIMETYPE filemime
        in dc_send_msg_object env rnd cid (dc_msg_new\<lparr>msg_type := DC_MSG_FILE, msg_param := p\<rparr>) st)"

definition dc_send_vcard_msg :: "send_env \<Rightarrow> rnd \<Rightarrow> nat \<Rightarrow> nat \<Rightarrow> send_st \<Rightarrow> nat \<times> send_st" where
  "dc_send_vcard_msg env rnd cid contact_id st =
     (if cid \<le> DC_CHAT_ID_LAST_SPECIAL then (0, st)
      else
        (case dc_get_contact (sv_stock env DC_STR_SELF []) (sd_db st) contact_id of
           None \<Rightarrow> (0, st)
         | Some contact \<Rightarrow>
             dc_send_text_msg env rnd cid
               (Some (if set_text (c_authname contact)
                      then dc_strdup (c_authname contact) @ '': '' @ dc_strdup (c_addr contact)
                      else dc_strdup (c_addr contact))) st))"

text \<open>The loop of \<open>dc_forward_msgs\<close>; the chat goes from round to round, its parameters may change.\<close>

definition forwarded_param :: "param \<Rightarrow> param" where
  "forwarded_param p =
     dc_param_set (dc_param_set (dc_param_set_int p DC_PARAM_FORWARDED 1) DC_PARAM_GUARANTEE_E2EE None) DC_PARAM_FORCE_PLAINTEXT None"

fun forward_loop ::
    "send_env \<Rightarrow> (nat \<Rightarrow> rnd) \<Rightarrow> dc_chat_t \<Rightarrow> dc_msg_t \<Rightarrow> int \<Rightarrow> nat list \<Rightarrow> nat list \<Rightarrow> send_st \<Rightarrow> nat list \<times> send_st option" where
  "forward_loop env rnd chat msg timestamp created [] st = (created, Some st)"
| "forward_loop env rnd chat msg timestamp created (i # is) st =
     (let (ok, msg) = dc_msg_load_from_db msg (sd_db st) i in
      if \<not> ok then (created, None)
      else
        let msg = msg\<lparr>msg_param := forwarded_param (msg_param msg)\<rparr>;
            (new_msg_id, chat, msg, st) = dc_send_msg_raw env (rnd i) chat msg timestamp st
        in forward_loop env rnd chat msg (timestamp + 1) (created @ [new_msg_id]) is st)"

text \<open>If a message cannot be loaded the transaction is rolled back.\<close>

definition dc_forward_msgs :: "send_env \<Rightarrow> (nat \<Rightarrow> rnd) \<Rightarrow> nat list \<Rightarrow> nat \<Rightarrow> send_st \<Rightarrow> send_st" where
  "dc_forward_msgs env rnd msg_ids cid st0 =
     (if msg_ids = [] \<or> cid \<le> DC_CHAT_ID_LAST_SPECIAL then st0
      else
        let st = st0\<lparr>sd_db := dc_unarchive_chat (sd_db st0) cid\<rparr>;
            (ok, chat) = dc_chat_load_from_db (sv_stock env) dc_chat_new (sd_db st) cid
        in if \<not> ok then st0
           else
             let (timestamp, smeared) = dc_create_smeared_timestamps (sd_smeared st) (sv_now env) (int (length msg_ids));
                 st = st\<lparr>sd_smeared := smeared\<rparr>;
                 ids = map ms_id (sort_key msg_rank (filter (\<lambda>m. ms_id m \<in> set msg_ids) (db_msgs (sd_db st))));
                 (created, r) = forward_loop env rnd chat dc_msg_new timestamp [] ids st;
                 st = (case r of None \<Rightarrow> st0\<lparr>sd_smeared := smeared\<rparr> | Some st \<Rightarrow> st)
             in foldl (\<lambda>st i. sd_cb DC_EVENT_MSGS_CHANGED cid i st) st created)"

section \<open>What is sent\<close>

lemma prefer_loop_spec:
  "prefer_loop (c, a) ps = (c \<and> None \<notin> set ps, a \<and> (\<forall>p \<in> set ps. p = Some DC_PE_MUTUAL))"
  by (induction "(c, a)" ps arbitrary: c a rule: prefer_loop.induct) auto

lemma guarantee_iff:
  "do_guarantee_e2ee env db cid p \<longleftrightarrow>
     sv_e2ee env \<and> dc_param_get_int p DC_PARAM_FORCE_PLAINTEXT 0 = 0 \<and> None \<notin> set (member_prefers (sv_peers env) db cid) \<and>
     ((\<forall>q \<in> set (member_prefers (sv_peers env) db cid). q = Some DC_PE_MUTUAL) \<or> last_msg_in_chat_encrypted db cid)"
  by (auto simp: do_guarantee_e2ee_def prefer_loop_spec split: if_splits)

lemma guarantee_cong:
  assumes "db_contacts db' = db_contacts db" "db_chats_contacts db' = db_chats_contacts db" "db_msgs db' = db_msgs db"
  shows "do_guarantee_e2ee env db' cid p = do_guarantee_e2ee env db cid p"
proof -
  have "member_prefers (sv_peers env) db' cid = member_prefers (sv_peers env) db cid"
    using assms by (simp add: member_prefers_def)
  moreover have "last_msg_in_chat_encrypted db' cid = last_msg_in_chat_encrypted db cid"
    using assms by (simp add: last_msg_in_chat_encrypted_def split: list.split)
  ultimately show ?thesis by (simp add: guarantee_iff)
qed

lemma promoted_db_simps [simp]:
  "db_msgs (promoted_db chat db) = db_msgs db" "db_contacts (promoted_db chat db) = db_contacts db"
  "db_chats_contacts (promoted_db chat db) = db_chats_contacts db" "db_config (promoted_db chat db) = db_config db"
  by (simp_all add: promoted_db_def dc_chat_update_param_def update_chat_def)

definition outgoing_mid :: "rnd \<Rightarrow> dc_chat_t \<Rightarrow> database \<Rightarrow> string" where
  "outgoing_mid rnd chat db =
     dc_create_outgoing_rfc724_mid (if DC_CHAT_TYPE_IS_MULTI (chat_type chat) then chat_grpid chat else None)
       (dc_strdup (dc_sqlite3_get_config (db_config db) (Some ''configured_addr'') None)) (fst rnd) (snd rnd)"

definition may_send :: "dc_chat_t \<Rightarrow> database \<Rightarrow> bool" where
  "may_send chat db \<longleftrightarrow> DC_CHAT_TYPE_CAN_SEND (chat_type chat) \<and>
     (DC_CHAT_TYPE_IS_MULTI (chat_type chat) \<longrightarrow> dc_is_contact_in_chat db (chat_id chat) DC_CONTACT_ID_SELF) \<and>
     dc_sqlite3_get_config (db_config db) (Some ''configured_addr'') None \<noteq> None \<and>
     (chat_type chat = DC_CHAT_TYPE_SINGLE \<longrightarrow> chat_id chat \<in> fst ` set (db_chats_contacts db))"

lemma next_rowid_pos [simp]: "next_rowid ids \<noteq> 0"
  by (simp add: next_rowid_def)

lemma msg_rowid_insert:
  "\<forall>m \<in> set (db_msgs db). ms_rfc724_mid m \<noteq> mid \<Longrightarrow>
    msg_rowid (insert_sent mid cid to t msg db) mid = next_rowid (map ms_id (db_msgs db))"
proof -
  assume a: "\<forall>m \<in> set (db_msgs db). ms_rfc724_mid m \<noteq> mid"
  have "find P (xs @ ys) = (case find P xs of None \<Rightarrow> find P ys | r \<Rightarrow> r)" for P and xs ys :: "msg_row list"
    by (induction xs) auto
  moreover have "find (\<lambda>m. ms_rfc724_mid m = mid) (db_msgs db) = None" using a by (simp add: find_None_iff)
  ultimately show ?thesis by (simp add: msg_rowid_def insert_sent_def)
qed

lemma promoted_simps [simp]: "chat_id (promoted chat) = chat_id chat" "chat_type (promoted chat) = chat_type chat"
  by (simp_all add: promoted_def)

lemma sent_param_promoted [simp]: "sent_param env (promoted chat) (promoted_db chat db) p = sent_param env chat db p"
  using guarantee_cong [of "promoted_db chat db" db env "chat_id chat"] by (simp add: sent_param_def)

lemma find_member: "find (\<lambda>(ch, ct). ch = c) ps = None \<longleftrightarrow> c \<notin> fst ` set ps"
  by (force simp: find_None_iff)

lemma sent_ok_raw:
  assumes "may_send chat (sd_db st)"
  obtains to_id where "dc_send_msg_raw env rnd chat msg t st =
    (let msg' = msg\<lparr>msg_param := sent_param env chat (sd_db st) (msg_param msg)\<rparr>;
         db' = insert_sent (outgoing_mid rnd chat (sd_db st)) (chat_id chat) to_id t msg' (promoted_db chat (sd_db st));
         i = msg_rowid db' (outgoing_mid rnd chat (sd_db st))
     in (i, promoted chat, msg', st\<lparr>sd_db := db',
           sd_jobs := dc_job_add (sv_now env) (sd_jobs st) DC_JOB_SEND_MSG_TO_SMTP (int i) None 0\<rparr>))"
proof -
  let ?db = "sd_db st"
  obtain frm where cfg: "dc_sqlite3_get_config (db_config ?db) (Some ''configured_addr'') None = Some frm"
    using assms by (auto simp: may_send_def)
  then have mid: "dc_create_outgoing_rfc724_mid (if DC_CHAT_TYPE_IS_MULTI (chat_type chat) then chat_grpid chat else None)
      frm (fst rnd) (snd rnd) = outgoing_mid rnd chat ?db"
    by (simp add: outgoing_mid_def dc_strdup_def)
  let ?to = "if chat_type chat = DC_CHAT_TYPE_SINGLE
      then map_option snd (find (\<lambda>(ch, ct). ch = chat_id chat) (db_chats_contacts ?db)) else Some 0"
  have "?to \<noteq> None"
  proof (cases "chat_type chat = DC_CHAT_TYPE_SINGLE")
    case True
    then have "find (\<lambda>(ch, ct). ch = chat_id chat) (db_chats_contacts ?db) \<noteq> None"
      using assms find_member [of "chat_id chat" "db_chats_contacts ?db"] by (auto simp: may_send_def)
    then show ?thesis using True by simp
  qed simp
  then obtain to_id where to: "?to = Some to_id" by blast
  from assms have c: "DC_CHAT_TYPE_CAN_SEND (chat_type chat)"
    "\<not> (DC_CHAT_TYPE_IS_MULTI (chat_type chat) \<and> \<not> dc_is_contact_in_chat ?db (chat_id chat) DC_CONTACT_ID_SELF)"
    by (auto simp: may_send_def)
  show thesis
    by (rule that [of to_id])
      (simp only: dc_send_msg_raw_def Let_def c cfg to mid if_False if_True not_True_eq_False option.case sent_param_promoted)
qed

lemma refused_raw:
  assumes "\<not> may_send chat (sd_db st)"
  shows "dc_send_msg_raw env rnd chat msg t st = (0, chat, msg, st)"
proof (cases "DC_CHAT_TYPE_CAN_SEND (chat_type chat) \<and>
     (DC_CHAT_TYPE_IS_MULTI (chat_type chat) \<longrightarrow> dc_is_contact_in_chat (sd_db st) (chat_id chat) DC_CONTACT_ID_SELF) \<and>
     dc_sqlite3_get_config (db_config (sd_db st)) (Some ''configured_addr'') None \<noteq> None")
  case True
  then have "chat_type chat = DC_CHAT_TYPE_SINGLE" "find (\<lambda>(ch, ct). ch = chat_id chat) (db_chats_contacts (sd_db st)) = None"
    using assms by (auto simp: may_send_def find_member)
  with True show ?thesis by (auto simp: dc_send_msg_raw_def)
next
  case False
  then show ?thesis by (auto simp: dc_send_msg_raw_def Let_def)
qed

lemma msg_keys: "okk DC_PARAM_GUARANTEE_E2EE" "okk DC_PARAM_ERRONEOUS_E2EE" "okk DC_PARAM_FORCE_PLAINTEXT"
  "okk DC_PARAM_FORWARDED" "okk DC_PARAM_CMD"
  by (simp_all add: okk_def c_isspace_def)

lemma del_get_int: "param_ok p \<Longrightarrow> okk k \<Longrightarrow> okk j \<Longrightarrow> j \<noteq> k \<Longrightarrow>
  dc_param_get_int (dc_param_set p k None) j d = dc_param_get_int p j d"
  by (simp add: dc_param_get_int_def params.get_del_other)

lemma sent_param_guarantee:
  assumes "param_ok p"
  shows "dc_param_get_int (sent_param env chat db p) DC_PARAM_GUARANTEE_E2EE 0 =
    (if do_guarantee_e2ee env db (chat_id chat) p then 1 else dc_param_get_int p DC_PARAM_GUARANTEE_E2EE 0)"
  using assms msg_keys
  by (simp add: sent_param_def del_get_int set_int_ok get_set_int int32_range_def)

lemma sent_param_other:
  assumes "param_ok p" "okk k" "k \<noteq> DC_PARAM_GUARANTEE_E2EE" "k \<noteq> DC_PARAM_ERRONEOUS_E2EE"
  shows "dc_param_get (sent_param env chat db p) k None = dc_param_get p k None"
  using assms msg_keys
  by (simp add: sent_param_def dc_param_set_int_def params.store_laws)

lemma dc_job_add_smtp:
  "dc_job_add now c DC_JOB_SEND_MSG_TO_SMTP i None 0 =
     c\<lparr>jc_jobs := jc_jobs c @
          [\<lparr>j_id = next_rowid (map j_id (jc_jobs c)), j_added = now, j_desired = 0,
            j_action = DC_JOB_SEND_MSG_TO_SMTP, j_foreign = i, j_param = [], j_thread = DC_SMTP_THREAD\<rparr>],
       jc_smtp_needed := DC_JOBS_NEEDED_AT_ONCE, jc_condflag := True\<rparr>"
  by (simp add: dc_job_add_def job_thread_def dc_interrupt_smtp_idle_def Let_def)

text \<open>The SMTP job sends plain text only where \<open>GUARANTEE_E2EE\<close> is not set.\<close>

lemma smtp_plain: "Smtp_Send False \<in> set (new_effects c (snd (dc_job_do_SEND_MSG_TO_SMTP now senv job c))) \<Longrightarrow>
  se_guarantee_e2ee senv = 0"
  by (auto simp: dc_job_do_SEND_MSG_TO_SMTP_def sent_ok_def new_effects_def Let_def split: if_splits)

lemma sent_row:
  assumes "may_send chat (sd_db st)" "\<forall>m \<in> set (db_msgs (sd_db st)). ms_rfc724_mid m \<noteq> outgoing_mid rnd chat (sd_db st)"
  shows "\<exists>row j st'. dc_send_msg_raw env rnd chat msg t st =
      (ms_id row, promoted chat, msg\<lparr>msg_param := sent_param env chat (sd_db st) (msg_param msg)\<rparr>, st') \<and>
    db_msgs (sd_db st') = db_msgs (sd_db st) @ [row] \<and> jc_jobs (sd_jobs st') = jc_jobs (sd_jobs st) @ [j] \<and>
    ms_id row = next_rowid (map ms_id (db_msgs (sd_db st))) \<and> ms_chat_id row = chat_id chat \<and>
    ms_from_id row = DC_CONTACT_ID_SELF \<and> ms_state row = DC_STATE_OUT_PENDING \<and> ms_type row = msg_type msg \<and>
    ms_txt row = dc_strdup (msg_text msg) \<and> ms_param row = sent_param env chat (sd_db st) (msg_param msg) \<and>
    j_action j = DC_JOB_SEND_MSG_TO_SMTP \<and> j_foreign j = int (ms_id row)"
proof -
  let ?mid = "outgoing_mid rnd chat (sd_db st)"
  obtain to_id where r: "dc_send_msg_raw env rnd chat msg t st =
    (let msg' = msg\<lparr>msg_param := sent_param env chat (sd_db st) (msg_param msg)\<rparr>;
         db' = insert_sent ?mid (chat_id chat) to_id t msg' (promoted_db chat (sd_db st));
         i = msg_rowid db' ?mid
     in (i, promoted chat, msg', st\<lparr>sd_db := db',
           sd_jobs := dc_job_add (sv_now env) (sd_jobs st) DC_JOB_SEND_MSG_TO_SMTP (int i) None 0\<rparr>))"
    using sent_ok_raw [OF assms(1)] by metis
  have "\<forall>m \<in> set (db_msgs (promoted_db chat (sd_db st))). ms_rfc724_mid m \<noteq> ?mid" using assms(2) by simp
  note i = msg_rowid_insert [OF this]
  show ?thesis unfolding r Let_def i dc_job_add_smtp
    by (auto simp: insert_sent_def dc_strdup_def split: option.split)
qed

text \<open>
  C16: A message that is handed in becomes exactly one pending row and one job for the SMTP thread.  It is guaranteed to
  be encrypted exactly when encryption is on and not forbidden for this message, every member of the chat has a peer
  state, and all of them prefer encryption or the last message was encrypted; and a job that acts on this guarantee
  never sends the message as plain text.
\<close>

theorem guarantee_from_send_to_smtp:
  assumes "may_send chat (sd_db st)" "\<forall>m \<in> set (db_msgs (sd_db st)). ms_rfc724_mid m \<noteq> outgoing_mid rnd chat (sd_db st)"
    "param_ok (msg_param msg)" "dc_param_get_int (msg_param msg) DC_PARAM_GUARANTEE_E2EE 0 = 0"
  shows "\<exists>i chat' msg' st' row j. dc_send_msg_raw env rnd chat msg t st = (i, chat', msg', st') \<and>
    db_msgs (sd_db st') = db_msgs (sd_db st) @ [row] \<and> jc_jobs (sd_jobs st') = jc_jobs (sd_jobs st) @ [j] \<and>
    i = ms_id row \<and> j_action j = DC_JOB_SEND_MSG_TO_SMTP \<and> j_foreign j = int i \<and> ms_state row = DC_STATE_OUT_PENDING \<and>
    ms_chat_id row = chat_id chat \<and> ms_from_id row = DC_CONTACT_ID_SELF \<and> ms_txt row = dc_strdup (msg_text msg) \<and>
    (dc_param_get_int (ms_param row) DC_PARAM_GUARANTEE_E2EE 0 \<noteq> 0 \<longleftrightarrow>
       sv_e2ee env \<and> dc_param_get_int (msg_param msg) DC_PARAM_FORCE_PLAINTEXT 0 = 0 \<and>
       None \<notin> set (member_prefers (sv_peers env) (sd_db st) (chat_id chat)) \<and>
       ((\<forall>q \<in> set (member_prefers (sv_peers env) (sd_db st) (chat_id chat)). q = Some DC_PE_MUTUAL) \<or>
        last_msg_in_chat_encrypted (sd_db st) (chat_id chat))) \<and>
    (\<forall>now senv job c. se_guarantee_e2ee senv = dc_param_get_int (ms_param row) DC_PARAM_GUARANTEE_E2EE 0 \<longrightarrow>
       se_guarantee_e2ee senv \<noteq> 0 \<longrightarrow> Smtp_Send False \<notin> set (new_effects c (snd (dc_job_do_SEND_MSG_TO_SMTP now senv job c))))"
  using sent_row [OF assms(1,2), of env msg t] sent_param_guarantee [OF assms(3), of env chat "sd_db st"] assms(4) smtp_plain
  by (auto simp: guarantee_iff)

section \<open>Where the last message is looked for\<close>


section \<open>Forwarding\<close>

lemma unarchive_simps [simp]: "db_msgs (dc_unarchive_chat db cid) = db_msgs db"
  "db_contacts (dc_unarchive_chat db cid) = db_contacts db" "db_mdns (dc_unarchive_chat db cid) = db_mdns db"
  by (simp_all add: dc_unarchive_chat_def update_chat_def)

lemma unarchive_blocked [simp]: "joined_blocked (dc_unarchive_chat db cid) m = joined_blocked db m"
  by (auto simp: joined_blocked_def chat_row_of_def dc_unarchive_chat_def update_chat_def find_map split: option.split)

lemma filter_one: "distinct (map f xs) \<Longrightarrow> find (\<lambda>x. f x = i) xs = Some y \<Longrightarrow> filter (\<lambda>x. f x = i) xs = [y]"
proof (induction xs)
  case (Cons x xs)
  show ?case
  proof (cases "f x = i")
    case True
    then have "filter (\<lambda>z. f z = i) xs = []" using Cons.prems(1) by (auto simp: filter_empty_conv) (metis image_eqI)
    then show ?thesis using True Cons.prems(2) by simp
  qed (use Cons in auto)
qed simp

lemma sd_cb_msgs [simp]: "db_msgs (sd_db (sd_cb e x y st)) = db_msgs (sd_db st)"
  by (simp add: sd_cb_def cb_def)

lemma forwarded_param_facts:
  assumes "param_ok p"
  shows "param_ok (forwarded_param p)" "dc_param_get_int (forwarded_param p) DC_PARAM_FORWARDED 0 = 1"
    "okk k \<Longrightarrow> k \<notin> {DC_PARAM_FORWARDED, DC_PARAM_GUARANTEE_E2EE, DC_PARAM_FORCE_PLAINTEXT} \<Longrightarrow>
      dc_param_get (forwarded_param p) k None = dc_param_get p k None"
  using assms msg_keys
  by (simp_all add: forwarded_param_def params.store_laws set_int_ok del_get_int get_set_int int32_range_def)
    (simp_all add: dc_param_set_int_def params.store_laws)

lemma loaded_param: "dc_msg_load_from_db msg db i = (True, m) \<Longrightarrow> find_msg db i = Some r \<Longrightarrow>
  msg_param m = ms_param r \<and> msg_text m = Some (if joined_blocked db r = 2 then dc_truncate_n_unwrap_str (ms_txt r) 256 False else ms_txt r)"
  by (auto simp: dc_msg_load_from_db_def dc_msg_set_from_stmt_def Let_def dc_param_set_packed_def dc_strdup_def)


text \<open>The group that a message is forwarded to, as it is loaded when the transaction has begun.\<close>

definition target_chat :: "send_env \<Rightarrow> database \<Rightarrow> nat \<Rightarrow> dc_chat_t" where
  "target_chat env db cid = snd (dc_chat_load_from_db (sv_stock env) dc_chat_new (dc_unarchive_chat db cid) cid)"

definition forwardable :: "send_env \<Rightarrow> database \<Rightarrow> nat \<Rightarrow> bool" where
  "forwardable env db cid \<longleftrightarrow> cid > DC_CHAT_ID_LAST_SPECIAL \<and>
     fst (dc_chat_load_from_db (sv_stock env) dc_chat_new (dc_unarchive_chat db cid) cid) \<and>
     may_send (target_chat env db cid) (dc_unarchive_chat db cid)"

lemma forward_one:
  assumes "forwardable env (sd_db st) cid" "distinct (map ms_id (db_msgs (sd_db st)))" "find_msg (sd_db st) i = Some src"
  shows "\<exists>msg t smeared. msg_param msg = forwarded_param (ms_param src) \<and>
    msg_text msg = Some (if joined_blocked (sd_db st) src = 2 then dc_truncate_n_unwrap_str (ms_txt src) 256 False else ms_txt src) \<and>
    msg_type msg = ms_type src \<and>
    db_msgs (sd_db (dc_forward_msgs env rnd [i] cid st)) =
      db_msgs (sd_db (snd (snd (snd (dc_send_msg_raw env (rnd i) (target_chat env (sd_db st) cid) msg t
        (st\<lparr>sd_db := dc_unarchive_chat (sd_db st) cid, sd_smeared := smeared\<rparr>))))))"
proof -
  let ?db = "dc_unarchive_chat (sd_db st) cid" and ?chat = "target_chat env (sd_db st) cid"
  obtain t smeared where ts: "dc_create_smeared_timestamps (sd_smeared st) (sv_now env) 1 = (t, smeared)" by force
  have ld: "dc_chat_load_from_db (sv_stock env) dc_chat_new ?db cid = (True, ?chat)"
    using assms(1) by (auto simp: forwardable_def target_chat_def prod_eq_iff)
  have f: "filter (\<lambda>m. ms_id m \<in> set [i]) (db_msgs ?db) = [src]"
    using filter_one [OF assms(2)] assms(3) by (simp add: find_msg_def)
  have i: "ms_id src = i" using assms(3) by (auto simp: find_msg_def find_Some_iff)
  obtain m where m: "dc_msg_load_from_db dc_msg_new ?db i = (True, m)"
    using assms(3) by (auto simp: dc_msg_load_from_db_def find_msg_def)
  have fm: "find_msg ?db i = Some src" using assms(3) by (simp add: find_msg_def)
  have ty: "msg_type m = ms_type src" using m fm by (auto simp: dc_msg_load_from_db_def dc_msg_set_from_stmt_def Let_def)
  let ?msg = "m\<lparr>msg_param := forwarded_param (msg_param m)\<rparr>"
    and ?st = "st\<lparr>sd_db := ?db, sd_smeared := smeared\<rparr>"
  obtain n c' m' st' where r: "dc_send_msg_raw env (rnd i) ?chat ?msg t ?st = (n, c', m', st')"
    by (metis prod_cases4)
  have "dc_forward_msgs env rnd [i] cid st = sd_cb DC_EVENT_MSGS_CHANGED cid n st'"
    using assms(1) by (simp add: dc_forward_msgs_def forwardable_def Let_def ld ts f [simplified] i m r)
  then show ?thesis
    using loaded_param [OF m fm] r ty by (intro exI [of _ ?msg] exI [of _ t] exI [of _ smeared]) simp
qed


section \<open>Witnesses\<close>

definition sample_env :: send_env where
  "sample_env = \<lparr>sv_now = 100, sv_peers = [], sv_e2ee = True, sv_file = (\<lambda>_. None), sv_stock = (\<lambda>_ _. [])\<rparr>"

definition sample_st :: send_st where
  "sample_st = \<lparr>sd_db = four_of_us\<lparr>db_msgs := db_msgs four_of_us @ [(sample_msg 15 10 20 DC_STATE_IN_SEEN)\<lparr>ms_param := ''S=5''\<rparr>]\<rparr>,
     sd_jobs = sample_queue [], sd_smeared = 0\<rparr>"

definition sample_rnd :: rnd where
  "sample_rnd = ((1, 2, 3), (4, 5, 6))"

definition group_ten :: dc_chat_t where
  "group_ten = dc_chat_new\<lparr>chat_id := 10, chat_type := DC_CHAT_TYPE_GROUP, chat_grpid := Some ''abcdefghijk''\<rparr>"

lemma guarantee_from_send_to_smtp_witness:
  "\<exists>row. db_msgs (sd_db (snd (snd (snd (dc_send_msg_raw sample_env sample_rnd group_ten
      (dc_msg_new\<lparr>msg_type := DC_MSG_TEXT, msg_text := Some ''hello''\<rparr>) 100 sample_st))))) = db_msgs (sd_db sample_st) @ [row] \<and>
    ms_txt row = ''hello'' \<and> dc_param_get_int (ms_param row) DC_PARAM_GUARANTEE_E2EE 0 = 0"
proof -
  have m: "may_send group_ten (sd_db sample_st)" by code_simp
  have "list_all (\<lambda>m. ms_rfc724_mid m \<noteq> outgoing_mid sample_rnd group_ten (sd_db sample_st)) (db_msgs (sd_db sample_st))"
    by code_simp
  then have f: "\<forall>m \<in> set (db_msgs (sd_db sample_st)). ms_rfc724_mid m \<noteq> outgoing_mid sample_rnd group_ten (sd_db sample_st)"
    by (simp add: list_all_iff)
  have n: "None \<in> set (member_prefers (sv_peers sample_env) (sd_db sample_st) (chat_id group_ten))" by code_simp
  have z: "dc_param_get_int dc_param_new DC_PARAM_GUARANTEE_E2EE 0 = 0" by code_simp
  show ?thesis
    using guarantee_from_send_to_smtp [OF m f, of "dc_msg_new\<lparr>msg_type := DC_MSG_TEXT, msg_text := Some ''hello''\<rparr>" sample_env 100] n z
    by (auto simp: dc_msg_new_def dc_strdup_def)
qed



end
