(* ===== verification/Uudecode.thy ===== *)
theory Uudecode
  imports Tools
begin

text \<open>
  \<open>src/dc_uudecode.c\<close>: the first uuencoded part of a text is taken out and decoded.  A read or a write out of bounds
  is \<open>None\<close>.  The decoded bytes are characters that may be null bytes.
\<close>

section \<open>Lines\<close>

text \<open>The line with its line feed and what follows it; without a line feed there is no line.\<close>

definition dc_getline :: "string \<Rightarrow> (string \<times> string) option" where
  "dc_getline source =
     (case strchr source NL of
        None \<Rightarrow> None
      | Some p \<Rightarrow> Some (take (length source - length p + 1) source, tl p))"

lemma getline_shorter: "dc_getline s = Some (line, rest) \<Longrightarrow> length rest < length s"
proof -
  assume a: "dc_getline s = Some (line, rest)"
  then obtain p where p: "strchr s NL = Some p" "rest = tl p" by (auto simp: dc_getline_def split: option.splits)
  from p(1) have "p \<noteq> [] \<and> length p \<le> length s" by (induction s) (auto split: if_splits)
  with p(2) show ?thesis by (cases p) auto
qed

definition dc_uu_check_line :: "int \<Rightarrow> int \<Rightarrow> bool" where
  "dc_uu_check_line n line_len = (if n > 0 then line_len = (n + 2) div 3 * 4 + 1 else False)"

section \<open>Decoding\<close>

definition DEC :: "char \<Rightarrow> u8" where
  "DEC c = (of_char c - 0x20) AND 0x3F"

definition uu_bytes :: "char \<Rightarrow> char \<Rightarrow> char \<Rightarrow> char \<Rightarrow> string" where
  "uu_bytes a b c d =
     [char_of (unat (push_bit 2 (DEC a) OR drop_bit 4 (DEC b))),
      char_of (unat (push_bit 4 (DEC b) OR drop_bit 2 (DEC c))),
      char_of (unat (push_bit 6 (DEC c) OR DEC d))]"

text \<open>The loop over a line behind its first character; a checked line has four characters for each round.\<close>

fun uu_line :: "nat \<Rightarrow> string \<Rightarrow> string" where
  "uu_line n (a # b # c # d # p) =
     (if n \<ge> 3 then uu_bytes a b c d @ uu_line (n - 3) p else take n (uu_bytes a b c d))"
| "uu_line n p = []"

definition small_count_text :: "nat \<Rightarrow> int \<Rightarrow> string" where
  "small_count_text n_cur_line n_enc_bytes =
     ''  dc_uudecode() -  *** stop decoding in line '' @ show_nat n_cur_line @ '' ***'' @ [NL] @
     ''  Error:           *** 1st char not M or too small, n_enc_bytes='' @ show_int n_enc_bytes @ '' ***'' @ [NL]"

definition line_len_text :: "nat \<Rightarrow> int \<Rightarrow> int \<Rightarrow> string" where
  "line_len_text n_cur_line n_enc_bytes line_len =
     ''  dc_uudecode() -  *** stop decoding in line '' @ show_nat n_cur_line @ '' ***'' @ [NL] @
     ''  Error:           *** invalid line len, n_enc_bytes='' @ show_int n_enc_bytes @ '', line_len='' @
     show_int line_len @ '' ***'' @ [NL]"

text \<open>
  The loop over the lines: \<open>out\<close> is what has been written to the buffer of \<open>buflen\<close> bytes; the value is the text of an
  error or the decoded bytes.
\<close>

function uu_lines :: "nat \<Rightarrow> bool \<Rightarrow> nat \<Rightarrow> string \<Rightarrow> string \<Rightarrow> string + string" where
  "uu_lines buflen backquote_found n_cur_line out source =
     (case dc_getline source of
        None \<Rightarrow> Inr out
      | Some (line, nextline) \<Rightarrow>
          if hd line = CHR 0x60 \<and> length line - 1 = 1 then uu_lines buflen True (n_cur_line + 1) out nextline
          else if backquote_found \<and> starts_with ''end'' line then Inr out
          else
            let n_enc_bytes = uint (DEC (hd line)); line_len = int (length line) - 1 in
            if n_enc_bytes \<le> 0 then Inl (small_count_text (n_cur_line + 1) n_enc_bytes)
            else if \<not> dc_uu_check_line n_enc_bytes line_len
              then Inl (line_len_text (n_cur_line + 1) n_enc_bytes line_len)
            else uu_lines buflen backquote_found (n_cur_line + 1)
              (if length out < buflen - 3 then out @ uu_line (nat n_enc_bytes) (tl line) else out) nextline)"
  by pat_completeness auto
termination
  by (relation "measure (\<lambda>(buflen, b, n, out, source). length source)") (auto dest: getline_shorter)

declare uu_lines.simps [simp del]

definition dc_uudecode :: "nat \<Rightarrow> string \<Rightarrow> string + string" where
  "dc_uudecode uudecoding_buffer_len uu_body_start = uu_lines uudecoding_buffer_len False 0 [] uu_body_start"

section \<open>Finding the part\<close>

text \<open>
  The text behind \<open>begin \<close> is read at the ninth position whether or not it is that long: at the end of the text this
  is out of bounds.
\<close>

definition dc_find_uuencoded_part :: "string \<Rightarrow> cptr option" where
  "dc_find_uuencoded_part msgtxt =
     (case strstr msgtxt ''begin '' of
        None \<Rightarrow> Some None
      | Some p \<Rightarrow> if length p < 9 then None
                   else Some (if length p > 9 \<and> p ! 9 = CHR '' '' then Some p else None))"

definition c_isoctal :: "char \<Rightarrow> bool" where
  "c_isoctal c \<longleftrightarrow> 48 \<le> byte_of c \<and> byte_of c \<le> 55"

text \<open>\<open>sscanf(line, "begin %o %[^\n]", &mode, filename)\<close> when both are read; the number is kept in 32 bits.\<close>

definition scan_begin :: "string \<Rightarrow> (int \<times> string) option" where
  "scan_begin line =
     (let p = dropWhile c_isspace (drop 5 line);
          neg = (p \<noteq> [] \<and> hd p = CHR ''-'');
          q = (if p \<noteq> [] \<and> (hd p = CHR ''-'' \<or> hd p = CHR ''+'') then tl p else p);
          digits = takeWhile c_isoctal q;
          v = min (foldl (\<lambda>v d. 8 * v + (int (byte_of d) - 48)) 0 digits) (2 ^ 64 - 1);
          filename = takeWhile (\<lambda>c. c \<noteq> NL) (dropWhile c_isspace (dropWhile c_isoctal q))
      in if digits = [] \<or> filename = [] then None
         else Some (to_int32 (if neg then - v else v), filename))"

definition filename_size :: nat where "filename_size = 200"

definition uu_hint :: "string \<Rightarrow> string" where
  "uu_hint filename = ''[uuencoded attachment] - file: '' @ filename @ [NL]"

definition uu_error_hint :: "string \<Rightarrow> string" where
  "uu_error_hint filename = ''[uuencoded attachment] - errors in file: '' @ filename @ [NL]"

definition uu_error_name :: "string \<Rightarrow> string" where
  "uu_error_name filename = filename @ ''.uu-error.txt''"

text \<open>The new text, the bytes and the file name; \<open>first\<close> is the text in front of the part.\<close>

definition uu_replaced :: "string \<Rightarrow> string \<Rightarrow> string \<Rightarrow> string \<Rightarrow> (string \<times> string \<times> string) option option" where
  "uu_replaced first filename uu_body_start uu_body_end =
     (case dc_uudecode ((length uu_body_start - length uu_body_end) * 3 div 4 + 45) uu_body_start of
        Inr binary \<Rightarrow>
          if binary \<noteq> [] then Some (Some (first @ uu_hint filename @ uu_body_end, binary, filename))
          else if length (uu_error_name filename) \<ge> filename_size then None
          else Some (Some (first @ uu_error_hint (uu_error_name filename) @ uu_body_end, [], uu_error_name filename))
      | Inl err \<Rightarrow>
          if length (uu_error_name filename) \<ge> filename_size then None
          else Some (Some (first @ uu_error_hint (uu_error_name filename) @ uu_body_end, err, uu_error_name filename)))"

definition dc_handle_uuencoded_part :: "string \<Rightarrow> string \<Rightarrow> (string \<times> string \<times> string) option option" where
  "dc_handle_uuencoded_part msgtxt uu_msg_start_pos =
     (case dc_getline uu_msg_start_pos of
        None \<Rightarrow> Some None
      | Some (line, uu_body_start) \<Rightarrow>
          (case scan_begin line of
             None \<Rightarrow> Some None
           | Some (mode, filename) \<Rightarrow>
               if length filename \<ge> filename_size then None
               else if \<not> (0 < mode \<and> mode < 778) then Some None
               else
                 (case strstr uu_body_start (CHR 0x60 # NL # ''end'' @ [NL]) of
                    None \<Rightarrow> Some None
                  | Some e \<Rightarrow>
                      uu_replaced (take (length msgtxt - length uu_msg_start_pos) msgtxt) filename uu_body_start (drop 6 e))))"

definition dc_uudecode_do :: "string \<Rightarrow> (string \<times> string \<times> string) option option" where
  "dc_uudecode_do txt =
     (case dc_find_uuencoded_part txt of
        None \<Rightarrow> None
      | Some None \<Rightarrow> Some None
      | Some (Some _) \<Rightarrow>
          let txt = dc_unify_lineends txt in
          (case dc_find_uuencoded_part txt of
             None \<Rightarrow> None
           | Some None \<Rightarrow> Some None
           | Some (Some p) \<Rightarrow> dc_handle_uuencoded_part txt p))"

end
