(* ===== verification/Mime.thy ===== *)
theory Mime
  imports Uudecode Simplify Sending
begin

text \<open>
  \<open>src/dc_mimeparser.c\<close>: from the MIME tree of a mail to its parts, its header and what the header says of the mail.

  The tree and the header fields are data of libetpan, given as datatypes; its lists have no \<open>NULL\<close> entries.  What
  libetpan computes (\<open>mailmime_part_parse\<close>, the parsers of header texts, the conversion of character sets) is a record of
  functions, \<open>mime_env\<close>.  A date is the time that \<open>dc_timestamp_from_date\<close> gives for it.  Files that the parser writes are
  a list of paths and contents.
\<close>

abbreviation DC_PARAM_WANTS_MDN :: char where "DC_PARAM_WANTS_MDN \<equiv> CHR ''r''"
abbreviation DC_MIMETYPE_MP_ALTERNATIVE :: int where "DC_MIMETYPE_MP_ALTERNATIVE \<equiv> 10"
abbreviation DC_MIMETYPE_MP_RELATED :: int where "DC_MIMETYPE_MP_RELATED \<equiv> 20"
abbreviation DC_MIMETYPE_MP_MIXED :: int where "DC_MIMETYPE_MP_MIXED \<equiv> 30"
abbreviation DC_MIMETYPE_MP_NOT_DECRYPTABLE :: int where "DC_MIMETYPE_MP_NOT_DECRYPTABLE \<equiv> 40"
abbreviation DC_MIMETYPE_MP_REPORT :: int where "DC_MIMETYPE_MP_REPORT \<equiv> 45"
abbreviation DC_MIMETYPE_MP_SIGNED :: int where "DC_MIMETYPE_MP_SIGNED \<equiv> 46"
abbreviation DC_MIMETYPE_MP_OTHER :: int where "DC_MIMETYPE_MP_OTHER \<equiv> 50"
abbreviation DC_MIMETYPE_TEXT_PLAIN :: int where "DC_MIMETYPE_TEXT_PLAIN \<equiv> 60"
abbreviation DC_MIMETYPE_TEXT_HTML :: int where "DC_MIMETYPE_TEXT_HTML \<equiv> 70"
abbreviation DC_MIMETYPE_IMAGE :: int where "DC_MIMETYPE_IMAGE \<equiv> 80"
abbreviation DC_MIMETYPE_AUDIO :: int where "DC_MIMETYPE_AUDIO \<equiv> 90"
abbreviation DC_MIMETYPE_VIDEO :: int where "DC_MIMETYPE_VIDEO \<equiv> 100"
abbreviation DC_MIMETYPE_FILE :: int where "DC_MIMETYPE_FILE \<equiv> 110"
abbreviation DC_MIMETYPE_AC_SETUP_FILE :: int where "DC_MIMETYPE_AC_SETUP_FILE \<equiv> 111"
abbreviation DC_STR_CANTDECRYPT_MSG_BODY :: nat where "DC_STR_CANTDECRYPT_MSG_BODY \<equiv> 29"

definition DC_CHAT_PREFIX :: string where "DC_CHAT_PREFIX = ''Chat:''"

section \<open>Header fields\<close>

record mailimf_mailbox =
  mb_display_name :: cptr
  mb_addr_spec :: cptr

datatype mailimf_address =
    Address_Mailbox "mailimf_mailbox option"
  | Address_Group "mailimf_mailbox list option"

datatype mailimf_field =
    Field_Return_Path
  | Field_Orig_Date "int option"
  | Field_From "mailimf_mailbox list option"
  | Field_Sender
  | Field_Reply_To
  | Field_To "mailimf_address list option"
  | Field_Cc "mailimf_address list option"
  | Field_Bcc
  | Field_Message_Id cptr
  | Field_In_Reply_To "string list option"
  | Field_References "string list option"
  | Field_Subject string
  | Field_Optional string string
  | Field_Unhashed

definition address_mailboxes :: "mailimf_address \<Rightarrow> mailimf_mailbox list" where
  "address_mailboxes a =
     (case a of Address_Mailbox (Some mb) \<Rightarrow> [mb] | Address_Group (Some mbs) \<Rightarrow> mbs | _ \<Rightarrow> [])"

text \<open>The addresses of the recipients, normalised, as a set of keys that ignore case.\<close>

definition add_key :: "string list \<Rightarrow> string \<Rightarrow> string list" where
  "add_key keys k = (if list_ex (strcaseeq k) keys then keys else keys @ [k])"

definition get_recipients_add_addr :: "string list \<Rightarrow> mailimf_mailbox \<Rightarrow> string list" where
  "get_recipients_add_addr recipients mb = add_key recipients (dc_addr_normalize (mb_addr_spec mb))"

definition mailimf_get_recipients :: "mailimf_field list \<Rightarrow> string list" where
  "mailimf_get_recipients imffields =
     foldl (\<lambda>recipients fld.
              let addr_list = (case fld of Field_To (Some l) \<Rightarrow> l | Field_Cc (Some l) \<Rightarrow> l | _ \<Rightarrow> [])
              in foldl get_recipients_add_addr recipients (concat (map address_mailboxes addr_list)))
       [] imffields"

definition mailimf_find_first_addr :: "mailimf_mailbox list option \<Rightarrow> cptr" where
  "mailimf_find_first_addr mb_list =
     (case mb_list of None \<Rightarrow> None
      | Some l \<Rightarrow> map_option (\<lambda>mb. dc_addr_normalize (mb_addr_spec mb)) (find (\<lambda>mb. mb_addr_spec mb \<noteq> None) l))"

text \<open>\<open>mailimf_find_field\<close> for the two types that it is called with.\<close>

definition find_from :: "mailimf_field list option \<Rightarrow> mailimf_field option" where
  "find_from header =
     (case header of None \<Rightarrow> None
      | Some l \<Rightarrow> find (\<lambda>f. case f of Field_From _ \<Rightarrow> True | _ \<Rightarrow> False) l)"

definition find_orig_date :: "mailimf_field list option \<Rightarrow> mailimf_field option" where
  "find_orig_date header =
     (case header of None \<Rightarrow> None
      | Some l \<Rightarrow> find (\<lambda>f. case f of Field_Orig_Date _ \<Rightarrow> True | _ \<Rightarrow> False) l)"

definition mailimf_find_optional_field :: "mailimf_field list option \<Rightarrow> string \<Rightarrow> cptr" where
  "mailimf_find_optional_field header wanted_fld_name =
     (case header of None \<Rightarrow> None
      | Some l \<Rightarrow>
          (case find (\<lambda>f. case f of Field_Optional n v \<Rightarrow> strcaseeq n wanted_fld_name | _ \<Rightarrow> False) l of
             Some (Field_Optional n v) \<Rightarrow> Some v | _ \<Rightarrow> None))"

section \<open>MIME trees\<close>

datatype mime_kind =
    Kind_Text | Kind_Image | Kind_Audio | Kind_Video | Kind_Application | Kind_Other_Discrete
  | Kind_Message | Kind_Multipart | Kind_Other_Composite

record mime_content =
  ct_kind :: mime_kind
  ct_subtype :: string
  ct_parameters :: "(string \<times> cptr) list"

datatype mime_mechanism =
  Mechanism_7bit | Mechanism_8bit | Mechanism_Binary | Mechanism_Quoted_Printable | Mechanism_Base64 | Mechanism_Token

datatype disposition_parm = Parm_Filename string | Parm_Parameter string string | Parm_Other

text \<open>A disposition has a flag for attachments.\<close>

datatype mime_field =
    Mime_Disposition bool "disposition_parm list"
  | Mime_Transfer_Encoding mime_mechanism
  | Mime_Other_Field

text \<open>\<open>mh_raw\<close> is the text from \<open>mm_mime_start\<close>, \<open>mm_length\<close> bytes long.\<close>

record mime_head =
  mh_content :: "mime_content option"
  mh_fields :: "mime_field list"
  mh_raw :: string

text \<open>The data of a single part is \<open>None\<close> when there is none in memory.\<close>

datatype mailmime =
    Mime_Single mime_head cptr
  | Mime_Multiple mime_head "mailmime list"
  | Mime_Message mime_head "mailimf_field list option" "mailmime option"

fun mime_head_of :: "mailmime \<Rightarrow> mime_head" where
  "mime_head_of (Mime_Single h d) = h"
| "mime_head_of (Mime_Multiple h ms) = h"
| "mime_head_of (Mime_Message h fs m) = h"

definition find_parameter :: "mime_head \<Rightarrow> string \<Rightarrow> cptr option" where
  "find_parameter h name = (case mh_content h of None \<Rightarrow> None | Some c \<Rightarrow> map_of (ct_parameters c) name)"

definition mailmime_find_ct_parameter :: "mailmime \<Rightarrow> string \<Rightarrow> cptr option" where
  "mailmime_find_ct_parameter mime name = find_parameter (mime_head_of mime) name"

fun mailmime_find_mailimf_fields :: "mailmime \<Rightarrow> mailimf_field list option"
  and first_mailimf_fields :: "mailmime list \<Rightarrow> mailimf_field list option" where
  "mailmime_find_mailimf_fields (Mime_Single h d) = None"
| "mailmime_find_mailimf_fields (Mime_Multiple h ms) = first_mailimf_fields ms"
| "mailmime_find_mailimf_fields (Mime_Message h fs m) = fs"
| "first_mailimf_fields [] = None"
| "first_mailimf_fields (m # ms) =
     (case mailmime_find_mailimf_fields m of Some fs \<Rightarrow> Some fs | None \<Rightarrow> first_mailimf_fields ms)"

definition mailmime_is_attachment_disposition :: "mime_head \<Rightarrow> bool" where
  "mailmime_is_attachment_disposition h \<longleftrightarrow>
     list_ex (\<lambda>f. case f of Mime_Disposition True ps \<Rightarrow> True | _ \<Rightarrow> False) (mh_fields h)"

definition mailmime_get_mime_type :: "mime_head \<Rightarrow> int \<times> int" where
  "mailmime_get_mime_type h =
     (case mh_content h of
        None \<Rightarrow> (0, DC_MSG_UNDEFINED)
      | Some c \<Rightarrow>
          (case ct_kind c of
             Kind_Text \<Rightarrow>
               if mailmime_is_attachment_disposition h then (DC_MIMETYPE_FILE, DC_MSG_FILE)
               else if ct_subtype c = ''plain'' then (DC_MIMETYPE_TEXT_PLAIN, DC_MSG_TEXT)
               else if ct_subtype c = ''html'' then (DC_MIMETYPE_TEXT_HTML, DC_MSG_TEXT)
               else (DC_MIMETYPE_FILE, DC_MSG_FILE)
           | Kind_Image \<Rightarrow>
               if ct_subtype c = ''gif'' then (DC_MIMETYPE_IMAGE, DC_MSG_GIF)
               else if ct_subtype c = ''svg+xml'' then (DC_MIMETYPE_FILE, DC_MSG_FILE)
               else (DC_MIMETYPE_IMAGE, DC_MSG_IMAGE)
           | Kind_Audio \<Rightarrow> (DC_MIMETYPE_AUDIO, DC_MSG_AUDIO)
           | Kind_Video \<Rightarrow> (DC_MIMETYPE_VIDEO, DC_MSG_VIDEO)
           | Kind_Application \<Rightarrow>
               (if ct_subtype c = ''autocrypt-setup'' then DC_MIMETYPE_AC_SETUP_FILE else DC_MIMETYPE_FILE, DC_MSG_FILE)
           | Kind_Other_Discrete \<Rightarrow> (DC_MIMETYPE_FILE, DC_MSG_FILE)
           | Kind_Multipart \<Rightarrow>
               (if ct_subtype c = ''alternative'' then DC_MIMETYPE_MP_ALTERNATIVE
                else if ct_subtype c = ''related'' then DC_MIMETYPE_MP_RELATED
                else if ct_subtype c = ''encrypted'' then DC_MIMETYPE_MP_NOT_DECRYPTABLE
                else if ct_subtype c = ''signed'' then DC_MIMETYPE_MP_SIGNED
                else if ct_subtype c = ''mixed'' then DC_MIMETYPE_MP_MIXED
                else if ct_subtype c = ''report'' then DC_MIMETYPE_MP_REPORT
                else DC_MIMETYPE_MP_OTHER, DC_MSG_UNDEFINED)
           | Kind_Message \<Rightarrow> (0, DC_MSG_UNDEFINED)
           | Kind_Other_Composite \<Rightarrow> (0, DC_MSG_UNDEFINED)))"

abbreviation mime_type_of :: "mailmime \<Rightarrow> int" where
  "mime_type_of m \<equiv> fst (mailmime_get_mime_type (mime_head_of m))"

section \<open>The parser\<close>

record mimepart =
  pt_type :: int
  pt_is_meta :: bool
  pt_int_mimetype :: int
  pt_msg :: cptr
  pt_msg_raw :: cptr
  pt_bytes :: nat
  pt_param :: param

record e2ee_helper =
  eh_encrypted :: bool
  eh_signatures :: "string list"
  eh_gossipped_addr :: "string list"

record dc_mimeparser_t =
  mp_parts :: "mimepart list"
  mp_header :: "(string \<times> mailimf_field) list"
  mp_header_root :: "mailimf_field list option"
  mp_header_protected :: "mailimf_field list option"
  mp_subject :: cptr
  mp_is_send_by_messenger :: bool
  mp_decrypting_failed :: bool
  mp_e2ee_helper :: e2ee_helper
  mp_is_forwarded :: bool
  mp_reports :: "mailmime list"
  mp_is_system_message :: int
  mp_files :: "(string \<times> string) list"

record mime_env =
  me_now :: int
  me_stock :: stock
  me_blobdir :: string
  me_exists :: "string \<Rightarrow> bool"
  me_write_ok :: "string \<Rightarrow> bool"
  me_part_parse :: "mime_mechanism \<Rightarrow> string \<Rightarrow> cptr"
  me_charconv_buffer :: "string \<Rightarrow> string \<Rightarrow> cptr"
  me_charconv :: "string \<Rightarrow> string \<Rightarrow> cptr"
  me_phrase_parse :: "string \<Rightarrow> cptr"
  me_fields_parse :: "string \<Rightarrow> mailimf_field list option"
  me_mailbox_list_parse :: "string \<Rightarrow> mailimf_mailbox list option"

definition dc_mimepart_new :: mimepart where
  "dc_mimepart_new =
     \<lparr>pt_type = DC_MSG_UNDEFINED, pt_is_meta = False, pt_int_mimetype = 0, pt_msg = None, pt_msg_raw = None,
      pt_bytes = 0, pt_param = dc_param_new\<rparr>"

definition no_e2ee :: e2ee_helper where
  "no_e2ee = \<lparr>eh_encrypted = False, eh_signatures = [], eh_gossipped_addr = []\<rparr>"

definition dc_mimeparser_new :: dc_mimeparser_t where
  "dc_mimeparser_new =
     \<lparr>mp_parts = [], mp_header = [], mp_header_root = None, mp_header_protected = None, mp_subject = None,
      mp_is_send_by_messenger = False, mp_decrypting_failed = False, mp_e2ee_helper = no_e2ee,
      mp_is_forwarded = False, mp_reports = [], mp_is_system_message = 0, mp_files = []\<rparr>"

text \<open>Files stay; \<open>dc_e2ee_thanks\<close> leaves \<open>encrypted\<close> alone.\<close>

definition dc_mimeparser_empty :: "dc_mimeparser_t \<Rightarrow> dc_mimeparser_t" where
  "dc_mimeparser_empty p =
     dc_mimeparser_new
       \<lparr>mp_e2ee_helper := (mp_e2ee_helper p)\<lparr>eh_signatures := [], eh_gossipped_addr := []\<rparr>, mp_files := mp_files p\<rparr>"

definition dc_mimeparser_lookup_field :: "dc_mimeparser_t \<Rightarrow> string \<Rightarrow> mailimf_field option" where
  "dc_mimeparser_lookup_field p field_name = map_option snd (find (\<lambda>(k, f). strcaseeq k field_name) (mp_header p))"

definition dc_mimeparser_lookup_optional_field :: "dc_mimeparser_t \<Rightarrow> string \<Rightarrow> cptr" where
  "dc_mimeparser_lookup_optional_field p field_name =
     (case dc_mimeparser_lookup_field p field_name of Some (Field_Optional n v) \<Rightarrow> Some v | _ \<Rightarrow> None)"

definition dc_mimeparser_lookup_optional_field2 :: "dc_mimeparser_t \<Rightarrow> string \<Rightarrow> string \<Rightarrow> cptr" where
  "dc_mimeparser_lookup_optional_field2 p field_name or_field_name =
     (case dc_mimeparser_lookup_optional_field p field_name of
        Some v \<Rightarrow> Some v | None \<Rightarrow> dc_mimeparser_lookup_optional_field p or_field_name)"

definition dc_mimeparser_get_last_nonmeta :: "dc_mimeparser_t \<Rightarrow> mimepart option" where
  "dc_mimeparser_get_last_nonmeta p = find (\<lambda>pt. \<not> pt_is_meta pt) (rev (mp_parts p))"

definition dc_mimeparser_has_nonmeta :: "dc_mimeparser_t \<Rightarrow> bool" where
  "dc_mimeparser_has_nonmeta p \<longleftrightarrow> dc_mimeparser_get_last_nonmeta p \<noteq> None"

definition dc_mimeparser_is_mailinglist_message :: "dc_mimeparser_t \<Rightarrow> bool" where
  "dc_mimeparser_is_mailinglist_message p \<longleftrightarrow>
     dc_mimeparser_lookup_field p ''List-Id'' \<noteq> None \<or>
     (case dc_mimeparser_lookup_optional_field p ''Precedence'' of
        None \<Rightarrow> False | Some v \<Rightarrow> strcaseeq v ''list'' \<or> strcaseeq v ''bulk'')"

definition dc_mimeparser_sender_equals_recipient :: "dc_mimeparser_t \<Rightarrow> bool" where
  "dc_mimeparser_sender_equals_recipient p =
     (case mp_header_root p of None \<Rightarrow> False
      | Some root \<Rightarrow>
          (case find_from (Some root) of
             Some (Field_From (Some [mb])) \<Rightarrow>
               let from_addr_norm = dc_addr_normalize (mb_addr_spec mb);
                   recipients = mailimf_get_recipients root
               in length recipients = 1 \<and> list_ex (strcaseeq from_addr_norm) recipients
           | _ \<Rightarrow> False))"

section \<open>Adding parts\<close>

definition set_part_param :: "char \<Rightarrow> cptr \<Rightarrow> mimepart \<Rightarrow> mimepart" where
  "set_part_param key v pt = pt\<lparr>pt_param := dc_param_set (pt_param pt) key v\<rparr>"

definition set_part_int :: "char \<Rightarrow> int \<Rightarrow> mimepart \<Rightarrow> mimepart" where
  "set_part_int key v pt = pt\<lparr>pt_param := dc_param_set_int (pt_param pt) key v\<rparr>"

definition do_add_single_part :: "dc_mimeparser_t \<Rightarrow> mimepart \<Rightarrow> dc_mimeparser_t" where
  "do_add_single_part p part =
     (let helper = mp_e2ee_helper p;
          part = (if eh_encrypted helper \<and> length (eh_signatures helper) > 0 then set_part_int DC_PARAM_GUARANTEE_E2EE 1 part
                  else if eh_encrypted helper then set_part_int DC_PARAM_ERRONEOUS_E2EE (sint DC_E2EE_NO_VALID_SIGNATURE) part
                  else part)
      in p\<lparr>mp_parts := mp_parts p @ [part]\<rparr>)"

definition path_exists :: "mime_env \<Rightarrow> dc_mimeparser_t \<Rightarrow> string \<Rightarrow> bool" where
  "path_exists env p path \<longleftrightarrow> me_exists env path \<or> list_ex (\<lambda>(f, d). f = path) (mp_files p)"

definition file_text :: "int \<Rightarrow> string \<Rightarrow> cptr" where
  "file_text mtype pathNfilename =
     (if DC_MSG_MAKE_FILENAME_SEARCHABLE mtype then Some (dc_get_filename pathNfilename)
      else if DC_MSG_MAKE_SUFFIX_SEARCHABLE mtype then dc_get_filesuffix_lc (Some pathNfilename)
      else None)"

definition part_size :: "string \<Rightarrow> mimepart \<Rightarrow> mimepart" where
  "part_size data part =
     (case dc_get_filemeta (map of_char data) of
        Some (Some (w, h)) \<Rightarrow> set_part_int DC_PARAM_HEIGHT (sint h) (set_part_int DC_PARAM_WIDTH (sint w) part)
      | _ \<Rightarrow> part)"

definition part_author :: "string \<Rightarrow> mimepart \<Rightarrow> mimepart" where
  "part_author desired_filename part =
     (let (author, title) = dc_msg_get_authorNtitle_from_filename desired_filename in
      set_part_param DC_PARAM_TRACKNAME (Some title) (set_part_param DC_PARAM_AUTHORNAME author part))"

definition file_part :: "int \<Rightarrow> int \<Rightarrow> string \<Rightarrow> string \<Rightarrow> string \<Rightarrow> mimepart" where
  "file_part mtype mime_type data desired_filename path =
     (let part = dc_mimepart_new\<lparr>pt_type := mtype, pt_int_mimetype := mime_type, pt_bytes := length data,
            pt_param := dc_param_set dc_param_new DC_PARAM_FILE (Some path), pt_msg := file_text mtype path\<rparr>;
          part = (if mime_type = DC_MIMETYPE_IMAGE then part_size data part else part)
      in if mtype = DC_MSG_AUDIO then part_author desired_filename part else part)"

definition do_add_single_file_part ::
  "mime_env \<Rightarrow> dc_mimeparser_t \<Rightarrow> int \<Rightarrow> int \<Rightarrow> string \<Rightarrow> string \<Rightarrow> dc_mimeparser_t" where
  "do_add_single_file_part env p mtype mime_type data desired_filename =
     (case dc_get_fine_pathNfilename (path_exists env p) (me_now env) (me_blobdir env) desired_filename of
        None \<Rightarrow> p
      | Some path \<Rightarrow>
          if \<not> me_write_ok env path then p
          else do_add_single_part (p\<lparr>mp_files := mp_files p @ [(path, data)]\<rparr>)
                 (file_part mtype mime_type data desired_filename path))"

text \<open>The first \<open>Content-Transfer-Encoding\<close>, then the data; there is none when nothing is left.\<close>

definition transfer_encoding :: "mime_head \<Rightarrow> mime_mechanism" where
  "transfer_encoding h =
     (case find (\<lambda>f. case f of Mime_Transfer_Encoding m \<Rightarrow> True | _ \<Rightarrow> False) (mh_fields h) of
        Some (Mime_Transfer_Encoding m) \<Rightarrow> m | _ \<Rightarrow> Mechanism_Binary)"

definition mailmime_transfer_decode :: "mime_env \<Rightarrow> mime_head \<Rightarrow> string \<Rightarrow> cptr" where
  "mailmime_transfer_decode env h data =
     (let enc = transfer_encoding h;
          decoded = (if enc = Mechanism_7bit \<or> enc = Mechanism_8bit \<or> enc = Mechanism_Binary then Some data
                     else me_part_parse env enc data)
      in case decoded of None \<Rightarrow> None | Some d \<Rightarrow> if d = [] then None else Some d)"

text \<open>
  At most 51 uuencoded parts of a text are taken out.  Where \<open>dc_uudecode_do\<close> accesses memory out of bounds the model goes
  on as if no part was found.
\<close>

fun uu_loop :: "mime_env \<Rightarrow> nat \<Rightarrow> string \<Rightarrow> dc_mimeparser_t \<Rightarrow> string \<times> dc_mimeparser_t" where
  "uu_loop env 0 txt p = (txt, p)"
| "uu_loop env (Suc k) txt p =
     (case dc_uudecode_do txt of
        Some (Some (new_txt, uu_blob, uu_filename)) \<Rightarrow>
          let t = fst (dc_msg_guess_msgtype_from_suffix uu_filename) in
          uu_loop env k new_txt
            (do_add_single_file_part env p (if t = 0 then DC_MSG_FILE else t) 0 uu_blob uu_filename)
      | _ \<Rightarrow> (txt, p))"

definition content_charset :: "mime_head \<Rightarrow> string" where
  "content_charset h =
     (case mh_content h of None \<Rightarrow> ''us-ascii''
      | Some c \<Rightarrow> (case find (\<lambda>(n, v). strcaseeq n ''charset'') (ct_parameters c) of
                      Some (n, Some v) \<Rightarrow> v | _ \<Rightarrow> ''us-ascii''))"

text \<open>\<open>None\<close> when the conversion leaves nothing; with an error the data stay as they are.\<close>

definition text_data :: "mime_env \<Rightarrow> mime_head \<Rightarrow> string \<Rightarrow> cptr" where
  "text_data env h decoded =
     (if content_charset h \<noteq> ''utf-8'' \<and> content_charset h \<noteq> ''UTF-8'' then
        (case me_charconv_buffer env (content_charset h) decoded of
           None \<Rightarrow> Some decoded | Some d \<Rightarrow> if d = [] then None else Some d)
      else Some decoded)"

definition add_text_part :: "mime_env \<Rightarrow> int \<Rightarrow> string \<Rightarrow> dc_mimeparser_t \<Rightarrow> dc_mimeparser_t" where
  "add_text_part env mime_type decoded p =
     (let (txt, p) = uu_loop env 51 (c_string decoded) p;
          (simplifier, simplified_txt) =
             dc_simplify_simplify dc_simplify_new (Some txt) (int (length txt)) (mime_type = DC_MIMETYPE_TEXT_HTML);
          p = (if simplified_txt \<noteq> [] then
                 do_add_single_part p (dc_mimepart_new\<lparr>pt_type := DC_MSG_TEXT, pt_int_mimetype := mime_type,
                   pt_msg := Some simplified_txt, pt_msg_raw := Some (c_string decoded)\<rparr>)
               else p)
      in if is_forwarded simplifier then p\<lparr>mp_is_forwarded := True\<rparr> else p)"

text \<open>The names in the first \<open>Content-Disposition\<close>: the extended one in its parts, and the last plain one.\<close>

fun disposition_names :: "mime_env \<Rightarrow> disposition_parm list \<Rightarrow> string \<times> cptr \<Rightarrow> string \<times> cptr" where
  "disposition_names env [] acc = acc"
| "disposition_names env (ps # rest) (parts, name) =
     disposition_names env rest
       (case ps of
          Parm_Parameter n v \<Rightarrow> if take 9 n = ''filename*'' then (parts @ v, name) else (parts, name)
        | Parm_Filename f \<Rightarrow> (parts, dc_decode_header_words (me_phrase_parse env) (Some f))
        | Parm_Other \<Rightarrow> (parts, name))"

definition disposition_filename :: "mime_env \<Rightarrow> mime_head \<Rightarrow> cptr" where
  "disposition_filename env h =
     (case find (\<lambda>f. case f of Mime_Disposition a ps \<Rightarrow> True | _ \<Rightarrow> False) (mh_fields h) of
        Some (Mime_Disposition a ps) \<Rightarrow>
          let (parts, name) = disposition_names env ps ([], None) in
          if parts \<noteq> [] then Some (dc_decode_ext_header (me_charconv env) (Some parts)) else name
      | _ \<Rightarrow> None)"

definition desired_filename :: "mime_env \<Rightarrow> mime_head \<Rightarrow> cptr" where
  "desired_filename env h =
     (case disposition_filename env h of
        Some f \<Rightarrow> Some f
      | None \<Rightarrow>
          (case find_parameter h ''name'' of
             Some (Some (c # v)) \<Rightarrow> Some (dc_strdup (Some (c # v)))
           | _ \<Rightarrow> map_option (\<lambda>c. ''file.'' @ ct_subtype c) (mh_content h)))"

definition dc_mimeparser_add_single_part_if_known ::
  "mime_env \<Rightarrow> mime_head \<Rightarrow> cptr \<Rightarrow> dc_mimeparser_t \<Rightarrow> bool \<times> dc_mimeparser_t" where
  "dc_mimeparser_add_single_part_if_known env h data p =
     (let (mime_type, mtype) = mailmime_get_mime_type h;
          q = (case data of
                 None \<Rightarrow> p
               | Some d \<Rightarrow>
                   (case (if d = [] then None else mailmime_transfer_decode env h d) of
                      None \<Rightarrow> p
                    | Some decoded \<Rightarrow>
                        if mime_type = DC_MIMETYPE_TEXT_PLAIN \<or> mime_type = DC_MIMETYPE_TEXT_HTML then
                          (case text_data env h decoded of None \<Rightarrow> p | Some t \<Rightarrow> add_text_part env mime_type t p)
                        else if mime_type = DC_MIMETYPE_IMAGE \<or> mime_type = DC_MIMETYPE_AUDIO \<or>
                                mime_type = DC_MIMETYPE_VIDEO \<or> mime_type = DC_MIMETYPE_FILE \<or>
                                mime_type = DC_MIMETYPE_AC_SETUP_FILE then
                          (case desired_filename env h of None \<Rightarrow> p
                           | Some f \<Rightarrow> do_add_single_file_part env p mtype mime_type decoded (dc_replace_bad_utf8_chars f))
                        else p))
      in (length (mp_parts q) > length (mp_parts p), q))"

section \<open>The recursion over the tree\<close>

definition protected_headers :: "mime_env \<Rightarrow> mailmime \<Rightarrow> dc_mimeparser_t \<Rightarrow> dc_mimeparser_t" where
  "protected_headers env mime p =
     (if mailmime_find_ct_parameter mime ''protected-headers'' \<noteq> None \<and> mp_header_protected p = None
      then p\<lparr>mp_header_protected := me_fields_parse env (mh_raw (mime_head_of mime))\<rparr> else p)"

fun rfc822_headers :: "mailmime \<Rightarrow> bool" where
  "rfc822_headers (Mime_Single h d) \<longleftrightarrow>
     (case mh_content h of None \<Rightarrow> False
      | Some c \<Rightarrow> map_of (ct_parameters c) ''protected-headers'' \<noteq> None \<and> ct_kind c = Kind_Text \<and> ct_subtype c = ''rfc822-headers'')"
| "rfc822_headers m \<longleftrightarrow> False"

definition add_not_decryptable :: "mime_env \<Rightarrow> dc_mimeparser_t \<Rightarrow> dc_mimeparser_t" where
  "add_not_decryptable env p =
     p\<lparr>mp_parts := mp_parts p @ [dc_mimepart_new\<lparr>pt_type := DC_MSG_TEXT,
         pt_msg := Some (''['' @ me_stock env DC_STR_CANTDECRYPT_MSG_BODY [] @ '']'')\<rparr>],
       mp_decrypting_failed := True\<rparr>"

definition html_is_twin :: "mailmime list \<Rightarrow> bool" where
  "html_is_twin ms \<longleftrightarrow>
     length (filter (\<lambda>m. mime_type_of m = DC_MIMETYPE_TEXT_PLAIN) ms) = 1 \<and>
     length (filter (\<lambda>m. mime_type_of m = DC_MIMETYPE_TEXT_HTML) ms) = 1"

text \<open>
  \<open>parse_mime\<close> is \<open>dc_mimeparser_parse_mime_recursive\<close>, the others are the loops over the children: the first of a type,
  the first alone, the first that adds a part, and all without the HTML twin of a plain text.
\<close>

fun parse_mime :: "mime_env \<Rightarrow> mailmime \<Rightarrow> dc_mimeparser_t \<Rightarrow> bool \<times> dc_mimeparser_t"
  and parse_first_typed :: "mime_env \<Rightarrow> int \<Rightarrow> mailmime list \<Rightarrow> dc_mimeparser_t \<Rightarrow> bool \<times> dc_mimeparser_t"
  and parse_first :: "mime_env \<Rightarrow> mailmime list \<Rightarrow> dc_mimeparser_t \<Rightarrow> bool \<times> dc_mimeparser_t"
  and parse_first_adding :: "mime_env \<Rightarrow> mailmime list \<Rightarrow> dc_mimeparser_t \<Rightarrow> bool \<times> dc_mimeparser_t"
  and parse_all :: "mime_env \<Rightarrow> bool \<Rightarrow> mailmime list \<Rightarrow> dc_mimeparser_t \<Rightarrow> bool \<times> dc_mimeparser_t" where
  "parse_mime env (Mime_Single h d) p =
     (if rfc822_headers (Mime_Single h d) then (False, p)
      else dc_mimeparser_add_single_part_if_known env h d (protected_headers env (Mime_Single h d) p))"
| "parse_mime env (Mime_Multiple h ms) p =
     (let p = protected_headers env (Mime_Multiple h ms) p;
          t = fst (mailmime_get_mime_type h)
      in if t = DC_MIMETYPE_MP_ALTERNATIVE then
           (let (added, p) = parse_first_typed env DC_MIMETYPE_MP_MIXED ms p in
            if added then (added, p)
            else let (added, p) = parse_first_typed env DC_MIMETYPE_TEXT_PLAIN ms p in
                 if added then (added, p) else parse_first_adding env ms p)
         else if t = DC_MIMETYPE_MP_RELATED \<or> t = DC_MIMETYPE_MP_SIGNED then parse_first env ms p
         else if t = DC_MIMETYPE_MP_NOT_DECRYPTABLE then (True, add_not_decryptable env p)
         else if t = DC_MIMETYPE_MP_REPORT then
           (if length ms < 2 then (False, p)
            else if find_parameter h ''report-type'' = Some (Some ''disposition-notification'')
              then (False, p\<lparr>mp_reports := mp_reports p @ [Mime_Multiple h ms]\<rparr>)
            else parse_first env ms p)
         else parse_all env (html_is_twin ms) ms p)"
| "parse_mime env (Mime_Message h fs m) p =
     (let p = protected_headers env (Mime_Message h fs m) p;
          p = (if mp_header_root p = None then p\<lparr>mp_header_root := fs\<rparr> else p)
      in case m of None \<Rightarrow> (False, p) | Some child \<Rightarrow> parse_mime env child p)"
| "parse_first_typed env t [] p = (False, p)"
| "parse_first_typed env t (m # ms) p = (if mime_type_of m = t then parse_mime env m p else parse_first_typed env t ms p)"
| "parse_first env [] p = (False, p)"
| "parse_first env (m # ms) p = parse_mime env m p"
| "parse_first_adding env [] p = (False, p)"
| "parse_first_adding env (m # ms) p =
     (let (added, p) = parse_mime env m p in if added then (True, p) else parse_first_adding env ms p)"
| "parse_all env skip [] p = (False, p)"
| "parse_all env skip (m # ms) p =
     (if skip \<and> mime_type_of m = DC_MIMETYPE_TEXT_HTML then parse_all env skip ms p
      else let (added, p) = parse_mime env m p; (rest, p) = parse_all env skip ms p in (added \<or> rest, p))"

section \<open>The header\<close>

fun field_key :: "mailimf_field \<Rightarrow> cptr" where
  "field_key Field_Return_Path = Some ''Return-Path''"
| "field_key (Field_Orig_Date d) = Some ''Date''"
| "field_key (Field_From l) = Some ''From''"
| "field_key Field_Sender = Some ''Sender''"
| "field_key Field_Reply_To = Some ''Reply-To''"
| "field_key (Field_To l) = Some ''To''"
| "field_key (Field_Cc l) = Some ''Cc''"
| "field_key Field_Bcc = Some ''Bcc''"
| "field_key (Field_Message_Id m) = Some ''Message-ID''"
| "field_key (Field_In_Reply_To l) = Some ''In-Reply-To''"
| "field_key (Field_References l) = Some ''References''"
| "field_key (Field_Subject s) = Some ''Subject''"
| "field_key (Field_Optional n v) = Some n"
| "field_key Field_Unhashed = None"

text \<open>The table of theory \<open>Hash\<close> as its map: keys ignore case, an insert under a known key replaces the data.\<close>

definition hash_put :: "string \<Rightarrow> mailimf_field \<Rightarrow> (string \<times> mailimf_field) list \<Rightarrow> (string \<times> mailimf_field) list" where
  "hash_put key field t =
     (if list_ex (\<lambda>(k, f). strcaseeq k key) t
      then map (\<lambda>(k, f). if strcaseeq k key then (k, field) else (k, f)) t
      else t @ [(key, field)])"

fun is_optional :: "mailimf_field \<Rightarrow> bool" where
  "is_optional (Field_Optional n v) \<longleftrightarrow> True"
| "is_optional _ \<longleftrightarrow> False"

definition overwrites :: "string \<Rightarrow> mailimf_field \<Rightarrow> bool" where
  "overwrites key field \<longleftrightarrow> \<not> is_optional field \<or> length key > 5 \<and> strcaseeq (take 5 key) ''Chat-''"

definition hash_field :: "(string \<times> mailimf_field) list \<Rightarrow> mailimf_field \<Rightarrow> (string \<times> mailimf_field) list" where
  "hash_field t field =
     (case field_key field of
        None \<Rightarrow> t
      | Some key \<Rightarrow>
          if list_ex (\<lambda>(k, f). strcaseeq k key) t \<and> \<not> overwrites key field then t else hash_put key field t)"

definition hash_header :: "(string \<times> mailimf_field) list \<Rightarrow> mailimf_field list option \<Rightarrow> (string \<times> mailimf_field) list" where
  "hash_header t flds = (case flds of None \<Rightarrow> t | Some l \<Rightarrow> foldl hash_field t l)"

section \<open>What the header says\<close>

definition read_subject :: "mime_env \<Rightarrow> dc_mimeparser_t \<Rightarrow> dc_mimeparser_t" where
  "read_subject env p =
     (case dc_mimeparser_lookup_field p ''Subject'' of
        Some (Field_Subject s) \<Rightarrow> p\<lparr>mp_subject := dc_decode_header_words (me_phrase_parse env) (Some s)\<rparr>
      | _ \<Rightarrow> p)"

definition read_chat_version :: "dc_mimeparser_t \<Rightarrow> dc_mimeparser_t" where
  "read_chat_version p =
     (if dc_mimeparser_lookup_optional_field2 p ''Chat-Version'' ''X-MrMsg'' \<noteq> None
      then p\<lparr>mp_is_send_by_messenger := True\<rparr> else p)"

definition read_setup_message :: "dc_mimeparser_t \<Rightarrow> dc_mimeparser_t" where
  "read_setup_message p =
     (if dc_mimeparser_lookup_field p ''Autocrypt-Setup-Message'' \<noteq> None then
        let p = (if list_ex (\<lambda>pt. pt_int_mimetype pt = DC_MIMETYPE_AC_SETUP_FILE) (mp_parts p)
                 then p\<lparr>mp_is_system_message := DC_CMD_AUTOCRYPT_SETUP_MESSAGE,
                        mp_parts := filter (\<lambda>pt. pt_int_mimetype pt = DC_MIMETYPE_AC_SETUP_FILE) (mp_parts p)\<rparr>
                 else p)
        in p\<lparr>mp_is_send_by_messenger := False\<rparr>
      else p)"

definition prepends_subject :: "dc_mimeparser_t \<Rightarrow> string \<Rightarrow> bool" where
  "prepends_subject p subject \<longleftrightarrow>
     mp_decrypting_failed p \<or>
     \<not> ((case strchr subject (CHR '':'') of None \<Rightarrow> False
         | Some q \<Rightarrow> length subject - length q = 2 \<or> length subject - length q = 3) \<or>
        mp_is_send_by_messenger p \<or> strstr subject DC_CHAT_PREFIX \<noteq> None)"

text \<open>\<open>DC_NDASH\<close> in UTF-8.\<close>

definition DC_NDASH :: string where "DC_NDASH = [CHR 0xE2, CHR 0x80, CHR 0x93]"

fun map_first :: "('a \<Rightarrow> bool) \<Rightarrow> ('a \<Rightarrow> 'a) \<Rightarrow> 'a list \<Rightarrow> 'a list" where
  "map_first P f [] = []"
| "map_first P f (x # xs) = (if P x then f x # xs else x # map_first P f xs)"

definition map_last :: "('a \<Rightarrow> bool) \<Rightarrow> ('a \<Rightarrow> 'a) \<Rightarrow> 'a list \<Rightarrow> 'a list" where
  "map_last P f xs = rev (map_first P f (rev xs))"

definition prepend_subject :: "dc_mimeparser_t \<Rightarrow> dc_mimeparser_t" where
  "prepend_subject p =
     (case mp_subject p of
        None \<Rightarrow> p
      | Some subject \<Rightarrow>
          let subj = dc_trim (takeWhile (\<lambda>c. c \<noteq> CHR ''['') subject) in
          if prepends_subject p subject \<and> subj \<noteq> [] then
            p\<lparr>mp_parts := map_first (\<lambda>pt. pt_type pt = DC_MSG_TEXT)
                  (\<lambda>pt. pt\<lparr>pt_msg := Some (subj @ '' '' @ DC_NDASH @ '' '' @ dc_strdup (pt_msg pt))\<rparr>) (mp_parts p)\<rparr>
          else p)"

definition mark_forwarded :: "dc_mimeparser_t \<Rightarrow> dc_mimeparser_t" where
  "mark_forwarded p =
     (if mp_is_forwarded p then p\<lparr>mp_parts := map (set_part_int DC_PARAM_FORWARDED 1) (mp_parts p)\<rparr> else p)"

definition voice_part :: "dc_mimeparser_t \<Rightarrow> mimepart \<Rightarrow> mimepart" where
  "voice_part p pt =
     (if pt_type pt = DC_MSG_AUDIO \<and> dc_mimeparser_lookup_optional_field2 p ''Chat-Voice-Message'' ''X-MrVoiceMessage'' \<noteq> None
      then set_part_param DC_PARAM_TRACKNAME None (set_part_param DC_PARAM_AUTHORNAME None
             (pt\<lparr>pt_msg := Some ''ogg'', pt_type := DC_MSG_VOICE\<rparr>))
      else pt)"

definition duration_part :: "dc_mimeparser_t \<Rightarrow> mimepart \<Rightarrow> mimepart" where
  "duration_part p pt =
     (if pt_type pt = DC_MSG_AUDIO \<or> pt_type pt = DC_MSG_VOICE \<or> pt_type pt = DC_MSG_VIDEO then
        (case dc_mimeparser_lookup_optional_field2 p ''Chat-Duration'' ''X-MrDurationMs'' of
           None \<Rightarrow> pt
         | Some v \<Rightarrow> let duration_ms = to_int32 (atol v) in
                      if duration_ms > 0 \<and> duration_ms < 24 * 60 * 60 * 1000
                      then set_part_int DC_PARAM_DURATION duration_ms pt else pt)
      else pt)"

definition read_media_header :: "dc_mimeparser_t \<Rightarrow> dc_mimeparser_t" where
  "read_media_header p =
     (case mp_parts p of [pt] \<Rightarrow> p\<lparr>mp_parts := [duration_part p (voice_part p pt)]\<rparr> | _ \<Rightarrow> p)"

definition read_group_image :: "dc_mimeparser_t \<Rightarrow> dc_mimeparser_t" where
  "read_group_image p =
     (if dc_mimeparser_lookup_field p ''Chat-Group-Image'' \<noteq> None then
        (case mp_parts p of
           [] \<Rightarrow> p
         | textpart # rest \<Rightarrow>
             if pt_type textpart = DC_MSG_TEXT then
               p\<lparr>mp_parts := set_part_int DC_PARAM_CMD DC_CMD_GROUPIMAGE_CHANGED textpart #
                   (case rest of
                      [] \<Rightarrow> []
                    | imgpart # others \<Rightarrow>
                        (if pt_type imgpart = DC_MSG_IMAGE then imgpart\<lparr>pt_is_meta := True\<rparr> else imgpart) # others)\<rparr>
             else p)
      else p)"

text \<open>Whether the mail asks for a receipt: the address must be that of \<open>From:\<close>.\<close>

definition asks_for_mdn :: "mime_env \<Rightarrow> dc_mimeparser_t \<Rightarrow> bool" where
  "asks_for_mdn env p \<longleftrightarrow>
     \<not> mp_decrypting_failed p \<and>
     (case dc_mimeparser_lookup_optional_field p ''Chat-Disposition-Notification-To'' of
        None \<Rightarrow> False
      | Some v \<Rightarrow>
          dc_mimeparser_has_nonmeta p \<and>
          (case mailimf_find_first_addr (me_mailbox_list_parse env v) of
             None \<Rightarrow> False
           | Some dn_to_addr \<Rightarrow>
               (case dc_mimeparser_lookup_field p ''From'' of
                  Some (Field_From l) \<Rightarrow> mailimf_find_first_addr l = Some dn_to_addr
                | _ \<Rightarrow> False)))"

definition read_mdn_request :: "mime_env \<Rightarrow> dc_mimeparser_t \<Rightarrow> dc_mimeparser_t" where
  "read_mdn_request env p =
     (if asks_for_mdn env p
      then p\<lparr>mp_parts := map_last (\<lambda>pt. \<not> pt_is_meta pt) (set_part_int DC_PARAM_WANTS_MDN 1) (mp_parts p)\<rparr> else p)"

definition add_empty_part :: "dc_mimeparser_t \<Rightarrow> dc_mimeparser_t" where
  "add_empty_part p =
     (if \<not> dc_mimeparser_has_nonmeta p \<and> mp_reports p = [] then
        p\<lparr>mp_parts := mp_parts p @ [dc_mimepart_new\<lparr>pt_type := DC_MSG_TEXT,
            pt_msg := Some (case mp_subject p of Some s \<Rightarrow> s | None \<Rightarrow> ''Empty message'')\<rparr>]\<rparr>
      else p)"

text \<open>
  \<open>dc_mimeparser_parse\<close>: \<open>parsed\<close> is the tree that \<open>mailmime_parse\<close> has built and \<open>dc_e2ee_decrypt\<close> has decrypted in
  place, with what that says of the mail (theory \<open>E2ee\<close>); it is \<open>None\<close> when the text cannot be parsed.
\<close>

definition read_tree :: "mime_env \<Rightarrow> mailmime \<Rightarrow> dc_mimeparser_t \<Rightarrow> dc_mimeparser_t" where
  "read_tree env root p =
     (let p = snd (parse_mime env root p) in
      p\<lparr>mp_header := hash_header (hash_header (mp_header p) (mp_header_root p)) (mp_header_protected p)\<rparr>)"

definition read_headers :: "mime_env \<Rightarrow> dc_mimeparser_t \<Rightarrow> dc_mimeparser_t" where
  "read_headers env p =
     read_mdn_request env (read_group_image (read_media_header (mark_forwarded (prepend_subject
       (read_setup_message (read_chat_version (read_subject env p)))))))"

definition dc_mimeparser_parse :: "mime_env \<Rightarrow> (mailmime \<times> e2ee_helper) option \<Rightarrow> dc_mimeparser_t \<Rightarrow> dc_mimeparser_t" where
  "dc_mimeparser_parse env parsed p =
     (let p = dc_mimeparser_empty p in
      add_empty_part
        (case parsed of
           None \<Rightarrow> p
         | Some (root, helper) \<Rightarrow> read_headers env (read_tree env root (p\<lparr>mp_e2ee_helper := helper\<rparr>))))"

section \<open>Parameters without the guarantee\<close>

definition clean :: "param \<Rightarrow> bool" where
  "clean q \<longleftrightarrow> param_ok q \<and> dc_param_get q DC_PARAM_GUARANTEE_E2EE None = None"

lemma key_facts [simp]: "okk DC_PARAM_GUARANTEE_E2EE" "okk DC_PARAM_FILE" "okk DC_PARAM_WIDTH" "okk DC_PARAM_HEIGHT"
  "okk DC_PARAM_AUTHORNAME" "okk DC_PARAM_TRACKNAME" "okk DC_PARAM_ERRONEOUS_E2EE" "okk DC_PARAM_FORWARDED"
  "okk DC_PARAM_DURATION" "okk DC_PARAM_CMD" "okk DC_PARAM_WANTS_MDN"
  by (simp_all add: okk_def c_isspace_def)

lemma clean_new [simp]: "clean dc_param_new"
  using get_pack [of "[]"] by (simp add: clean_def dc_param_new_def)

lemma clean_set:
  "clean q \<Longrightarrow> okk k \<Longrightarrow> k \<noteq> DC_PARAM_GUARANTEE_E2EE \<Longrightarrow> okv v \<Longrightarrow> clean (dc_param_set q k (Some v))"
  "clean q \<Longrightarrow> okk k \<Longrightarrow> k \<noteq> DC_PARAM_GUARANTEE_E2EE \<Longrightarrow> clean (dc_param_set q k None)"
  "clean q \<Longrightarrow> okk k \<Longrightarrow> k \<noteq> DC_PARAM_GUARANTEE_E2EE \<Longrightarrow> clean (dc_param_set_int q k i)"
  by (simp_all add: clean_def params.store_laws dc_param_set_int_def)

definition spaceless :: "string \<Rightarrow> bool" where
  "spaceless s \<longleftrightarrow> list_all (\<lambda>c. \<not> c_isspace c) s"

lemma spaceless_okv: "spaceless s \<Longrightarrow> okv s"
  using last_in_set by (fastforce simp: spaceless_def okv_def list_all_iff)

section \<open>Names and paths\<close>

lemma fine_path_keeps:
  assumes "dc_get_fine_pathNfilename ex now folder desired = Some path" "spaceless path"
  shows "spaceless desired"
proof -
  let ?v = "dc_validate_filename desired"
  obtain b e where s: "dc_split_filename ?v = (b, e)" by fastforce
  have j: "b @ e = ?v" using split_filename_join [OF s] get_filename_id validate_filename_clean [of desired] by simp
  obtain i where "path = fine_candidate folder b e now i"
    using assms(1) fine_loop_fresh by (fastforce simp: dc_get_fine_pathNfilename_def dc_strdup_def Let_def s)
  then have "set b \<union> set e \<subseteq> set path" by (auto simp: fine_candidate_def Let_def split: if_splits)
  with assms(2) have "spaceless (b @ e)" by (auto simp: spaceless_def list_all_iff)
  then have v: "list_all (\<lambda>c. \<not> c_isspace c) (map (\<lambda>c. if c = CHR ''/'' \<or> c = CHR 0x5C \<or> c = CHR '':'' then CHR ''-'' else c) desired)"
    unfolding j by (simp add: spaceless_def dc_validate_filename_def)
  have "\<not> c_isspace (CHR ''/'')" "\<not> c_isspace (CHR 0x5C)" "\<not> c_isspace (CHR '':'')" by (simp_all add: c_isspace_def)
  then show ?thesis using v unfolding spaceless_def list_all_iff by (auto split: if_splits)
qed

lemma author_of_spaceless:
  assumes "spaceless s"
  shows "\<exists>t. dc_msg_get_authorNtitle_from_filename s = (None, t) \<and> spaceless t"
proof -
  obtain b e where s: "dc_split_filename s = (b, e)" by fastforce
  have sub: "set b \<subseteq> set s"
  proof -
    have f: "set (dc_get_filename s) \<subseteq> set s"
      by (auto simp: dc_get_filename_def dc_strdup_def split: option.splits dest!: strrchr_split dest: list.set_sel(2))
    have "set b \<subseteq> set (dc_get_filename s)"
      using s by (auto simp: dc_split_filename_def Let_def dest: in_set_takeD split: option.splits)
    with f show ?thesis by blast
  qed
  then have b: "spaceless b" using assms by (auto simp: spaceless_def list_all_iff)
  have "strstr b '' - '' = None" if "spaceless b" for b
    using that by (induction b) (auto simp: spaceless_def c_isspace_def)
  with b s show ?thesis by (auto simp: dc_msg_get_authorNtitle_from_filename_def Let_def)
qed

section \<open>What the recursion adds\<close>

definition good_part :: "e2ee_helper \<Rightarrow> mimepart \<Rightarrow> bool" where
  "good_part helper pt \<longleftrightarrow> param_ok (pt_param pt) \<and>
     (dc_param_get (pt_param pt) DC_PARAM_GUARANTEE_E2EE None \<noteq> None \<longrightarrow> eh_encrypted helper \<and> eh_signatures helper \<noteq> [])"

definition grows :: "dc_mimeparser_t \<Rightarrow> dc_mimeparser_t \<Rightarrow> bool" where
  "grows p q \<longleftrightarrow> mp_e2ee_helper q = mp_e2ee_helper p \<and>
     (\<exists>fs pts. mp_files q = mp_files p @ fs \<and> mp_parts q = mp_parts p @ pts \<and>
        (list_all (\<lambda>(f, d). spaceless f) fs \<longrightarrow> list_all (good_part (mp_e2ee_helper p)) pts))"

lemma grows_refl [simp]: "grows p p"
  by (simp add: grows_def)

lemma grows_trans [trans]: "grows p q \<Longrightarrow> grows q r \<Longrightarrow> grows p r"
  unfolding grows_def by fastforce

lemma grows_same:
  "mp_e2ee_helper q = mp_e2ee_helper p \<Longrightarrow> mp_files q = mp_files p \<Longrightarrow> mp_parts q = mp_parts p \<Longrightarrow> grows p q"
  by (simp add: grows_def)

lemma ok_set_int: "param_ok q \<Longrightarrow> okk k \<Longrightarrow> param_ok (dc_param_set_int q k i)"
  by (simp add: params.store_laws dc_param_set_int_def)

lemma good_added:
  assumes "clean (pt_param part)"
  shows "\<exists>pt. do_add_single_part p part = p\<lparr>mp_parts := mp_parts p @ [pt]\<rparr> \<and> good_part (mp_e2ee_helper p) pt"
  using assms clean_set(3) [OF assms, of DC_PARAM_ERRONEOUS_E2EE]
  by (auto simp: do_add_single_part_def Let_def good_part_def set_part_int_def clean_def ok_set_int)

lemma grows_single: "clean (pt_param part) \<Longrightarrow> grows p (do_add_single_part p part)"
  using good_added [of part p] by (fastforce simp: grows_def)

lemma file_part_clean:
  assumes "spaceless path" "spaceless desired"
  shows "clean (pt_param (file_part t m data desired path))"
proof -
  obtain title where "dc_msg_get_authorNtitle_from_filename desired = (None, title)" "spaceless title"
    using author_of_spaceless [OF assms(2)] by blast
  then show ?thesis using assms(1)
    by (auto simp: file_part_def Let_def part_size_def part_author_def set_part_int_def set_part_param_def
        spaceless_okv clean_set split: option.splits)
qed

lemma grows_file: "grows p (do_add_single_file_part env p t m data desired)"
proof (cases "dc_get_fine_pathNfilename (path_exists env p) (me_now env) (me_blobdir env) desired")
  case None
  then show ?thesis by (simp add: do_add_single_file_part_def)
next
  case (Some path)
  show ?thesis
  proof (cases "me_write_ok env path")
    case True
    let ?p = "p\<lparr>mp_files := mp_files p @ [(path, data)]\<rparr>" and ?pt = "file_part t m data desired path"
    have "mp_e2ee_helper (do_add_single_part ?p ?pt) = mp_e2ee_helper p"
      "mp_files (do_add_single_part ?p ?pt) = mp_files p @ [(path, data)]"
      "\<exists>pt. mp_parts (do_add_single_part ?p ?pt) = mp_parts p @ [pt]"
      by (simp_all add: do_add_single_part_def Let_def)
    moreover have "\<exists>pt. mp_parts (do_add_single_part ?p ?pt) = mp_parts p @ [pt] \<and> good_part (mp_e2ee_helper p) pt" if "spaceless path"
      using good_added [of ?pt ?p, OF file_part_clean [OF that fine_path_keeps [OF Some that]]] by auto
    ultimately show ?thesis using Some True by (fastforce simp: grows_def do_add_single_file_part_def)
  qed (simp add: Some do_add_single_file_part_def)
qed

lemma grows_uu: "grows p (snd (uu_loop env k tx p))"
proof (induction k arbitrary: tx p)
  case (Suc k)
  have step: "grows p (snd (uu_loop env k t (do_add_single_file_part env p i j b f)))" for t i j b f
    using grows_trans [OF grows_file Suc.IH] .
  show ?case by (simp add: Let_def step split: option.split prod.split)
qed simp

lemma grows_text: "grows p (add_text_part env m decoded p)"
proof -
  obtain tx q where u: "uu_loop env 51 (c_string decoded) p = (tx, q)" by fastforce
  obtain w v where w: "dc_simplify_simplify dc_simplify_new (Some tx) (int (length tx)) (m = DC_MIMETYPE_TEXT_HTML) = (w, v)"
    by fastforce
  have q: "grows p q" using grows_uu [of p env 51 "c_string decoded"] u by simp
  define r where "r = (if v \<noteq> [] then do_add_single_part q (dc_mimepart_new\<lparr>pt_type := DC_MSG_TEXT, pt_int_mimetype := m,
    pt_msg := Some v, pt_msg_raw := Some (c_string decoded)\<rparr>) else q)"
  have "grows q r" by (simp add: r_def grows_single dc_mimepart_new_def)
  moreover have "grows r (if is_forwarded w then r\<lparr>mp_is_forwarded := True\<rparr> else r)" by (simp add: grows_same)
  ultimately show ?thesis
    unfolding add_text_part_def u w Let_def prod.case r_def [symmetric] using q grows_trans by blast
qed

lemma grows_known: "grows p (snd (dc_mimeparser_add_single_part_if_known env h d p))"
  by (simp add: dc_mimeparser_add_single_part_if_known_def grows_text grows_file Let_def split: prod.split option.split)

lemma grows_protected: "grows p (protected_headers env m p)"
  by (simp add: protected_headers_def grows_same)

lemma good_clean: "clean (pt_param pt) \<Longrightarrow> good_part helper pt"
  by (simp add: clean_def good_part_def)

lemma grows_undecryptable: "grows p (add_not_decryptable env p)"
  by (simp add: grows_def add_not_decryptable_def good_clean dc_mimepart_new_def)

lemma grows_root: "grows p q \<Longrightarrow> grows p (q\<lparr>mp_header_root := r\<rparr>)" "grows p q \<Longrightarrow> grows p (q\<lparr>mp_reports := rs\<rparr>)"
  by (simp_all add: grows_def)

lemma grows_loops:
  assumes "\<And>m p. m \<in> set ms \<Longrightarrow> grows p (snd (parse_mime env m p))"
  shows "grows p (snd (parse_first_typed env t ms p))"
    and "grows p (snd (parse_first env ms p))"
    and "grows p (snd (parse_first_adding env ms p))"
    and "grows p (snd (parse_all env skip ms p))"
proof -
  show "grows p (snd (parse_first_typed env t ms p))" using assms by (induction ms) auto
  show "grows p (snd (parse_first env ms p))" using assms by (cases ms) auto
  show "grows p (snd (parse_first_adding env ms p))" using assms
  proof (induction ms arbitrary: p)
    case (Cons m ms)
    then have "grows p (snd (parse_mime env m p))" "\<And>q. grows q (snd (parse_first_adding env ms q))" by auto
    then show ?case using grows_trans by (auto simp: case_prod_beta Let_def)
  qed simp
  show "grows p (snd (parse_all env skip ms p))" using assms
  proof (induction ms arbitrary: p)
    case (Cons m ms)
    then have "grows p (snd (parse_mime env m p))" "\<And>q. grows q (snd (parse_all env skip ms q))" by auto
    then show ?case using grows_trans by (auto simp: case_prod_beta Let_def)
  qed simp
qed

lemma grows_alternative:
  assumes "\<And>m p. m \<in> set ms \<Longrightarrow> grows p (snd (parse_mime env m p))"
  shows "grows p (snd (let (added, p) = parse_first_typed env t ms p in
            if added then (added, p)
            else let (added, p) = parse_first_typed env u ms p in
                 if added then (added, p) else parse_first_adding env ms p))"
proof -
  note l = grows_loops [where ms = ms and env = env, OF assms]
  obtain a q where q: "parse_first_typed env t ms p = (a, q)" by fastforce
  obtain b r where r: "parse_first_typed env u ms q = (b, r)" by fastforce
  have pq: "grows p q" using l(1) [of p t] by (simp add: q)
  have pr: "grows p r" using grows_trans [OF pq] l(1) [of q u] by (simp add: r)
  have "grows p (snd (parse_first_adding env ms r))" using grows_trans [OF pr l(3)] .
  then show ?thesis using pq pr unfolding q r Let_def prod.case by (cases a; cases b) (simp_all only: if_True if_False snd_conv)
qed

lemma grows_if: "(b \<Longrightarrow> grows p (snd x)) \<Longrightarrow> (\<not> b \<Longrightarrow> grows p (snd y)) \<Longrightarrow> grows p (snd (if b then x else y))"
  by simp

lemma grows_snd: "grows p q \<Longrightarrow> grows p (snd (b, q))"
  by simp

lemma grows_parse: "grows p (snd (parse_mime env m p))"
proof (induction m arbitrary: p)
  case (Mime_Single h d)
  show ?case using grows_trans [OF grows_protected grows_known] by simp
next
  case (Mime_Multiple h ms)
  have l: "grows q (snd (parse_first env ms q))" "grows q (snd (parse_all env skip ms q))" for q skip
    by (rule grows_loops, rule Mime_Multiple, assumption)+
  let ?p = "protected_headers env (Mime_Multiple h ms) p"
  have "grows ?p (snd (parse_mime env (Mime_Multiple h ms) p))"
    unfolding parse_mime.simps Let_def [of ?p] Let_def [of "fst (mailmime_get_mime_type h)"]
    by (intro grows_if grows_alternative l grows_snd grows_undecryptable grows_root grows_refl) (rule Mime_Multiple)
  then show ?case using grows_trans [OF grows_protected] by blast
next
  case (Mime_Message h fs m)
  let ?p = "protected_headers env (Mime_Message h fs m) p"
  let ?q = "if mp_header_root ?p = None then ?p\<lparr>mp_header_root := fs\<rparr> else ?p"
  have q: "grows p ?q" using grows_protected grows_root(1) by simp
  show ?case
  proof (cases m)
    case None
    show ?thesis using q unfolding None parse_mime.simps Let_def option.case snd_conv .
  next
    case (Some c)
    then have "grows ?q (snd (parse_mime env c ?q))" using Mime_Message by auto
    with q have "grows p (snd (parse_mime env c ?q))" by (rule grows_trans)
    then show ?thesis unfolding Some parse_mime.simps Let_def option.case .
  qed
qed

section \<open>What the header changes\<close>

lemma good_set_int:
  "good_part helper pt \<Longrightarrow> okk k \<Longrightarrow> k \<noteq> DC_PARAM_GUARANTEE_E2EE \<Longrightarrow> good_part helper (set_part_int k i pt)"
  by (simp add: good_part_def set_part_int_def dc_param_set_int_def params.store_laws)

lemma good_unset:
  "good_part helper pt \<Longrightarrow> okk k \<Longrightarrow> k \<noteq> DC_PARAM_GUARANTEE_E2EE \<Longrightarrow> good_part helper (set_part_param k None pt)"
  by (simp add: good_part_def set_part_param_def params.store_laws)

lemma good_fields [simp]:
  "good_part helper (pt\<lparr>pt_msg := m\<rparr>) = good_part helper pt"
  "good_part helper (pt\<lparr>pt_type := t\<rparr>) = good_part helper pt"
  "good_part helper (pt\<lparr>pt_is_meta := b\<rparr>) = good_part helper pt"
  by (simp_all add: good_part_def)

lemma all_map_first: "list_all P xs \<Longrightarrow> (\<And>x. P x \<Longrightarrow> P (f x)) \<Longrightarrow> list_all P (map_first Q f xs)"
  by (induction xs) auto

lemma all_map_last: "list_all P xs \<Longrightarrow> (\<And>x. P x \<Longrightarrow> P (f x)) \<Longrightarrow> list_all P (map_last Q f xs)"
  by (simp add: map_last_def all_map_first)

definition good_parts :: "dc_mimeparser_t \<Rightarrow> bool" where
  "good_parts p \<longleftrightarrow> list_all (good_part (mp_e2ee_helper p)) (mp_parts p)"

lemma voice_good: "good_part helper pt \<Longrightarrow> good_part helper (duration_part p (voice_part p pt))"
  by (auto simp: voice_part_def duration_part_def Let_def good_set_int good_unset split: option.split)

lemma good_read:
  "good_parts p \<Longrightarrow> good_parts (read_subject env p)"
  "good_parts p \<Longrightarrow> good_parts (read_chat_version p)"
  "good_parts p \<Longrightarrow> good_parts (prepend_subject p)"
  "good_parts p \<Longrightarrow> good_parts (mark_forwarded p)"
  "good_parts p \<Longrightarrow> good_parts (read_mdn_request env p)"
  "good_parts p \<Longrightarrow> good_parts (add_empty_part p)"
  by (auto simp: good_parts_def read_subject_def read_chat_version_def prepend_subject_def Let_def mark_forwarded_def
      read_mdn_request_def add_empty_part_def good_set_int good_clean dc_mimepart_new_def list.pred_map
      intro!: all_map_first all_map_last elim: list.pred_mono_strong split: option.split mailimf_field.split)

lemma good_read_setup: "good_parts p \<Longrightarrow> good_parts (read_setup_message p)"
  by (auto simp: good_parts_def read_setup_message_def Let_def list_all_iff)

lemma good_read_media: "good_parts p \<Longrightarrow> good_parts (read_media_header p)"
  by (auto simp: good_parts_def read_media_header_def voice_good split: list.split)

lemma good_read_image: "good_parts p \<Longrightarrow> good_parts (read_group_image p)"
  by (auto simp: good_parts_def read_group_image_def good_set_int split: list.split)

lemma read_subject_same [simp]: "mp_files (read_subject env p) = mp_files p" "mp_e2ee_helper (read_subject env p) = mp_e2ee_helper p"
  by (simp_all add: read_subject_def Let_def split: option.split mailimf_field.split list.split)

lemma read_chat_version_same [simp]: "mp_files (read_chat_version p) = mp_files p" "mp_e2ee_helper (read_chat_version p) = mp_e2ee_helper p"
  by (simp_all add: read_chat_version_def Let_def split: option.split mailimf_field.split list.split)

lemma prepend_subject_same [simp]: "mp_files (prepend_subject p) = mp_files p" "mp_e2ee_helper (prepend_subject p) = mp_e2ee_helper p"
  by (simp_all add: prepend_subject_def Let_def split: option.split mailimf_field.split list.split)

lemma mark_forwarded_same [simp]: "mp_files (mark_forwarded p) = mp_files p" "mp_e2ee_helper (mark_forwarded p) = mp_e2ee_helper p"
  by (simp_all add: mark_forwarded_def Let_def split: option.split mailimf_field.split list.split)

lemma read_mdn_request_same [simp]: "mp_files (read_mdn_request env p) = mp_files p" "mp_e2ee_helper (read_mdn_request env p) = mp_e2ee_helper p"
  by (simp_all add: read_mdn_request_def Let_def split: option.split mailimf_field.split list.split)

lemma read_setup_message_same [simp]: "mp_files (read_setup_message p) = mp_files p" "mp_e2ee_helper (read_setup_message p) = mp_e2ee_helper p"
  by (simp_all add: read_setup_message_def Let_def split: option.split mailimf_field.split list.split)

lemma read_media_header_same [simp]: "mp_files (read_media_header p) = mp_files p" "mp_e2ee_helper (read_media_header p) = mp_e2ee_helper p"
  by (simp_all add: read_media_header_def Let_def split: option.split mailimf_field.split list.split)

lemma read_group_image_same [simp]: "mp_files (read_group_image p) = mp_files p" "mp_e2ee_helper (read_group_image p) = mp_e2ee_helper p"
  by (simp_all add: read_group_image_def Let_def split: option.split mailimf_field.split list.split)

lemma add_empty_part_same [simp]: "mp_files (add_empty_part p) = mp_files p" "mp_e2ee_helper (add_empty_part p) = mp_e2ee_helper p"
  by (simp_all add: add_empty_part_def Let_def split: option.split mailimf_field.split list.split)

lemma read_headers_same [simp]: "mp_files (read_headers env p) = mp_files p" "mp_e2ee_helper (read_headers env p) = mp_e2ee_helper p"
  by (simp_all add: read_headers_def)

lemma good_headers: "good_parts p \<Longrightarrow> good_parts (read_headers env p)"
  by (simp add: read_headers_def good_read good_read_setup good_read_media good_read_image)

text \<open>
  C11: a part of a mail whose parameters say that it was encrypted (what \<open>dc_msg_get_showpadlock\<close> shows) is a part of a
  mail that was encrypted and has a valid signature, whatever the tree of the mail, its header, and the texts and file
  names in it are, provided that no path of a written file has a white space.
\<close>

theorem padlock_only_when_encrypted:
  assumes "p' = dc_mimeparser_parse env (Some (root, helper)) p" "mp_files p = []"
    and "list_all (\<lambda>(f, d). spaceless f) (mp_files p')"
    and "pt \<in> set (mp_parts p')" "dc_param_get (pt_param pt) DC_PARAM_GUARANTEE_E2EE None \<noteq> None"
  shows "eh_encrypted helper \<and> eh_signatures helper \<noteq> []"
proof -
  define e where "e = (dc_mimeparser_empty p)\<lparr>mp_e2ee_helper := helper\<rparr>"
  have e: "mp_parts e = []" "mp_files e = []" "mp_e2ee_helper e = helper"
    using assms(2) by (simp_all add: e_def dc_mimeparser_empty_def dc_mimeparser_new_def)
  let ?q = "snd (parse_mime env root e)"
  have p': "p' = add_empty_part (read_headers env (read_tree env root e))"
    using assms(1) by (simp add: dc_mimeparser_parse_def e_def)
  have q: "mp_e2ee_helper ?q = helper"
    "list_all (\<lambda>(f, d). spaceless f) (mp_files ?q) \<longrightarrow> list_all (good_part helper) (mp_parts ?q)"
    using grows_parse [of e env root] e by (auto simp: grows_def)
  have "mp_files p' = mp_files ?q" by (simp add: p' read_tree_def Let_def)
  then have "good_parts (read_tree env root e)" using assms(3) q by (simp add: read_tree_def Let_def good_parts_def)
  then have "good_parts p'" by (simp add: p' good_headers good_read)
  moreover have "mp_e2ee_helper p' = helper" by (simp add: p' read_tree_def Let_def q)
  ultimately show ?thesis using assms(4,5) by (auto simp: good_parts_def list_all_iff good_part_def)
qed

section \<open>A file name with a line feed\<close>

lemma set_new: "okk k \<Longrightarrow> v \<noteq> [] \<Longrightarrow> dc_param_set dc_param_new k (Some v) = line (k, v)"
  by (simp add: dc_param_set_def dc_param_new_def find_param.simps okk_def line_def Let_def dc_strdup_def nonempty_def)

lemma line_splits:
  assumes "okk k" "okk j" "okv v" "okv w" "j \<noteq> k"
  shows "dc_param_get (line (k, v @ NL # line (j, w))) j None = Some w"
proof -
  have "line (k, v @ NL # line (j, w)) = pack [(k, v), (j, w)]" by (simp add: pack_def line_def)
  moreover have "es_ok [(k, v), (j, w)]" using assms by (simp add: es_ok_def)
  ultimately show ?thesis using get_pack [of "[(k, v), (j, w)]" j] assms by simp
qed

lemma forged_path:
  assumes "list_all (\<lambda>c. c \<notin> set [CHR ''/'', CHR 0x5C, CHR '':'', CHR ''.'']) b" 
    and "\<not> ex (folder @ ''/'' @ b @ NL # ''c=1'')"
  shows "dc_get_fine_pathNfilename ex now folder (b @ NL # ''c=1'') = Some (folder @ ''/'' @ b @ NL # ''c=1'')"
proof -
  let ?f = "b @ NL # ''c=1''"
  have v: "dc_validate_filename ?f = ?f" using assms(1) by (induction b) (auto simp: dc_validate_filename_def)
  have "CHR ''/'' \<notin> set ?f" "CHR 0x5C \<notin> set ?f" "CHR ''.'' \<notin> set ?f" using assms(1) by (auto simp: list_all_iff)
  then have "dc_split_filename ?f = (?f, [])"
    by (simp add: dc_split_filename_def get_filename_id strrchr_None [THEN iffD2] dc_strdup_def)
  then show ?thesis using assms(2) fine_loop.simps(2) [of ex "fine_candidate folder ?f [] now" 0 999]
    by (simp add: dc_get_fine_pathNfilename_def dc_strdup_def v fine_candidate_def)
qed

text \<open>
  C14: a mail that is not encrypted can show the padlock: an attachment whose name (in the form \<open>filename*\<close>, where a line
  feed can be written as \<open>%0A\<close>) ends in a line feed and \<open>c=1\<close> becomes a part that has the parameter of encrypted
  messages, because the path of the file goes into the packed parameters as it is.
\<close>

theorem file_name_forges_padlock:
  assumes "mh_content h = Some c" "ct_kind c = Kind_Application" "ct_subtype c = ''octet-stream''"
    and "desired_filename env h = Some f" "dc_replace_bad_utf8_chars f = b @ NL # ''c=1''"
    and "list_all (\<lambda>c. c \<notin> set [CHR ''/'', CHR 0x5C, CHR '':'', CHR ''.'']) b" "okv (me_blobdir env @ ''/'' @ b)"
    and "\<not> path_exists env p (me_blobdir env @ ''/'' @ b @ NL # ''c=1'')"
    and "me_write_ok env (me_blobdir env @ ''/'' @ b @ NL # ''c=1'')"
    and "d \<noteq> []" "mailmime_transfer_decode env h d = Some data"
    and "\<not> eh_encrypted (mp_e2ee_helper p)"
  shows "\<exists>pt. mp_parts (snd (parse_mime env (Mime_Single h (Some d)) p)) = mp_parts p @ [pt] \<and>
    dc_param_get (pt_param pt) DC_PARAM_GUARANTEE_E2EE None = Some ''1''"
proof -
  let ?path = "me_blobdir env @ ''/'' @ b @ NL # ''c=1''"
  let ?p = "protected_headers env (Mime_Single h (Some d)) p"
  have same: "mp_parts ?p = mp_parts p" "mp_files ?p = mp_files p" "mp_e2ee_helper ?p = mp_e2ee_helper p"
    by (simp_all add: protected_headers_def)
  have path: "dc_get_fine_pathNfilename (path_exists env ?p) (me_now env) (me_blobdir env) (b @ NL # ''c=1'') = Some ?path"
    using forged_path [OF assms(6)] assms(8) by (simp add: path_exists_def same)
  have t: "mailmime_get_mime_type h = (DC_MIMETYPE_FILE, DC_MSG_FILE)"
    using assms(1-3) by (simp add: mailmime_get_mime_type_def)
  let ?pt = "file_part DC_MSG_FILE DC_MIMETYPE_FILE data (b @ NL # ''c=1'') ?path"
  have "dc_param_get (pt_param ?pt) DC_PARAM_GUARANTEE_E2EE None = Some ''1''"
    using line_splits [of DC_PARAM_FILE DC_PARAM_GUARANTEE_E2EE "me_blobdir env @ ''/'' @ b" "''1''"] assms(7)
    by (simp add: file_part_def set_new line_def okv_def c_isspace_def)
  moreover have "mp_parts (do_add_single_file_part env ?p DC_MSG_FILE DC_MIMETYPE_FILE data (b @ NL # ''c=1'')) = mp_parts p @ [?pt]"
    using assms(9,12) by (simp add: do_add_single_file_part_def path do_add_single_part_def same Let_def)
  moreover have "\<not> rfc822_headers (Mime_Single h (Some d))" using assms(1,2) by simp
  ultimately show ?thesis
    using assms(4,5,10,11) by (simp add: dc_mimeparser_add_single_part_if_known_def t)
qed

section \<open>Concrete mails\<close>

definition test_env :: mime_env where
  "test_env = \<lparr>me_now = 0, me_stock = (\<lambda>n args. ''stock''), me_blobdir = ''/b'', me_exists = (\<lambda>f. False),
     me_write_ok = (\<lambda>f. True), me_part_parse = (\<lambda>m d. None), me_charconv_buffer = (\<lambda>c d. None),
     me_charconv = (\<lambda>c d. None), me_phrase_parse = (\<lambda>s. None), me_fields_parse = (\<lambda>s. None),
     me_mailbox_list_parse = (\<lambda>s. None)\<rparr>"

definition binary_head :: "disposition_parm list \<Rightarrow> mime_head" where
  "binary_head ps = \<lparr>mh_content = Some \<lparr>ct_kind = Kind_Application, ct_subtype = ''octet-stream'', ct_parameters = []\<rparr>,
     mh_fields = [Mime_Disposition True ps], mh_raw = []\<rparr>"

definition sealed_helper :: e2ee_helper where
  "sealed_helper = \<lparr>eh_encrypted = True, eh_signatures = [''FPR''], eh_gossipped_addr = []\<rparr>"

definition sealed_mail :: dc_mimeparser_t where
  "sealed_mail = dc_mimeparser_parse test_env
     (Some (Mime_Single (binary_head []) (Some ''data''), sealed_helper)) dc_mimeparser_new"

theorem padlock_only_when_encrypted_witness:
  "(\<exists>pt \<in> set (mp_parts sealed_mail). dc_param_get (pt_param pt) DC_PARAM_GUARANTEE_E2EE None = Some ''1'') \<and>
   eh_encrypted sealed_helper \<and> eh_signatures sealed_helper \<noteq> []"
proof -
  let ?pt = "hd (mp_parts sealed_mail)"
  have files: "mp_files sealed_mail = [(''/b/file.octet-stream'', ''data'')]" by code_simp
  have parts: "mp_parts sealed_mail \<noteq> []" by code_simp
  have c: "dc_param_get (pt_param ?pt) DC_PARAM_GUARANTEE_E2EE None = Some ''1''" by code_simp
  have "eh_encrypted sealed_helper \<and> eh_signatures sealed_helper \<noteq> []"
    using padlock_only_when_encrypted [OF sealed_mail_def, of ?pt] files parts c
    by (simp add: dc_mimeparser_new_def spaceless_def c_isspace_def)
  with parts c show ?thesis by (auto intro: bexI [of _ ?pt])
qed

theorem file_name_forges_padlock_witness:
  "dc_param_get (pt_param (hd (mp_parts (snd (parse_mime test_env
       (Mime_Single (binary_head [Parm_Parameter ''filename*'' (''utf-8'' @ [CHR 0x27, CHR 0x27] @ ''a%0Ac=1'')]) (Some ''x''))
       dc_mimeparser_new)))))
     DC_PARAM_GUARANTEE_E2EE None = Some ''1''"
  (is "dc_param_get (pt_param (hd (mp_parts (snd (parse_mime test_env (Mime_Single ?h (Some ''x'')) dc_mimeparser_new))))) _ _ = _")
proof -
  have n: "desired_filename test_env ?h = Some (''a'' @ NL # ''c=1'')" by code_simp
  have u: "dc_replace_bad_utf8_chars (''a'' @ NL # ''c=1'') = ''a'' @ NL # ''c=1''" by code_simp
  have e: "mailmime_transfer_decode test_env ?h ''x'' = Some ''x''" by code_simp
  have k: "okv (me_blobdir test_env @ ''/'' @ ''a'')" by (simp add: okv_def test_env_def c_isspace_def)
  have f: "\<not> path_exists test_env dc_mimeparser_new q" "me_write_ok test_env q" for q
    by (simp_all add: path_exists_def test_env_def dc_mimeparser_new_def)
  obtain pt where "mp_parts (snd (parse_mime test_env (Mime_Single ?h (Some ''x'')) dc_mimeparser_new)) = [pt]"
    "dc_param_get (pt_param pt) DC_PARAM_GUARANTEE_E2EE None = Some ''1''"
    using file_name_forges_padlock [of ?h _ test_env _ "''a''" dc_mimeparser_new "''x''", OF _ _ _ n u _ k f _ e]
    by (auto simp: binary_head_def dc_mimeparser_new_def no_e2ee_def)
  then show ?thesis by simp
qed

end
