(* ===== verification/E2ee.thy ===== *)
theory E2ee
  imports Mime Securejoin
begin

text \<open>
  \<open>src/dc_e2ee.c\<close>: what Autocrypt does with a mail that arrives (the state of the peer, the decryption of the tree, the
  gossipped keys) and the encryption of a mail that is sent.

  OpenPGP and libetpan are the functions of a record \<open>pgp_env\<close>.  Where the code reads a member of the union of a MIME node
  that does not hold it, or a \<open>NULL\<close> node, the result is \<open>None\<close>.
\<close>

record pgp_env =
  pg_now :: int
  pg_fingerprint :: "u8 list \<Rightarrow> u8 list option"
  pg_valid_key :: "dc_key_t \<Rightarrow> bool"
  pg_create_keypair :: "string \<Rightarrow> (dc_key_t \<times> dc_key_t) option"
  pg_decrypt :: "dc_key_t list \<Rightarrow> dc_key_t list \<Rightarrow> string \<Rightarrow> (string \<times> string list) option"
  pg_encrypt :: "dc_key_t list \<Rightarrow> dc_key_t \<Rightarrow> string \<Rightarrow> cptr"
  pg_parse :: "string \<Rightarrow> mailmime option"
  pg_write :: "mailmime \<Rightarrow> string"
  pg_prepare :: "mailmime \<Rightarrow> mailmime"
  pg_part_parse :: "mime_mechanism \<Rightarrow> string \<Rightarrow> cptr"
  pg_fields_parse :: "string \<Rightarrow> mailimf_field list option"

section \<open>Tools\<close>

definition is_multipart :: "string \<Rightarrow> mime_head \<Rightarrow> bool" where
  "is_multipart subtype h \<longleftrightarrow>
     (case mh_content h of None \<Rightarrow> False | Some c \<Rightarrow> ct_kind c = Kind_Multipart \<and> ct_subtype c = subtype)"

fun contains_report :: "mailmime \<Rightarrow> bool option"
  and some_report :: "mailmime list \<Rightarrow> bool option" where
  "contains_report (Mime_Single h d) = Some False"
| "contains_report (Mime_Multiple h ms) = (if is_multipart ''report'' h then Some True else some_report ms)"
| "contains_report (Mime_Message h fs m) = (case m of None \<Rightarrow> None | Some child \<Rightarrow> contains_report child)"
| "some_report [] = Some False"
| "some_report (m # ms) =
     (case contains_report m of None \<Rightarrow> None | Some True \<Rightarrow> Some True | Some False \<Rightarrow> some_report ms)"

text \<open>
  \<open>load_or_generate_self_public_key\<close>: the key and the table of key pairs; the flag against a second creation at the same
  time is left out.
\<close>

definition load_or_generate_self_public_key ::
    "pgp_env \<Rightarrow> string \<Rightarrow> keypair_row list \<Rightarrow> (dc_key_t \<times> keypair_row list) option" where
  "load_or_generate_self_public_key env self_addr keypairs =
     (let (loaded, public_key) = dc_key_load_self_public dc_key_new (Some self_addr) keypairs in
      if loaded then Some (public_key, keypairs)
      else
        (case pg_create_keypair env self_addr of
           None \<Rightarrow> None
         | Some (public_key, secret_key) \<Rightarrow>
             if \<not> pg_valid_key env public_key \<or> \<not> pg_valid_key env secret_key then None
             else
               let (saved, keypairs) = dc_key_save_self_keypair (pg_now env) (Some public_key) (Some secret_key)
                                         (Some self_addr) 1 keypairs
               in if saved then Some (public_key, keypairs) else None))"

definition dc_ensure_secret_key_exists :: "pgp_env \<Rightarrow> sj_ctx \<Rightarrow> bool \<times> sj_ctx" where
  "dc_ensure_secret_key_exists env c =
     (case dc_sqlite3_get_config (db_config (sj_db c)) (Some ''configured_addr'') None of
        None \<Rightarrow> (False, c)
      | Some self_addr \<Rightarrow>
          (case load_or_generate_self_public_key env self_addr (sj_keypairs c) of
             None \<Rightarrow> (False, c)
           | Some (key, keypairs) \<Rightarrow> (True, c\<lparr>sj_keypairs := keypairs\<rparr>)))"

section \<open>Decrypting a tree\<close>

definition has_decrypted_pgp_armor :: "string \<Rightarrow> bool" where
  "has_decrypted_pgp_armor str =
     (let p = dropWhile (\<lambda>c. byte_of c \<le> 32) str in
      length p > 27 \<and> take 27 p = ''-----BEGIN PGP MESSAGE-----'')"

text \<open>Here the last \<open>Content-Transfer-Encoding\<close> counts.\<close>

definition last_transfer_encoding :: "mime_head \<Rightarrow> mime_mechanism" where
  "last_transfer_encoding h =
     foldl (\<lambda>enc f. case f of Mime_Transfer_Encoding m \<Rightarrow> m | _ \<Rightarrow> enc) Mechanism_Binary (mh_fields h)"

definition part_data :: "pgp_env \<Rightarrow> mime_head \<Rightarrow> string \<Rightarrow> cptr" where
  "part_data env h data =
     (let enc = last_transfer_encoding h;
          decoded = (if data = [] then None
                     else if enc = Mechanism_7bit \<or> enc = Mechanism_8bit \<or> enc = Mechanism_Binary then Some data
                     else pg_part_parse env enc data)
      in case decoded of None \<Rightarrow> None | Some d \<Rightarrow> if d = [] then None else Some d)"

text \<open>
  The decrypted tree, if there is one, and the fingerprints of the valid signatures: these are added only when there are
  none yet, and stay also when the plain text turns out to be empty or no mail.
\<close>

definition decrypt_part ::
    "pgp_env \<Rightarrow> dc_key_t list \<Rightarrow> dc_key_t list \<Rightarrow> mime_head \<Rightarrow> cptr \<Rightarrow> string list \<Rightarrow> mailmime option \<times> string list" where
  "decrypt_part env private public h data signatures =
     (case (case data of None \<Rightarrow> None | Some d \<Rightarrow> part_data env h d) of
        None \<Rightarrow> (None, signatures)
      | Some decoded \<Rightarrow>
          if \<not> has_decrypted_pgp_armor decoded then (None, signatures)
          else
            (case (if private = [] then None else pg_decrypt env private public decoded) of
               None \<Rightarrow> (None, signatures)
             | Some (plain, fps) \<Rightarrow>
                 let signatures = (if signatures = [] then foldl add_key [] fps else signatures) in
                 (if plain = [] then None else pg_parse env plain, signatures)))"

record decrypting =
  dy_signatures :: "string list"
  dy_gossip_headers :: "mailimf_field list option"
  dy_has_unencrypted_parts :: bool

definition remember_gossip :: "pgp_env \<Rightarrow> mailmime \<Rightarrow> decrypting \<Rightarrow> decrypting" where
  "remember_gossip env decrypted_mime st =
     (if dy_gossip_headers st = None \<and> length (dy_signatures st) > 0
      then st\<lparr>dy_gossip_headers := pg_fields_parse env (mh_raw (mime_head_of decrypted_mime))\<rparr> else st)"

text \<open>
  The children of a \<open>multipart/encrypted\<close>: the first that is decrypted replaces the whole.  A child that is not a single
  part has no data in its union.
\<close>

fun decrypt_encrypted ::
    "pgp_env \<Rightarrow> dc_key_t list \<Rightarrow> dc_key_t list \<Rightarrow> mailmime list \<Rightarrow> decrypting \<Rightarrow> (mailmime option \<times> decrypting) option" where
  "decrypt_encrypted env private public [] st = Some (None, st\<lparr>dy_has_unencrypted_parts := True\<rparr>)"
| "decrypt_encrypted env private public (Mime_Single h d # ms) st =
     (let (dm, signatures) = decrypt_part env private public h d (dy_signatures st);
          st = st\<lparr>dy_signatures := signatures\<rparr>
      in case dm of Some m \<Rightarrow> Some (Some m, remember_gossip env m st) | None \<Rightarrow> decrypt_encrypted env private public ms st)"
| "decrypt_encrypted env private public (m # ms) st = None"

definition subtype_encrypted :: "mime_head \<Rightarrow> bool" where
  "subtype_encrypted h \<longleftrightarrow> (case mh_content h of None \<Rightarrow> False | Some c \<Rightarrow> ct_subtype c = ''encrypted'')"

text \<open>The tree with the first encrypted part replaced, if one could be decrypted.\<close>

fun decrypt_recursive ::
    "pgp_env \<Rightarrow> dc_key_t list \<Rightarrow> dc_key_t list \<Rightarrow> mailmime \<Rightarrow> decrypting \<Rightarrow> (mailmime option \<times> decrypting) option"
  and decrypt_children ::
    "pgp_env \<Rightarrow> dc_key_t list \<Rightarrow> dc_key_t list \<Rightarrow> mailmime list \<Rightarrow> decrypting \<Rightarrow> (mailmime list option \<times> decrypting) option" where
  "decrypt_recursive env private public (Mime_Single h d) st = Some (None, st\<lparr>dy_has_unencrypted_parts := True\<rparr>)"
| "decrypt_recursive env private public (Mime_Multiple h ms) st =
     (if subtype_encrypted h then decrypt_encrypted env private public ms st
      else map_option (\<lambda>(ms', st). (map_option (Mime_Multiple h) ms', st)) (decrypt_children env private public ms st))"
| "decrypt_recursive env private public (Mime_Message h fs m) st =
     (case m of None \<Rightarrow> Some (None, st)
      | Some child \<Rightarrow>
          map_option (\<lambda>(m', st). (map_option (\<lambda>x. Mime_Message h fs (Some x)) m', st))
            (decrypt_recursive env private public child st))"
| "decrypt_children env private public [] st = Some (None, st)"
| "decrypt_children env private public (m # ms) st =
     (case decrypt_recursive env private public m st of
        None \<Rightarrow> None
      | Some (Some m', st) \<Rightarrow> Some (Some (m' # ms), st)
      | Some (None, st) \<Rightarrow>
          map_option (\<lambda>(ms', st). (map_option (Cons m) ms', st)) (decrypt_children env private public ms st))"

text \<open>The loop of at most ten rounds: only the first round decides whether the mail counts as encrypted.\<close>

fun decrypt_rounds ::
    "pgp_env \<Rightarrow> dc_key_t list \<Rightarrow> dc_key_t list \<Rightarrow> nat \<Rightarrow> mailmime \<Rightarrow> decrypting \<Rightarrow> bool
     \<Rightarrow> (mailmime \<times> decrypting \<times> bool) option" where
  "decrypt_rounds env private public 0 root st encrypted = Some (root, st, encrypted)"
| "decrypt_rounds env private public (Suc k) root st encrypted =
     (case decrypt_recursive env private public root (st\<lparr>dy_has_unencrypted_parts := False\<rparr>) of
        None \<Rightarrow> None
      | Some (None, st) \<Rightarrow> Some (root, st, encrypted)
      | Some (Some root', st) \<Rightarrow>
          decrypt_rounds env private public k root' st (encrypted \<or> k = 9 \<and> \<not> dy_has_unencrypted_parts st))"

section \<open>Peer states of a mail\<close>

definition save_peer :: "bool \<Rightarrow> dc_apeerstate_t \<Rightarrow> sj_ctx \<Rightarrow> sj_ctx" where
  "save_peer create ps c = c\<lparr>sj_peers := snd (dc_apeerstate_save_to_db ps (sj_peers c) create)\<rparr>"

definition degrade_peer :: "stock \<Rightarrow> dc_apeerstate_t \<Rightarrow> sj_ctx \<Rightarrow> sj_ctx" where
  "degrade_peer stock ps c = (if ps_degrade_event ps \<noteq> 0 then dc_handle_degrade_event stock c ps else c)"

text \<open>One \<open>Autocrypt-Gossip\<close> header for a recipient of the mail.\<close>

definition gossip_peer :: "pgp_env \<Rightarrow> stock \<Rightarrow> int \<Rightarrow> dc_aheader_t \<Rightarrow> sj_ctx \<Rightarrow> sj_ctx" where
  "gossip_peer env stock message_time hdr c =
     (let (known, ps) = dc_apeerstate_load_by_addr dc_apeerstate_new (sj_peers c) (ah_addr hdr);
          ps = (if known then dc_apeerstate_apply_gossip (pg_fingerprint env) ps (Some hdr) message_time
                else snd (dc_apeerstate_init_from_gossip (pg_fingerprint env) ps (Some hdr) message_time))
      in degrade_peer stock ps (save_peer (\<not> known) ps c))"

definition gossip_header :: "pgp_env \<Rightarrow> mailimf_field \<Rightarrow> dc_aheader_t option" where
  "gossip_header env field =
     (case field of
        Field_Optional n v \<Rightarrow>
          if strcaseeq n ''Autocrypt-Gossip'' then
            (let (ok, hdr) = dc_aheader_set_from_string dc_aheader_new (Some v) in
             if ok \<and> pg_valid_key env (ah_public_key hdr) then Some hdr else None)
          else None
      | _ \<Rightarrow> None)"

fun update_gossip_peerstates ::
    "pgp_env \<Rightarrow> stock \<Rightarrow> int \<Rightarrow> string list \<Rightarrow> mailimf_field list \<Rightarrow> string list \<times> sj_ctx \<Rightarrow> string list \<times> sj_ctx" where
  "update_gossip_peerstates env stock message_time recipients [] acc = acc"
| "update_gossip_peerstates env stock message_time recipients (field # flds) (gossipped_addr, c) =
     update_gossip_peerstates env stock message_time recipients flds
       (case gossip_header env field of
          None \<Rightarrow> (gossipped_addr, c)
        | Some hdr \<Rightarrow>
            if list_ex (strcaseeq (dc_strdup (ah_addr hdr))) recipients
            then (add_key gossipped_addr (dc_strdup (ah_addr hdr)), gossip_peer env stock message_time hdr c)
            else (gossipped_addr, c))"

definition imf_from :: "mailimf_field list \<Rightarrow> cptr" where
  "imf_from imffields = (case find_from (Some imffields) of Some (Field_From l) \<Rightarrow> mailimf_find_first_addr l | _ \<Rightarrow> None)"

definition imf_time :: "int \<Rightarrow> mailimf_field list \<Rightarrow> int" where
  "imf_time now imffields =
     (case find_orig_date (Some imffields) of
        Some (Field_Orig_Date (Some t)) \<Rightarrow> if t \<noteq> DC_INVALID_TIMESTAMP \<and> t > now then now else t
      | _ \<Rightarrow> 0)"

text \<open>The fields in the form in which theory \<open>Aheader\<close> reads them.\<close>

definition aheader_fields :: "mailimf_field list \<Rightarrow> (cptr \<times> cptr) option list" where
  "aheader_fields = map (\<lambda>f. case f of Field_Optional n v \<Rightarrow> Some (Some n, Some v) | _ \<Rightarrow> None)"

definition valid_autocrypt_header :: "pgp_env \<Rightarrow> cptr \<Rightarrow> mailimf_field list \<Rightarrow> dc_aheader_t option" where
  "valid_autocrypt_header env from_addr imffields =
     (case dc_aheader_new_from_imffields from_addr (Some (aheader_fields imffields)) of
        Some hdr \<Rightarrow> if pg_valid_key env (ah_public_key hdr) then Some hdr else None
      | None \<Rightarrow> None)"

text \<open>What the \<open>Autocrypt:\<close> header, or that there is none, does to the state of the sender.\<close>

definition apply_autocrypt ::
    "pgp_env \<Rightarrow> mailmime \<Rightarrow> cptr \<Rightarrow> int \<Rightarrow> dc_aheader_t option \<Rightarrow> sj_ctx \<Rightarrow> (dc_apeerstate_t \<times> sj_ctx) option" where
  "apply_autocrypt env root from_addr message_time autocryptheader c =
     (if message_time > 0 \<and> from_addr \<noteq> None then
        let (known, ps) = dc_apeerstate_load_by_addr dc_apeerstate_new (sj_peers c) from_addr in
        if known then
          (case autocryptheader of
             Some hdr \<Rightarrow>
               let ps = dc_apeerstate_apply_header (pg_fingerprint env) ps (Some hdr) message_time
               in Some (ps, save_peer False ps c)
           | None \<Rightarrow>
               if message_time > ps_last_seen_autocrypt ps then
                 (case contains_report root of
                    None \<Rightarrow> None
                  | Some True \<Rightarrow> Some (ps, c)
                  | Some False \<Rightarrow>
                      let ps = dc_apeerstate_degrade_encryption ps message_time in Some (ps, save_peer False ps c))
               else Some (ps, c))
        else
          (case autocryptheader of
             Some hdr \<Rightarrow>
               let ps = snd (dc_apeerstate_init_from_header (pg_fingerprint env) ps (Some hdr) message_time)
               in Some (ps, save_peer True ps c)
           | None \<Rightarrow> Some (ps, c))
      else Some (dc_apeerstate_new, c))"

section \<open>A mail that arrives\<close>

text \<open>Without a configured address there are no keys; an overflow of the keyring ends the program.\<close>

definition private_keys :: "sj_ctx \<Rightarrow> dc_key_t list option option" where
  "private_keys c =
     (case dc_sqlite3_get_config (db_config (sj_db c)) (Some ''configured_addr'') None of
        None \<Rightarrow> Some None
      | Some self_addr \<Rightarrow>
          (case dc_keyring_load_self_private_for_decrypting dc_keyring_new (Some self_addr) (sj_keypairs c) of
             None \<Rightarrow> None
           | Some (ok, keyring) \<Rightarrow> Some (if ok then Some (kr_keys keyring) else None)))"

definition key_list :: "dc_key_t option \<Rightarrow> dc_key_t list" where
  "key_list k = (case k of None \<Rightarrow> [] | Some key \<Rightarrow> [key])"

definition validation_keys :: "dc_apeerstate_t \<Rightarrow> dc_key_t list" where
  "validation_keys ps = key_list (key_of ps (ps_gossip_key ps)) @ key_list (key_of ps (ps_public_key ps))"

definition decrypt_with_keys ::
    "pgp_env \<Rightarrow> stock \<Rightarrow> dc_key_t list \<Rightarrow> int \<Rightarrow> mailimf_field list \<Rightarrow> dc_apeerstate_t \<Rightarrow> mailmime \<Rightarrow> sj_ctx
     \<Rightarrow> (mailmime \<times> e2ee_helper \<times> sj_ctx) option" where
  "decrypt_with_keys env stock private message_time imffields ps root c =
     (case decrypt_rounds env private (validation_keys ps) 10 root
             \<lparr>dy_signatures = [], dy_gossip_headers = None, dy_has_unencrypted_parts = False\<rparr> False of
        None \<Rightarrow> None
      | Some (root, st, encrypted) \<Rightarrow>
          let (gossipped, c) =
                (case dy_gossip_headers st of
                   None \<Rightarrow> ([], c)
                 | Some flds \<Rightarrow>
                     update_gossip_peerstates env stock message_time (mailimf_get_recipients imffields) flds ([], c))
          in Some (root, \<lparr>eh_encrypted = encrypted, eh_signatures = dy_signatures st, eh_gossipped_addr = gossipped\<rparr>, c))"

definition reload_peer :: "cptr \<Rightarrow> sj_ctx \<Rightarrow> dc_apeerstate_t \<Rightarrow> dc_apeerstate_t" where
  "reload_peer from_addr c ps =
     (if ps_last_seen ps = 0 then snd (dc_apeerstate_load_by_addr ps (sj_peers c) from_addr) else ps)"

definition dc_e2ee_decrypt ::
    "pgp_env \<Rightarrow> stock \<Rightarrow> mailmime \<Rightarrow> sj_ctx \<Rightarrow> (mailmime \<times> e2ee_helper \<times> sj_ctx) option" where
  "dc_e2ee_decrypt env stock root c =
     (case mailmime_find_mailimf_fields root of
        None \<Rightarrow> Some (root, no_e2ee, c)
      | Some imffields \<Rightarrow>
          let from_addr = imf_from imffields;
              message_time = imf_time (pg_now env) imffields
          in (case apply_autocrypt env root from_addr message_time (valid_autocrypt_header env from_addr imffields) c of
                None \<Rightarrow> None
              | Some (ps, c) \<Rightarrow>
                  (case private_keys c of
                     None \<Rightarrow> None
                   | Some None \<Rightarrow> Some (root, no_e2ee, c)
                   | Some (Some private) \<Rightarrow>
                       let ps = reload_peer from_addr c ps
                       in decrypt_with_keys env stock private message_time imffields ps root (degrade_peer stock ps c))))"

section \<open>A mail that is sent\<close>

abbreviation DC_STR_ENCRYPTEDMSG :: nat where "DC_STR_ENCRYPTEDMSG \<equiv> 24"

text \<open>The keys and peer states of the recipients; one without a usable key ends the loop.\<close>

fun collect_keys ::
    "string \<Rightarrow> bool \<Rightarrow> bool \<Rightarrow> peer_row list \<Rightarrow> string list \<Rightarrow> dc_key_t list \<times> dc_apeerstate_t list
     \<Rightarrow> bool \<times> dc_key_t list \<times> dc_apeerstate_t list" where
  "collect_keys self_addr guaranteed min_verified peers [] acc = (True, acc)"
| "collect_keys self_addr guaranteed min_verified peers (r # rs) (keyring, peerstates) =
     (if strcaseeq r self_addr then collect_keys self_addr guaranteed min_verified peers rs (keyring, peerstates)
      else
        let (known, ps) = dc_apeerstate_load_by_addr dc_apeerstate_new peers (Some r) in
        case (if known then dc_apeerstate_peek_key (Some ps) min_verified else None) of
          Some key_to_use \<Rightarrow>
            if ps_prefer_encrypt ps = DC_PE_MUTUAL \<or> guaranteed
            then collect_keys self_addr guaranteed min_verified peers rs (keyring @ [key_to_use], peerstates @ [ps])
            else (False, keyring, peerstates)
        | None \<Rightarrow> (False, keyring, peerstates))"

text \<open>Whether to encrypt, with the keyring, the peers and the key to sign with.\<close>

definition encryption_plan ::
    "string \<Rightarrow> dc_key_t \<Rightarrow> bool \<Rightarrow> string list \<Rightarrow> bool \<Rightarrow> bool \<Rightarrow> bool \<Rightarrow> sj_ctx
     \<Rightarrow> (dc_key_t list \<times> dc_apeerstate_t list \<times> dc_key_t) option" where
  "encryption_plan self_addr public_key e2ee_enabled recipients_addr force_unencrypted guaranteed min_verified c =
     (let (ok, keyring, peerstates) =
            (if e2ee_enabled \<or> guaranteed
             then collect_keys self_addr guaranteed min_verified (sj_peers c) recipients_addr ([], []) else (False, [], []));
          (loaded, sign_key) = dc_key_load_self_private dc_key_new (Some self_addr) (sj_keypairs c)
      in if ok \<and> loaded \<and> \<not> force_unencrypted then Some (keyring @ [public_key], peerstates, sign_key) else None)"

definition moves_to_encrypted :: "mailimf_field \<Rightarrow> bool" where
  "moves_to_encrypted field =
     (case field of
        Field_Subject s \<Rightarrow> True
      | Field_Optional n v \<Rightarrow>
          take 11 n = ''Secure-Join'' \<or> take 5 n = ''Chat-'' \<and> n \<noteq> ''Chat-Version''
      | _ \<Rightarrow> False)"

definition gossip_fields :: "bool \<Rightarrow> dc_apeerstate_t list \<Rightarrow> mailimf_field list" where
  "gossip_fields min_verified peerstates =
     (if length peerstates > 1 then
        List.map_filter (\<lambda>ps. case dc_apeerstate_render_gossip_header (Some ps) min_verified of
                                Some (Some v) \<Rightarrow> Some (Field_Optional ''Autocrypt-Gossip'' v) | _ \<Rightarrow> None) peerstates
      else [])"

definition encrypted_subject :: "stock \<Rightarrow> mailimf_field" where
  "encrypted_subject stock =
     Field_Subject (dc_strdup (dc_encode_header_words (Some (DC_CHAT_PREFIX @ '' '' @ stock DC_STR_ENCRYPTEDMSG []))))"

definition set_head :: "(mime_head \<Rightarrow> mime_head) \<Rightarrow> mailmime \<Rightarrow> mailmime" where
  "set_head f m =
     (case m of Mime_Single h d \<Rightarrow> Mime_Single (f h) d | Mime_Multiple h ms \<Rightarrow> Mime_Multiple (f h) ms
      | Mime_Message h fs child \<Rightarrow> Mime_Message (f h) fs child)"

definition mark_protected :: "mailmime \<Rightarrow> mailmime" where
  "mark_protected =
     set_head (\<lambda>h. h\<lparr>mh_content := map_option (\<lambda>c. c\<lparr>ct_parameters := ct_parameters c @ [(''protected-headers'', Some ''v1'')]\<rparr>)
                                     (mh_content h)\<rparr>)"

text \<open>\<open>new_data_part\<close> for the types that it is called with.\<close>

definition new_head :: "mime_kind \<Rightarrow> string \<Rightarrow> (string \<times> cptr) list \<Rightarrow> mime_field list \<Rightarrow> mime_head" where
  "new_head kind subtype params flds =
     \<lparr>mh_content = Some \<lparr>ct_kind = kind, ct_subtype = subtype, ct_parameters = params\<rparr>, mh_fields = flds, mh_raw = []\<rparr>"

definition encrypted_tree :: "string \<Rightarrow> mailmime" where
  "encrypted_tree ctext =
     Mime_Multiple (new_head Kind_Multipart ''encrypted'' [(''protocol'', Some ''application/pgp-encrypted'')] [])
       [Mime_Single (new_head Kind_Application ''pgp-encrypted'' [] [Mime_Transfer_Encoding Mechanism_7bit])
          (Some (''Version: 1'' @ [CR, NL])),
        Mime_Single (new_head Kind_Application ''octet-stream'' [] [Mime_Transfer_Encoding Mechanism_7bit]) (Some ctext)]"

definition message_head :: mime_head where
  "message_head = new_head Kind_Message ''rfc822'' [] []"

text \<open>
  The tree behind the encryption and whether it has succeeded.  When OpenPGP fails the fields have been moved already: the
  plain part stays in the tree under the new subject.
\<close>

definition encrypt_tree ::
    "pgp_env \<Rightarrow> stock \<Rightarrow> bool \<Rightarrow> dc_key_t list \<times> dc_apeerstate_t list \<times> dc_key_t \<Rightarrow> mailimf_field list \<Rightarrow> mailmime
     \<Rightarrow> bool \<times> mailimf_field list \<times> mailmime" where
  "encrypt_tree env stock min_verified plan imffields part =
     (let (keyring, peerstates, sign_key) = plan;
          inner = gossip_fields min_verified peerstates @ filter moves_to_encrypted imffields;
          outer = filter (\<lambda>f. \<not> moves_to_encrypted f) imffields @ [encrypted_subject stock];
          part = mark_protected part;
          plain = pg_write env (Mime_Message message_head (Some inner) (Some part))
      in case (if plain = [] then None else pg_encrypt env keyring sign_key plain) of
           None \<Rightarrow> (False, outer, part)
         | Some ctext \<Rightarrow> (True, outer, encrypted_tree ctext))"

definition add_autocrypt :: "dc_aheader_t \<Rightarrow> mailimf_field list \<Rightarrow> mailimf_field list" where
  "add_autocrypt hdr imffields =
     (case dc_aheader_render (Some hdr) of None \<Rightarrow> imffields | Some v \<Rightarrow> imffields @ [Field_Optional ''Autocrypt'' v])"

text \<open>
  \<open>dc_e2ee_encrypt\<close> on a message with its fields and its part: the flag \<open>encryption_successfull\<close>, the new message and the
  context, in which a key pair may have been made.
\<close>

definition dc_e2ee_encrypt ::
    "pgp_env \<Rightarrow> stock \<Rightarrow> bool \<Rightarrow> string list \<Rightarrow> bool \<Rightarrow> bool \<Rightarrow> bool \<Rightarrow> mailimf_field list \<Rightarrow> mailmime \<Rightarrow> sj_ctx
     \<Rightarrow> (bool \<times> mailimf_field list \<times> mailmime) \<times> sj_ctx" where
  "dc_e2ee_encrypt env stock e2ee_enabled recipients_addr force_unencrypted guaranteed min_verified imffields part c =
     (case dc_sqlite3_get_config (db_config (sj_db c)) (Some ''configured_addr'') None of
        None \<Rightarrow> ((False, imffields, part), c)
      | Some self_addr \<Rightarrow>
          (case load_or_generate_self_public_key env self_addr (sj_keypairs c) of
             None \<Rightarrow> ((False, imffields, part), c)
           | Some (public_key, keypairs) \<Rightarrow>
               let c = c\<lparr>sj_keypairs := keypairs\<rparr>;
                   hdr = \<lparr>ah_addr = Some self_addr, ah_public_key = public_key,
                          ah_prefer_encrypt = (if e2ee_enabled then DC_PE_MUTUAL else DC_PE_NOPREFERENCE)\<rparr>
               in (case encryption_plan self_addr public_key e2ee_enabled recipients_addr force_unencrypted guaranteed
                          min_verified c of
                     None \<Rightarrow> ((False, add_autocrypt hdr imffields, part), c)
                   | Some plan \<Rightarrow>
                       let (ok, outer, part) =
                             encrypt_tree env stock min_verified plan imffields (pg_prepare env part)
                       in ((ok, if ok then add_autocrypt hdr outer else outer, part), c))))"

section \<open>Gossip needs a signature\<close>

definition gossip_signed :: "decrypting \<Rightarrow> bool" where
  "gossip_signed st \<longleftrightarrow> (dy_gossip_headers st \<noteq> None \<longrightarrow> dy_signatures st \<noteq> [])"

lemma decrypt_part_keeps: "signatures \<noteq> [] \<Longrightarrow> snd (decrypt_part env pv pb h d signatures) = signatures"
  by (auto simp: decrypt_part_def Let_def split: option.splits)

lemma remember_gossip_signed: "gossip_signed st \<Longrightarrow> gossip_signed (remember_gossip env m st)"
  by (auto simp: gossip_signed_def remember_gossip_def)

lemma flag_signed [simp]: "gossip_signed (st\<lparr>dy_has_unencrypted_parts := b\<rparr>) = gossip_signed st"
  by (simp add: gossip_signed_def)

lemma part_signed:
  "gossip_signed st \<Longrightarrow> gossip_signed (st\<lparr>dy_signatures := snd (decrypt_part env pv pb h d (dy_signatures st))\<rparr>)"
  by (cases "dy_signatures st = []") (auto simp: gossip_signed_def decrypt_part_keeps)

lemma encrypted_signed:
  "decrypt_encrypted env pv pb ms st = Some (r, st') \<Longrightarrow> gossip_signed st \<Longrightarrow> gossip_signed st'"
proof (induction env pv pb ms st rule: decrypt_encrypted.induct)
  case (2 env pv pb h d ms st)
  show ?case
    using 2 part_signed [OF 2(3), of env pv pb h d] remember_gossip_signed
    by (auto simp: Let_def split: prod.splits option.splits)
qed auto

lemma recursive_signed:
  "decrypt_recursive env pv pb m st = Some (r, st') \<Longrightarrow> gossip_signed st \<Longrightarrow> gossip_signed st'"
  "decrypt_children env pv pb ms st = Some (rs, st') \<Longrightarrow> gossip_signed st \<Longrightarrow> gossip_signed st'"
proof (induction env pv pb m st and env pv pb ms st arbitrary: r st' and rs st'
    rule: decrypt_recursive_decrypt_children.induct)
  case (2 env pv pb h ms st)
  then show ?case using encrypted_signed by (auto split: if_splits)
next
  case (3 env pv pb h fs m st)
  then show ?case by (cases m) auto
next
  case (5 env pv pb m ms st)
  from 5(3,4) show ?case
    using 5(1,2) by (fastforce split: option.splits)
qed auto

lemma rounds_signed:
  "decrypt_rounds env pv pb k root st e = Some (root', st', e') \<Longrightarrow> gossip_signed st \<Longrightarrow> gossip_signed st'"
  by (induction env pv pb k root st e rule: decrypt_rounds.induct)
    (auto dest!: recursive_signed(1) split: option.splits)

section \<open>Other peers\<close>

abbreviation of_addr :: "cptr \<Rightarrow> peer_row \<Rightarrow> bool" where
  "of_addr a r \<equiv> (case a of None \<Rightarrow> False | Some f \<Rightarrow> strcaseeq (pr_addr r) f)"

definition others :: "cptr \<Rightarrow> peer_row list \<Rightarrow> peer_row list" where
  "others a rows = filter (\<lambda>r. \<not> of_addr a r) rows"

lemma filter_map_same: "(\<And>r. r \<in> set rows \<Longrightarrow> P (f r) = P r \<and> (P r \<longrightarrow> f r = r)) \<Longrightarrow> filter P (map f rows) = filter P rows"
  by (induction rows) auto

lemma others_save:
  assumes "ps_addr ps = Some b" "strcaseeq b f"
  shows "others (Some f) (snd (dc_apeerstate_save_to_db ps rows create)) = others (Some f) rows"
proof -
  have addr: "pr_addr (update_all ps r) = pr_addr r" "pr_addr (update_timestamps ps r) = pr_addr r" for r
    by (simp_all add: update_all_def update_timestamps_def)
  have m: "filter (\<lambda>r. \<not> strcaseeq (pr_addr r) f) (map (\<lambda>r. if strcaseeq (pr_addr r) b then g r else r) xs) =
      filter (\<lambda>r. \<not> strcaseeq (pr_addr r) f) xs" if "\<And>r. pr_addr (g r) = pr_addr r" for g xs
    by (rule filter_map_same) (use that assms(2) in \<open>auto intro: strcaseeq_trans\<close>)
  define xs where "xs = (if create then rows @ [new_row b] else rows)"
  have xs: "filter (\<lambda>r. \<not> strcaseeq (pr_addr r) f) xs = filter (\<lambda>r. \<not> strcaseeq (pr_addr r) f) rows"
    using assms(2) by (simp add: xs_def new_row_def)
  show ?thesis using m [OF addr(1), of xs] m [OF addr(2), of xs] xs
    unfolding others_def dc_apeerstate_save_to_db_def assms(1) option.case xs_def [symmetric] Let_def by simp
qed

lemma addr_fields [simp]:
  "ps_addr (new_public ps) = ps_addr ps" "ps_addr (new_gossip ps) = ps_addr ps" "ps_addr (set_object ps p f) = ps_addr ps"
  "ps_addr (note_fp_change a b ps) = ps_addr ps"
  by (auto simp: new_public_def new_gossip_def set_object_def note_fp_change_def split: option.splits)

lemma addr_recalc [simp]: "ps_addr (dc_apeerstate_recalc_fingerprint pgp ps) = ps_addr ps"
  by (simp add: dc_apeerstate_recalc_fingerprint_def Let_def)

lemma addr_apply [simp]:
  "ps_addr (dc_apeerstate_apply_header pgp ps hdr t) = ps_addr ps"
  "ps_addr (dc_apeerstate_degrade_encryption ps t) = ps_addr ps"
  by (auto simp: dc_apeerstate_apply_header_def apply_public_key_def apply_preference_def dc_apeerstate_degrade_encryption_def
      Let_def split: option.splits)

lemma addr_loaded:
  assumes "dc_apeerstate_load_by_addr ps rows (Some a) = (True, ps')"
  shows "\<exists>b. ps_addr ps' = Some b \<and> strcaseeq b a"
proof -
  obtain r where r: "find (\<lambda>r. strcaseeq (pr_addr r) a) rows = Some r"
      "ps' = dc_apeerstate_set_from_stmt (dc_apeerstate_empty ps) r"
    using assms by (auto simp: dc_apeerstate_load_by_addr_def Let_def split: option.splits)
  have "strcaseeq (pr_addr r) a" using r(1) by (auto simp: find_Some_iff)
  moreover have "ps_addr ps' = Some (pr_addr r)"
    unfolding r(2) dc_apeerstate_set_from_stmt_def by (simp add: Let_def new_verified_def)
  ultimately show ?thesis by blast
qed

lemma addr_of_valid_header:
  assumes "valid_autocrypt_header env (Some f) flds = Some hdr"
  shows "strcaseeq (dc_strdup (ah_addr hdr)) f"
proof -
  have c: "autocrypt_candidate w fld = Some h \<Longrightarrow> strcaseeq (dc_strdup (ah_addr h)) w" for w fld h
    by (auto simp: autocrypt_candidate_def dc_addr_cmp_eq_def dc_strdup_def split: option.splits if_splits prod.splits bool.splits)
  have l: "imffields_loop w fh xs = Some h \<Longrightarrow> (\<And>g. fh = Some g \<Longrightarrow> strcaseeq (dc_strdup (ah_addr g)) w) \<Longrightarrow>
      strcaseeq (dc_strdup (ah_addr h)) w" for w fh xs h
    by (induction w fh xs rule: imffields_loop.induct) (auto simp: Let_def dest: c split: if_splits)
  show ?thesis using assms l [of f None]
    by (auto simp: valid_autocrypt_header_def dc_aheader_new_from_imffields_def split: option.splits if_splits)
qed

lemma others_autocrypt:
  assumes "apply_autocrypt env root (Some f) t (valid_autocrypt_header env (Some f) flds) c = Some (ps, c')"
  shows "others (Some f) (sj_peers c') = others (Some f) (sj_peers c)"
proof -
  obtain known ps0 where l: "dc_apeerstate_load_by_addr dc_apeerstate_new (sj_peers c) (Some f) = (known, ps0)" by fastforce
  show ?thesis
  proof (cases known)
    case True
    then obtain b where b: "ps_addr ps0 = Some b" "strcaseeq b f"
      using l addr_loaded [of dc_apeerstate_new "sj_peers c" f ps0] by auto
    then show ?thesis using assms l True others_save [of _ b f]
      by (auto simp: apply_autocrypt_def save_peer_def Let_def split: if_splits option.splits bool.splits)
  next
    case False
    have "ps_addr (snd (dc_apeerstate_init_from_header (pg_fingerprint env) ps0 (Some hdr) t)) = Some (dc_strdup (ah_addr hdr))" for hdr
      by (simp add: dc_apeerstate_init_from_header_def Let_def)
    then show ?thesis using assms l False others_save [OF _ addr_of_valid_header]
      by (auto simp: apply_autocrypt_def save_peer_def Let_def split: if_splits option.splits)
  qed
qed

lemma peers_degrade [simp]: "sj_peers (degrade_peer stock ps c) = sj_peers c"
  by (auto simp: degrade_peer_def dc_handle_degrade_event_def Let_def sj_event_def with_db_def dc_add_device_msg_def
      split: prod.splits)

section \<open>The first part decides\<close>

text \<open>The first part of a tree that is a single one or a \<open>multipart/encrypted\<close>.\<close>

fun front_part :: "mailmime \<Rightarrow> mailmime option"
  and first_front :: "mailmime list \<Rightarrow> mailmime option" where
  "front_part (Mime_Single h d) = Some (Mime_Single h d)"
| "front_part (Mime_Multiple h ms) = (if subtype_encrypted h then Some (Mime_Multiple h ms) else first_front ms)"
| "front_part (Mime_Message h fs m) = (case m of None \<Rightarrow> None | Some child \<Rightarrow> front_part child)"
| "first_front [] = None"
| "first_front (m # ms) = (case front_part m of Some x \<Rightarrow> Some x | None \<Rightarrow> first_front ms)"

definition start_decrypting :: decrypting where
  "start_decrypting = \<lparr>dy_signatures = [], dy_gossip_headers = None, dy_has_unencrypted_parts = False\<rparr>"

fun decryptable :: "pgp_env \<Rightarrow> dc_key_t list \<Rightarrow> dc_key_t list \<Rightarrow> mailmime option \<Rightarrow> bool" where
  "decryptable env pv pb (Some (Mime_Multiple h ms)) \<longleftrightarrow>
     subtype_encrypted h \<and>
     (case decrypt_encrypted env pv pb ms start_decrypting of Some (Some m, st) \<Rightarrow> True | _ \<Rightarrow> False)"
| "decryptable env pv pb _ \<longleftrightarrow> False"

lemma decrypt_part_fst: "fst (decrypt_part env pv pb h d s) = fst (decrypt_part env pv pb h d s')"
  by (auto simp: decrypt_part_def Let_def split: option.splits)

lemma encrypted_outcome:
  "map_option (\<lambda>(r, st). r) (decrypt_encrypted env pv pb ms st) = map_option (\<lambda>(r, st). r) (decrypt_encrypted env pv pb ms st')"
proof (induction env pv pb ms st arbitrary: st' rule: decrypt_encrypted.induct)
  case (2 env pv pb h d ms st)
  obtain dm s where p: "decrypt_part env pv pb h d (dy_signatures st) = (dm, s)" by fastforce
  then obtain s' where p': "decrypt_part env pv pb h d (dy_signatures st') = (dm, s')"
    using decrypt_part_fst [of env pv pb h d "dy_signatures st" "dy_signatures st'"]
    by (cases "decrypt_part env pv pb h d (dy_signatures st')") simp
  show ?case
  proof (cases dm)
    case None
    with 2 [OF p [symmetric] refl refl] show ?thesis by (simp add: p p')
  qed (simp add: p p')
qed auto

lemma encrypted_flag:
  "decrypt_encrypted env pv pb ms st = Some (r, st') \<Longrightarrow>
     dy_has_unencrypted_parts st' = (dy_has_unencrypted_parts st \<or> r = None)"
  by (induction env pv pb ms st rule: decrypt_encrypted.induct)
    (auto simp: Let_def remember_gossip_def split: prod.splits option.splits if_splits)

lemma recursive_flag:
  "decrypt_recursive env pv pb m st = Some (r, st') \<Longrightarrow>
     (dy_has_unencrypted_parts st \<longrightarrow> dy_has_unencrypted_parts st') \<and>
     (front_part m = None \<longrightarrow> r = None \<and> dy_has_unencrypted_parts st' = dy_has_unencrypted_parts st) \<and>
     (front_part m \<noteq> None \<longrightarrow> \<not> dy_has_unencrypted_parts st \<longrightarrow>
        (decryptable env pv pb (front_part m) \<longrightarrow> r \<noteq> None) \<and>
        dy_has_unencrypted_parts st' = (\<not> decryptable env pv pb (front_part m)))"
  "decrypt_children env pv pb ms st = Some (rs, st') \<Longrightarrow>
     (dy_has_unencrypted_parts st \<longrightarrow> dy_has_unencrypted_parts st') \<and>
     (first_front ms = None \<longrightarrow> rs = None \<and> dy_has_unencrypted_parts st' = dy_has_unencrypted_parts st) \<and>
     (first_front ms \<noteq> None \<longrightarrow> \<not> dy_has_unencrypted_parts st \<longrightarrow>
        (decryptable env pv pb (first_front ms) \<longrightarrow> rs \<noteq> None) \<and>
        dy_has_unencrypted_parts st' = (\<not> decryptable env pv pb (first_front ms)))"
proof (induction env pv pb m st and env pv pb ms st arbitrary: r st' and rs st'
    rule: decrypt_recursive_decrypt_children.induct)
  case (1 env pv pb h d st)
  then show ?case by auto
next
  case (2 env pv pb h ms st)
  show ?case
  proof (cases "subtype_encrypted h")
    case True
    with 2(2) have d: "decrypt_encrypted env pv pb ms st = Some (r, st')" by simp
    then have "decryptable env pv pb (Some (Mime_Multiple h ms)) = (r \<noteq> None)"
      using True encrypted_outcome [of env pv pb ms st start_decrypting] by (auto split: option.splits)
    then show ?thesis using True encrypted_flag [OF d] by auto
  next
    case False
    with 2 show ?thesis by (auto simp del: decryptable.simps)
  qed
next
  case (3 env pv pb h fs m st)
  then show ?case by (cases m) (auto simp del: decryptable.simps)
next
  case (4 env pv pb st)
  then show ?case by auto
next
  case (5 env pv pb m ms st)
  show ?case
  proof (cases "decrypt_recursive env pv pb m st")
    case None
    then show ?thesis using 5(3) by simp
  next
    case (Some q)
    then obtain r0 st0 where q: "decrypt_recursive env pv pb m st = Some (r0, st0)" by (cases q) auto
    show ?thesis
    proof (cases r0)
      case None
      then obtain rs1 where c: "decrypt_children env pv pb ms st0 = Some (rs1, st')" "rs = map_option (Cons m) rs1"
        using 5(3) q by (auto split: option.splits)
      from 5(1) [OF q] 5(2) [OF _ _ _ c(1)] q None c(2) show ?thesis
        by (cases "front_part m") (auto simp del: decryptable.simps)
    next
      case (Some m')
      then have "rs = Some (m' # ms)" "st' = st0" using 5(3) q by auto
      with 5(1) [OF q] Some show ?thesis by (cases "front_part m") (auto simp del: decryptable.simps)
    qed
  qed
qed

lemma rounds_rest: "k < 10 \<Longrightarrow> decrypt_rounds env pv pb k root st e = Some (root', st', e') \<Longrightarrow> e' = e"
proof (induction env pv pb k root st e rule: decrypt_rounds.induct)
  case (2 env pv pb k root st e)
  then have k: "k < 10" "k \<noteq> 9" by simp_all
  show ?case
  proof (cases "decrypt_recursive env pv pb root (st\<lparr>dy_has_unencrypted_parts := False\<rparr>)")
    case None
    then show ?thesis using 2(3) by simp
  next
    case (Some q)
    then obtain r st1 where q: "decrypt_recursive env pv pb root (st\<lparr>dy_has_unencrypted_parts := False\<rparr>) = Some (r, st1)"
      by (cases q) auto
    show ?thesis
    proof (cases r)
      case None
      then show ?thesis using 2(3) q by simp
    next
      case (Some m)
      then have "decrypt_rounds env pv pb k m st1 e = Some (root', st', e')" using 2(3) q k(2) by simp
      with 2(1) [OF q [unfolded Some] refl refl k(1)] k(2) show ?thesis by simp
    qed
  qed
qed simp

text \<open>
  C13: Whether a mail counts as encrypted is decided by its first part alone: it does if and only if the first part of its
  tree that is a single part or a \<open>multipart/encrypted\<close> is one that can be decrypted, whatever parts follow it in the
  clear.
\<close>

theorem first_part_decides_encryption:
  assumes "decrypt_rounds env pv pb 10 root start_decrypting False = Some (root', st, encrypted)"
  shows "encrypted = decryptable env pv pb (front_part root)"
proof -
  obtain r st1 where r: "decrypt_recursive env pv pb root start_decrypting = Some (r, st1)"
    using assms by (auto simp: numeral_eq_Suc start_decrypting_def split: option.splits)
  have f: "\<not> dy_has_unencrypted_parts start_decrypting" by (simp add: start_decrypting_def)
  have s: "start_decrypting\<lparr>dy_has_unencrypted_parts := False\<rparr> = start_decrypting" by (simp add: start_decrypting_def)
  have ten: "(10::nat) = Suc 9" by simp
  have d: "decryptable env pv pb (front_part root) = (r \<noteq> None \<and> \<not> dy_has_unencrypted_parts st1)"
  proof (cases "front_part root")
    case None
    then show ?thesis using recursive_flag(1) [OF r] by simp
  next
    case (Some x)
    then show ?thesis using recursive_flag(1) [OF r] f by (auto simp del: decryptable.simps)
  qed
  show ?thesis
  proof (cases r)
    case None
    with assms r d show ?thesis unfolding ten decrypt_rounds.simps s by auto
  next
    case (Some m)
    with assms r have "decrypt_rounds env pv pb 9 m st1 (\<not> dy_has_unencrypted_parts st1) = Some (root', st, encrypted)"
      unfolding ten decrypt_rounds.simps s by simp
    from rounds_rest [OF _ this] d Some show ?thesis by simp
  qed
qed

lemma unsigned_keeps_peers:
  assumes "decrypt_with_keys env stock pv t flds ps root c = Some (root', helper, c')" "eh_signatures helper = []"
  shows "sj_peers c' = sj_peers c"
proof -
  obtain st e where r: "decrypt_rounds env pv (validation_keys ps) 10 root
        \<lparr>dy_signatures = [], dy_gossip_headers = None, dy_has_unencrypted_parts = False\<rparr> False = Some (root', st, e)"
      "eh_signatures helper = dy_signatures st"
    using assms(1) unfolding decrypt_with_keys_def Let_def by (auto split: option.splits prod.splits)
  have "gossip_signed st" using rounds_signed [OF r(1)] by (simp add: gossip_signed_def)
  then have "dy_gossip_headers st = None" using r(2) assms(2) by (simp add: gossip_signed_def)
  then show ?thesis using assms(1) r(1) by (simp add: decrypt_with_keys_def)
qed

text \<open>
  C12: A mail without a valid signature changes the peer state of its sender only: the keys that it gossips are not
  taken.
\<close>

theorem unsigned_mail_changes_only_sender:
  assumes "mailmime_find_mailimf_fields root = Some flds"
    and "dc_e2ee_decrypt env stock root c = Some (root', helper, c')" "eh_signatures helper = []"
  shows "filter (\<lambda>r. \<not> of_addr (imf_from flds) r) (sj_peers c') = filter (\<lambda>r. \<not> of_addr (imf_from flds) r) (sj_peers c)"
proof -
  let ?t = "imf_time (pg_now env) flds" and ?f = "imf_from flds"
  have d: "dc_e2ee_decrypt env stock root c = (case apply_autocrypt env root ?f ?t (valid_autocrypt_header env ?f flds) c of
        None \<Rightarrow> None
      | Some (ps, c) \<Rightarrow>
          (case private_keys c of None \<Rightarrow> None | Some None \<Rightarrow> Some (root, no_e2ee, c)
           | Some (Some pv) \<Rightarrow> decrypt_with_keys env stock pv ?t flds (reload_peer ?f c ps) root
                                (degrade_peer stock (reload_peer ?f c ps) c)))"
    unfolding dc_e2ee_decrypt_def assms(1) option.case Let_def ..
  obtain ps c1 where a: "apply_autocrypt env root ?f ?t (valid_autocrypt_header env ?f flds) c = Some (ps, c1)"
    using assms(2) unfolding d by (cases "apply_autocrypt env root ?f ?t (valid_autocrypt_header env ?f flds) c") auto
  have o: "others ?f (sj_peers c1) = others ?f (sj_peers c)"
  proof (cases ?f)
    case None
    then show ?thesis using a by (simp add: apply_autocrypt_def)
  next
    case (Some f)
    then show ?thesis using a others_autocrypt by simp
  qed
  consider "private_keys c1 = None" | "private_keys c1 = Some None" | pv where "private_keys c1 = Some (Some pv)"
    by (cases "private_keys c1") auto
  then have "sj_peers c' = sj_peers c1"
  proof cases
    case 1
    then show ?thesis using assms(2) unfolding d a by simp
  next
    case 2
    then show ?thesis using assms(2) unfolding d a by simp
  next
    case 3
    let ?ps = "reload_peer ?f c1 ps"
    have "decrypt_with_keys env stock pv ?t flds ?ps root (degrade_peer stock ?ps c1) = Some (root', helper, c')"
      using assms(2) unfolding d a by (simp add: 3)
    from unsigned_keeps_peers [OF this assms(3)] show ?thesis by simp
  qed
  then show ?thesis using o by (simp add: others_def)
qed

section \<open>Who can read an encrypted mail\<close>

text \<open>The key that a mail to this recipient is encrypted to, if there is one that may be used.\<close>

definition recipient_key :: "bool \<Rightarrow> bool \<Rightarrow> peer_row list \<Rightarrow> string \<Rightarrow> dc_key_t option" where
  "recipient_key guaranteed min_verified peers r =
     (let (known, ps) = dc_apeerstate_load_by_addr dc_apeerstate_new peers (Some r) in
      case (if known then dc_apeerstate_peek_key (Some ps) min_verified else None) of
        Some k \<Rightarrow> if ps_prefer_encrypt ps = DC_PE_MUTUAL \<or> guaranteed then Some k else None
      | None \<Rightarrow> None)"

lemma collect_keys_all:
  "collect_keys self guaranteed mv peers rs (ks, ps) = (True, ks', ps') \<Longrightarrow>
     \<exists>new. ks' = ks @ new \<and> map (recipient_key guaranteed mv peers) (filter (\<lambda>r. \<not> strcaseeq r self) rs) = map Some new"
proof (induction rs arbitrary: ks ps)
  case (Cons r rs)
  show ?case
  proof (cases "strcaseeq r self")
    case True
    then show ?thesis using Cons by simp
  next
    case False
    obtain known p where l: "dc_apeerstate_load_by_addr dc_apeerstate_new peers (Some r) = (known, p)" by fastforce
    obtain k where k: "known" "dc_apeerstate_peek_key (Some p) mv = Some k" "ps_prefer_encrypt p = DC_PE_MUTUAL \<or> guaranteed"
      "collect_keys self guaranteed mv peers rs (ks @ [k], ps @ [p]) = (True, ks', ps')"
      using Cons(2) False l by (auto split: if_splits option.splits)
    from Cons(1) [OF k(4)] obtain new where "ks' = (ks @ [k]) @ new"
      "map (recipient_key guaranteed mv peers) (filter (\<lambda>r. \<not> strcaseeq r self) rs) = map Some new" by blast
    moreover have "recipient_key guaranteed mv peers r = Some k" using l k(1-3) by (simp add: recipient_key_def)
    ultimately show ?thesis using False by (intro exI [of _ "k # new"]) simp
  qed
qed simp

lemma plan_keys:
  assumes "encryption_plan self own e2ee rcpts force guaranteed mv c = Some (ks, ps, sign)"
  shows "\<not> force \<and> (\<exists>new. ks = new @ [own] \<and>
    map (recipient_key guaranteed mv (sj_peers c)) (filter (\<lambda>r. \<not> strcaseeq r self) rcpts) = map Some new)"
proof -
  obtain ks0 ps0 where c: "collect_keys self guaranteed mv (sj_peers c) rcpts ([], []) = (True, ks0, ps0)"
      "ks = ks0 @ [own]" "\<not> force"
    using assms unfolding encryption_plan_def Let_def by (auto split: if_splits prod.splits)
  from collect_keys_all [OF c(1)] c(2,3) show ?thesis by simp
qed


text \<open>
  C15: When OpenPGP fails on a mail that was to be encrypted, the mail is left in the clear but looks encrypted: its plain
  part stays, its subject is the one of encrypted mails, and its \<open>Chat-\<close> fields and the Autocrypt header are lost.
\<close>

theorem failed_encryption_stays_plain:
  assumes "dc_sqlite3_get_config (db_config (sj_db c)) (Some ''configured_addr'') None = Some self"
    and "load_or_generate_self_public_key env self (sj_keypairs c) = Some (own, kps)"
    and "encryption_plan self own e2ee rcpts force guaranteed mv (c\<lparr>sj_keypairs := kps\<rparr>) = Some (ks, ps, sign)"
    and "\<And>plain. pg_encrypt env ks sign plain = None"
  shows "dc_e2ee_encrypt env stock e2ee rcpts force guaranteed mv imffields part c =
    ((False, filter (\<lambda>f. \<not> moves_to_encrypted f) imffields @ [encrypted_subject stock], mark_protected (pg_prepare env part)),
     c\<lparr>sj_keypairs := kps\<rparr>)"
proof -
  have "encrypt_tree env stock mv (ks, ps, sign) imffields (pg_prepare env part) =
      (False, filter (\<lambda>f. \<not> moves_to_encrypted f) imffields @ [encrypted_subject stock], mark_protected (pg_prepare env part))"
    unfolding encrypt_tree_def prod.case Let_def assms(4) if_cancel option.case by (rule refl)
  then show ?thesis unfolding dc_e2ee_encrypt_def assms(1,2) option.case prod.case Let_def assms(3) by simp
qed

section \<open>Samples\<close>

definition text_part :: "string \<Rightarrow> mailmime" where
  "text_part t = Mime_Single (new_head Kind_Text ''plain'' [(''charset'', Some ''utf-8'')] []) (Some t)"

definition sample_pgp_env :: pgp_env where
  "sample_pgp_env =
     \<lparr>pg_now = 100, pg_fingerprint = sample_pgp, pg_valid_key = (\<lambda>k. True), pg_create_keypair = (\<lambda>a. None),
      pg_decrypt = (\<lambda>pv pb s. Some (''Hi'', [''AB''])), pg_encrypt = (\<lambda>ks k s. Some ''-----BEGIN PGP MESSAGE-----''),
      pg_parse = (\<lambda>s. Some (text_part s)), pg_write = (\<lambda>m. ''mail''), pg_prepare = (\<lambda>m. m),
      pg_part_parse = (\<lambda>e s. None), pg_fields_parse = (\<lambda>s. None)\<rparr>"

definition sample_key :: dc_key_t where
  "sample_key = \<lparr>key_binary = Some [2], key_type = DC_KEY_PRIVATE\<rparr>"

text \<open>A mail from Ada to Bob with an encrypted part and a plain one behind it.\<close>

definition mixed_mail :: mailmime where
  "mixed_mail =
     Mime_Message message_head
       (Some [Field_Orig_Date (Some 50), Field_From (Some [\<lparr>mb_display_name = None, mb_addr_spec = Some ''ada@b.c''\<rparr>]),
              Field_To (Some [Address_Mailbox (Some \<lparr>mb_display_name = None, mb_addr_spec = Some ''bob@x.org''\<rparr>)])])
       (Some (Mime_Multiple (new_head Kind_Multipart ''mixed'' [] [])
          [encrypted_tree ''-----BEGIN PGP MESSAGE-----+'', text_part ''Pay to 7'']))"

lemma first_part_decides_encryption_witness:
  "decryptable sample_pgp_env [sample_key] [] (front_part mixed_mail)"
proof -
  have "(case decrypt_rounds sample_pgp_env [sample_key] [] 10 mixed_mail start_decrypting False of
      Some (root, st, e) \<Rightarrow> e | None \<Rightarrow> False)" by code_simp
  then obtain root st where "decrypt_rounds sample_pgp_env [sample_key] [] 10 mixed_mail start_decrypting False =
      Some (root, st, True)" by (auto split: option.splits prod.splits)
  from first_part_decides_encryption [OF this] show ?thesis by simp
qed

text \<open>Ada knows a key of Bob, who prefers encryption.\<close>

definition ada_writes :: sj_ctx where
  "ada_writes = ada_invites\<lparr>sj_peers := [(new_row ''bob@x.org'')\<lparr>pr_public_key := Some [7], pr_prefer_encrypted := 1\<rparr>]\<rparr>"

definition unsigned_env :: pgp_env where
  "unsigned_env = sample_pgp_env\<lparr>pg_decrypt := (\<lambda>pv pb s. None)\<rparr>"

lemma unsigned_mail_changes_only_sender_witness:
  "\<exists>root helper c. dc_e2ee_decrypt unsigned_env (\<lambda>_ _. []) mixed_mail ada_writes = Some (root, helper, c) \<and>
     filter (\<lambda>r. \<not> strcaseeq (pr_addr r) ''ada@b.c'') (sj_peers c) = sj_peers ada_writes"
proof -
  have f: "mailmime_find_mailimf_fields mixed_mail =
      Some [Field_Orig_Date (Some 50), Field_From (Some [\<lparr>mb_display_name = None, mb_addr_spec = Some ''ada@b.c''\<rparr>]),
              Field_To (Some [Address_Mailbox (Some \<lparr>mb_display_name = None, mb_addr_spec = Some ''bob@x.org''\<rparr>)])]"
    by (simp add: mixed_mail_def)
  have "(case dc_e2ee_decrypt unsigned_env (\<lambda>_ _. []) mixed_mail ada_writes of
      Some (root, helper, c) \<Rightarrow> eh_signatures helper = [] | None \<Rightarrow> False)" by code_simp
  then obtain root helper c where d: "dc_e2ee_decrypt unsigned_env (\<lambda>_ _. []) mixed_mail ada_writes = Some (root, helper, c)"
      "eh_signatures helper = []" by (auto split: option.splits prod.splits)
  have from_addr: "imf_from [Field_Orig_Date (Some 50), Field_From (Some [\<lparr>mb_display_name = None, mb_addr_spec = Some ''ada@b.c''\<rparr>]),
              Field_To (Some [Address_Mailbox (Some \<lparr>mb_display_name = None, mb_addr_spec = Some ''bob@x.org''\<rparr>)])] = Some ''ada@b.c''"
    by code_simp
  have "filter (\<lambda>r. \<not> strcaseeq (pr_addr r) ''ada@b.c'') (sj_peers ada_writes) = sj_peers ada_writes" by code_simp
  then show ?thesis using unsigned_mail_changes_only_sender [OF f d] d unfolding from_addr by auto
qed

lemma ada_plan:
  obtains own kps ks ps sign where
    "load_or_generate_self_public_key env ''ada@b.c'' (sj_keypairs ada_writes) = Some (own, kps)"
    "encryption_plan ''ada@b.c'' own True [''bob@x.org'', ''ada@b.c''] False False False (ada_writes\<lparr>sj_keypairs := kps\<rparr>) = Some (ks, ps, sign)"
proof -
  have l: "load_or_generate_self_public_key env ''ada@b.c'' (sj_keypairs ada_writes) =
      Some (snd (dc_key_load_self_public dc_key_new (Some ''ada@b.c'') (sj_keypairs ada_writes)), sj_keypairs ada_writes)"
    by (simp add: load_or_generate_self_public_key_def ada_writes_def ada_invites_def bob_waits_def dc_key_load_self_public_def
        self_default_def Let_def)
  have "encryption_plan ''ada@b.c'' (snd (dc_key_load_self_public dc_key_new (Some ''ada@b.c'') (sj_keypairs ada_writes))) True
      [''bob@x.org'', ''ada@b.c''] False False False (ada_writes\<lparr>sj_keypairs := sj_keypairs ada_writes\<rparr>) \<noteq> None"
    by code_simp
  with l show thesis using that by (metis option.exhaust prod_cases3)
qed

lemma ada_addr: "dc_sqlite3_get_config (db_config (sj_db ada_writes)) (Some ''configured_addr'') None = Some ''ada@b.c''"
  by code_simp

lemma success_shape: "fst (fst x) \<Longrightarrow> \<exists>a b c. x = ((True, a, b), c)"
  by (cases x) auto


definition broken_env :: pgp_env where
  "broken_env = sample_pgp_env\<lparr>pg_encrypt := (\<lambda>ks k s. None)\<rparr>"

lemma failed_encryption_stays_plain_witness:
  "snd (snd (fst (dc_e2ee_encrypt broken_env (\<lambda>_ _. []) True [''bob@x.org'', ''ada@b.c''] False False False [Field_Subject ''Hi'']
     (text_part ''secret'') ada_writes))) = mark_protected (text_part ''secret'')"
proof -
  obtain own kps ks ps sign where l: "load_or_generate_self_public_key broken_env ''ada@b.c'' (sj_keypairs ada_writes) = Some (own, kps)"
    "encryption_plan ''ada@b.c'' own True [''bob@x.org'', ''ada@b.c''] False False False (ada_writes\<lparr>sj_keypairs := kps\<rparr>) = Some (ks, ps, sign)"
    by (rule ada_plan)
  have "pg_encrypt broken_env ks sign plain = None" for plain by (simp add: broken_env_def)
  moreover have "pg_prepare broken_env m = m" for m by (simp add: broken_env_def sample_pgp_env_def)
  ultimately show ?thesis
    using failed_encryption_stays_plain [OF ada_addr l, of "\<lambda>_ _. []" "[Field_Subject ''Hi'']" "text_part ''secret''"] by simp
qed

end
