(* ===== verification/Receive.thy ===== *)
theory Receive
  imports E2ee Msgs
begin

text \<open>
  \<open>src/dc_receive_imf.c\<close>: a mail that was fetched is parsed, gets its contacts, its chat and its state, and becomes rows of
  the table of messages; handshakes, groups with their commands, receipts and jobs are dealt with on the way.

  What is outside (libetpan, OpenPGP, SHA-256, the clock) is in a record \<open>recv_env\<close>.  A transaction that is rolled back
  leaves the tables as they were when it began; on these paths no event has been reported yet.  The column \<open>bytes\<close> of the
  messages, the copy of the mail that \<open>save_eml\<close> asks for, and failing writes of the database are left out.
\<close>

abbreviation DC_ORIGIN_INCOMING_UNKNOWN_CC :: int where "DC_ORIGIN_INCOMING_UNKNOWN_CC \<equiv> 0x20"
abbreviation DC_ORIGIN_INCOMING_UNKNOWN_TO :: int where "DC_ORIGIN_INCOMING_UNKNOWN_TO \<equiv> 0x40"
abbreviation DC_ORIGIN_INCOMING_CC :: int where "DC_ORIGIN_INCOMING_CC \<equiv> 0x200"
abbreviation DC_ORIGIN_INCOMING_TO :: int where "DC_ORIGIN_INCOMING_TO \<equiv> 0x400"
abbreviation DC_ORIGIN_OUTGOING_CC :: int where "DC_ORIGIN_OUTGOING_CC \<equiv> 0x2000"
abbreviation DC_ORIGIN_OUTGOING_TO :: int where "DC_ORIGIN_OUTGOING_TO \<equiv> 0x4000"
abbreviation DC_ORIGIN_MIN_VERIFIED :: int where "DC_ORIGIN_MIN_VERIFIED \<equiv> DC_ORIGIN_INCOMING_REPLY_TO"
abbreviation DC_ORIGIN_MIN_START_NEW_NCHAT :: int where "DC_ORIGIN_MIN_START_NEW_NCHAT \<equiv> 0x7FFFFFFF"
abbreviation DC_EVENT_INCOMING_MSG :: int where "DC_EVENT_INCOMING_MSG \<equiv> 2005"
abbreviation DC_EVENT_MSG_READ :: int where "DC_EVENT_MSG_READ \<equiv> 2015"
abbreviation DC_PARAM_SERVER_FOLDER :: char where "DC_PARAM_SERVER_FOLDER \<equiv> CHR ''Z''"
abbreviation DC_PARAM_SERVER_UID :: char where "DC_PARAM_SERVER_UID \<equiv> CHR ''z''"
abbreviation DC_MDNS_DEFAULT_ENABLED :: int where "DC_MDNS_DEFAULT_ENABLED \<equiv> 1"

text \<open>\<open>rv_sent\<close> is the id of a status mail that the handshake may send, \<open>rv_msg_id_parse\<close> is \<open>mailimf_msg_id_parse\<close>.\<close>

record recv_env =
  rv_mime :: mime_env
  rv_pgp :: pgp_env
  rv_sha256 :: "string \<Rightarrow> u8 list"
  rv_msg_id_parse :: "string \<Rightarrow> cptr"
  rv_sent :: nat

record recv_st =
  rc_ctx :: sj_ctx
  rc_jobs :: jobs_ctx
  rc_smeared :: int

abbreviation rv_stock :: "recv_env \<Rightarrow> stock" where "rv_stock env \<equiv> me_stock (rv_mime env)"
abbreviation rv_now :: "recv_env \<Rightarrow> int" where "rv_now env \<equiv> me_now (rv_mime env)"
abbreviation rv_self_name :: "recv_env \<Rightarrow> string" where "rv_self_name env \<equiv> rv_stock env DC_STR_SELF []"

definition on_db :: "(database \<Rightarrow> database) \<Rightarrow> recv_st \<Rightarrow> recv_st" where
  "on_db f st = st\<lparr>rc_ctx := with_db f (rc_ctx st)\<rparr>"

abbreviation rc_db :: "recv_st \<Rightarrow> database" where "rc_db st \<equiv> sj_db (rc_ctx st)"

definition self_addr_of :: "database \<Rightarrow> string" where
  "self_addr_of db = dc_strdup (dc_sqlite3_get_config (db_config db) (Some ''configured_addr'') (Some []))"

section \<open>Contacts of a mail\<close>

text \<open>
  The ids that were found so far and \<open>*check_self\<close>, which every address sets anew: after a list it tells whether the last
  address is the own one.
\<close>

definition add_or_lookup_contact_by_addr ::
    "mime_env \<Rightarrow> int \<Rightarrow> database \<times> nat list \<times> bool \<Rightarrow> mailimf_mailbox \<Rightarrow> database \<times> nat list \<times> bool" where
  "add_or_lookup_contact_by_addr env origin acc mb =
     (let (db, ids, check_self) = acc in
      case mb_addr_spec mb of
        None \<Rightarrow> acc
      | Some addr_spec \<Rightarrow>
          if dc_addr_cmp_eq (self_addr_of db) addr_spec then (db, ids, True)
          else
            let display_name_dec =
                  (case mb_display_name mb of None \<Rightarrow> None
                   | Some n \<Rightarrow> map_option dc_normalize_name (dc_decode_header_words (me_phrase_parse env) (Some n)));
                (row_id, modified, db) = dc_add_or_lookup_contact db display_name_dec (Some addr_spec) origin
            in (db, if row_id \<noteq> 0 \<and> row_id \<notin> set ids then ids @ [row_id] else ids, False))"

definition dc_add_or_lookup_contacts_by_mailbox_list ::
    "mime_env \<Rightarrow> int \<Rightarrow> mailimf_mailbox list option \<Rightarrow> database \<times> nat list \<times> bool \<Rightarrow> database \<times> nat list \<times> bool" where
  "dc_add_or_lookup_contacts_by_mailbox_list env origin mb_list acc =
     (case mb_list of None \<Rightarrow> acc | Some l \<Rightarrow> foldl (add_or_lookup_contact_by_addr env origin) acc l)"

definition dc_add_or_lookup_contacts_by_address_list ::
    "mime_env \<Rightarrow> int \<Rightarrow> mailimf_address list option \<Rightarrow> database \<times> nat list \<times> bool \<Rightarrow> database \<times> nat list \<times> bool" where
  "dc_add_or_lookup_contacts_by_address_list env origin adr_list acc =
     (case adr_list of None \<Rightarrow> acc
      | Some l \<Rightarrow> foldl (add_or_lookup_contact_by_addr env origin) acc (concat (map address_mailboxes l)))"

section \<open>Replies\<close>

definition is_known_rfc724_mid :: "database \<Rightarrow> string \<Rightarrow> bool" where
  "is_known_rfc724_mid db rfc724_mid \<longleftrightarrow>
     list_ex (\<lambda>m. ms_rfc724_mid m = rfc724_mid \<and> ms_chat_id m > DC_CHAT_ID_LAST_SPECIAL \<and>
                  (case chat_row_of db m of None \<Rightarrow> False | Some c \<Rightarrow> ch_blocked c = 0)) (db_msgs db)"

definition is_known_rfc724_mid_in_list :: "database \<Rightarrow> string list option \<Rightarrow> bool" where
  "is_known_rfc724_mid_in_list db mid_list =
     (case mid_list of None \<Rightarrow> False | Some l \<Rightarrow> list_ex (is_known_rfc724_mid db) l)"

definition reply_list :: "dc_mimeparser_t \<Rightarrow> string list option" where
  "reply_list p = (case dc_mimeparser_lookup_field p ''In-Reply-To'' of Some (Field_In_Reply_To l) \<Rightarrow> l | _ \<Rightarrow> None)"

definition references_list :: "dc_mimeparser_t \<Rightarrow> string list option" where
  "references_list p = (case dc_mimeparser_lookup_field p ''References'' of Some (Field_References l) \<Rightarrow> l | _ \<Rightarrow> None)"

definition dc_is_reply_to_known_message :: "database \<Rightarrow> dc_mimeparser_t \<Rightarrow> bool" where
  "dc_is_reply_to_known_message db p \<longleftrightarrow>
     (case dc_mimeparser_lookup_optional_field2 p ''Chat-Predecessor'' ''X-MrPredecessor'' of
        None \<Rightarrow> False | Some mid \<Rightarrow> is_known_rfc724_mid db mid) \<or>
     is_known_rfc724_mid_in_list db (reply_list p) \<or> is_known_rfc724_mid_in_list db (references_list p)"

definition is_msgrmsg_rfc724_mid :: "database \<Rightarrow> string \<Rightarrow> bool" where
  "is_msgrmsg_rfc724_mid db rfc724_mid \<longleftrightarrow>
     list_ex (\<lambda>m. ms_rfc724_mid m = rfc724_mid \<and> ms_msgrmsg m \<noteq> 0 \<and> ms_chat_id m > DC_CHAT_ID_LAST_SPECIAL) (db_msgs db)"

definition is_msgrmsg_rfc724_mid_in_list :: "database \<Rightarrow> string list option \<Rightarrow> bool" where
  "is_msgrmsg_rfc724_mid_in_list db mid_list =
     (case mid_list of None \<Rightarrow> False | Some l \<Rightarrow> list_ex (is_msgrmsg_rfc724_mid db) l)"

definition dc_is_reply_to_messenger_message :: "database \<Rightarrow> dc_mimeparser_t \<Rightarrow> bool" where
  "dc_is_reply_to_messenger_message db p \<longleftrightarrow>
     is_msgrmsg_rfc724_mid_in_list db (reply_list p) \<or> is_msgrmsg_rfc724_mid_in_list db (references_list p)"

section \<open>Time stamps\<close>

definition last_other_time :: "database \<Rightarrow> nat \<Rightarrow> nat \<Rightarrow> int \<Rightarrow> int" where
  "last_other_time db cid from_id t =
     foldl max 0 (map ms_timestamp (filter (\<lambda>m. ms_chat_id m = cid \<and> ms_from_id m \<noteq> from_id \<and> ms_timestamp m \<ge> t) (db_msgs db)))"

text \<open>The times for sorting, of sending and of receiving, and the smeared time.\<close>

definition calc_timestamps ::
    "int \<Rightarrow> int \<Rightarrow> database \<Rightarrow> nat \<Rightarrow> nat \<Rightarrow> int \<Rightarrow> bool \<Rightarrow> (int \<times> int \<times> int) \<times> int" where
  "calc_timestamps now smeared db cid from_id message_timestamp is_fresh_msg =
     (let sent_timestamp = min message_timestamp now;
          last_msg_time = (if is_fresh_msg then last_other_time db cid from_id message_timestamp else 0);
          sort_timestamp = (if last_msg_time > 0 \<and> message_timestamp \<le> last_msg_time then last_msg_time + 1
                            else message_timestamp)
      in if sort_timestamp \<ge> dc_smeared_time smeared now then
           let (t, smeared) = dc_create_smeared_timestamp smeared now in ((t, sent_timestamp, now), smeared)
         else ((sort_timestamp, sent_timestamp, now), smeared))"

section \<open>Ad-hoc groups\<close>

text \<open>The loop over the members of the candidates, sorted by chat and contact.\<close>

fun match_loop :: "nat list \<Rightarrow> (nat \<times> nat) list \<Rightarrow> nat \<Rightarrow> nat \<Rightarrow> nat \<Rightarrow> nat list \<Rightarrow> nat list" where
  "match_loop contact_ids [] last_chat_id matches mismatches chat_ids =
     (if matches = length contact_ids \<and> mismatches = 0 then chat_ids @ [last_chat_id] else chat_ids)"
| "match_loop contact_ids ((cid, contact_id) # rows) last_chat_id matches mismatches chat_ids =
     (let new = (cid \<noteq> last_chat_id);
          chat_ids = (if new \<and> matches = length contact_ids \<and> mismatches = 0 then chat_ids @ [last_chat_id] else chat_ids);
          matches = (if new then 0 else matches);
          mismatches = (if new then 0 else mismatches)
      in if contact_id = (if matches < length contact_ids then contact_ids ! matches else 0)
         then match_loop contact_ids rows cid (matches + 1) mismatches chat_ids
         else match_loop contact_ids rows cid matches (mismatches + 1) chat_ids)"

definition is_group :: "database \<Rightarrow> nat \<Rightarrow> bool" where
  "is_group db cid \<longleftrightarrow> list_ex (\<lambda>ch. ch_id ch = cid \<and> ch_type ch = DC_CHAT_TYPE_GROUP) (db_chats db)"

definition search_chat_ids_by_contact_ids :: "database \<Rightarrow> nat list \<Rightarrow> nat list" where
  "search_chat_ids_by_contact_ids db unsorted_contact_ids =
     (let contact_ids = sort (remdups (filter (\<lambda>i. i \<noteq> DC_CONTACT_ID_SELF) unsorted_contact_ids));
          cands = map fst (filter (\<lambda>(ch, ct). ct \<in> set contact_ids) (db_chats_contacts db));
          rows = sort (remdups (filter (\<lambda>(ch, ct). ch \<in> set cands \<and> is_group db ch \<and> ct \<noteq> DC_CONTACT_ID_SELF)
                                 (db_chats_contacts db)))
      in if contact_ids = [] then [] else match_loop contact_ids rows 0 0 0 [])"

definition lc_hex_digit :: "nat \<Rightarrow> char" where
  "lc_hex_digit n = (if n < 10 then char_of (48 + n) else char_of (87 + n))"

fun comma_separated :: "string list \<Rightarrow> string" where
  "comma_separated [] = []"
| "comma_separated [s] = s"
| "comma_separated (s # ss) = s @ '','' @ comma_separated ss"

definition create_adhoc_grp_id :: "(string \<Rightarrow> u8 list) \<Rightarrow> database \<Rightarrow> nat list \<Rightarrow> string" where
  "create_adhoc_grp_id sha256 db member_ids =
     (let self = dc_strdup (dc_sqlite3_get_config (db_config db) (Some ''configured_addr'') (Some ''no-self''));
          member_rows = filter (\<lambda>r. ct_id r \<in> set member_ids \<and> ct_id r \<noteq> DC_CONTACT_ID_SELF) (db_contacts db);
          member_addrs = sort (map dc_strlower_in_place (self # map ct_addr member_rows));
          binary_hash = sha256 (comma_separated member_addrs)
      in concat (map (\<lambda>b. [lc_hex_digit (unat b div 16), lc_hex_digit (unat b mod 16)]) (take 8 binary_hash)))"

definition create_group_record :: "string \<Rightarrow> string \<Rightarrow> int \<Rightarrow> bool \<Rightarrow> database \<Rightarrow> nat \<times> database" where
  "create_group_record grpid grpname create_blocked create_verified db =
     (let db = insert_chat (if create_verified then DC_CHAT_TYPE_VERIFIED_GROUP else DC_CHAT_TYPE_GROUP) grpname 0 []
                 create_blocked grpid [] db
      in (chat_rowid db grpid, db))"

definition add_id :: "nat \<Rightarrow> nat list \<Rightarrow> nat list" where
  "add_id i ids = (if i \<in> set ids then ids else ids @ [i])"

text \<open>The chat with the newest message among these; those without messages come last.\<close>

definition most_recent_chat :: "database \<Rightarrow> nat list \<Rightarrow> chat_row option" where
  "most_recent_chat db chat_ids =
     (case sort_key msg_rank (filter (\<lambda>m. ms_chat_id m \<in> set chat_ids) (db_msgs db)) of
        [] \<Rightarrow> find (\<lambda>ch. ch_id ch \<in> set chat_ids) (db_chats db)
      | ms \<Rightarrow> find (\<lambda>ch. ch_id ch = ms_chat_id (last ms)) (db_chats db))"

definition create_or_lookup_adhoc_group ::
    "recv_env \<Rightarrow> dc_mimeparser_t \<Rightarrow> int \<Rightarrow> nat \<Rightarrow> nat list \<Rightarrow> database \<Rightarrow> nat \<times> int \<times> database" where
  "create_or_lookup_adhoc_group env p create_blocked from_id to_ids db =
     (let member_ids = add_id DC_CONTACT_ID_SELF (add_id from_id to_ids) in
      if to_ids = [] \<or> dc_mimeparser_is_mailinglist_message p \<or> length member_ids < 3 then (0, 0, db)
      else
        (case most_recent_chat db (search_chat_ids_by_contact_ids db member_ids) of
           Some ch \<Rightarrow> (ch_id ch, ch_blocked ch, db)
         | None \<Rightarrow>
             let grpname = (case mp_subject p of
                              Some (c # s) \<Rightarrow> c # s
                            | _ \<Rightarrow> rv_stock env DC_STR_MEMBER [show_nat (length member_ids)]);
                 (cid, db) = create_group_record (create_adhoc_grp_id (rv_sha256 env) db member_ids) grpname create_blocked False db;
                 db = foldl (\<lambda>db i. dc_add_to_chat_contacts_table db cid i) db member_ids
             in (cid, create_blocked, cb db DC_EVENT_CHAT_MODIFIED cid 0)))"

section \<open>Verified groups\<close>

text \<open>A row of the query: the address of a recipient and whether its peer state has a verified fingerprint.\<close>

definition gossip_verifies :: "bool \<Rightarrow> dc_apeerstate_t \<Rightarrow> bool" where
  "gossip_verifies is_verified ps \<longleftrightarrow>
     \<not> is_verified \<or>
     (dc_strdup (ps_verified_key_fingerprint ps) \<noteq> dc_strdup (ps_public_key_fingerprint ps) \<and>
      dc_strdup (ps_verified_key_fingerprint ps) \<noteq> dc_strdup (ps_gossip_key_fingerprint ps))"

text \<open>The result of \<open>dc_apeerstate_set_verified\<close> is not looked at.\<close>

definition check_recipient :: "string list \<Rightarrow> string \<Rightarrow> bool \<Rightarrow> peer_row list \<Rightarrow> bool \<times> peer_row list" where
  "check_recipient gossipped_addr to_addr is_verified peers =
     (let (known, ps) = dc_apeerstate_load_by_addr dc_apeerstate_new peers (Some to_addr) in
      if list_ex (strcaseeq to_addr) gossipped_addr \<and> known \<and> gossip_verifies is_verified ps then
        let ps = snd (dc_apeerstate_set_verified ps DC_PS_GOSSIP_KEY (dc_strdup (ps_gossip_key_fingerprint ps)) DC_BIDIRECT_VERIFIED)
        in (True, snd (dc_apeerstate_save_to_db ps peers False))
      else (is_verified, peers))"

fun check_rows :: "string list \<Rightarrow> (contact_row \<times> peer_row option) list \<Rightarrow> peer_row list \<Rightarrow> bool \<times> peer_row list" where
  "check_rows gossipped_addr [] peers = (True, peers)"
| "check_rows gossipped_addr ((r, p) # rows) peers =
     (let (ok, peers) = check_recipient gossipped_addr (ct_addr r) (joined_verified p) peers
      in if ok then check_rows gossipped_addr rows peers else (False, peers))"

text \<open>The rows of a contact are read when its turn comes.\<close>

fun check_recipients :: "string list \<Rightarrow> contact_row list \<Rightarrow> peer_row list \<Rightarrow> bool \<times> peer_row list" where
  "check_recipients gossipped_addr [] peers = (True, peers)"
| "check_recipients gossipped_addr (r # rs) peers =
     (let (ok, peers) = check_rows gossipped_addr (join_peers peers r) peers
      in if ok then check_recipients gossipped_addr rs peers else (False, peers))"

text \<open>What is asked of the sender and of the mail.\<close>

definition sender_verified :: "recv_env \<Rightarrow> e2ee_helper \<Rightarrow> nat \<Rightarrow> sj_ctx \<Rightarrow> bool" where
  "sender_verified env helper from_id c =
     (let (ok, contact) = dc_contact_load_from_db (rv_self_name env) dc_contact_new (sj_db c) from_id;
          (known, ps) = dc_apeerstate_load_by_addr dc_apeerstate_new (sj_peers c) (c_addr contact)
      in ok \<and> known \<and> dc_contact_is_verified_ex (sj_peers c) (Some contact) (Some ps) \<ge> DC_BIDIRECT_VERIFIED \<and>
         eh_encrypted helper \<and> dc_apeerstate_has_verified_key (Some ps) (Some (eh_signatures helper)))"

definition check_verified_properties :: "recv_env \<Rightarrow> e2ee_helper \<Rightarrow> nat \<Rightarrow> nat list \<Rightarrow> sj_ctx \<Rightarrow> bool \<times> sj_ctx" where
  "check_verified_properties env helper from_id to_ids c =
     (if \<not> sender_verified env helper from_id c then (False, c)
      else
        let (ok, peers) = check_recipients (eh_gossipped_addr helper)
                            (filter (\<lambda>r. ct_id r \<in> set to_ids) (db_contacts (sj_db c))) (sj_peers c)
        in (ok, c\<lparr>sj_peers := peers\<rparr>))"

section \<open>Groups\<close>

definition group_id_of :: "dc_mimeparser_t \<Rightarrow> cptr" where
  "group_id_of p =
     (case dc_mimeparser_lookup_optional_field2 p ''Chat-Group-ID'' ''X-MrGrpId'' of
        Some v \<Rightarrow> Some v
      | None \<Rightarrow>
          (case (case dc_mimeparser_lookup_field p ''Message-ID'' of
                   Some (Field_Message_Id m) \<Rightarrow> dc_extract_grpid_from_rfc724_mid m | _ \<Rightarrow> None) of
             Some g \<Rightarrow> Some g
           | None \<Rightarrow>
               (case dc_extract_grpid_from_rfc724_mid_list (map_option (map Some) (reply_list p)) of
                  Some g \<Rightarrow> Some g
                | None \<Rightarrow> dc_extract_grpid_from_rfc724_mid_list (map_option (map Some) (references_list p)))))"

text \<open>The command of a group message.\<close>

datatype group_cmd = No_Cmd | Remove_Member string | Add_Member string | Rename | New_Image

definition group_command :: "dc_mimeparser_t \<Rightarrow> group_cmd" where
  "group_command p =
     (case dc_mimeparser_lookup_optional_field2 p ''Chat-Group-Member-Removed'' ''X-MrRemoveFromGrp'' of
        Some v \<Rightarrow> Remove_Member v
      | None \<Rightarrow>
          (case dc_mimeparser_lookup_optional_field2 p ''Chat-Group-Member-Added'' ''X-MrAddToGrp'' of
             Some v \<Rightarrow> Add_Member v
           | None \<Rightarrow>
               if dc_mimeparser_lookup_optional_field2 p ''Chat-Group-Name-Changed'' ''X-MrGrpNameChanged'' \<noteq> None then Rename
               else if dc_mimeparser_lookup_optional_field p ''Chat-Group-Image'' \<noteq> None then New_Image
               else No_Cmd))"

definition command_code :: "group_cmd \<Rightarrow> int \<Rightarrow> int" where
  "command_code cmd old =
     (case cmd of Remove_Member v \<Rightarrow> DC_CMD_MEMBER_REMOVED_FROM_GROUP | Add_Member v \<Rightarrow> DC_CMD_MEMBER_ADDED_TO_GROUP
      | Rename \<Rightarrow> DC_CMD_GROUPNAME_CHANGED | New_Image \<Rightarrow> DC_CMD_GROUPIMAGE_CHANGED | No_Cmd \<Rightarrow> old)"

definition group_name_of :: "recv_env \<Rightarrow> dc_mimeparser_t \<Rightarrow> cptr" where
  "group_name_of env p =
     (case dc_mimeparser_lookup_optional_field2 p ''Chat-Group-Name'' ''X-MrGrpName'' of
        None \<Rightarrow> None | Some v \<Rightarrow> dc_decode_header_words (me_phrase_parse (rv_mime env)) (Some v))"

text \<open>The image that the parts hold: \<open>None\<close> when they are not of the right kind, \<open>Some None\<close> when it is removed.\<close>

definition group_image :: "dc_mimeparser_t \<Rightarrow> cptr option" where
  "group_image p =
     (case mp_parts p of
        [] \<Rightarrow> None
      | textpart # rest \<Rightarrow>
          if pt_type textpart \<noteq> DC_MSG_TEXT then None
          else
            (case rest of
               [] \<Rightarrow> Some None
             | imgpart # tl_parts \<Rightarrow>
                 if pt_type imgpart = DC_MSG_IMAGE then Some (dc_param_get (pt_param imgpart) DC_PARAM_FILE None) else None))"

definition set_group_image :: "stock \<Rightarrow> nat \<Rightarrow> cptr \<Rightarrow> database \<Rightarrow> database" where
  "set_group_image stock cid grpimage db =
     (let chat = snd (dc_chat_load_from_db stock dc_chat_new db cid)
      in dc_chat_update_param db (chat\<lparr>chat_param := dc_param_set (chat_param chat) DC_PARAM_PROFILE_IMAGE grpimage\<rparr>))"

definition skipped :: "group_cmd \<Rightarrow> cptr" where
  "skipped cmd = (case cmd of Remove_Member v \<Rightarrow> Some v | _ \<Rightarrow> None)"

text \<open>A sender or recipient that is neither the own address nor the removed one becomes a member.\<close>

definition add_member :: "string \<Rightarrow> string \<Rightarrow> cptr \<Rightarrow> nat \<Rightarrow> database \<Rightarrow> nat \<Rightarrow> database" where
  "add_member self_name self_addr skip cid db i =
     (if \<not> dc_addr_equals_contact self_name db (Some self_addr) i \<and>
         (skip = None \<or> \<not> dc_addr_equals_contact self_name db skip i)
      then dc_add_to_chat_contacts_table db cid i else db)"

definition recreate_members :: "string \<Rightarrow> cptr \<Rightarrow> nat \<Rightarrow> nat \<Rightarrow> nat list \<Rightarrow> database \<Rightarrow> database" where
  "recreate_members self_name skip cid from_id to_ids db =
     (let self_addr = self_addr_of db;
          db = db\<lparr>db_chats_contacts := filter (\<lambda>(ch, ct). ch \<noteq> cid) (db_chats_contacts db)\<rparr>;
          db = (if (case skip of None \<Rightarrow> True | Some a \<Rightarrow> \<not> dc_addr_cmp_eq self_addr a)
                then dc_add_to_chat_contacts_table db cid DC_CONTACT_ID_SELF else db);
          db = (if from_id > DC_CONTACT_ID_LAST_SPECIAL then add_member self_name self_addr skip cid db from_id else db)
      in foldl (add_member self_name self_addr skip cid) db to_ids)"

definition execute_commands :: "recv_env \<Rightarrow> dc_mimeparser_t \<Rightarrow> cptr \<Rightarrow> bool \<Rightarrow> nat \<Rightarrow> nat \<Rightarrow> nat list \<Rightarrow> database \<Rightarrow> database" where
  "execute_commands env p grpname created cid from_id to_ids db =
     (let cmd = group_command p;
          recreate = (created \<or> (case cmd of Remove_Member v \<Rightarrow> True | Add_Member v \<Rightarrow> True | _ \<Rightarrow> False));
          db = (case (cmd, grpname) of
                  (Rename, Some name) \<Rightarrow>
                    if length name < 200
                    then cb (update_chat cid (\<lambda>ch. ch\<lparr>ch_name := name\<rparr>) db) DC_EVENT_CHAT_MODIFIED cid 0 else db
                | _ \<Rightarrow> db);
          image = (if cmd = New_Image then group_image p else None);
          db = (case image of None \<Rightarrow> db | Some grpimage \<Rightarrow> set_group_image (rv_stock env) cid grpimage db);
          db = (if recreate then recreate_members (rv_self_name env) (skipped cmd) cid from_id to_ids db else db)
      in if image \<noteq> None \<or> recreate then cb db DC_EVENT_CHAT_MODIFIED cid 0 else db)"

text \<open>
  The chat of the group id with its name, or nothing of them when the group is a verified one and the mail is not good
  enough for it.
\<close>

definition known_group ::
    "recv_env \<Rightarrow> dc_mimeparser_t \<Rightarrow> nat \<Rightarrow> nat list \<Rightarrow> string \<Rightarrow> sj_ctx \<Rightarrow> (nat \<times> int \<times> cptr \<times> cptr) \<times> sj_ctx" where
  "known_group env p from_id to_ids grpid c =
     (let (cid, blocked, verified) = dc_get_chat_id_by_grpid (sj_db c) (Some grpid);
          (ok, c) = (if cid \<noteq> 0 \<and> verified then check_verified_properties env (mp_e2ee_helper p) from_id to_ids c else (True, c))
      in if ok then ((cid, blocked, Some grpid, group_name_of env p), c) else ((0, 0, None, None), c))"

definition left_group :: "database \<Rightarrow> cptr \<Rightarrow> bool" where
  "left_group db grpid = (case grpid of None \<Rightarrow> False | Some g \<Rightarrow> dc_is_group_explicitly_left db g)"

definition may_create_group :: "dc_mimeparser_t \<Rightarrow> cptr \<Rightarrow> cptr \<Rightarrow> database \<Rightarrow> bool" where
  "may_create_group p grpid grpname db \<longleftrightarrow>
     \<not> dc_mimeparser_is_mailinglist_message p \<and> grpid \<noteq> None \<and> grpname \<noteq> None \<and> skipped (group_command p) = None \<and>
     (\<not> left_group db grpid \<or>
      (case group_command p of Add_Member a \<Rightarrow> dc_addr_cmp_eq (self_addr_of db) a | _ \<Rightarrow> False))"

text \<open>The new chat.\<close>

definition create_group ::
    "recv_env \<Rightarrow> dc_mimeparser_t \<Rightarrow> int \<Rightarrow> nat \<Rightarrow> nat list \<Rightarrow> string \<Rightarrow> string \<Rightarrow> sj_ctx \<Rightarrow> nat \<times> sj_ctx" where
  "create_group env p create_blocked from_id to_ids grpid grpname c =
     (let (create_verified, c) =
            (if dc_mimeparser_lookup_field p ''Chat-Verified'' \<noteq> None
             then check_verified_properties env (mp_e2ee_helper p) from_id to_ids c else (False, c));
          (cid, db) = create_group_record grpid grpname create_blocked create_verified (sj_db c)
      in (cid, c\<lparr>sj_db := db\<rparr>))"

definition adhoc_instead :: "recv_env \<Rightarrow> dc_mimeparser_t \<Rightarrow> int \<Rightarrow> nat \<Rightarrow> nat list \<Rightarrow> sj_ctx \<Rightarrow> nat \<times> int \<times> sj_ctx" where
  "adhoc_instead env p create_blocked from_id to_ids c =
     (let (cid, blocked, db) = create_or_lookup_adhoc_group env p create_blocked from_id to_ids (sj_db c)
      in (cid, if cid \<noteq> 0 then blocked else 0, c\<lparr>sj_db := db\<rparr>))"

text \<open>The group with its commands executed, or the ad-hoc group that is too small an answer to it.\<close>

definition group_found ::
    "recv_env \<Rightarrow> dc_mimeparser_t \<Rightarrow> int \<Rightarrow> nat \<Rightarrow> nat list \<Rightarrow> cptr \<Rightarrow> bool \<Rightarrow> nat \<Rightarrow> int \<Rightarrow> sj_ctx \<Rightarrow> nat \<times> int \<times> sj_ctx" where
  "group_found env p create_blocked from_id to_ids grpname created cid blocked c =
     (let c = with_db (execute_commands env p grpname created cid from_id to_ids) c in
      if length to_ids = 1 \<and> \<not> mp_is_send_by_messenger p \<and> dc_get_chat_contact_cnt (sj_db c) cid > 3
      then adhoc_instead env p create_blocked from_id to_ids c else (cid, blocked, c))"

text \<open>The chat, whether it is blocked, the parser with the command that it has found, and the context.\<close>

definition create_or_lookup_group ::
    "recv_env \<Rightarrow> dc_mimeparser_t \<Rightarrow> int \<Rightarrow> nat \<Rightarrow> nat list \<Rightarrow> sj_ctx \<Rightarrow> (nat \<times> int \<times> sj_ctx) \<times> dc_mimeparser_t" where
  "create_or_lookup_group env p create_blocked from_id to_ids c =
     (case group_id_of p of
        None \<Rightarrow> (adhoc_instead env p create_blocked from_id to_ids c, p)
      | Some g \<Rightarrow>
          let ((cid, blocked, grpid, grpname), c) = known_group env p from_id to_ids g c;
              q = p\<lparr>mp_is_system_message := command_code (group_command p) (mp_is_system_message p)\<rparr>
          in (if cid \<noteq> 0 \<and> \<not> dc_is_contact_in_chat (sj_db c) cid from_id
              then adhoc_instead env q create_blocked from_id to_ids c
              else
                let left = left_group (sj_db c) grpid;
                    created = (cid = 0 \<and> may_create_group q grpid grpname (sj_db c));
                    (cid, blocked, c) =
                      (if created then
                         let (cid, c) = create_group env q create_blocked from_id to_ids (dc_strdup grpid) (dc_strdup grpname) c
                         in (cid, create_blocked, c)
                       else (cid, blocked, c))
                in if cid \<le> DC_CHAT_ID_LAST_SPECIAL then
                     if left then (DC_CHAT_ID_TRASH, blocked, c) else adhoc_instead env q create_blocked from_id to_ids c
                   else group_found env q create_blocked from_id to_ids grpname created cid blocked c, q))"

section \<open>The sender and the recipients\<close>

record recv_vars =
  rx_incoming :: bool
  rx_origin :: int
  rx_from_id :: nat
  rx_from_blocked :: bool
  rx_to_ids :: "nat list"
  rx_to_self :: bool

text \<open>\<open>check_self\<close> is not initialised by the code; a list of \<open>From:\<close> always has an address.\<close>

definition read_sender :: "recv_env \<Rightarrow> dc_mimeparser_t \<Rightarrow> database \<Rightarrow> recv_vars \<times> database" where
  "read_sender env p db =
     (let vars = \<lparr>rx_incoming = True, rx_origin = 0, rx_from_id = 0, rx_from_blocked = False, rx_to_ids = [], rx_to_self = False\<rparr> in
      case dc_mimeparser_lookup_field p ''From'' of
        Some (Field_From (Some mbs)) \<Rightarrow>
          let (db, from_list, check_self) =
                dc_add_or_lookup_contacts_by_mailbox_list (rv_mime env) DC_ORIGIN_INCOMING_UNKNOWN_FROM (Some mbs) (db, [], False)
          in if check_self then
               (vars\<lparr>rx_incoming := False,
                     rx_from_id := (if dc_mimeparser_sender_equals_recipient p then DC_CONTACT_ID_SELF else 0)\<rparr>, db)
             else
               (case from_list of [] \<Rightarrow> (vars, db)
                | i # _ \<Rightarrow> let (origin, blocked) = dc_get_contact_origin (rv_self_name env) db i
                           in (vars\<lparr>rx_from_id := i, rx_origin := origin, rx_from_blocked := blocked\<rparr>, db))
      | _ \<Rightarrow> (vars, db))"

definition to_origin :: "recv_vars \<Rightarrow> int" where
  "to_origin vars =
     (if \<not> rx_incoming vars then DC_ORIGIN_OUTGOING_TO
      else if rx_origin vars \<ge> DC_ORIGIN_MIN_VERIFIED then DC_ORIGIN_INCOMING_TO else DC_ORIGIN_INCOMING_UNKNOWN_TO)"

definition cc_origin :: "recv_vars \<Rightarrow> int" where
  "cc_origin vars =
     (if \<not> rx_incoming vars then DC_ORIGIN_OUTGOING_CC
      else if rx_origin vars \<ge> DC_ORIGIN_MIN_VERIFIED then DC_ORIGIN_INCOMING_CC else DC_ORIGIN_INCOMING_UNKNOWN_CC)"

definition read_to :: "recv_env \<Rightarrow> dc_mimeparser_t \<Rightarrow> recv_vars \<times> database \<Rightarrow> recv_vars \<times> database" where
  "read_to env p vd =
     (let (vars, db) = vd in
      case dc_mimeparser_lookup_field p ''To'' of
        Some (Field_To l) \<Rightarrow>
          let (db, ids, to_self) =
                dc_add_or_lookup_contacts_by_address_list (rv_mime env) (to_origin vars) l (db, rx_to_ids vars, rx_to_self vars)
          in (vars\<lparr>rx_to_ids := ids, rx_to_self := to_self\<rparr>, db)
      | _ \<Rightarrow> (vars, db))"

definition read_cc :: "recv_env \<Rightarrow> dc_mimeparser_t \<Rightarrow> recv_vars \<times> database \<Rightarrow> recv_vars \<times> database" where
  "read_cc env p vd =
     (let (vars, db) = vd in
      case dc_mimeparser_lookup_field p ''Cc'' of
        Some (Field_Cc l) \<Rightarrow>
          let (db, ids, self) =
                dc_add_or_lookup_contacts_by_address_list (rv_mime env) (cc_origin vars) l (db, rx_to_ids vars, False)
          in (vars\<lparr>rx_to_ids := ids\<rparr>, db)
      | _ \<Rightarrow> (vars, db))"

definition u32_array :: "nat list \<Rightarrow> dc_array_t" where
  "u32_array ids =
     foldl (\<lambda>a i. case dc_array_add_id a (word_of_nat i) of None \<Rightarrow> a | Some b \<Rightarrow> b) (dc_array_new 16) ids"

text \<open>\<open>sort_timestamp\<close> has not been set when it is used for the id of a mail that lacks one.\<close>

definition received_mid :: "dc_mimeparser_t \<Rightarrow> recv_vars \<Rightarrow> cptr" where
  "received_mid p vars =
     (case dc_mimeparser_lookup_field p ''Message-ID'' of
        Some (Field_Message_Id m) \<Rightarrow> Some (dc_strdup m)
      | _ \<Rightarrow> dc_create_incoming_rfc724_mid DC_INVALID_TIMESTAMP (word_of_nat (rx_from_id vars)) (Some (u32_array (rx_to_ids vars))))"

section \<open>The chat of a mail\<close>

text \<open>What is decided on a mail; \<open>rd_state\<close> is its state, \<open>rd_origin\<close> the origin of the sender.\<close>

record recv_decision =
  rd_chat_id :: nat
  rd_chat_blocked :: int
  rd_from_id :: nat
  rd_to_id :: nat
  rd_state :: int
  rd_origin :: int
  rd_hidden :: bool
  rd_delete_job :: bool

definition unblock :: "nat \<Rightarrow> sj_ctx \<Rightarrow> sj_ctx" where
  "unblock cid c = with_db (\<lambda>db. dc_unblock_chat db cid) c"

definition handshake_mail :: "dc_mimeparser_t \<Rightarrow> sj_mail" where
  "handshake_mail p =
     \<lparr>mail_field = dc_mimeparser_lookup_optional_field p, mail_encrypted = eh_encrypted (mp_e2ee_helper p),
      mail_signatures = eh_signatures (mp_e2ee_helper p)\<rparr>"

definition handle_handshake :: "recv_env \<Rightarrow> dc_mimeparser_t \<Rightarrow> nat \<Rightarrow> recv_decision \<Rightarrow> sj_ctx \<Rightarrow> recv_decision \<times> sj_ctx" where
  "handle_handshake env p from_id d c =
     (if dc_mimeparser_lookup_field p ''Secure-Join'' = None then (d, c)
      else
        let (handshake, c) = dc_handle_securejoin_handshake (pg_fingerprint (rv_pgp env)) (rv_sent env) (rv_stock env)
                               (handshake_mail p) from_id c
        in if handshake AND DC_HANDSHAKE_STOP_NORMAL_PROCESSING \<noteq> 0
           then (d\<lparr>rd_hidden := True, rd_delete_job := (handshake AND DC_HANDSHAKE_ADD_DELETE_JOB \<noteq> 0),
                   rd_state := DC_STATE_IN_SEEN\<rparr>, c)
           else (d, c))"

text \<open>The group of an incoming mail; \<open>normal\<close> is the single chat with the sender and whether it is blocked.\<close>

definition incoming_group ::
    "recv_env \<Rightarrow> dc_mimeparser_t \<Rightarrow> nat \<times> int \<Rightarrow> nat list \<Rightarrow> recv_decision \<Rightarrow> sj_ctx
     \<Rightarrow> (recv_decision \<times> sj_ctx) \<times> dc_mimeparser_t" where
  "incoming_group env p normal to_ids d c =
     (let create_blocked = (if fst normal \<noteq> 0 \<and> snd normal = DC_CHAT_NOT_BLOCKED \<or> rd_origin d \<ge> DC_ORIGIN_MIN_START_NEW_NCHAT
                            then DC_CHAT_NOT_BLOCKED else DC_CHAT_DEADDROP_BLOCKED);
          ((cid, blocked, c), p) = create_or_lookup_group env p create_blocked (rd_from_id d) to_ids c;
          (blocked, c) = (if cid \<noteq> 0 \<and> blocked \<noteq> 0 \<and> create_blocked = 0 then (0, unblock cid c) else (blocked, c))
      in ((d\<lparr>rd_chat_id := cid, rd_chat_blocked := blocked\<rparr>, c), p))"

text \<open>The single chat with the sender; a reply to a known mail makes the sender a known contact.\<close>

definition incoming_single ::
    "recv_env \<Rightarrow> dc_mimeparser_t \<Rightarrow> nat \<times> int \<Rightarrow> recv_decision \<Rightarrow> sj_ctx \<Rightarrow> recv_decision \<times> sj_ctx" where
  "incoming_single env p normal d c =
     (let from_id = rd_from_id d;
          create_blocked = (if rd_origin d \<ge> DC_ORIGIN_MIN_START_NEW_NCHAT \<or> from_id = rd_to_id d
                            then DC_CHAT_NOT_BLOCKED else DC_CHAT_DEADDROP_BLOCKED);
          (cid, blocked, c) =
            (if fst normal \<noteq> 0 then (fst normal, snd normal, c)
             else let (cid, blocked, db) = dc_create_or_lookup_nchat_by_contact_id (rv_stock env) (sj_db c) from_id create_blocked
                  in (cid, blocked, c\<lparr>sj_db := db\<rparr>));
          d = d\<lparr>rd_chat_id := cid, rd_chat_blocked := blocked\<rparr>
      in if cid \<noteq> 0 \<and> blocked \<noteq> 0 then
           if create_blocked = 0 then (d\<lparr>rd_chat_blocked := 0\<rparr>, unblock cid c)
           else if dc_is_reply_to_known_message (sj_db c) p
             then (d\<lparr>rd_origin := max (rd_origin d) DC_ORIGIN_INCOMING_REPLY_TO\<rparr>,
                   with_db (\<lambda>db. dc_scaleup_contact_origin db from_id DC_ORIGIN_INCOMING_REPLY_TO) c)
           else (d, c)
         else (d, c))"

definition incoming_chat ::
    "recv_env \<Rightarrow> dc_mimeparser_t \<Rightarrow> recv_vars \<Rightarrow> bool \<Rightarrow> sj_ctx \<Rightarrow> (recv_decision \<times> sj_ctx) \<times> dc_mimeparser_t" where
  "incoming_chat env p vars seen c =
     (let from_id = rx_from_id vars;
          d = \<lparr>rd_chat_id = 0, rd_chat_blocked = 0, rd_from_id = from_id, rd_to_id = DC_CONTACT_ID_SELF,
               rd_state = (if seen then DC_STATE_IN_SEEN else DC_STATE_IN_FRESH), rd_origin = rx_origin vars,
               rd_hidden = False, rd_delete_job = False\<rparr>;
          (d, c) = handle_handshake env p from_id d c;
          normal = dc_lookup_real_nchat_by_contact_id (sj_db c) from_id;
          ((d, c), p) = incoming_group env p normal (rx_to_ids vars) d c;
          d = (if rd_chat_id d = 0 \<and> dc_mimeparser_is_mailinglist_message p then d\<lparr>rd_chat_id := DC_CHAT_ID_TRASH\<rparr> else d);
          (d, c) = (if rd_chat_id d = 0 then incoming_single env p normal d c else (d, c));
          d = (if rd_chat_id d = 0 then d\<lparr>rd_chat_id := DC_CHAT_ID_TRASH\<rparr> else d);
          d = (if rd_chat_blocked d \<noteq> 0 \<and> rd_state d = DC_STATE_IN_FRESH \<and> rd_origin d < DC_ORIGIN_MIN_VERIFIED \<and>
                  \<not> mp_is_send_by_messenger p then d\<lparr>rd_state := DC_STATE_IN_NOTICED\<rparr> else d)
      in ((d, c), p))"

text \<open>A chat that is blocked, unblocked.\<close>

definition opened :: "nat \<times> int \<times> sj_ctx \<Rightarrow> nat \<times> int \<times> sj_ctx" where
  "opened r = (let (cid, blocked, c) = r in if cid \<noteq> 0 \<and> blocked \<noteq> 0 then (cid, 0, unblock cid c) else r)"

definition single_chat :: "recv_env \<Rightarrow> nat \<Rightarrow> int \<Rightarrow> sj_ctx \<Rightarrow> nat \<times> int \<times> sj_ctx" where
  "single_chat env contact_id create_blocked c =
     (let (cid, blocked, db) = dc_create_or_lookup_nchat_by_contact_id (rv_stock env) (sj_db c) contact_id create_blocked
      in (cid, blocked, c\<lparr>sj_db := db\<rparr>))"

definition outgoing_chat ::
    "recv_env \<Rightarrow> dc_mimeparser_t \<Rightarrow> recv_vars \<Rightarrow> sj_ctx \<Rightarrow> (recv_decision \<times> sj_ctx) \<times> dc_mimeparser_t" where
  "outgoing_chat env p vars c =
     (let (to_id, (cid, blocked, c), p) =
            (case rx_to_ids vars of
               [] \<Rightarrow> (0, (0, 0, c), p)
             | to_id # _ \<Rightarrow>
                 let (r, p) = create_or_lookup_group env p DC_CHAT_NOT_BLOCKED DC_CONTACT_ID_SELF (rx_to_ids vars) c;
                     (cid, blocked, c) = opened r
                 in if cid \<noteq> 0 then (to_id, (cid, blocked, c), p)
                    else
                      let create_blocked = (if mp_is_send_by_messenger p \<and> \<not> dc_is_contact_blocked (rv_self_name env) (sj_db c) to_id
                                            then DC_CHAT_NOT_BLOCKED else DC_CHAT_DEADDROP_BLOCKED);
                          r = single_chat env to_id create_blocked c
                      in (to_id, if create_blocked = 0 then opened r else r, p));
          (cid, blocked, c) =
            (if cid = 0 \<and> rx_to_ids vars = [] \<and> rx_to_self vars
             then opened (single_chat env DC_CONTACT_ID_SELF DC_CHAT_NOT_BLOCKED c) else (cid, blocked, c))
      in ((\<lparr>rd_chat_id = (if cid = 0 then DC_CHAT_ID_TRASH else cid), rd_chat_blocked = blocked,
            rd_from_id = DC_CONTACT_ID_SELF, rd_to_id = to_id, rd_state = DC_STATE_OUT_DELIVERED, rd_origin = rx_origin vars,
            rd_hidden = False, rd_delete_job = False\<rparr>, c), p))"

section \<open>Rows for the parts\<close>

record mail_place =
  pl_folder :: string
  pl_uid :: nat
  pl_seen :: bool

text \<open>\<open>%s\<close> of a part without a raw text, as the C library prints it.\<close>

definition part_txt_raw :: "dc_mimeparser_t \<Rightarrow> mimepart \<Rightarrow> string" where
  "part_txt_raw p pt =
     (if pt_type pt = DC_MSG_TEXT
      then dc_strdup (mp_subject p) @ [NL, NL] @ (case pt_msg_raw pt of None \<Rightarrow> ''(null)'' | Some t \<Rightarrow> t) else [])"

definition part_row ::
    "dc_mimeparser_t \<Rightarrow> mail_place \<Rightarrow> string \<Rightarrow> recv_decision \<Rightarrow> int \<times> int \<times> int \<Rightarrow> int \<Rightarrow> nat \<Rightarrow> mimepart \<Rightarrow> msg_row" where
  "part_row p place mid d stamps msgrmsg i pt =
     (let (sort_timestamp, sent_timestamp, rcvd_timestamp) = stamps in
      \<lparr>ms_id = i, ms_rfc724_mid = mid, ms_server_folder = pl_folder place, ms_server_uid = pl_uid place,
       ms_chat_id = rd_chat_id d, ms_from_id = rd_from_id d, ms_to_id = rd_to_id d, ms_timestamp = sort_timestamp,
       ms_type = pt_type pt, ms_state = rd_state d, ms_msgrmsg = msgrmsg, ms_txt = dc_strdup (pt_msg pt),
       ms_param = (if mp_is_system_message p \<noteq> 0 then dc_param_set_int (pt_param pt) DC_PARAM_CMD (mp_is_system_message p)
                   else pt_param pt),
       ms_starred = 0, ms_hidden = (if rd_hidden d then 1 else 0), ms_timestamp_sent = sent_timestamp,
       ms_timestamp_rcvd = rcvd_timestamp, ms_txt_raw = part_txt_raw p pt\<rparr>)"

definition insert_part :: "(nat \<Rightarrow> mimepart \<Rightarrow> msg_row) \<Rightarrow> database \<Rightarrow> mimepart \<Rightarrow> database" where
  "insert_part row db pt = db\<lparr>db_msgs := db_msgs db @ [row (next_rowid (map ms_id (db_msgs db))) pt]\<rparr>"

definition insert_parts ::
    "dc_mimeparser_t \<Rightarrow> mail_place \<Rightarrow> string \<Rightarrow> recv_decision \<Rightarrow> int \<times> int \<times> int \<Rightarrow> int \<Rightarrow> database \<Rightarrow> database" where
  "insert_parts p place mid d stamps msgrmsg db =
     foldl (insert_part (part_row p place mid d stamps msgrmsg)) db (filter (\<lambda>pt. \<not> pt_is_meta pt) (mp_parts p))"

definition msgrmsg_of :: "database \<Rightarrow> dc_mimeparser_t \<Rightarrow> int" where
  "msgrmsg_of db p = (if mp_is_send_by_messenger p then 1 else if dc_is_reply_to_messenger_message db p then 2 else 0)"

text \<open>The event for each new row; 0 is none.\<close>

definition event_to_send :: "recv_vars \<Rightarrow> recv_decision \<Rightarrow> int" where
  "event_to_send vars d =
     (if rd_chat_id d = DC_CHAT_ID_TRASH then 0
      else if rx_incoming vars \<and> rd_state d = DC_STATE_IN_FRESH then
        if rx_from_blocked vars then 0 else if rd_chat_blocked d \<noteq> 0 then DC_EVENT_MSGS_CHANGED else DC_EVENT_INCOMING_MSG
      else DC_EVENT_MSGS_CHANGED)"

text \<open>What a mail with parts does: the times, the rows, the id of the first row and the events that are due.\<close>

record recv_result =
  rr_st :: recv_st
  rr_parser :: dc_mimeparser_t
  rr_sent_timestamp :: int
  rr_from_id :: nat
  rr_first_id :: nat
  rr_events :: "(int \<times> nat \<times> nat) list"
  rr_delete_job :: bool

definition add_parts ::
    "recv_env \<Rightarrow> mail_place \<Rightarrow> dc_mimeparser_t \<Rightarrow> recv_vars \<Rightarrow> string \<Rightarrow> int \<Rightarrow> recv_st \<Rightarrow> recv_result" where
  "add_parts env place p vars mid message_timestamp st =
     (let ((d, c), p) = (if rx_incoming vars then incoming_chat env p vars (pl_seen place) (rc_ctx st)
                         else outgoing_chat env p vars (rc_ctx st));
          (stamps, smeared) = calc_timestamps (rv_now env) (rc_smeared st) (sj_db c) (rd_chat_id d) (rd_from_id d)
                               message_timestamp (\<not> pl_seen place);
          db = dc_unarchive_chat (sj_db c) (rd_chat_id d);
          db = insert_parts p place mid d stamps (msgrmsg_of db p) db;
          n = length (filter (\<lambda>pt. \<not> pt_is_meta pt) (mp_parts p));
          event = event_to_send vars d
      in \<lparr>rr_st = st\<lparr>rc_ctx := c\<lparr>sj_db := db\<rparr>, rc_smeared := smeared\<rparr>, rr_parser = p,
          rr_sent_timestamp = fst (snd stamps), rr_from_id = rd_from_id d, rr_first_id = msg_rowid db mid,
          rr_events = (if event \<noteq> 0 then replicate n (event, rd_chat_id d, msg_rowid db mid) else []),
          rr_delete_job = rd_delete_job d\<rparr>)"

section \<open>Receipts\<close>

text \<open>The message id that a report is for; the parts of these types are single ones for libetpan.\<close>

definition report_mid :: "recv_env \<Rightarrow> mailmime \<Rightarrow> cptr" where
  "report_mid env report_data =
     (case report_data of
        Mime_Single h (Some data) \<Rightarrow>
          (case mh_content h of None \<Rightarrow> None
           | Some ct \<Rightarrow>
               if ct_kind ct = Kind_Message \<and> ct_subtype ct = ''disposition-notification'' then
                 (case mailmime_transfer_decode (rv_mime env) h data of None \<Rightarrow> None
                  | Some body \<Rightarrow>
                      (case pg_parse (rv_pgp env) body of None \<Rightarrow> None
                       | Some parsed \<Rightarrow>
                           let flds = mailmime_find_mailimf_fields parsed in
                           (case (mailimf_find_optional_field flds ''Disposition'', mailimf_find_optional_field flds ''Original-Message-ID'') of
                              (Some d, Some mid) \<Rightarrow> rv_msg_id_parse env mid
                            | _ \<Rightarrow> None)))
               else None)
      | _ \<Rightarrow> None)"

definition is_notification :: "mailmime \<Rightarrow> bool" where
  "is_notification report_root \<longleftrightarrow>
     mailmime_find_ct_parameter report_root ''report-type'' = Some (Some ''disposition-notification'') \<and>
     (case report_root of Mime_Multiple h ms \<Rightarrow> length ms \<ge> 2 | _ \<Rightarrow> False)"

definition second_part :: "mailmime \<Rightarrow> mailmime" where
  "second_part report_root = (case report_root of Mime_Multiple h (m1 # m2 # ms) \<Rightarrow> m2 | m \<Rightarrow> m)"

text \<open>\<open>"Z=folder\\nz=uid"\<close>.\<close>

definition mdn_job_param :: "mail_place \<Rightarrow> param" where
  "mdn_job_param place =
     DC_PARAM_SERVER_FOLDER # CHR ''='' # pl_folder place @ NL # DC_PARAM_SERVER_UID # CHR ''='' # show_nat (pl_uid place)"

definition handle_report ::
    "recv_env \<Rightarrow> mail_place \<Rightarrow> bool \<Rightarrow> bool \<Rightarrow> nat \<Rightarrow> int \<Rightarrow> recv_st \<times> (int \<times> nat \<times> nat) list \<Rightarrow> mailmime
     \<Rightarrow> recv_st \<times> (int \<times> nat \<times> nat) list" where
  "handle_report env place mdns_enabled by_messenger from_id sent_timestamp acc report_root =
     (let (st, events) = acc in
      if \<not> is_notification report_root then acc
      else
        let (ok, cid, i, db) =
              (if mdns_enabled \<and> report_mid env (second_part report_root) \<noteq> None
               then dc_mdn_from_ext (rc_db st) from_id (report_mid env (second_part report_root)) sent_timestamp
               else (False, 0, 0, rc_db st));
            st = on_db (\<lambda>_. db) st;
            st = (if by_messenger \<or> i \<noteq> 0
                  then st\<lparr>rc_jobs := dc_job_add (rv_now env) (rc_jobs st) DC_JOB_MARKSEEN_MDN_ON_IMAP 0 (Some (mdn_job_param place)) 0\<rparr>
                  else st)
        in (st, if ok then events @ [(DC_EVENT_MSG_READ, cid, i)] else events))"

definition handle_reports :: "recv_env \<Rightarrow> mail_place \<Rightarrow> recv_result \<Rightarrow> recv_result" where
  "handle_reports env place r =
     (let p = rr_parser r;
          mdns_enabled = (dc_sqlite3_get_config_int (db_config (rc_db (rr_st r))) (Some ''mdns_enabled'') DC_MDNS_DEFAULT_ENABLED \<noteq> 0);
          (st, events) = foldl (handle_report env place mdns_enabled (mp_is_send_by_messenger p) (rr_from_id r) (rr_sent_timestamp r))
                           (rr_st r, []) (mp_reports p)
      in r\<lparr>rr_st := st, rr_events := rr_events r @ events\<rparr>)"

section \<open>A mail is received\<close>

definition sent_time :: "dc_mimeparser_t \<Rightarrow> int" where
  "sent_time p =
     (case dc_mimeparser_lookup_field p ''Date'' of Some (Field_Orig_Date (Some t)) \<Rightarrow> t | _ \<Rightarrow> DC_INVALID_TIMESTAMP)"

text \<open>The mail is in the database already: at most its place on the server is new.\<close>

definition known_mail :: "mail_place \<Rightarrow> string \<Rightarrow> recv_st \<Rightarrow> recv_st" where
  "known_mail place mid st =
     (let (i, old_server_folder, old_server_uid) = dc_rfc724_mid_exists (rc_db st) mid in
      if old_server_folder \<noteq> Some (pl_folder place) \<or> old_server_uid \<noteq> pl_uid place
      then on_db (\<lambda>db. dc_update_server_uid db mid (pl_folder place) (pl_uid place)) st else st)"

definition finish_mail :: "recv_env \<Rightarrow> mail_place \<Rightarrow> recv_result \<Rightarrow> recv_st" where
  "finish_mail env place r =
     (let r = handle_reports env place r;
          st = rr_st r;
          st = (if rr_delete_job r
                then st\<lparr>rc_jobs := dc_job_add (rv_now env) (rc_jobs st) DC_JOB_DELETE_MSG_ON_IMAP (int (rr_first_id r)) None 0\<rparr> else st)
      in on_db (\<lambda>db. foldl (\<lambda>db (e, x, y). cb db e x y) db (rr_events r)) st)"

definition receive_parsed :: "recv_env \<Rightarrow> mail_place \<Rightarrow> dc_mimeparser_t \<Rightarrow> recv_st \<Rightarrow> recv_st" where
  "receive_parsed env place p st =
     (if mp_header p = [] then st
      else
        let (vars, db) = read_to env p (read_sender env p (rc_db st)) in
        if dc_mimeparser_has_nonmeta p then
          let (vars, db) = read_cc env p (vars, db) in
          (case received_mid p vars of
             None \<Rightarrow> st
           | Some mid \<Rightarrow>
               if fst (dc_rfc724_mid_exists db mid) \<noteq> 0 then known_mail place mid st
               else finish_mail env place (add_parts env place p vars mid (sent_time p) (on_db (\<lambda>_. db) st)))
        else
          finish_mail env place
            \<lparr>rr_st = on_db (\<lambda>_. db) st, rr_parser = p, rr_sent_timestamp = min (sent_time p) (rv_now env),
             rr_from_id = rx_from_id vars, rr_first_id = 0, rr_events = [], rr_delete_job = False\<rparr>)"

text \<open>The mail as \<open>mailmime_parse\<close> reads it is decrypted, which changes the states of peers, and parsed.\<close>

definition parse_received :: "recv_env \<Rightarrow> string \<Rightarrow> sj_ctx \<Rightarrow> (dc_mimeparser_t \<times> sj_ctx) option" where
  "parse_received env raw c =
     (case pg_parse (rv_pgp env) raw of
        None \<Rightarrow> Some (dc_mimeparser_parse (rv_mime env) None dc_mimeparser_new, c)
      | Some root \<Rightarrow>
          (case dc_e2ee_decrypt (rv_pgp env) (rv_stock env) root c of
             None \<Rightarrow> None
           | Some (root, helper, c) \<Rightarrow> Some (dc_mimeparser_parse (rv_mime env) (Some (root, helper)) dc_mimeparser_new, c)))"

definition dc_receive_imf :: "recv_env \<Rightarrow> mail_place \<Rightarrow> string \<Rightarrow> recv_st \<Rightarrow> recv_st option" where
  "dc_receive_imf env place raw st =
     map_option (\<lambda>(p, c). receive_parsed env place p (st\<lparr>rc_ctx := c\<rparr>)) (parse_received env raw (rc_ctx st))"

section \<open>What receiving leaves of the messages\<close>

lemma msgs_kept [simp]:
  "db_msgs (dc_scaleup_contact_origin db i og) = db_msgs db" "db_msgs (insert_chat t n dt dx b g p db) = db_msgs db"
  "db_msgs (dc_add_to_chat_contacts_table db cid i) = db_msgs db" "db_msgs (update_chat cid f db) = db_msgs db"
  "db_msgs (dc_chat_update_param db chat) = db_msgs db" "db_msgs (dc_unblock_chat db cid) = db_msgs db"
  "db_msgs (dc_unarchive_chat db cid) = db_msgs db" "db_msgs (send_status sent cid tx p db) = db_msgs db"
  "db_msgs (insert_contact db name addr og) = db_msgs db"
  by (simp_all add: dc_scaleup_contact_origin_def insert_chat_def dc_add_to_chat_contacts_table_def update_chat_def
      dc_chat_update_param_def dc_unblock_chat_def dc_block_chat_def dc_unarchive_chat_def send_status_def insert_contact_def)

lemma nchat_msgs [simp]: "db_msgs (snd (snd (dc_create_or_lookup_nchat_by_contact_id stock db i b))) = db_msgs db"
  by (simp add: dc_create_or_lookup_nchat_by_contact_id_def Let_def split: prod.split)

lemma nchat_msgs': "dc_create_or_lookup_nchat_by_contact_id stock db i b = (cid, blocked, db') \<Longrightarrow> db_msgs db' = db_msgs db"
  using nchat_msgs [of stock db i b] by simp

lemma add_contact_msgs [simp]: "db_msgs (snd (snd (dc_add_or_lookup_contact db name addr og))) = db_msgs db"
  by (simp add: dc_add_or_lookup_contact_def modify_contact_def Let_def split: option.split)

lemma add_member_msgs [simp]: "db_msgs (snd (dc_add_contact_to_chat_ex sent stock ps db cid i flags)) = db_msgs db"
  by (simp add: dc_add_contact_to_chat_ex_def added_status_def Let_def split: option.split prod.split)

lemma ctx_msgs [simp]:
  "(\<And>db. db_msgs (f db) = db_msgs db) \<Longrightarrow> db_msgs (sj_db (with_db f c)) = db_msgs (sj_db c)"
  "db_msgs (sj_db (sj_event e a b c)) = db_msgs (sj_db c)"
  "db_msgs (sj_db (dc_add_device_msg chat t c)) = db_msgs (sj_db c)"
  "db_msgs (sj_db (send_handshake_msg chat step p fp g c)) = db_msgs (sj_db c)"
  "db_msgs (sj_db (could_not_establish_secure_connection stock chat c)) = db_msgs (sj_db c)"
  "db_msgs (sj_db (secure_connection_established stock chat c)) = db_msgs (sj_db c)"
  "db_msgs (sj_db (end_bobs_joining status c)) = db_msgs (sj_db c)"
  by (simp_all add: with_db_def sj_event_def dc_add_device_msg_def send_handshake_msg_def
      could_not_establish_secure_connection_def secure_connection_established_def end_bobs_joining_def
      dc_stop_ongoing_process_def)

lemma mark_peer_db: "mark_peer_as_verified c fp = (ok, c') \<Longrightarrow> sj_db c' = sj_db c"
  by (auto simp: mark_peer_as_verified_def Let_def split: prod.splits if_splits)

lemma with_auth_msgs:
  "db_msgs (sj_db (snd (handle_request_with_auth sent stock mail vg i chat c))) = db_msgs (sj_db c)"
  by (auto simp: handle_request_with_auth_def add_joiner_def Let_def dest!: mark_peer_db split: prod.splits)

lemma confirm_msgs:
  "db_msgs (sj_db (snd (handle_contact_confirm stock mail vg i chat c))) = db_msgs (sj_db c)"
  by (auto simp: handle_contact_confirm_def give_up_def Let_def dest!: mark_peer_db split: option.splits prod.splits)

lemma handler_msgs:
  "db_msgs (sj_db (snd (handle_request mail vg i chat c))) = db_msgs (sj_db c)"
  "db_msgs (sj_db (snd (handle_auth_required pgp stock mail vg i chat c))) = db_msgs (sj_db c)"
  "db_msgs (sj_db (snd (handle_member_added_received stock i c))) = db_msgs (sj_db c)"
  by (simp_all add: handle_request_def handle_auth_required_def handle_member_added_received_def give_up_def Let_def
      split: option.split)

lemma step_msgs: "db_msgs (sj_db (snd (handle_step pgp sent stock mail step i chat c))) = db_msgs (sj_db c)"
  unfolding handle_step_def Let_def if_distrib [of snd] if_distrib [of sj_db] if_distrib [of db_msgs]
    handler_msgs with_auth_msgs confirm_msgs snd_conv if_cancel ..

lemma handshake_msgs:
  "db_msgs (sj_db (snd (dc_handle_securejoin_handshake pgp sent stock mail i c))) = db_msgs (sj_db c)"
proof -
  obtain chat c1 where hc: "handshake_chat stock i c = (chat, c1)" by fastforce
  then have "db_msgs (sj_db c1) = db_msgs (sj_db c)"
    by (auto simp: handshake_chat_def dest!: nchat_msgs' split: prod.splits)
  then show ?thesis
    by (intro handshake_effect [where P = "\<lambda>c'. db_msgs (sj_db c') = db_msgs (sj_db c)", OF hc]) (simp_all only: step_msgs)
qed

lemma add_contact_msgs': "dc_add_or_lookup_contact db name addr og = (i, m, db') \<Longrightarrow> db_msgs db' = db_msgs db"
  using add_contact_msgs [of db name addr og] by simp

lemma addr_step_msgs: "db_msgs (fst (add_or_lookup_contact_by_addr env og acc mb)) = db_msgs (fst acc)"
  by (auto simp: add_or_lookup_contact_by_addr_def Let_def dest!: add_contact_msgs' split: option.splits prod.splits)

lemma addr_list_msgs: "db_msgs (fst (foldl (add_or_lookup_contact_by_addr env og) acc l)) = db_msgs (fst acc)"
  by (induction l arbitrary: acc) (simp_all add: addr_step_msgs)

section \<open>Mails that are stored once\<close>

lemma read_sender_msgs: "db_msgs (snd (read_sender env p db)) = db_msgs db"
  by (simp add: read_sender_def dc_add_or_lookup_contacts_by_mailbox_list_def Let_def split_def addr_list_msgs
      split: option.split mailimf_field.split list.split)

lemma read_to_msgs: "db_msgs (snd (read_to env p vd)) = db_msgs (snd vd)"
  by (simp add: read_to_def dc_add_or_lookup_contacts_by_address_list_def Let_def split_def addr_list_msgs
      split: option.split mailimf_field.split)

lemma read_cc_msgs: "db_msgs (snd (read_cc env p vd)) = db_msgs (snd vd)"
  by (simp add: read_cc_def dc_add_or_lookup_contacts_by_address_list_def Let_def split_def addr_list_msgs
      split: option.split mailimf_field.split)

lemma adhoc_msgs: "db_msgs (sj_db (snd (snd (adhoc_instead env p b i ids c)))) = db_msgs (sj_db c)"
proof -
  have "db_msgs (foldl (\<lambda>db i. dc_add_to_chat_contacts_table db cid i) db l) = db_msgs db" for cid l db
    by (induction l arbitrary: db) simp_all
  then show ?thesis
    by (simp add: adhoc_instead_def create_or_lookup_adhoc_group_def create_group_record_def Let_def split_def
        split: option.split)
qed

lemma execute_msgs: "db_msgs (execute_commands env p n cr cid i ids db) = db_msgs db"
proof -
  have add: "db_msgs (add_member s a k cid db i) = db_msgs db" for s a k db i by (simp add: add_member_def)
  have "db_msgs (foldl (add_member s a k cid) db l) = db_msgs db" for s a k l db
    by (induction l arbitrary: db) (simp_all add: add)
  then have re: "db_msgs (recreate_members s k cid i ids db) = db_msgs db" for s k db
    by (simp add: recreate_members_def add Let_def)
  have im: "db_msgs (set_group_image st cid g db) = db_msgs db" for st g db by (simp add: set_group_image_def Let_def)
  show ?thesis by (simp add: execute_commands_def Let_def re im split: group_cmd.split option.split)
qed


lemma known_group_db: "sj_db (snd (known_group env p i ids g c)) = sj_db c"
  by (simp add: known_group_def check_verified_properties_def Let_def split_def)

lemma create_group_msgs: "db_msgs (sj_db (snd (create_group env p b i ids g n c))) = db_msgs (sj_db c)"
  by (simp add: create_group_def create_group_record_def check_verified_properties_def Let_def split_def)

lemma group_found_msgs: "db_msgs (sj_db (snd (snd (group_found env p b i ids n cr cid bl c)))) = db_msgs (sj_db c)"
  by (simp add: group_found_def adhoc_msgs execute_msgs Let_def)

lemma group_msgs: "db_msgs (sj_db (snd (snd (fst (create_or_lookup_group env p b i ids c))))) = db_msgs (sj_db c)"
  by (simp add: create_or_lookup_group_def Let_def split_def adhoc_msgs group_found_msgs known_group_db create_group_msgs
      split: option.split)

lemma unblock_msgs [simp]: "db_msgs (sj_db (unblock cid c)) = db_msgs (sj_db c)"
  by (simp add: unblock_def)

lemma opened_msgs: "db_msgs (sj_db (snd (snd (opened r)))) = db_msgs (sj_db (snd (snd r)))"
  by (simp add: opened_def Let_def split_def)

lemma single_msgs: "db_msgs (sj_db (snd (snd (single_chat env i b c)))) = db_msgs (sj_db c)"
  by (simp add: single_chat_def Let_def split_def)

lemma handle_handshake_msgs: "db_msgs (sj_db (snd (handle_handshake env p i d c))) = db_msgs (sj_db c)"
  by (simp add: handle_handshake_def Let_def split_def handshake_msgs)

lemma incoming_group_msgs: "db_msgs (sj_db (snd (fst (incoming_group env p n ids d c)))) = db_msgs (sj_db c)"
  by (simp add: incoming_group_def Let_def split_def group_msgs)

lemma incoming_single_msgs: "db_msgs (sj_db (snd (incoming_single env p n d c))) = db_msgs (sj_db c)"
  by (simp add: incoming_single_def Let_def split_def)

lemma incoming_chat_msgs: "db_msgs (sj_db (snd (fst (incoming_chat env p vars seen c)))) = db_msgs (sj_db c)"
  by (simp add: incoming_chat_def Let_def split_def incoming_group_msgs incoming_single_msgs handle_handshake_msgs)

lemma outgoing_chat_msgs: "db_msgs (sj_db (snd (fst (outgoing_chat env p vars c)))) = db_msgs (sj_db c)"
  by (simp add: outgoing_chat_def Let_def split_def group_msgs opened_msgs single_msgs split: list.split)


text \<open>The ids of the messages with their message ids.\<close>

definition mids :: "database \<Rightarrow> (nat \<times> string) list" where
  "mids db = map (\<lambda>m. (ms_id m, ms_rfc724_mid m)) (db_msgs db)"

lemma mids_msgs: "db_msgs db' = db_msgs db \<Longrightarrow> mids db' = mids db"
  by (simp add: mids_def)

lemma exists_mids:
  "fst (dc_rfc724_mid_exists db mid) = (case find (\<lambda>x. snd x = mid) (mids db) of None \<Rightarrow> 0 | Some x \<Rightarrow> fst x)"
proof -
  have "fst (case find (\<lambda>m. ms_rfc724_mid m = mid) ms of None \<Rightarrow> (0, None, 0)
        | Some m \<Rightarrow> (ms_id m, Some (ms_server_folder m), ms_server_uid m)) =
      (case find (\<lambda>x. snd x = mid) (map (\<lambda>m. (ms_id m, ms_rfc724_mid m)) ms) of None \<Rightarrow> 0 | Some x \<Rightarrow> fst x)" for ms
    by (induction ms) auto
  then show ?thesis unfolding dc_rfc724_mid_exists_def mids_def .
qed

lemma mids_update: "(\<And>m. ms_id (f m) = ms_id m \<and> ms_rfc724_mid (f m) = ms_rfc724_mid m) \<Longrightarrow> mids (update_msg i f db) = mids db"
  by (simp add: mids_def update_msg_def)

lemma mids_simps [simp]:
  "mids (dc_update_msg_state db i st) = mids db" "mids (db\<lparr>db_mdns := ms\<rparr>) = mids db"
  by (simp add: dc_update_msg_state_def mids_update, simp add: mids_def)

lemma mids_receipt: "mids (snd (snd (snd (dc_mdn_from_ext db from_id mid t)))) = mids db"
  unfolding dc_mdn_from_ext_def Let_def by (simp split: option.split)

lemma mids_report: "mids (rc_db (fst (handle_report env place e b i t acc r))) = mids (rc_db (fst acc))"
  by (simp add: handle_report_def Let_def on_db_def with_db_def split_def mids_receipt)

lemma mids_reports: "mids (rc_db (fst (foldl (handle_report env place e b i t) acc rs))) = mids (rc_db (fst acc))"
  by (induction rs arbitrary: acc) (simp_all add: mids_report)

lemma mids_finish: "mids (rc_db (finish_mail env place r)) = mids (rc_db (rr_st r))"
proof -
  have ev: "db_msgs (foldl (\<lambda>db (e, x, y). cb db e x y) db es) = db_msgs db" for db es
    by (induction es arbitrary: db) (auto simp: split_def)
  have "mids (rc_db (rr_st (handle_reports env place r))) = mids (rc_db (rr_st r))"
    by (simp add: handle_reports_def Let_def split_def mids_reports)
  then show ?thesis
    by (simp add: finish_mail_def Let_def on_db_def with_db_def mids_def ev)
qed


lemma group_parts: "mp_parts (snd (create_or_lookup_group env p b i ids c)) = mp_parts p"
  by (simp add: create_or_lookup_group_def Let_def split_def split: option.split)

lemma incoming_parts: "mp_parts (snd (incoming_chat env p vars seen c)) = mp_parts p"
  by (simp add: incoming_chat_def incoming_group_def Let_def split_def group_parts)

lemma outgoing_parts: "mp_parts (snd (outgoing_chat env p vars c)) = mp_parts p"
  by (simp add: outgoing_chat_def Let_def split_def group_parts split: list.split)

lemma nonmeta_part: "dc_mimeparser_has_nonmeta p \<Longrightarrow> filter (\<lambda>pt. \<not> pt_is_meta pt) (mp_parts p) \<noteq> []"
  by (auto simp: dc_mimeparser_has_nonmeta_def dc_mimeparser_get_last_nonmeta_def filter_empty_conv dest!: found)

lemma mids_insert:
  "\<exists>ids. length ids = length pts \<and> 0 \<notin> set ids \<and>
     mids (foldl (insert_part (part_row p place mid d stamps g)) db pts) = mids db @ map (\<lambda>i. (i, mid)) ids"
proof (induction pts arbitrary: db)
  case (Cons pt pts)
  let ?i = "next_rowid (map ms_id (db_msgs db))"
  have one: "mids (insert_part (part_row p place mid d stamps g) db pt) = mids db @ [(?i, mid)]"
    by (simp add: mids_def insert_part_def part_row_def split_def)
  obtain ids where ids: "length ids = length pts" "0 \<notin> set ids"
      "mids (foldl (insert_part (part_row p place mid d stamps g)) (insert_part (part_row p place mid d stamps g) db pt) pts) =
       mids db @ [(?i, mid)] @ map (\<lambda>i. (i, mid)) ids"
    using Cons.IH [of "insert_part (part_row p place mid d stamps g) db pt"] one by auto
  have "?i \<noteq> 0" by (simp add: next_rowid_def)
  then show ?case using ids by (intro exI [of _ "?i # ids"]) simp
qed simp

lemma added_parts:
  obtains ids where "length ids = length (filter (\<lambda>pt. \<not> pt_is_meta pt) (mp_parts p))" "0 \<notin> set ids"
    "mids (rc_db (rr_st (add_parts env place p vars mid t st))) = mids (rc_db st) @ map (\<lambda>i. (i, mid)) ids"
proof -
  define r where "r = (if rx_incoming vars then incoming_chat env p vars (pl_seen place) (rc_ctx st)
                       else outgoing_chat env p vars (rc_ctx st))"
  obtain d c q where r: "r = ((d, c), q)" by (metis surj_pair)
  have "mp_parts (snd r) = mp_parts p" "db_msgs (sj_db (snd (fst r))) = db_msgs (rc_db st)"
    by (simp_all add: r_def incoming_parts outgoing_parts incoming_chat_msgs outgoing_chat_msgs)
  then have q: "mp_parts q = mp_parts p" "db_msgs (sj_db c) = db_msgs (rc_db st)" by (simp_all add: r)
  obtain stamps sm where s: "calc_timestamps (rv_now env) (rc_smeared st) (sj_db c) (rd_chat_id d) (rd_from_id d) t
      (\<not> pl_seen place) = (stamps, sm)" by fastforce
  define db where "db = dc_unarchive_chat (sj_db c) (rd_chat_id d)"
  have "mids db = mids (rc_db st)" by (rule mids_msgs) (simp add: db_def q)
  then show thesis
    using mids_insert [of "filter (\<lambda>pt. \<not> pt_is_meta pt) (mp_parts p)" q place mid d stamps "msgrmsg_of db q" db] that
    unfolding add_parts_def r_def [symmetric] r Let_def prod.case s db_def [symmetric] insert_parts_def q(1) by auto
qed


text \<open>The database when all contacts have been read.\<close>

lemma received_cases:
  assumes "dc_mimeparser_lookup_field p ''Message-ID'' = Some (Field_Message_Id m)" "dc_mimeparser_has_nonmeta p"
  obtains vars db where "db_msgs db = db_msgs (rc_db st)"
    "receive_parsed env place p st =
       (if fst (dc_rfc724_mid_exists (rc_db st) (dc_strdup m)) \<noteq> 0 then known_mail place (dc_strdup m) st
        else finish_mail env place (add_parts env place p vars (dc_strdup m) (sent_time p) (on_db (\<lambda>_. db) st)))"
proof -
  have h: "mp_header p \<noteq> []" using assms(1) by (auto simp: dc_mimeparser_lookup_field_def)
  obtain vars db where r: "read_to env p (read_sender env p (rc_db st)) = (vars, db)" by fastforce
  obtain vars' db' where r': "read_cc env p (vars, db) = (vars', db')" by fastforce
  have "db_msgs db' = db_msgs (rc_db st)"
    using read_to_msgs [of env p "read_sender env p (rc_db st)"] read_cc_msgs [of env p "(vars, db)"]
      read_sender_msgs [of env p "rc_db st"] by (simp add: r r')
  moreover from this have "fst (dc_rfc724_mid_exists db' mid) = fst (dc_rfc724_mid_exists (rc_db st) mid)" for mid
    by (simp add: dc_rfc724_mid_exists_def)
  moreover have "received_mid p vars' = Some (dc_strdup m)" by (simp add: received_mid_def assms(1))
  ultimately show thesis using that h assms(2) by (simp add: receive_parsed_def r r')
qed

lemma known_mids: "mids (rc_db (known_mail place mid st)) = mids (rc_db st)"
proof -
  have "mids (dc_update_server_uid db mid f u) = mids db" for db f u
    by (simp add: mids_def dc_update_server_uid_def)
  then show ?thesis by (simp add: known_mail_def Let_def split_def on_db_def with_db_def)
qed



definition sample_recv_env :: recv_env where
  "sample_recv_env = \<lparr>rv_mime = test_env, rv_pgp = sample_pgp_env, rv_sha256 = (\<lambda>s. replicate 32 7),
     rv_msg_id_parse = (\<lambda>s. Some s), rv_sent = 1\<rparr>"

definition sample_recv :: recv_st where
  "sample_recv = \<lparr>rc_ctx = ada_writes, rc_jobs = sample_queue [], rc_smeared = 5\<rparr>"

text \<open>A mail of Eve, whom nobody knows; with an id, the same mail is stored.\<close>

definition eve_mail :: "cptr \<Rightarrow> dc_mimeparser_t" where
  "eve_mail mid = dc_mimeparser_new
     \<lparr>mp_header := (''from'', Field_From (Some [\<lparr>mb_display_name = None, mb_addr_spec = Some ''eve@y.org''\<rparr>])) #
        (case mid of None \<Rightarrow> [] | Some m \<Rightarrow> [(''message-id'', Field_Message_Id (Some m))]),
      mp_parts := [dc_mimepart_new\<lparr>pt_type := DC_MSG_TEXT, pt_msg := Some ''hi''\<rparr>]\<rparr>"

definition inbox :: mail_place where
  "inbox = \<lparr>pl_folder = ''INBOX'', pl_uid = 7, pl_seen = False\<rparr>"

lemma eve_mail_simps:
  "dc_mimeparser_lookup_field (eve_mail (Some m)) ''Message-ID'' = Some (Field_Message_Id (Some m))"
  "dc_mimeparser_lookup_field (eve_mail None) ''Message-ID'' = None"
  "dc_mimeparser_has_nonmeta (eve_mail mid)"
proof -
  have "strcaseeq ''from'' ''Message-ID'' = False" "strcaseeq ''message-id'' ''Message-ID''" by code_simp+
  then show "dc_mimeparser_lookup_field (eve_mail (Some m)) ''Message-ID'' = Some (Field_Message_Id (Some m))"
    "dc_mimeparser_lookup_field (eve_mail None) ''Message-ID'' = None"
    by (simp_all add: eve_mail_def dc_mimeparser_lookup_field_def)
  show "dc_mimeparser_has_nonmeta (eve_mail mid)"
    by (simp add: eve_mail_def dc_mimeparser_has_nonmeta_def dc_mimeparser_get_last_nonmeta_def dc_mimepart_new_def)
qed

lemma no_msgs_yet: "db_msgs (rc_db sample_recv) = []"
  by (simp add: sample_recv_def ada_writes_def ada_invites_def ada_database_def fresh_database_def)


text \<open>
  C9: A mail without a Message-ID is lost: it is not stored and leaves no contact and no job behind, because the id that is
  made for it needs a time that has not been set at this point.
\<close>

theorem mail_without_id_is_lost:
  assumes "dc_mimeparser_lookup_field p ''Message-ID'' = None" "dc_mimeparser_has_nonmeta p"
  shows "receive_parsed env place p st = st"
proof -
  have "received_mid p vars = None" for vars
    by (simp add: received_mid_def assms(1) dc_create_incoming_rfc724_mid_def)
  then show ?thesis by (simp add: receive_parsed_def assms(2) split: prod.split)
qed

theorem mail_without_id_is_lost_witness:
  "receive_parsed sample_recv_env inbox (eve_mail None) sample_recv = sample_recv"
  by (rule mail_without_id_is_lost [OF eve_mail_simps(2,3)])

section \<open>Mails for verified groups\<close>

lemma keys_same [simp]:
  "chat_keys (dc_add_to_chat_contacts_table db cid i) = chat_keys db" "chat_keys (cb db e i j) = chat_keys db"
  "chat_keys (db\<lparr>db_chats_contacts := cc\<rparr>) = chat_keys db"
  by (simp_all add: chat_keys_def dc_add_to_chat_contacts_table_def cb_def)

lemma keys_add_members: "chat_keys (foldl (\<lambda>db i. dc_add_to_chat_contacts_table db cid i) db l) = chat_keys db"
  by (induction l arbitrary: db) simp_all

lemma keys_execute: "chat_keys (execute_commands env p n cr cid i ids db) = chat_keys db"
proof -
  have add: "chat_keys (add_member s a k cid db i) = chat_keys db" for s a k db i by (simp add: add_member_def)
  have "chat_keys (foldl (add_member s a k cid) db l) = chat_keys db" for s a k l db
    by (induction l arbitrary: db) (simp_all add: add)
  then have re: "chat_keys (recreate_members s k cid i ids db) = chat_keys db" for s k db
    by (simp add: recreate_members_def add Let_def)
  have im: "chat_keys (set_group_image st cid g db) = chat_keys db" for st g db
    by (simp add: set_group_image_def dc_chat_update_param_def keys_update Let_def)
  have nm: "chat_keys (update_chat cid (\<lambda>ch. ch\<lparr>ch_name := x\<rparr>) db) = chat_keys db" for x db by (simp add: keys_update)
  show ?thesis by (simp add: execute_commands_def Let_def re im nm split: group_cmd.split option.split)
qed

text \<open>A chat that is not a verified group, and the lists of chats in which ids are unique.\<close>

definition plain_key :: "(nat \<times> int \<times> string) list \<Rightarrow> nat \<Rightarrow> bool" where
  "plain_key K cid \<longleftrightarrow> (\<forall>t g. (cid, t, g) \<in> set K \<longrightarrow> t \<noteq> DC_CHAT_TYPE_VERIFIED_GROUP)"

definition keys_ok :: "(nat \<times> int \<times> string) list \<Rightarrow> bool" where
  "keys_ok K \<longleftrightarrow> distinct (map fst K) \<and>
     (\<forall>cid t g. (cid, t, g) \<in> set K \<longrightarrow> t = DC_CHAT_TYPE_VERIFIED_GROUP \<longrightarrow> DC_CHAT_ID_LAST_SPECIAL < cid \<and> length g \<noteq> 16)"

lemma plainI:
  assumes "keys_ok K" "(cid, t, g) \<in> set K" "t \<noteq> DC_CHAT_TYPE_VERIFIED_GROUP"
  shows "plain_key K cid"
proof -
  have "distinct (map fst K)" using assms(1) by (simp add: keys_ok_def)
  then have "(cid, t', g') \<in> set K \<Longrightarrow> (t', g') = (t, g)" for t' g'
    using assms(2) by (metis eq_key_imp_eq_value)
  then show ?thesis using assms(3) unfolding plain_key_def by blast
qed

lemma plain_special:
  assumes "keys_ok K" "cid \<le> DC_CHAT_ID_LAST_SPECIAL"
  shows "plain_key K cid"
proof -
  have "\<not> DC_CHAT_ID_LAST_SPECIAL < cid" using assms(2) by simp
  then show ?thesis using assms(1) unfolding keys_ok_def plain_key_def by blast
qed

lemma match_loop_ids: "set (match_loop ids rows l mt mm acc) \<subseteq> set acc \<union> {l} \<union> fst ` set rows"
proof (induction rows arbitrary: l mt mm acc)
  case (Cons r rows)
  obtain cid i where r: "r = (cid, i)" by fastforce
  define acc' where "acc' = (if cid \<noteq> l \<and> mt = length ids \<and> mm = 0 then acc @ [l] else acc)"
  have acc': "set acc' \<subseteq> set acc \<union> {l}" by (auto simp: acc'_def)
  have sub: "set (match_loop ids rows cid a b acc') \<subseteq> set acc \<union> {l} \<union> fst ` set (r # rows)" for a b
    using Cons.IH [of cid a b acc'] acc' by (auto simp: r)
  show ?case
    unfolding r match_loop.simps Let_def acc'_def [symmetric] using sub unfolding r by (simp split: if_split)
qed auto

lemma searched_ids:
  assumes "cid \<in> set (search_chat_ids_by_contact_ids db ids)"
  shows "cid = 0 \<or> is_group db cid"
proof -
  have "cid \<in> {0} \<or> is_group db cid"
    using assms match_loop_ids unfolding search_chat_ids_by_contact_ids_def Let_def
    by (fastforce split: if_splits)
  then show ?thesis by simp
qed

lemma recent_chat:
  assumes "most_recent_chat db ids = Some ch"
  shows "ch \<in> set (db_chats db) \<and> ch_id ch \<in> set ids"
proof (cases "sort_key msg_rank (filter (\<lambda>m. ms_chat_id m \<in> set ids) (db_msgs db))")
  case Nil
  then show ?thesis using assms by (auto simp: most_recent_chat_def dest: found)
next
  case (Cons m ms)
  then have "set (m # ms) = set (filter (\<lambda>m. ms_chat_id m \<in> set ids) (db_msgs db))"
    by (metis set_sort)
  then have "last (m # ms) \<in> set (filter (\<lambda>m. ms_chat_id m \<in> set ids) (db_msgs db))" by (metis last_in_set list.discI)
  then show ?thesis using assms Cons by (auto simp: most_recent_chat_def dest!: found)
qed

lemma insert_plain:
  assumes "keys_ok (chat_keys db)" "t \<noteq> DC_CHAT_TYPE_VERIFIED_GROUP"
    "\<And>ch. find (\<lambda>ch. ch_grpid ch = g) (db_chats db) = Some ch \<Longrightarrow> ch_type ch \<noteq> DC_CHAT_TYPE_VERIFIED_GROUP"
  shows "plain_key (chat_keys (insert_chat t n dt dx b g p db)) (chat_rowid (insert_chat t n dt dx b g p db) g)"
proof -
  let ?K = "chat_keys db" and ?db = "insert_chat t n dt dx b g p db" and ?new = "next_rowid (map fst (chat_keys db))"
  have K: "chat_keys ?db = ?K @ [(?new, t, g)]" by (simp add: insert_keys)
  have new: "?new \<notin> fst ` set ?K" using next_rowid_fresh [of "map fst ?K"] by simp
  show ?thesis
  proof (cases "find (\<lambda>ch. ch_grpid ch = g) (db_chats db)")
    case None
    then have "chat_rowid ?db g = ?new" by (simp add: chat_rowid_def insert_chat_def find_snoc chat_keys_def comp_def)
    then show ?thesis using assms(2) new unfolding plain_key_def K by force
  next
    case (Some ch)
    then have "chat_rowid ?db g = ch_id ch" by (simp add: chat_rowid_def insert_chat_def find_snoc)
    moreover have in_K: "(ch_id ch, ch_type ch, g) \<in> set ?K" using found [OF Some] by (auto simp: chat_keys_def)
    moreover have "ch_type ch \<noteq> DC_CHAT_TYPE_VERIFIED_GROUP" by (rule assms(3) [OF Some])
    ultimately have "plain_key ?K (chat_rowid ?db g)" "chat_rowid ?db g \<noteq> ?new"
      using plainI [OF assms(1) in_K] new by force+
    then show ?thesis unfolding plain_key_def K by auto
  qed
qed


lemma adhoc_id_length: "(\<And>s. length (sha256 s) \<ge> 8) \<Longrightarrow> length (create_adhoc_grp_id sha256 db ids) = 16"
proof -
  have two: "length (concat (map (\<lambda>b. [f b, g b]) xs)) = 2 * length xs" for f g :: "u8 \<Rightarrow> char" and xs by (induction xs) auto
  assume "\<And>s. length (sha256 s) \<ge> 8"
  then show ?thesis unfolding create_adhoc_grp_id_def Let_def two by (simp add: min_absorb2)
qed

lemma insert_ok_keys:
  assumes "keys_ok (chat_keys db)" "t \<noteq> DC_CHAT_TYPE_VERIFIED_GROUP"
  shows "keys_ok (chat_keys (insert_chat t n dt dx b g p db))"
proof -
  have "next_rowid (map fst (chat_keys db)) \<notin> fst ` set (chat_keys db)"
    using next_rowid_fresh [of "map fst (chat_keys db)"] by simp
  then show ?thesis using assms unfolding keys_ok_def insert_keys by auto
qed

lemma grpid_type:
  assumes "keys_ok (chat_keys db)" "find (\<lambda>ch. ch_grpid ch = g) (db_chats db) = Some ch" "length g = 16 \<or> ch_id ch = 0"
  shows "ch_type ch \<noteq> DC_CHAT_TYPE_VERIFIED_GROUP"
proof
  assume "ch_type ch = DC_CHAT_TYPE_VERIFIED_GROUP"
  moreover have "(ch_id ch, ch_type ch, g) \<in> set (chat_keys db)" using found [OF assms(2)] by (auto simp: chat_keys_def)
  ultimately have "DC_CHAT_ID_LAST_SPECIAL < ch_id ch \<and> length g \<noteq> 16" using assms(1) unfolding keys_ok_def by blast
  then show False using assms(3) by simp
qed

lemma adhoc_plain:
  assumes ok: "keys_ok (chat_keys (sj_db c))" and sha: "\<And>s. length (rv_sha256 env s) \<ge> 8"
    and call: "adhoc_instead env p b i ids c = (cid, bl, c')"
  shows "plain_key (chat_keys (sj_db c')) cid"
proof -
  let ?db = "sj_db c"
  define ms where "ms = add_id DC_CONTACT_ID_SELF (add_id i ids)"
  obtain bl' db' where r: "create_or_lookup_adhoc_group env p b i ids ?db = (cid, bl', db')" "sj_db c' = db'"
    using call by (auto simp: adhoc_instead_def Let_def split: prod.splits)
  define few where "few = (ids = [] \<or> dc_mimeparser_is_mailinglist_message p \<or> length ms < 3)"
  define name where "name = (case mp_subject p of Some (ch # s) \<Rightarrow> ch # s | _ \<Rightarrow> rv_stock env DC_STR_MEMBER [show_nat (length ms)])"
  define g where "g = create_adhoc_grp_id (rv_sha256 env) ?db ms"
  obtain cid1 db1 where new: "create_group_record g name b False ?db = (cid1, db1)" by fastforce
  note r1 = r(1) [unfolded create_or_lookup_adhoc_group_def Let_def, folded ms_def, folded few_def name_def g_def, unfolded new prod.case]
  consider "few" | ch where "\<not> few" "most_recent_chat ?db (search_chat_ids_by_contact_ids ?db ms) = Some ch"
    | "\<not> few" "most_recent_chat ?db (search_chat_ids_by_contact_ids ?db ms) = None" by fastforce
  then show ?thesis
  proof cases
    case 1
    then show ?thesis using plain_special [OF ok, of 0] r(2) r1 by simp
  next
    case (2 ch)
    then have c: "cid = ch_id ch" "db' = ?db" using r1 by simp_all
    have "ch \<in> set (db_chats ?db)" "cid = 0 \<or> is_group ?db cid"
      using recent_chat [OF 2(2)] searched_ids c(1) by auto
    then show ?thesis
    proof (elim disjE)
      assume "is_group ?db cid"
      then obtain x where "x \<in> set (db_chats ?db)" "ch_id x = cid" "ch_type x = DC_CHAT_TYPE_GROUP"
        by (auto simp: is_group_def list_ex_iff)
      then have "(cid, DC_CHAT_TYPE_GROUP, ch_grpid x) \<in> set (chat_keys ?db)" by (force simp: chat_keys_def)
      from plainI [OF ok this] show ?thesis using c(2) r(2) by simp
    qed (use plain_special [OF ok, of 0] c(2) r(2) in simp)
  next
    case 3
    then have c: "cid = cid1" "chat_keys db' = chat_keys db1" using r1 by (auto simp: keys_add_members)
    have len: "length g = 16" unfolding g_def using sha by (rule adhoc_id_length)
    have type: "find (\<lambda>ch. ch_grpid ch = g) (db_chats ?db) = Some ch \<Longrightarrow> ch_type ch \<noteq> DC_CHAT_TYPE_VERIFIED_GROUP" for ch
      using grpid_type [OF ok] len by blast
    show ?thesis
      using type new c r(2) insert_plain [OF ok, of DC_CHAT_TYPE_GROUP g name 0 "[]" b "[]"]
      by (auto simp: create_group_record_def Let_def)
  qed
qed

lemma known_group_plain:
  assumes ok: "keys_ok (chat_keys (sj_db c))" and bad: "\<not> fst (check_verified_properties env (mp_e2ee_helper p) i ids c)"
    and call: "known_group env p i ids g c = ((cid, bl, gr, n), c1)"
  shows "plain_key (chat_keys (sj_db c)) cid" "sj_db c1 = sj_db c"
    "gr \<noteq> None \<Longrightarrow> gr = Some g \<and> c1 = c \<and>
       (cid = 0 \<longrightarrow> (\<forall>ch. find (\<lambda>ch. ch_grpid ch = g) (db_chats (sj_db c)) = Some ch \<longrightarrow> ch_type ch \<noteq> DC_CHAT_TYPE_VERIFIED_GROUP))"
proof -
  show db: "sj_db c1 = sj_db c" using known_group_db [of env p i ids g c] call by simp
  obtain x bx v where l: "dc_get_chat_id_by_grpid (sj_db c) (Some g) = (x, bx, v)" by (metis surj_pair)
  have call': "(cid = x \<and> gr = Some g \<and> c1 = c \<and> \<not> (x \<noteq> 0 \<and> v)) \<or> (cid = 0 \<and> gr = None)"
  proof (cases "x \<noteq> 0 \<and> v")
    case True
    then show ?thesis using call bad unfolding known_group_def Let_def l prod.case by (simp split: prod.splits)
  next
    case False
    then show ?thesis using call unfolding known_group_def Let_def l prod.case by auto
  qed
  have type: "ch_type ch \<noteq> DC_CHAT_TYPE_VERIFIED_GROUP \<and> x = ch_id ch"
    if "find (\<lambda>ch. ch_grpid ch = g) (db_chats (sj_db c)) = Some ch" "\<not> (x \<noteq> 0 \<and> v)" for ch
    using l that grpid_type [OF ok that(1)] by (auto simp: dc_get_chat_id_by_grpid_def)
  show "gr \<noteq> None \<Longrightarrow> gr = Some g \<and> c1 = c \<and>
       (cid = 0 \<longrightarrow> (\<forall>ch. find (\<lambda>ch. ch_grpid ch = g) (db_chats (sj_db c)) = Some ch \<longrightarrow> ch_type ch \<noteq> DC_CHAT_TYPE_VERIFIED_GROUP))"
    using call' type by blast
  show "plain_key (chat_keys (sj_db c)) cid"
  proof (cases "cid = 0")
    case True
    then show ?thesis using plain_special [OF ok] by simp
  next
    case False
    then have x: "x \<noteq> 0" "cid = x" "\<not> (x \<noteq> 0 \<and> v)" using call' by auto
    then obtain ch where ch: "find (\<lambda>ch. ch_grpid ch = g) (db_chats (sj_db c)) = Some ch"
      using l by (cases "find (\<lambda>ch. ch_grpid ch = g) (db_chats (sj_db c))") (auto simp: dc_get_chat_id_by_grpid_def)
    then have "(cid, ch_type ch, g) \<in> set (chat_keys (sj_db c))" "ch_type ch \<noteq> DC_CHAT_TYPE_VERIFIED_GROUP"
      using found [OF ch] type [OF ch x(3)] x(2) by (auto simp: chat_keys_def)
    then show ?thesis by (rule plainI [OF ok])
  qed
qed

lemma create_group_plain:
  assumes ok: "keys_ok (chat_keys (sj_db c))" and bad: "\<not> fst (check_verified_properties env (mp_e2ee_helper p) i ids c)"
    and type: "\<And>ch. find (\<lambda>ch. ch_grpid ch = g) (db_chats (sj_db c)) = Some ch \<Longrightarrow> ch_type ch \<noteq> DC_CHAT_TYPE_VERIFIED_GROUP"
    and call: "create_group env p b i ids g n c = (cid, c1)"
  shows "plain_key (chat_keys (sj_db c1)) cid" "keys_ok (chat_keys (sj_db c1))"
proof -
  obtain v c2 where v: "(if dc_mimeparser_lookup_field p ''Chat-Verified'' \<noteq> None
      then check_verified_properties env (mp_e2ee_helper p) i ids c else (False, c)) = (v, c2)" by fastforce
  have "sj_db c2 = sj_db c" "\<not> v"
    using v bad by (auto simp: check_verified_properties_def Let_def split: if_splits prod.splits)
  then have r: "cid = chat_rowid (insert_chat DC_CHAT_TYPE_GROUP n 0 [] b g [] (sj_db c)) g"
      "sj_db c1 = insert_chat DC_CHAT_TYPE_GROUP n 0 [] b g [] (sj_db c)"
    using call unfolding create_group_def v create_group_record_def Let_def prod.case by auto
  show "plain_key (chat_keys (sj_db c1)) cid" unfolding r using insert_plain [OF ok _ type] by simp
  show "keys_ok (chat_keys (sj_db c1))" unfolding r using insert_ok_keys [OF ok] by simp
qed


lemma group_found_plain:
  assumes ok: "keys_ok (chat_keys (sj_db c))" "plain_key (chat_keys (sj_db c)) cid" and sha: "\<And>s. length (rv_sha256 env s) \<ge> 8"
    and call: "group_found env p b i ids n cr cid bl c = (cid', bl', c')"
  shows "plain_key (chat_keys (sj_db c')) cid'"
proof -
  define c1 where "c1 = with_db (execute_commands env p n cr cid i ids) c"
  have k: "chat_keys (sj_db c1) = chat_keys (sj_db c)" by (simp add: c1_def with_db_def keys_execute)
  show ?thesis
  proof (cases "length ids = 1 \<and> \<not> mp_is_send_by_messenger p \<and> dc_get_chat_contact_cnt (sj_db c1) cid > 3")
    case True
    then have "adhoc_instead env p b i ids c1 = (cid', bl', c')" using call by (simp add: group_found_def c1_def Let_def)
    then show ?thesis by (rule adhoc_plain [rotated 2]) (simp_all add: ok k sha)
  next
    case False
    then have "cid' = cid" "c' = c1" using call by (auto simp: group_found_def c1_def Let_def split: if_splits)
    then show ?thesis using ok(2) k by simp
  qed
qed

lemma group_plain:
  assumes ok: "keys_ok (chat_keys (sj_db c))" and bad: "\<not> fst (check_verified_properties env (mp_e2ee_helper p) i ids c)"
    and sha: "\<And>s. length (rv_sha256 env s) \<ge> 8"
    and call: "create_or_lookup_group env p b i ids c = ((cid, bl, c'), q)"
  shows "plain_key (chat_keys (sj_db c')) cid"
proof (cases "group_id_of p")
  case None
  then have "adhoc_instead env p b i ids c = (cid, bl, c')" using call by (auto simp: create_or_lookup_group_def)
  with ok sha show ?thesis by (rule adhoc_plain)
next
  case (Some g)
  obtain cid0 bl0 gr n c1 where kg: "known_group env p i ids g c = ((cid0, bl0, gr, n), c1)" by (metis surj_pair)
  note kp = known_group_plain [OF ok bad kg]
  define p1 where "p1 = p\<lparr>mp_is_system_message := command_code (group_command p) (mp_is_system_message p)\<rparr>"
  have e: "mp_e2ee_helper p1 = mp_e2ee_helper p" by (simp add: p1_def)
  have ok1: "keys_ok (chat_keys (sj_db c1))" "plain_key (chat_keys (sj_db c1)) cid0" using ok kp(1,2) by simp_all
  define out where "out = (cid0 \<noteq> 0 \<and> \<not> dc_is_contact_in_chat (sj_db c1) cid0 i)"
  define created where "created = (cid0 = 0 \<and> may_create_group p1 gr n (sj_db c1))"
  define left where "left = left_group (sj_db c1) gr"
  obtain cid2 c2 where cg: "create_group env p1 b i ids (dc_strdup gr) (dc_strdup n) c1 = (cid2, c2)" by fastforce
  define cid3 where "cid3 = (if created then cid2 else cid0)"
  define bl3 where "bl3 = (if created then b else bl0)"
  define c3 where "c3 = (if created then c2 else c1)"
  have three: "(if created then (cid2, b, c2) else (cid0, bl0, c1)) = (cid3, bl3, c3)" by (simp add: cid3_def bl3_def c3_def)
  have ok3: "keys_ok (chat_keys (sj_db c3)) \<and> plain_key (chat_keys (sj_db c3)) cid3"
  proof (cases created)
    case True
    then have gr: "gr \<noteq> None" "cid0 = 0" by (auto simp: created_def may_create_group_def)
    have k3: "gr = Some g" "c1 = c"
      "\<And>ch. find (\<lambda>ch. ch_grpid ch = g) (db_chats (sj_db c)) = Some ch \<Longrightarrow> ch_type ch \<noteq> DC_CHAT_TYPE_VERIFIED_GROUP"
      using kp(3) [OF gr(1)] gr(2) by blast+
    have "create_group env p1 b i ids g (dc_strdup n) c = (cid2, c2)" using cg k3 by (simp add: dc_strdup_def)
    from create_group_plain [OF ok _ k3(3) this] bad e True show ?thesis by (simp add: cid3_def c3_def)
  qed (use ok1 in \<open>simp add: cid3_def c3_def\<close>)
  note call' = call [unfolded create_or_lookup_group_def Some option.case kg Let_def prod.case, folded p1_def,
      folded out_def created_def left_def, unfolded cg prod.case, unfolded three prod.case]
  consider "out" | "\<not> out" "cid3 \<le> DC_CHAT_ID_LAST_SPECIAL" "left" | "\<not> out" "cid3 \<le> DC_CHAT_ID_LAST_SPECIAL" "\<not> left"
    | "\<not> out" "\<not> cid3 \<le> DC_CHAT_ID_LAST_SPECIAL" by blast
  then show ?thesis
  proof cases
    case 1
    then have "adhoc_instead env p1 b i ids c1 = (cid, bl, c')" using call' by auto
    with ok1(1) sha show ?thesis by (rule adhoc_plain)
  next
    case 2
    then have "cid = DC_CHAT_ID_TRASH" "c' = c3" using call' by auto
    then show ?thesis using plain_special [of _ DC_CHAT_ID_TRASH] ok3 by simp
  next
    case 3
    then have "adhoc_instead env p1 b i ids c3 = (cid, bl, c')" using call' by auto
    with conjunct1 [OF ok3] sha show ?thesis by (rule adhoc_plain)
  next
    case 4
    then have "group_found env p1 b i ids n created cid3 bl3 c3 = (cid, bl, c')" using call' by auto
    with conjunct1 [OF ok3] conjunct2 [OF ok3] sha show ?thesis by (rule group_found_plain)
  qed
qed




text \<open>The group 20, of which Ada with her verified key is a member, and a mail of her to it.\<close>

definition verified_ctx :: sj_ctx where
  "verified_ctx = ada_invites
     \<lparr>sj_db := (sj_db ada_invites)\<lparr>db_chats_contacts := [(20, 1), (20, 10)]\<rparr>,
      sj_peers := [(new_row ''ada@x.org'')\<lparr>pr_verified_key := Some [1], pr_verified_key_fingerprint := Some ''AB''\<rparr>]\<rparr>"

definition ada_group_mail :: dc_mimeparser_t where
  "ada_group_mail = dc_mimeparser_new
     \<lparr>mp_header := [(''Chat-Group-ID'', Field_Optional ''Chat-Group-ID'' ''grp-1'')],
      mp_parts := [dc_mimepart_new\<lparr>pt_type := DC_MSG_TEXT, pt_msg := Some ''hi''\<rparr>],
      mp_e2ee_helper := \<lparr>eh_encrypted = True, eh_signatures = [''AB''], eh_gossipped_addr = []\<rparr>\<rparr>"


section \<open>Chats that are open\<close>

definition opened_chats :: "database \<Rightarrow> nat list" where
  "opened_chats db = map ch_id (filter (\<lambda>ch. ch_blocked ch = 0) (db_chats db))"

text \<open>What the contacts of a mail leave of the chats.\<close>

definition chat_view :: "database \<Rightarrow> (nat \<times> int \<times> string \<times> int) list \<times> (nat \<times> nat) list" where
  "chat_view db = (map (\<lambda>ch. (ch_id ch, ch_type ch, ch_grpid ch, ch_blocked ch)) (db_chats db), db_chats_contacts db)"

lemma opened_view: "opened_chats db = map fst (filter (\<lambda>x. snd (snd (snd x)) = 0) (fst (chat_view db)))"
  by (simp add: opened_chats_def chat_view_def filter_map comp_def)

lemma lookup_view:
  "dc_lookup_real_nchat_by_contact_id db i =
     (case find (\<lambda>x. fst (snd x) = DC_CHAT_TYPE_SINGLE \<and> fst x > DC_CHAT_ID_LAST_SPECIAL \<and> (fst x, i) \<in> set (snd (chat_view db)))
        (fst (chat_view db)) of None \<Rightarrow> (0, 0) | Some x \<Rightarrow> (fst x, snd (snd (snd x))))"
proof -
  have "(case find (\<lambda>ch. ch_type ch = DC_CHAT_TYPE_SINGLE \<and> ch_id ch > DC_CHAT_ID_LAST_SPECIAL \<and> (ch_id ch, i) \<in> M) T of
        None \<Rightarrow> (0, 0) | Some ch \<Rightarrow> (ch_id ch, ch_blocked ch)) =
      (case find (\<lambda>x. fst (snd x) = DC_CHAT_TYPE_SINGLE \<and> fst x > DC_CHAT_ID_LAST_SPECIAL \<and> (fst x, i) \<in> M)
        (map (\<lambda>ch. (ch_id ch, ch_type ch, ch_grpid ch, ch_blocked ch)) T) of
        None \<Rightarrow> (0, 0) | Some x \<Rightarrow> (fst x, snd (snd (snd x))))" for M T
    by (induction T) auto
  then show ?thesis unfolding dc_lookup_real_nchat_by_contact_id_def chat_view_def fst_conv snd_conv .
qed

lemma view_single: 
  assumes "\<And>ch. ch_id (f ch) = ch_id ch \<and> ch_type (f ch) = ch_type ch \<and> ch_grpid (f ch) = ch_grpid ch \<and> ch_blocked (f ch) = ch_blocked ch"
  shows "chat_view (update_single_chats i f db) = chat_view db"
  using assms by (simp add: chat_view_def update_single_chats_def)

lemma view_contacts: "chat_view (snd (snd (dc_add_or_lookup_contact db name addr og))) = chat_view db"
proof -
  have "chat_view (insert_contact db n a og) = chat_view db" for n a by (simp add: insert_contact_def chat_view_def)
  moreover have "chat_view (db\<lparr>db_contacts := T\<rparr>) = chat_view db" for T by (simp add: chat_view_def)
  ultimately show ?thesis
    by (simp add: dc_add_or_lookup_contact_def modify_contact_def Let_def view_single split: option.split)
qed

lemma addr_step_view: "chat_view (fst (add_or_lookup_contact_by_addr env og acc mb)) = chat_view (fst acc)"
  by (simp add: add_or_lookup_contact_by_addr_def Let_def split_def view_contacts split: option.split)

lemma addr_list_view: "chat_view (fst (foldl (add_or_lookup_contact_by_addr env og) acc l)) = chat_view (fst acc)"
  by (induction l arbitrary: acc) (simp_all add: addr_step_view)

lemma read_sender_view: "chat_view (snd (read_sender env p db)) = chat_view db"
  by (simp add: read_sender_def dc_add_or_lookup_contacts_by_mailbox_list_def Let_def split_def addr_list_view
      split: option.split mailimf_field.split list.split)

lemma read_others_view:
  "chat_view (snd (read_to env p vd)) = chat_view (snd vd)" "chat_view (snd (read_cc env p vd)) = chat_view (snd vd)"
  by (simp_all add: read_to_def read_cc_def dc_add_or_lookup_contacts_by_address_list_def Let_def split_def addr_list_view
      split: option.split mailimf_field.split)

lemma read_others_vars:
  "rx_incoming (fst (read_to env p vd)) = rx_incoming (fst vd)" "rx_from_id (fst (read_to env p vd)) = rx_from_id (fst vd)"
  "rx_origin (fst (read_to env p vd)) = rx_origin (fst vd)"
  "rx_incoming (fst (read_cc env p vd)) = rx_incoming (fst vd)" "rx_from_id (fst (read_cc env p vd)) = rx_from_id (fst vd)"
  "rx_origin (fst (read_cc env p vd)) = rx_origin (fst vd)"
  by (simp_all add: read_to_def read_cc_def Let_def split_def split: option.split mailimf_field.split)

lemma opened_update:
  assumes "\<And>ch. ch_id (f ch) = ch_id ch \<and> ch_blocked (f ch) = ch_blocked ch"
  shows "opened_chats (update_chat cid f db) = opened_chats db"
proof -
  have "map ch_id (filter (\<lambda>ch. ch_blocked ch = 0) (map (\<lambda>ch. if ch_id ch = cid then f ch else ch) T)) =
      map ch_id (filter (\<lambda>ch. ch_blocked ch = 0) T)" for T
    using assms by (induction T) auto
  then show ?thesis by (simp add: opened_chats_def update_chat_def)
qed

lemma opened_simps [simp]:
  "opened_chats (cb db e i j) = opened_chats db" "opened_chats (dc_add_to_chat_contacts_table db cid i) = opened_chats db"
  "opened_chats (dc_unarchive_chat db cid) = opened_chats db" "opened_chats (dc_scaleup_contact_origin db i og) = opened_chats db"
  "opened_chats (db\<lparr>db_chats_contacts := cc\<rparr>) = opened_chats db" "opened_chats (db\<lparr>db_msgs := ms\<rparr>) = opened_chats db"
  "opened_chats (db\<lparr>db_mdns := mm\<rparr>) = opened_chats db" "opened_chats (dc_chat_update_param db chat) = opened_chats db"
  "opened_chats (dc_update_msg_state db i st) = opened_chats db"
  "opened_chats (dc_update_server_uid db mid folder uid) = opened_chats db"
  by (simp_all add: dc_unarchive_chat_def dc_chat_update_param_def opened_update dc_add_to_chat_contacts_table_def
      dc_scaleup_contact_origin_def dc_update_msg_state_def update_msg_def dc_update_server_uid_def cb_def)
    (simp_all add: opened_chats_def)

lemma opened_insert: "b \<noteq> 0 \<Longrightarrow> opened_chats (insert_chat t n dt dx b g p db) = opened_chats db"
  by (simp add: opened_chats_def insert_chat_def)

lemma opened_adhoc: "b \<noteq> 0 \<Longrightarrow> opened_chats (sj_db (snd (snd (adhoc_instead env p b i ids c)))) = opened_chats (sj_db c)"
proof -
  have "opened_chats (foldl (\<lambda>db i. dc_add_to_chat_contacts_table db cid i) db l) = opened_chats db" for cid l db
    by (induction l arbitrary: db) simp_all
  then show "b \<noteq> 0 \<Longrightarrow> ?thesis"
    by (simp add: adhoc_instead_def create_or_lookup_adhoc_group_def create_group_record_def Let_def split_def opened_insert
        split: option.split)
qed

lemma opened_execute: "opened_chats (execute_commands env p n cr cid i ids db) = opened_chats db"
proof -
  have add: "opened_chats (add_member s a k cid db i) = opened_chats db" for s a k db i by (simp add: add_member_def)
  have "opened_chats (foldl (add_member s a k cid) db l) = opened_chats db" for s a k l db
    by (induction l arbitrary: db) (simp_all add: add)
  then have re: "opened_chats (recreate_members s k cid i ids db) = opened_chats db" for s k db
    by (simp add: recreate_members_def add Let_def)
  have im: "opened_chats (set_group_image st cid g db) = opened_chats db" for st g db
    by (simp add: set_group_image_def Let_def)
  have nm: "opened_chats (update_chat cid (\<lambda>ch. ch\<lparr>ch_name := x\<rparr>) db) = opened_chats db" for x db by (simp add: opened_update)
  show ?thesis by (simp add: execute_commands_def Let_def re im nm split: group_cmd.split option.split)
qed

lemma opened_create: "b \<noteq> 0 \<Longrightarrow> opened_chats (sj_db (snd (create_group env p b i ids g n c))) = opened_chats (sj_db c)"
  by (simp add: create_group_def create_group_record_def check_verified_properties_def Let_def split_def opened_insert)

lemma opened_group:
  assumes "b \<noteq> 0"
  shows "opened_chats (sj_db (snd (snd (fst (create_or_lookup_group env p b i ids c))))) = opened_chats (sj_db c)"
proof -
  have "opened_chats (sj_db (snd (snd (group_found env q b i ids n cr cid bl c)))) = opened_chats (sj_db c)" for q n cr cid bl c
    using assms by (simp add: group_found_def with_db_def opened_adhoc opened_execute Let_def)
  then show ?thesis
    using assms by (simp add: create_or_lookup_group_def Let_def split_def opened_adhoc known_group_db opened_create split: option.split)
qed

lemma opened_nchat: "b \<noteq> 0 \<Longrightarrow> opened_chats (snd (snd (dc_create_or_lookup_nchat_by_contact_id stock db i b))) = opened_chats db"
  by (simp add: dc_create_or_lookup_nchat_by_contact_id_def Let_def opened_insert split: prod.split)


text \<open>The sender has no open chat with the user, and is not one whose mails open chats.\<close>

definition stranger :: "database \<Rightarrow> nat \<Rightarrow> int \<Rightarrow> bool" where
  "stranger db from_id origin \<longleftrightarrow> from_id \<noteq> DC_CONTACT_ID_SELF \<and> origin < DC_ORIGIN_MIN_START_NEW_NCHAT \<and>
     dc_get_chat_id_by_contact_id db from_id = 0"

lemma opened_incoming_group:
  assumes "fst normal \<noteq> 0 \<longrightarrow> snd normal \<noteq> 0" "rd_origin d < DC_ORIGIN_MIN_START_NEW_NCHAT"
  shows "opened_chats (sj_db (snd (fst (incoming_group env p normal ids d c)))) = opened_chats (sj_db c)"
    "rd_origin (fst (fst (incoming_group env p normal ids d c))) = rd_origin d"
    "rd_from_id (fst (fst (incoming_group env p normal ids d c))) = rd_from_id d"
    "rd_to_id (fst (fst (incoming_group env p normal ids d c))) = rd_to_id d"
proof -
  have b: "(if fst normal \<noteq> 0 \<and> snd normal = DC_CHAT_NOT_BLOCKED \<or> rd_origin d \<ge> DC_ORIGIN_MIN_START_NEW_NCHAT
      then DC_CHAT_NOT_BLOCKED else DC_CHAT_DEADDROP_BLOCKED) = DC_CHAT_DEADDROP_BLOCKED" using assms by auto
  show "opened_chats (sj_db (snd (fst (incoming_group env p normal ids d c)))) = opened_chats (sj_db c)"
    unfolding incoming_group_def b by (simp add: Let_def split_def opened_group)
qed (simp_all add: incoming_group_def Let_def split_def)

lemma opened_incoming_single:
  assumes "rd_origin d < DC_ORIGIN_MIN_START_NEW_NCHAT" "rd_from_id d \<noteq> rd_to_id d"
  shows "opened_chats (sj_db (snd (incoming_single env p normal d c))) = opened_chats (sj_db c)"
proof -
  have b: "(if rd_origin d \<ge> DC_ORIGIN_MIN_START_NEW_NCHAT \<or> rd_from_id d = rd_to_id d
      then DC_CHAT_NOT_BLOCKED else DC_CHAT_DEADDROP_BLOCKED) = DC_CHAT_DEADDROP_BLOCKED" using assms by auto
  show ?thesis unfolding incoming_single_def Let_def b by (simp add: split_def opened_nchat with_db_def)
qed

lemma opened_incoming:
  assumes "stranger (sj_db c) (rx_from_id vars) (rx_origin vars)" "dc_mimeparser_lookup_field p ''Secure-Join'' = None"
  shows "opened_chats (sj_db (snd (fst (incoming_chat env p vars seen c)))) = opened_chats (sj_db c)"
proof -
  define d where "d = \<lparr>rd_chat_id = 0, rd_chat_blocked = 0, rd_from_id = rx_from_id vars, rd_to_id = DC_CONTACT_ID_SELF,
               rd_state = (if seen then DC_STATE_IN_SEEN else DC_STATE_IN_FRESH), rd_origin = rx_origin vars,
               rd_hidden = False, rd_delete_job = False\<rparr>"
  define normal where "normal = dc_lookup_real_nchat_by_contact_id (sj_db c) (rx_from_id vars)"
  have h: "handle_handshake env p i d c = (d, c)" for i d by (simp add: handle_handshake_def assms(2))
  have n: "fst normal \<noteq> 0 \<longrightarrow> snd normal \<noteq> 0"
    using assms(1) by (auto simp: stranger_def dc_get_chat_id_by_contact_id_def normal_def split: prod.splits if_splits)
  have d: "rd_origin d < DC_ORIGIN_MIN_START_NEW_NCHAT" "rd_from_id d \<noteq> rd_to_id d"
    using assms(1) by (simp_all add: d_def stranger_def)
  obtain d1 c1 p1 where g: "incoming_group env p normal (rx_to_ids vars) d c = ((d1, c1), p1)" by (metis surj_pair)
  have g1: "opened_chats (sj_db c1) = opened_chats (sj_db c)" "rd_origin d1 = rd_origin d" "rd_from_id d1 = rd_from_id d"
      "rd_to_id d1 = rd_to_id d"
    using opened_incoming_group [OF n d(1), of env p "rx_to_ids vars" c] by (simp_all add: g)
  define d2 where "d2 = (if rd_chat_id d1 = 0 \<and> dc_mimeparser_is_mailinglist_message p1 then d1\<lparr>rd_chat_id := DC_CHAT_ID_TRASH\<rparr> else d1)"
  have d2: "rd_origin d2 < DC_ORIGIN_MIN_START_NEW_NCHAT" "rd_from_id d2 \<noteq> rd_to_id d2" using g1 d by (simp_all add: d2_def)
  show ?thesis
    unfolding incoming_chat_def Let_def d_def [symmetric] h prod.case normal_def [symmetric] g d2_def [symmetric]
    using opened_incoming_single [OF d2, of env p1 normal c1] g1(1) by (simp add: split_def)
qed

lemma opened_insert_parts: "opened_chats (insert_parts p place mid d stamps g db) = opened_chats db"
proof -
  have "opened_chats (foldl (insert_part row) db pts) = opened_chats db" for row pts
    by (induction pts arbitrary: db) (simp_all add: insert_part_def)
  then show ?thesis by (simp add: insert_parts_def)
qed

lemma opened_receipt: "opened_chats (snd (snd (snd (dc_mdn_from_ext db from_id mid t)))) = opened_chats db"
  unfolding dc_mdn_from_ext_def Let_def by (simp split: option.split)

lemma opened_finish: "opened_chats (rc_db (finish_mail env place r)) = opened_chats (rc_db (rr_st r))"
proof -
  have ev: "opened_chats (foldl (\<lambda>db (e, x, y). cb db e x y) db es) = opened_chats db" for db es
    by (induction es arbitrary: db) (auto simp: split_def)
  have "opened_chats (rc_db (fst (handle_report env place e b i t acc x))) = opened_chats (rc_db (fst acc))" for e b i t acc x
    by (simp add: handle_report_def Let_def on_db_def with_db_def split_def opened_receipt)
  then have "opened_chats (rc_db (fst (foldl (handle_report env place e b i t) acc rs))) = opened_chats (rc_db (fst acc))"
    for e b i t acc rs by (induction rs arbitrary: acc) simp_all
  then have "opened_chats (rc_db (rr_st (handle_reports env place r))) = opened_chats (rc_db (rr_st r))"
    by (simp add: handle_reports_def Let_def split_def)
  then show ?thesis by (simp add: finish_mail_def Let_def on_db_def with_db_def ev)
qed

lemma opened_add_parts:
  assumes "stranger (rc_db st) (rx_from_id vars) (rx_origin vars)" "rx_incoming vars"
    "dc_mimeparser_lookup_field p ''Secure-Join'' = None"
  shows "opened_chats (rc_db (rr_st (add_parts env place p vars mid t st))) = opened_chats (rc_db st)"
  using opened_incoming [OF assms(1,3), of env "pl_seen place"] assms(2)
  by (simp add: add_parts_def Let_def split_def opened_insert_parts)

text \<open>
  C7: Strangers open no chats: a mail whose sender has no open chat with the user, and that is not a handshake, neither makes
  nor unblocks a chat that the user sees: the chats that are not blocked are the same before and after.
\<close>

theorem strangers_open_no_chats:
  assumes sender: "read_sender env p (rc_db st) = (vars, db)" "rx_incoming vars"
    and stranger: "stranger (rc_db st) (rx_from_id vars) (rx_origin vars)"
    and no_handshake: "dc_mimeparser_lookup_field p ''Secure-Join'' = None"
  shows "map ch_id (filter (\<lambda>ch. ch_blocked ch = 0) (db_chats (rc_db (receive_parsed env place p st)))) =
    map ch_id (filter (\<lambda>ch. ch_blocked ch = 0) (db_chats (rc_db st)))"
proof -
  obtain v1 db1 where r1: "read_to env p (vars, db) = (v1, db1)" by fastforce
  obtain v2 db2 where r2: "read_cc env p (v1, db1) = (v2, db2)" by fastforce
  have view: "chat_view db1 = chat_view (rc_db st)" "chat_view db2 = chat_view (rc_db st)"
    using read_sender_view [of env p "rc_db st"] read_others_view(1) [of env p "(vars, db)"]
      read_others_view(2) [of env p "(v1, db1)"] sender(1) r1 r2 by simp_all
  have v2: "rx_incoming v2" "rx_from_id v2 = rx_from_id vars" "rx_origin v2 = rx_origin vars"
    using read_others_vars [of env p "(vars, db)"] read_others_vars [of env p "(v1, db1)"] sender(2) r1 r2 by simp_all
  have o: "opened_chats db1 = opened_chats (rc_db st)" "opened_chats db2 = opened_chats (rc_db st)"
    using view by (simp_all add: opened_view)
  have s: "stranger (rc_db (on_db (\<lambda>_. db2) st)) (rx_from_id v2) (rx_origin v2)"
    using stranger view(2) v2 by (simp add: stranger_def dc_get_chat_id_by_contact_id_def lookup_view on_db_def with_db_def)
  have "opened_chats (rc_db (receive_parsed env place p st)) = opened_chats (rc_db st)"
    using opened_add_parts [OF s v2(1) no_handshake, of env place] o
    by (simp add: receive_parsed_def sender(1) r1 r2 opened_finish known_mail_def on_db_def with_db_def Let_def split_def
        split: option.split)
  then show ?thesis by (simp add: opened_chats_def)
qed

theorem strangers_open_no_chats_witness:
  "filter (\<lambda>ch. ch_blocked ch = 0) (db_chats (rc_db (receive_parsed sample_recv_env inbox (eve_mail (Some ''a@b'')) sample_recv))) \<noteq> []"
proof -
  obtain vars db where r: "read_sender sample_recv_env (eve_mail (Some ''a@b'')) (rc_db sample_recv) = (vars, db)" by fastforce
  have "case read_sender sample_recv_env (eve_mail (Some ''a@b'')) (rc_db sample_recv) of (vars, db) \<Rightarrow>
      rx_incoming vars \<and> stranger (rc_db sample_recv) (rx_from_id vars) (rx_origin vars)" by code_simp
  then have v: "rx_incoming vars" "stranger (rc_db sample_recv) (rx_from_id vars) (rx_origin vars)" by (simp_all add: r)
  have "dc_mimeparser_lookup_field (eve_mail (Some ''a@b'')) ''Secure-Join'' = None" by code_simp
  from strangers_open_no_chats [OF r v this, of inbox]
  have "map ch_id (filter (\<lambda>ch. ch_blocked ch = 0)
      (db_chats (rc_db (receive_parsed sample_recv_env inbox (eve_mail (Some ''a@b'')) sample_recv)))) = [20]"
    by (simp add: sample_recv_def ada_writes_def ada_invites_def)
  then show ?thesis by auto
qed

end
