(* ===== verification/Spec2Isabelle.thy ===== *)
theory Spec2Isabelle
  imports Arrays Tools Strbuilder Param Strencode Address Base64 Keys Aheader Peerstate Database Contacts Chats Jobs Qr Securejoin
    Simplify Hash Msgs Sending Uudecode Mime E2ee Receive
begin

text \<open>
  A verification library for the Delta Chat core (the C files of \<open>src/src\<close>), a messenger library on top of e-mail.

  \<^bold>\<open>The program.\<close>  A front end calls the functions of \<open>deltachat.h\<close> on a \<open>dc_context_t\<close>.  The state that lasts is a
  SQLite database (messages, chats, contacts, peer states, key pairs, tokens, jobs, configuration) and a folder of
  blobs.  Two threads, one for IMAP and one for SMTP, take jobs from the table \<open>jobs\<close>; a mail that arrives is parsed,
  decrypted, made simpler and put into the tables, and a mail of the secure-join handshake goes to its state machine.
  Events are reported to the front end by a callback.

  \<^bold>\<open>The model.\<close>  Pure C functions are HOL functions on strings (character lists without the null byte; \<open>cptr\<close> is a
  \<open>char*\<close> that may be \<open>NULL\<close>, its \<open>None\<close>), on \<open>int\<close> with the conversions written out, and on words where the width
  matters.  A function that edits its argument in place returns the edited text; a read or write out of bounds is \<open>None\<close>.
  A table is the list of its rows in the order of their rowids, an SQL statement the list operation that it stands for.
  Handlers take the state as a record and return it changed; events, mails handed to SMTP and the like are lists in the
  state.  Code that is not in the repository's own files, such as OpenPGP and the decoders of libetpan, or the answers of
  a server, is an argument of the definitions that use it.

  \<^bold>\<open>Theories and sources.\<close>

    \<^item> \<open>Prelude\<close>: C strings, characters, searching and the conversions between numbers and text.
    \<^item> \<open>Interfaces\<close>: the contracts between the components as locales (\<open>growable\<close>, \<open>kv_store\<close>, \<open>codec\<close>, \<open>machine\<close>,
      \<open>ranked_machine\<close>), interpreted in the theories of the components that keep them.
    \<^item> \<open>Arrays\<close>, \<open>Strbuilder\<close>, \<open>Param\<close>: \<open>dc_array.c\<close>, \<open>dc_strbuilder.c\<close>, \<open>dc_param.c\<close>.  A packed parameter text is refined
      to an association list.
    \<^item> \<open>Tools\<close>, \<open>Strencode\<close>, \<open>Base64\<close>, \<open>Address\<close>: \<open>dc_tools.c\<close>, \<open>dc_strencode.c\<close>, base64 of libetpan, the addresses and names of
      \<open>dc_contact.c\<close>.  Encoders have their round trips, loops that write into a buffer their bounds.
    \<^item> \<open>Keys\<close>, \<open>Aheader\<close>, \<open>Peerstate\<close>: \<open>dc_key.c\<close>, \<open>dc_keyring.c\<close>, the armor of \<open>dc_pgp.c\<close>, \<open>dc_aheader.c\<close>, \<open>dc_apeerstate.c\<close>.
      Key objects of a peer state lie in a store, as the code shares them between its fields.
    \<^item> \<open>Database\<close>, \<open>Contacts\<close>, \<open>Chats\<close>: the tables of \<open>dc_sqlite3.c\<close>, the rest of \<open>dc_contact.c\<close>, and \<open>dc_chat.c\<close>; the
      public operations are the steps of a machine with the invariants of the tables.
    \<^item> \<open>Msgs\<close>: \<open>dc_msg.c\<close> and the getters of \<open>dc_lot.c\<close>: messages, their states, what marks them seen, delivered, failed or read,
      and the receipts that do so.
    \<^item> \<open>Sending\<close>: the rest of \<open>dc_chat.c\<close>: media, the messages of a chat, what a chat sends and forwards, and when encryption
      is guaranteed.
    \<^item> \<open>Jobs\<close>: \<open>dc_job.c\<close>, the queue and its passes, the handlers for SMTP, and the idle loop as a step relation of the
      interleavings of its thread with the others.
    \<^item> \<open>Qr\<close>, \<open>Securejoin\<close>: \<open>dc_qr.c\<close>, \<open>dc_lot.c\<close>, \<open>dc_token.c\<close>, \<open>dc_securejoin.c\<close> and the ongoing process of \<open>dc_configure.c\<close>.
    \<^item> \<open>Sax\<close>, \<open>Dehtml\<close>, \<open>Simplify\<close>: \<open>dc_saxparser.c\<close>, \<open>dc_dehtml.c\<close>, \<open>dc_simplify.c\<close>, from the body of a mail to the text of a
      message.
    \<^item> \<open>Hash\<close>: \<open>dc_hash.c\<close>, a hash table as buckets over one linked list on a heap, refined to a map.
    \<^item> \<open>Uudecode\<close>, \<open>Mime\<close>: \<open>dc_uudecode.c\<close> and \<open>dc_mimeparser.c\<close>, from the MIME tree of a mail to its parts and its header.  The
      tree is a datatype with the node types of libetpan.
    \<^item> \<open>E2ee\<close>: \<open>dc_e2ee.c\<close>: which parts of a tree are decrypted, what a mail says about the keys of its sender and of others, and
      to whom a mail is encrypted.
    \<^item> \<open>Receive\<close>: \<open>dc_receive_imf.c\<close>: a fetched mail with its contacts, its chat or group, the group commands, its rows, and the
      receipts and handshakes in it; what every step leaves of messages and chats, and from that what is stored, what verified
      groups take, and what strangers can open.

  \<^bold>\<open>Lemmas.\<close>  Each theory holds, behind its definitions, the invariant of its component and one preservation lemma per
  operation, then the facts on results that the properties are put together from.  A property stands behind a block of
  text with its claim number; its witness applies it to a concrete input.

  \<^bold>\<open>Loops and bounds.\<close>  There is no fuel: every loop is a recursion on what is left of the text, the rows or the
  counter, with a measure where it is not structural, so every operation is total.  Where the code can run forever (the idle
  loop of the SMTP thread, the loop of a join that waits) the model has the steps, and what is proved is which states can be
  reached and which are stuck.

  \<^bold>\<open>Not modelled.\<close>  Network protocols and their libraries (\<open>dc_imap.c\<close>, \<open>dc_smtp.c\<close>, libetpan), cryptography (netpgp,
  OpenSSL), SQLite itself, the parsers and decoders of libetpan, building the mail of a message (\<open>dc_mimefactory.c\<close>), the
  handlers of the IMAP jobs, file import and export, autoconfiguration by HTTP, and the texts of the translations.
\<close>

end
